(* ===== verification/Prelude.thy ===== *)
theory Prelude
  imports Complex_Main "HOL-Library.AList" "HOL-Library.Multiset" "HOL-Library.Word" "HOL-Library.Sublist"
begin

text \<open>
  What the components of the development share.
  \<^item> Errors: the exceptions of the Python sources are values of \<open>py_error\<close>, and a fallible
    operation returns \<open>py_error + 'a\<close>.
  \<^item> Numbers: Python integers are \<open>int\<close> (or \<open>nat\<close> where the code only counts), Python
    floats are exact \<open>real\<close>s, so rounding of the last bit is outside the model; \<open>int(x)\<close>
    and \<open>round(x, n)\<close> are \<open>py_int\<close> and \<open>py_round\<close>.
  \<^item> Dictionaries whose iteration order matters are association lists with the update and
    delete of \<open>HOL-Library.AList\<close>: an update in place keeps a key's position and a new key
    goes last, as in Python.
  \<^item> \<open>min(xs, key = f)\<close> is \<open>py_min\<close>: the first element with the least key.
  \<^item> Two interfaces that several components provide: exponential smoothing
    (\<open>ema_filter\<close>) and choice of a least loaded element (\<open>least_pick\<close>).
\<close>

section \<open>Errors and results\<close>

datatype py_error = ValueError | IndexError | KeyError | TypeError | ZeroDivisionError
  | RuntimeError | AttributeError | AssertionError | OSError

type_synonym 'a result = "py_error + 'a"

type_synonym ('k, 'v) dict = "('k \<times> 'v) list"

named_theorems clamp_simps \<open>facts about values clamped by max and min\<close>

section \<open>Numbers\<close>

definition py_int :: "real \<Rightarrow> int" where
  "py_int x = (if 0 \<le> x then \<lfloor>x\<rfloor> else \<lceil>x\<rceil>)"

definition half_even :: "real \<Rightarrow> int" where
  "half_even x =
     (if x - of_int \<lfloor>x\<rfloor> < 1 / 2 then \<lfloor>x\<rfloor>
      else if 1 / 2 < x - of_int \<lfloor>x\<rfloor> then \<lfloor>x\<rfloor> + 1
      else if even \<lfloor>x\<rfloor> then \<lfloor>x\<rfloor> else \<lfloor>x\<rfloor> + 1)"

definition py_round :: "nat \<Rightarrow> real \<Rightarrow> real" where
  "py_round n x = of_int (half_even (x * 10 ^ n)) / 10 ^ n"

lemma py_int_le [clamp_simps]: "0 \<le> x \<Longrightarrow> of_int (py_int x) \<le> x"
  by (simp add: py_int_def)

lemma py_int_nonneg [clamp_simps]: "0 \<le> x \<Longrightarrow> 0 \<le> py_int x"
  by (simp add: py_int_def)

lemma py_int_of_int [simp]: "py_int (of_int k) = k"
  by (simp add: py_int_def)

lemma py_int_numeral [simp]: "py_int (numeral k) = numeral k"
  by (simp add: py_int_def)

lemma py_int_zero [simp]: "py_int 0 = 0"
  by (simp add: py_int_def)

lemma py_int_mono: "0 \<le> x \<Longrightarrow> x \<le> y \<Longrightarrow> py_int x \<le> py_int y"
  by (simp add: py_int_def floor_mono)

lemma half_even_near: "\<bar>of_int (half_even x) - x\<bar> \<le> 1 / 2"
proof -
  have "of_int \<lfloor>x\<rfloor> \<le> x" and "x < of_int \<lfloor>x\<rfloor> + 1"
    by linarith+
  then show ?thesis unfolding half_even_def by (auto simp: abs_if not_less; linarith)
qed

lemma half_even_range: "of_int a \<le> x \<Longrightarrow> x \<le> of_int b \<Longrightarrow> a \<le> half_even x \<and> half_even x \<le> b"
proof -
  assume "of_int a \<le> x" and b: "x \<le> of_int b"
  then have "a \<le> \<lfloor>x\<rfloor>" and fb: "\<lfloor>x\<rfloor> \<le> b" by (simp_all add: le_floor_iff floor_le_iff)
  show ?thesis
  proof (cases "\<lfloor>x\<rfloor> = b")
    case True
    with b have "x - of_int \<lfloor>x\<rfloor> < 1 / 2" by simp
    with \<open>a \<le> \<lfloor>x\<rfloor>\<close> True show ?thesis by (simp add: half_even_def)
  next
    case False
    with \<open>a \<le> \<lfloor>x\<rfloor>\<close> fb show ?thesis by (simp add: half_even_def)
  qed
qed

lemma py_round_range:
  assumes "of_int a \<le> x" and "x \<le> of_int b"
  shows "of_int a \<le> py_round n x" and "py_round n x \<le> of_int b"
proof -
  let ?p = "10 ^ n :: int" and ?h = "half_even (x * 10 ^ n)"
  have "of_int (a * ?p) \<le> x * 10 ^ n" and "x * 10 ^ n \<le> of_int (b * ?p)"
    using assms by (auto intro: mult_right_mono)
  then have "a * ?p \<le> ?h" and "?h \<le> b * ?p"
    using half_even_range by blast+
  then have "real_of_int (a * ?p) \<le> of_int ?h" and "real_of_int ?h \<le> of_int (b * ?p)"
    by (simp_all only: of_int_le_iff)
  then show "of_int a \<le> py_round n x" and "py_round n x \<le> of_int b"
    by (simp_all add: py_round_def pos_le_divide_eq pos_divide_le_eq)
qed

lemma py_round_near: "\<bar>py_round n x - x\<bar> \<le> 1 / (2 * 10 ^ n)"
proof -
  have "\<bar>of_int (half_even (x * 10 ^ n)) - x * 10 ^ n\<bar> / 10 ^ n \<le> (1 / 2) / 10 ^ n"
    by (intro divide_right_mono half_even_near) simp
  moreover have "py_round n x - x = (of_int (half_even (x * 10 ^ n)) - x * 10 ^ n) / 10 ^ n"
    by (simp add: py_round_def diff_divide_distrib)
  ultimately show ?thesis by (simp add: abs_divide)
qed

section \<open>Least elements of a list\<close>

fun least_from :: "('a \<Rightarrow> 'k::linorder) \<Rightarrow> 'a \<Rightarrow> 'a list \<Rightarrow> 'a" where
  "least_from f b [] = b"
| "least_from f b (x # xs) = least_from f (if f x < f b then x else b) xs"

fun py_min :: "('a \<Rightarrow> 'k::linorder) \<Rightarrow> 'a list \<Rightarrow> 'a option" where
  "py_min f [] = None"
| "py_min f (x # xs) = Some (least_from f x xs)"

lemma least_from_in: "least_from f b xs \<in> insert b (set xs)"
  by (induction xs arbitrary: b) (auto split: if_splits)

lemma least_from_start: "f (least_from f b xs) \<le> f b"
proof (induction xs arbitrary: b)
  case Nil
  then show ?case by simp
next
  case (Cons x xs)
  have "f (least_from f (if f x < f b then x else b) xs) \<le> f (if f x < f b then x else b)"
    by (rule Cons.IH)
  also have "\<dots> \<le> f b" by auto
  finally show ?case by simp
qed

lemma least_from_rest: "y \<in> set xs \<Longrightarrow> f (least_from f b xs) \<le> f y"
proof (induction xs arbitrary: b)
  case Nil
  then show ?case by simp
next
  case (Cons x xs)
  have "f (least_from f b (x # xs)) \<le> f (if f x < f b then x else b)"
    by (simp only: least_from.simps least_from_start)
  also have "\<dots> \<le> f x" by auto
  finally have "f (least_from f b (x # xs)) \<le> f x" .
  with Cons show ?case by (cases "y = x") simp_all
qed

lemma py_min_None [simp]: "py_min f xs = None \<longleftrightarrow> xs = []"
  by (cases xs) auto

lemma py_min_in: "py_min f xs = Some x \<Longrightarrow> x \<in> set xs"
  using least_from_in by (cases xs) fastforce+

lemma py_min_le: "py_min f xs = Some x \<Longrightarrow> y \<in> set xs \<Longrightarrow> f x \<le> f y"
  by (cases xs) (auto intro: least_from_start least_from_rest)

text \<open>
  The interface of a selection: a client that asks for the least loaded rail, the least
  recently used entry or the first element of a sorted list relies on these two laws only.
\<close>

locale least_pick =
  fixes pick :: "'a list \<Rightarrow> 'a option" and key :: "'a \<Rightarrow> 'k::linorder"
  assumes pick_total: "xs \<noteq> [] \<Longrightarrow> \<exists>x. pick xs = Some x"
    and pick_sound: "pick xs = Some x \<Longrightarrow> x \<in> set xs \<and> (\<forall>y \<in> set xs. key x \<le> key y)"
begin

lemma pick_empty: "pick [] = None"
  using pick_sound by (cases "pick []") force+

lemma pick_key: "pick xs = Some x \<Longrightarrow> key x = Min (key ` set xs)"
  using pick_sound [of xs x] by (intro Min_eqI [symmetric]) auto

text \<open>If even the pick is above a bound, everything is: the test "all are saturated".\<close>

lemma pick_bound: "pick xs = Some x \<Longrightarrow> b \<le> key x \<longleftrightarrow> (\<forall>y \<in> set xs. b \<le> key y)"
  using pick_sound [of xs x] by (meson order_trans)

end

interpretation py_min: least_pick "py_min f" f
  using py_min_in py_min_le by unfold_locales (fastforce simp: neq_Nil_conv)+

section \<open>Indices\<close>

text \<open>A Python index into a sequence of length \<open>n\<close>: negative ones count from the end.\<close>

definition py_index :: "nat \<Rightarrow> int \<Rightarrow> nat option" where
  "py_index n i =
     (if 0 \<le> i \<and> i < int n then Some (nat i)
      else if - int n \<le> i \<and> i < 0 then Some (nat (int n + i))
      else None)"

lemma py_index_nat [simp]: "i < n \<Longrightarrow> py_index n (int i) = Some i"
  by (simp add: py_index_def)

lemma py_index_less: "py_index n i = Some j \<Longrightarrow> j < n"
  by (auto simp: py_index_def split: if_splits)

lemma list_update_all: "\<forall>x \<in> set xs. P x \<Longrightarrow> P y \<Longrightarrow> \<forall>x \<in> set (xs[i := y]). P x"
  using set_update_subset_insert [of xs i y] by auto

text \<open>\<open>xs.index(x)\<close>: the first position, or \<open>ValueError\<close>.\<close>

definition list_index :: "'a list \<Rightarrow> 'a \<Rightarrow> nat result" where
  "list_index xs x = (if x \<in> set xs then Inr (length (takeWhile (\<lambda>y. y \<noteq> x) xs)) else Inl ValueError)"

lemma list_index_nth: "distinct xs \<Longrightarrow> i < length xs \<Longrightarrow> list_index xs (xs ! i) = Inr i"
proof (induction xs arbitrary: i)
  case Nil
  then show ?case by simp
next
  case (Cons x xs)
  show ?case
  proof (cases i)
    case 0
    then show ?thesis by (simp add: list_index_def)
  next
    case (Suc j)
    then have "list_index xs (xs ! j) = Inr j" and "xs ! j \<noteq> x"
      using Cons by auto
    with Suc show ?thesis by (auto simp: list_index_def split: if_splits)
  qed
qed

lemma list_index_Inr: "list_index xs x = Inr i \<Longrightarrow> i < length xs \<and> xs ! i = x"
proof (induction xs arbitrary: i)
  case Nil
  then show ?case by (simp add: list_index_def)
next
  case (Cons y xs)
  show ?case
  proof (cases "y = x")
    case True
    with Cons.prems show ?thesis by (auto simp: list_index_def)
  next
    case False
    with Cons.prems obtain j where "i = Suc j" "list_index xs x = Inr j"
      by (auto simp: list_index_def split: if_splits)
    with Cons.IH show ?thesis by simp
  qed
qed

section \<open>Bounded deques\<close>

text \<open>\<open>deque(maxlen = n).append(x)\<close>: a full deque drops its oldest element.\<close>

definition deque_append :: "nat \<Rightarrow> 'a \<Rightarrow> 'a list \<Rightarrow> 'a list" where
  "deque_append n x xs = (let ys = xs @ [x] in drop (length ys - n) ys)"

lemma deque_append_length [simp]: "length xs \<le> n \<Longrightarrow> length (deque_append n x xs) \<le> n"
  by (simp add: deque_append_def)

lemma deque_append_length_eq: "length (deque_append n x xs) = min n (Suc (length xs))"
  by (simp add: deque_append_def)

lemma deque_append_set: "set (deque_append n x xs) \<subseteq> insert x (set xs)"
  using set_drop_subset [of "Suc (length xs) - n" "xs @ [x]"] by (auto simp: deque_append_def)

lemma deque_append_last: "0 < n \<Longrightarrow> last (deque_append n x xs) = x"
  by (simp add: deque_append_def)

section \<open>Association lists\<close>

lemma alist_update_all:
  "\<forall>(k, v) \<in> set al. P v \<Longrightarrow> P w \<Longrightarrow> \<forall>(k, v) \<in> set (AList.update k' w al). P v"
  by (induction al) auto

lemma alist_delete_all: "\<forall>(k, v) \<in> set al. P k v \<Longrightarrow> \<forall>(k, v) \<in> set (AList.delete k' al). P k v"
  by (auto simp: AList.delete_eq)

lemma alist_update_all2:
  "\<forall>(k, v) \<in> set al. P k v \<Longrightarrow> P k' w \<Longrightarrow> \<forall>(k, v) \<in> set (AList.update k' w al). P k v"
  by (induction al) auto

lemma dom_delete: "fst ` set (AList.delete k al) = fst ` set al - {k}"
  by (auto simp: AList.delete_eq image_iff)

section \<open>Strings\<close>

definition py_space :: "char \<Rightarrow> bool" where
  "py_space c \<longleftrightarrow> c \<in> set [CHR 0x20, CHR 0x09, CHR 0x0A, CHR 0x0B, CHR 0x0C, CHR 0x0D]"

definition py_strip :: "string \<Rightarrow> string" where
  "py_strip s = rev (dropWhile py_space (rev (dropWhile py_space s)))"

text \<open>\<open>s.split(c)\<close> for a one-character separator: never the empty list.\<close>

fun py_split :: "char \<Rightarrow> string \<Rightarrow> string list" where
  "py_split c [] = [[]]"
| "py_split c (x # xs) =
     (if x = c then [] # py_split c xs
      else case py_split c xs of [] \<Rightarrow> [[x]] | w # ws \<Rightarrow> (x # w) # ws)"

lemma py_split_not_Nil [simp]: "py_split c s \<noteq> []"
  by (induction s) (auto split: list.splits)

lemma py_split_no_sep: "c \<notin> set s \<Longrightarrow> py_split c s = [s]"
  by (induction s) auto

abbreviation startswith :: "string \<Rightarrow> string \<Rightarrow> bool" where
  "startswith s p \<equiv> prefix p s"

text \<open>
  Decimal digits: \<open>str(n)\<close> for a natural number, and \<open>f"{n:0wd}"\<close>, which pads
  with zeros up to the width and never truncates.
\<close>

definition digit :: "nat \<Rightarrow> char" where
  "digit d = ''0123456789'' ! (d mod 10)"

fun digits :: "nat \<Rightarrow> string" where
  "digits n = (if n < 10 then [digit n] else digits (n div 10) @ [digit n])"

declare digits.simps [simp del]

definition str_int :: "int \<Rightarrow> string" where
  "str_int i = (if i < 0 then ''-'' @ digits (nat (- i)) else digits (nat i))"

definition pad_zero :: "nat \<Rightarrow> string \<Rightarrow> string" where
  "pad_zero w s = replicate (w - length s) CHR ''0'' @ s"

definition format_0d :: "nat \<Rightarrow> int \<Rightarrow> string" where
  "format_0d w i =
     (if i < 0 then ''-'' @ pad_zero (w - 1) (digits (nat (- i))) else pad_zero w (digits (nat i)))"

definition undigit :: "char \<Rightarrow> nat" where
  "undigit c = length (takeWhile (\<lambda>d. d \<noteq> c) ''0123456789'')"

definition undigits :: "string \<Rightarrow> nat" where
  "undigits s = foldl (\<lambda>n c. n * 10 + undigit c) 0 s"

lemma undigit_digit [simp]: "undigit (digit n) = n mod 10"
proof -
  have "n mod 10 < 10" by simp
  then have "n mod 10 = 0 \<or> n mod 10 = 1 \<or> n mod 10 = 2 \<or> n mod 10 = 3 \<or> n mod 10 = 4 \<or>
      n mod 10 = 5 \<or> n mod 10 = 6 \<or> n mod 10 = 7 \<or> n mod 10 = 8 \<or> n mod 10 = 9"
    by presburger
  then show ?thesis by (elim disjE) (simp_all add: undigit_def digit_def)
qed

lemma undigits_digits [simp]: "undigits (digits n) = n"
  by (induction n rule: digits.induct) (subst digits.simps, auto simp: undigits_def)

lemma undigits_pad [simp]: "undigits (pad_zero w s) = undigits s"
proof -
  have "foldl (\<lambda>n c. n * 10 + undigit c) 0 (replicate k CHR ''0'' @ s) = undigits s" for k
    by (induction k) (simp_all add: undigits_def undigit_def)
  then show ?thesis by (simp add: pad_zero_def undigits_def)
qed

lemma digit_chars: "digit n \<in> set ''0123456789''"
  unfolding digit_def by (rule nth_mem) simp

lemma digits_chars: "set (digits n) \<subseteq> set ''0123456789''"
proof (induction n rule: digits.induct)
  case (1 n)
  then show ?case using digit_chars [of n] by (subst digits.simps) auto
qed

lemma pad_zero_chars: "set (pad_zero w s) \<subseteq> insert CHR ''0'' (set s)"
  by (auto simp: pad_zero_def)

lemma digits_inj: "digits m = digits n \<longleftrightarrow> m = n"
  by (metis undigits_digits)

section \<open>Exponential smoothing\<close>

text \<open>
  Five components keep an exponentially weighted average, each with its own factor. The
  interface says what such an update computes; what the monitors promise of their averages
  (they never leave the range of the samples, they converge to a constant input) is proved
  here once.
\<close>

locale ema_filter =
  fixes upd :: "real \<Rightarrow> real \<Rightarrow> real" and alpha :: real
  assumes alpha_pos: "0 < alpha" and alpha_le: "alpha \<le> 1"
    and upd_eq: "upd x e = alpha * x + (1 - alpha) * e"
begin

lemma upd_lower: "lo \<le> x \<Longrightarrow> lo \<le> e \<Longrightarrow> lo \<le> upd x e"
proof -
  assume "lo \<le> x" "lo \<le> e"
  then have "alpha * lo + (1 - alpha) * lo \<le> alpha * x + (1 - alpha) * e"
    using alpha_pos alpha_le by (intro add_mono mult_left_mono) auto
  then show ?thesis by (simp add: upd_eq algebra_simps)
qed

lemma upd_upper: "x \<le> hi \<Longrightarrow> e \<le> hi \<Longrightarrow> upd x e \<le> hi"
proof -
  assume "x \<le> hi" "e \<le> hi"
  then have "alpha * x + (1 - alpha) * e \<le> alpha * hi + (1 - alpha) * hi"
    using alpha_pos alpha_le by (intro add_mono mult_left_mono) auto
  then show ?thesis by (simp add: upd_eq algebra_simps)
qed

lemma upd_nonneg: "0 \<le> x \<Longrightarrow> 0 \<le> e \<Longrightarrow> 0 \<le> upd x e"
  by (rule upd_lower)

lemma upd_pos: "0 \<le> x \<Longrightarrow> 0 \<le> e \<Longrightarrow> 0 < x \<or> (0 < e \<and> alpha < 1) \<Longrightarrow> 0 < upd x e"
  using alpha_pos alpha_le by (auto simp: upd_eq add_pos_nonneg add_nonneg_pos)

lemma fold_upd_range:
  "\<forall>x \<in> set xs. lo \<le> x \<and> x \<le> hi \<Longrightarrow> lo \<le> e \<Longrightarrow> e \<le> hi \<Longrightarrow>
     lo \<le> fold upd xs e \<and> fold upd xs e \<le> hi"
  by (induction xs arbitrary: e) (auto intro: upd_lower upd_upper)

lemma upd_constant: "(upd x ^^ n) e = x + (1 - alpha) ^ n * (e - x)"
proof (induction n)
  case 0
  then show ?case by simp
next
  case (Suc n)
  have "(upd x ^^ Suc n) e = upd x (x + (1 - alpha) ^ n * (e - x))" by (simp add: Suc.IH)
  also have "\<dots> = x + (1 - alpha) ^ Suc n * (e - x)" by (simp add: upd_eq algebra_simps)
  finally show ?case .
qed

lemma upd_converges: "(\<lambda>n. (upd x ^^ n) e) \<longlonglongrightarrow> x"
proof -
  have "(\<lambda>n. x + (1 - alpha) ^ n * (e - x)) \<longlonglongrightarrow> x + 0 * (e - x)"
    using alpha_pos alpha_le by (intro tendsto_intros LIMSEQ_power_zero) (auto simp: abs_if)
  then show ?thesis by (simp add: upd_constant)
qed

end

section \<open>Clamped values\<close>

lemma clamp_range [clamp_simps]:
  fixes x :: "'a::linorder"
  assumes "lo \<le> hi"
  shows "lo \<le> max lo (min hi x)" and "max lo (min hi x) \<le> hi"
  using assms by auto

lemma clamp_id [clamp_simps]:
  fixes x :: "'a::linorder"
  shows "lo \<le> x \<Longrightarrow> x \<le> hi \<Longrightarrow> max lo (min hi x) = x"
  by auto

end
