(* ===== verification/Service_Gain.thy ===== *)
theory Service_Gain
  imports Prelude
begin

text \<open>
  \<^verbatim>\<open>tempo/service_gain.py\<close>: the service-gain score of a checkpoint flush, the
  scheduler that turns it into a priority and keeps the jobs in a \<open>heapq\<close> heap, the token
  bucket, and the O(1) PCIe pressure predictor. \<open>heapq.heappush\<close> is the standard library's
  sift of the new item towards the root. The result of \<open>submit_job\<close> is a pair, since an
  exception leaves the counters it has already advanced.
\<close>

section \<open>Tuning constants\<close>

definition ALPHA :: real where "ALPHA = 45 / 100"
definition BETA :: real where "BETA = 35 / 100"
definition GAMMA :: real where "GAMMA = 20 / 100"
definition LAMBDA :: real where "LAMBDA = 1 / 100"
definition DEFERRAL_THRESH :: real where "DEFERRAL_THRESH = 30 / 100"
definition MILESTONE_GAIN :: real where "MILESTONE_GAIN = 95 / 100"
definition DEFAULT_HORIZON :: int where "DEFAULT_HORIZON = 1000"
definition DEFAULT_SLO_STEPS :: int where "DEFAULT_SLO_STEPS = 100"

lemmas gain_constants = ALPHA_def BETA_def GAMMA_def LAMBDA_def DEFERRAL_THRESH_def
  MILESTONE_GAIN_def DEFAULT_HORIZON_def DEFAULT_SLO_STEPS_def

section \<open>Heap entries\<close>

text \<open>
  \<open>_JobEntry\<close> is a dataclass with \<open>order=True\<close>: entries compare as the tuple
  of their compared fields, and the flush job itself takes no part in the comparison.
\<close>

datatype job_key = Job_Key (key_neg_gain: real) (key_enqueue_time: real) (key_job_id: int)

instantiation job_key :: linorder
begin

definition less_eq_job_key :: "job_key \<Rightarrow> job_key \<Rightarrow> bool" where
  "less_eq_job_key a b \<longleftrightarrow>
     key_neg_gain a < key_neg_gain b \<or>
     key_neg_gain a = key_neg_gain b \<and>
       (key_enqueue_time a < key_enqueue_time b \<or>
        key_enqueue_time a = key_enqueue_time b \<and> key_job_id a \<le> key_job_id b)"

definition less_job_key :: "job_key \<Rightarrow> job_key \<Rightarrow> bool" where
  "less_job_key a b \<longleftrightarrow> a \<le> b \<and> \<not> b \<le> (a :: job_key)"

instance
  by standard (auto simp: less_eq_job_key_def less_job_key_def intro: job_key.expand)

end

record 'j job_entry =
  je_key :: job_key
  je_flush_job :: 'j

text \<open>\<open>heapq._siftdown(heap, 0, pos)\<close> with the item that is being placed.\<close>

function sift_to_root :: "('a \<Rightarrow> 'k::linorder) \<Rightarrow> 'a \<Rightarrow> nat \<Rightarrow> 'a list \<Rightarrow> 'a list" where
  "sift_to_root f newitem pos heap =
     (if 0 < pos then
        (let parentpos = (pos - 1) div 2; parent = heap ! parentpos in
         if f newitem < f parent
         then sift_to_root f newitem parentpos (heap[pos := parent])
         else heap[pos := newitem])
      else heap[pos := newitem])"
  by pat_completeness auto
termination
  by (relation "measure (\<lambda>(f, newitem, pos, heap). pos)") auto

declare sift_to_root.simps [simp del]

definition heappush :: "('a \<Rightarrow> 'k::linorder) \<Rightarrow> 'a \<Rightarrow> 'a list \<Rightarrow> 'a list" where
  "heappush f x heap = sift_to_root f x (length heap) (heap @ [x])"

section \<open>The scheduler\<close>

record flush_priority =
  fp_job_id :: int
  fp_gain :: real
  fp_deferrable :: bool
  fp_allocated_bps :: real
  fp_recompute_fallback :: bool

record 'j service_gain =
  sg_base_bps :: real
  sg_milestone_interval :: int
  sg_slo_deadline_steps :: int
  sg_congestion_bw_factor :: real
  sg_job_counter :: int
  sg_heap :: "'j job_entry list"
  sg_last_committed_step :: int
  sg_last_ckpt_step :: int
  sg_current_step :: int
  sg_horizon :: int
  sg_congested :: bool
  sg_jobs_submitted :: int
  sg_jobs_deferred :: int
  sg_jobs_expedited :: int
  sg_recompute_recommended :: int

definition service_gain_init :: "real \<Rightarrow> int \<Rightarrow> int \<Rightarrow> real \<Rightarrow> 'j service_gain" where
  "service_gain_init base_bps milestone_interval slo_deadline_steps congestion_bw_factor =
     \<lparr>sg_base_bps = base_bps, sg_milestone_interval = milestone_interval,
      sg_slo_deadline_steps = slo_deadline_steps,
      sg_congestion_bw_factor = congestion_bw_factor,
      sg_job_counter = 0, sg_heap = [], sg_last_committed_step = 0, sg_last_ckpt_step = 0,
      sg_current_step = 0, sg_horizon = DEFAULT_HORIZON, sg_congested = False,
      sg_jobs_submitted = 0, sg_jobs_deferred = 0, sg_jobs_expedited = 0,
      sg_recompute_recommended = 0\<rparr>"

definition update_step :: "int \<Rightarrow> 'j service_gain \<Rightarrow> 'j service_gain" where
  "update_step step s = s\<lparr>sg_current_step := step\<rparr>"

definition mark_committed :: "int \<Rightarrow> 'j service_gain \<Rightarrow> 'j service_gain" where
  "mark_committed step s = s\<lparr>sg_last_committed_step := max (sg_last_committed_step s) step\<rparr>"

definition set_congested :: "bool \<Rightarrow> 'j service_gain \<Rightarrow> 'j service_gain" where
  "set_congested flag s = s\<lparr>sg_congested := flag\<rparr>"

definition learning_progress :: "int \<Rightarrow> 'j service_gain \<Rightarrow> real" where
  "learning_progress step s =
     min 1 (of_int (max 0 (step - sg_last_committed_step s)) / of_int (max 1 (sg_horizon s)))"

definition recovery_value :: "int \<Rightarrow> 'j service_gain \<Rightarrow> real" where
  "recovery_value step s = 1 - exp (- LAMBDA * of_int (max 0 (step - sg_last_committed_step s)))"

definition urgency :: "int \<Rightarrow> 'j service_gain \<Rightarrow> real" where
  "urgency step s =
     max 0 (1 - of_int (max 1 (sg_slo_deadline_steps s - max 0 (step - sg_last_ckpt_step s)))
                / of_int (sg_slo_deadline_steps s))"

definition compute_gain :: "int \<Rightarrow> 'j service_gain \<Rightarrow> real result" where
  "compute_gain step s =
     (if sg_slo_deadline_steps s = 0 then Inl ZeroDivisionError
      else if 0 < step \<and> sg_milestone_interval s = 0 then Inl ZeroDivisionError
      else if 0 < step \<and> step mod sg_milestone_interval s = 0 then Inr MILESTONE_GAIN
      else
        let gain = ALPHA * learning_progress step s + BETA * recovery_value step s
                   + GAMMA * urgency step s
        in Inr (min 1 (max 0 gain)))"

text \<open>
  The second half of \<open>submit_job\<close>, from the gain on: the classification, the bandwidth
  and the counters. \<open>now\<close> is the enqueue time.
\<close>

definition flush_priority_of :: "int \<Rightarrow> real \<Rightarrow> 'j service_gain \<Rightarrow> flush_priority" where
  "flush_priority_of job_id gain s =
     (let deferrable0 = (gain < DEFERRAL_THRESH \<and> \<not> sg_congested s);
          deferrable = (if sg_congested s \<and> gain < 6 / 10 then True else deferrable0);
          bps0 = sg_base_bps s * gain;
          bps = (if sg_congested s \<and> deferrable then bps0 * sg_congestion_bw_factor s else bps0)
      in \<lparr>fp_job_id = job_id, fp_gain = gain, fp_deferrable = deferrable,
          fp_allocated_bps = bps,
          fp_recompute_fallback = (sg_congested s \<and> gain < DEFERRAL_THRESH * (1 / 2))\<rparr>)"

definition enqueue_job :: "real \<Rightarrow> 'j \<Rightarrow> flush_priority \<Rightarrow> 'j service_gain \<Rightarrow> 'j service_gain" where
  "enqueue_job now flush_job p s =
     (let entry = \<lparr>je_key = Job_Key (- fp_gain p) now (fp_job_id p), je_flush_job = flush_job\<rparr>;
          s1 = s\<lparr>sg_heap := heappush je_key entry (sg_heap s)\<rparr>
      in if fp_recompute_fallback p
         then s1\<lparr>sg_recompute_recommended := sg_recompute_recommended s + 1\<rparr>
         else if fp_deferrable p then s1\<lparr>sg_jobs_deferred := sg_jobs_deferred s + 1\<rparr>
         else s1\<lparr>sg_jobs_expedited := sg_jobs_expedited s + 1\<rparr>)"

definition submit_job ::
    "real \<Rightarrow> 'j \<Rightarrow> int \<Rightarrow> 'j service_gain \<Rightarrow> flush_priority result \<times> 'j service_gain" where
  "submit_job now flush_job step s =
     (let s1 = s\<lparr>sg_last_ckpt_step := step, sg_job_counter := sg_job_counter s + 1,
                 sg_jobs_submitted := sg_jobs_submitted s + 1\<rparr>
      in case compute_gain step s1 of
           Inl e \<Rightarrow> (Inl e, s1)
         | Inr gain \<Rightarrow>
             (let p = flush_priority_of (sg_job_counter s1) gain s1
              in (Inr p, enqueue_job now flush_job p s1)))"

record sg_stats =
  ss_jobs_submitted :: int
  ss_jobs_deferred :: int
  ss_jobs_expedited :: int
  ss_recompute_recommended :: int
  ss_last_committed_step :: int
  ss_current_step :: int
  ss_queue_depth :: nat
  ss_congested :: bool

definition sg_get_stats :: "'j service_gain \<Rightarrow> sg_stats" where
  "sg_get_stats s =
     \<lparr>ss_jobs_submitted = sg_jobs_submitted s, ss_jobs_deferred = sg_jobs_deferred s,
      ss_jobs_expedited = sg_jobs_expedited s,
      ss_recompute_recommended = sg_recompute_recommended s,
      ss_last_committed_step = sg_last_committed_step s,
      ss_current_step = sg_current_step s, ss_queue_depth = length (sg_heap s),
      ss_congested = sg_congested s\<rparr>"

section \<open>Token bucket\<close>

record token_bucket =
  tb_rate_bps :: real
  tb_capacity :: real
  tb_tokens :: real
  tb_last_ts :: real

definition token_bucket_init :: "real \<Rightarrow> real \<Rightarrow> real option \<Rightarrow> token_bucket" where
  "token_bucket_init now rate_bps capacity_bytes =
     (let cap = (case capacity_bytes of Some c \<Rightarrow> if c = 0 then rate_bps * (1 / 10) else c
                 | None \<Rightarrow> rate_bps * (1 / 10))
      in \<lparr>tb_rate_bps = rate_bps, tb_capacity = cap, tb_tokens = cap, tb_last_ts = now\<rparr>)"

definition set_rate :: "real \<Rightarrow> token_bucket \<Rightarrow> token_bucket" where
  "set_rate rate_bps b = b\<lparr>tb_rate_bps := rate_bps\<rparr>"

definition refill :: "real \<Rightarrow> token_bucket \<Rightarrow> token_bucket" where
  "refill now b =
     b\<lparr>tb_tokens := min (tb_capacity b) (tb_tokens b + (now - tb_last_ts b) * tb_rate_bps b),
       tb_last_ts := now\<rparr>"

text \<open>
  The loop of \<open>acquire\<close>. Each iteration reads the clock twice, once in \<open>_refill\<close>
  and once for the remaining time; the list holds the readings of the iterations, and
  \<open>None\<close> means that the caller still waits when they are used up.
\<close>

fun acquire_loop :: "real \<Rightarrow> real \<Rightarrow> (real \<times> real) list \<Rightarrow> token_bucket \<Rightarrow> (bool \<times> token_bucket) option" where
  "acquire_loop n_bytes deadline [] b = None"
| "acquire_loop n_bytes deadline ((t_refill, t_check) # ts) b =
     (let b1 = refill t_refill b in
      if n_bytes \<le> tb_tokens b1 then Some (True, b1\<lparr>tb_tokens := tb_tokens b1 - n_bytes\<rparr>)
      else if deadline - t_check \<le> 0 then Some (False, b1)
      else acquire_loop n_bytes deadline ts b1)"

definition acquire_deadline :: "real \<Rightarrow> real option \<Rightarrow> real" where
  "acquire_deadline now timeout =
     now + (case timeout of Some t \<Rightarrow> if t = 0 then 10 ^ 9 else t | None \<Rightarrow> 10 ^ 9)"

definition acquire ::
    "real \<Rightarrow> real \<Rightarrow> real option \<Rightarrow> (real \<times> real) list \<Rightarrow> token_bucket \<Rightarrow> (bool \<times> token_bucket) option" where
  "acquire now n_bytes timeout clock b =
     acquire_loop n_bytes (acquire_deadline now timeout) clock b"

definition acquire_wait_s :: "real \<Rightarrow> real \<Rightarrow> token_bucket \<Rightarrow> real" where
  "acquire_wait_s n_bytes remaining b =
     min ((n_bytes - tb_tokens b) / max (tb_rate_bps b) 1) (min remaining (5 / 1000))"

section \<open>PCIe pressure predictor\<close>

definition PCIE_UNIDIRECTIONAL_BPS :: real where "PCIE_UNIDIRECTIONAL_BPS = 32 * 10 ^ 9"
definition PCIE_CEILING_BPS :: real where "PCIE_CEILING_BPS = 64 * 10 ^ 9"

definition predict_kv_bytes :: "int \<Rightarrow> int \<Rightarrow> int \<Rightarrow> int \<Rightarrow> int \<Rightarrow> int \<Rightarrow> int" where
  "predict_kv_bytes batch_size seq_len n_layers n_heads head_dim dtype_bytes =
     2 * n_layers * n_heads * head_dim * seq_len * batch_size * dtype_bytes"

definition predict_flush_bw :: "int \<Rightarrow> real \<Rightarrow> real" where
  "predict_flush_bw kv_bytes flush_window_s = of_int kv_bytes / max flush_window_s (1 / 10 ^ 9)"

definition pcie_pressure :: "real \<Rightarrow> real \<Rightarrow> real \<Rightarrow> real" where
  "pcie_pressure flush_bw_bps nccl_bw_bps pcie_ceiling_bps =
     (let ceiling = (if 0 < pcie_ceiling_bps then pcie_ceiling_bps else PCIE_CEILING_BPS)
      in (flush_bw_bps + nccl_bw_bps) / ceiling)"

datatype route_action = Proceed real | Rate_Limit real | Micro_Delay real | Defer real

definition route_decision :: "int \<Rightarrow> real \<Rightarrow> real \<Rightarrow> int \<Rightarrow> real \<Rightarrow> route_action" where
  "route_decision kv_bytes flush_window_s nccl_bw_bps n_idle_rails pcie_ceiling_bps =
     (let ceiling = (if 0 < pcie_ceiling_bps then pcie_ceiling_bps else PCIE_CEILING_BPS);
          flush_bw = predict_flush_bw kv_bytes flush_window_s;
          headroom = ceiling - nccl_bw_bps;
          eff_headroom = headroom * of_int (max 1 n_idle_rails);
          pressure = pcie_pressure flush_bw nccl_bw_bps ceiling
      in if pressure < 90 / 100 then Proceed flush_bw
         else if 0 < n_idle_rails \<and> flush_bw \<le> eff_headroom
         then Rate_Limit (eff_headroom * (85 / 100) / of_int (max 1 n_idle_rails))
         else if pressure < 150 / 100
         then (let deficit_bps = flush_bw + nccl_bw_bps - ceiling;
                   decay_rate = nccl_bw_bps / max (flush_window_s * 1000) 1
               in Micro_Delay (max 1 (min 50 (deficit_bps / max decay_rate 1))))
         else Defer 0)"

section \<open>The heap\<close>

text \<open>What the scheduler relies on: pushing adds one element and the top is a least one.\<close>

locale min_heap =
  fixes empty :: "'h" and push :: "'a \<Rightarrow> 'h \<Rightarrow> 'h" and valid :: "'h \<Rightarrow> bool"
    and contents :: "'h \<Rightarrow> 'a multiset" and top :: "'h \<Rightarrow> 'a" and key :: "'a \<Rightarrow> 'k::linorder"
  assumes valid_empty: "valid empty" and contents_empty: "contents empty = {#}"
    and valid_push: "valid h \<Longrightarrow> valid (push x h)"
    and contents_push: "contents (push x h) = add_mset x (contents h)"
    and top_least: "valid h \<Longrightarrow> x \<in># contents h \<Longrightarrow> key (top h) \<le> key x \<and> top h \<in># contents h"
begin

lemma fold_push: "valid h \<Longrightarrow> valid (fold push xs h) \<and> contents (fold push xs h) = contents h + mset xs"
  by (induction xs arbitrary: h) (simp_all add: valid_push contents_push)

lemma fold_push_top:
  assumes "x \<in> set xs"
  shows "top (fold push xs empty) \<in> set xs \<and> key (top (fold push xs empty)) \<le> key x"
proof -
  have h: "valid (fold push xs empty)" "contents (fold push xs empty) = mset xs"
    using fold_push [OF valid_empty] by (simp_all add: contents_empty)
  show ?thesis using top_least [OF h(1), of x] assms by (simp add: h(2))
qed

end

abbreviation parent :: "nat \<Rightarrow> nat" where
  "parent i \<equiv> (i - 1) div 2"

definition is_heap :: "('a \<Rightarrow> 'k::linorder) \<Rightarrow> 'a list \<Rightarrow> bool" where
  "is_heap f h \<longleftrightarrow> (\<forall>i \<in> {1..<length h}. f (h ! parent i) \<le> f (h ! i))"

text \<open>
  The loop invariant of the sift: \<open>h\<close> is a heap but for the hole at \<open>pos\<close>, where
  the new item fits above the children and where the parent fits as well.
\<close>

definition heap_hole :: "('a \<Rightarrow> 'k::linorder) \<Rightarrow> 'a \<Rightarrow> nat \<Rightarrow> 'a list \<Rightarrow> bool" where
  "heap_hole f x pos h \<longleftrightarrow>
     (\<forall>i \<in> {1..<length h}. i \<noteq> pos \<longrightarrow>
        (if parent i = pos then f x \<le> f (h ! i) \<and> (0 < pos \<longrightarrow> f (h ! parent pos) \<le> f (h ! i))
         else f (h ! parent i) \<le> f (h ! i)))"

lemma heap_holeD:
  "heap_hole f x pos h \<Longrightarrow> 0 < i \<Longrightarrow> i < length h \<Longrightarrow> i \<noteq> pos \<Longrightarrow>
     (if parent i = pos then f x \<le> f (h ! i) \<and> (0 < pos \<longrightarrow> f (h ! parent pos) \<le> f (h ! i))
      else f (h ! parent i) \<le> f (h ! i))"
  unfolding heap_hole_def by auto

lemma heap_hole_up:
  assumes h: "heap_hole f x pos h" and "0 < pos" "pos < length h" and lt: "f x < f (h ! parent pos)"
  shows "heap_hole f x (parent pos) (h[pos := h ! parent pos])"
  unfolding heap_hole_def
proof (intro ballI impI)
  fix i assume i: "i \<in> {1..<length (h[pos := h ! parent pos])}" "i \<noteq> parent pos"
  let ?h = "h[pos := h ! parent pos]"
  have pp: "parent pos < pos" using \<open>0 < pos\<close> by simp
  have up: "0 < parent pos \<Longrightarrow> f (h ! parent (parent pos)) \<le> f (h ! parent pos)"
    using heap_holeD [OF h, of "parent pos"] pp \<open>pos < length h\<close> by (auto split: if_splits)
  have old: "i \<noteq> pos \<Longrightarrow> parent i \<noteq> pos \<Longrightarrow> f (h ! parent i) \<le> f (h ! i)"
    "i \<noteq> pos \<Longrightarrow> parent i = pos \<Longrightarrow> f (h ! parent pos) \<le> f (h ! i)"
    using heap_holeD [OF h, of i] i \<open>0 < pos\<close> by auto
  have pp2: "0 < parent pos \<Longrightarrow> parent (parent pos) \<noteq> pos" using pp by simp
  show "if parent i = parent pos
      then f x \<le> f (?h ! i) \<and> (0 < parent pos \<longrightarrow> f (?h ! parent (parent pos)) \<le> f (?h ! i))
      else f (?h ! parent i) \<le> f (?h ! i)"
  proof (cases "i = pos")
    case True
    then show ?thesis using \<open>pos < length h\<close> lt up pp2 by simp
  next
    case False
    then show ?thesis
      using old lt up pp2 pp \<open>pos < length h\<close> i by (cases "parent i = pos") auto
  qed
qed

lemma sift_heap:
  "heap_hole f x pos h \<Longrightarrow> pos < length h \<Longrightarrow> is_heap f (sift_to_root f x pos h)"
proof (induction f x pos h rule: sift_to_root.induct)
  case (1 f x pos h)
  show ?case
  proof (cases "0 < pos \<and> f x < f (h ! parent pos)")
    case True
    then have "is_heap f (sift_to_root f x (parent pos) (h[pos := h ! parent pos]))"
      using 1 heap_hole_up [of f x pos h] by auto
    with True show ?thesis by (simp add: sift_to_root.simps [of f x pos h] Let_def)
  next
    case False
    then have eq: "sift_to_root f x pos h = h[pos := x]"
      by (auto simp: sift_to_root.simps [of f x pos h] Let_def)
    have "f (h[pos := x] ! parent i) \<le> f (h[pos := x] ! i)" if i: "0 < i" "i < length h" for i
    proof (cases "i = pos")
      case True
      with i False have "parent i \<noteq> pos" and "f (h ! parent pos) \<le> f x" by auto
      with True 1(3) show ?thesis by simp
    next
      case False
      with heap_holeD [OF 1(2) i] 1(3) show ?thesis by (auto split: if_splits)
    qed
    then show ?thesis by (simp add: eq is_heap_def)
  qed
qed

lemma sift_mset:
  "pos < length h \<Longrightarrow> mset (sift_to_root f x pos h) = mset (h[pos := x])"
proof (induction f x pos h rule: sift_to_root.induct)
  case (1 f x pos h)
  show ?case
  proof (cases "0 < pos \<and> f x < f (h ! parent pos)")
    case True
    let ?g = "h[pos := x]"
    have "0 < pos" using True ..
    then have pp: "parent pos < pos" by simp
    have "mset (h[pos := h ! parent pos, parent pos := x]) = mset (?g[pos := ?g ! parent pos, parent pos := ?g ! pos])"
      using pp 1(2) by simp
    also have "\<dots> = mset ?g" using pp 1(2) by (intro mset_swap) simp_all
    finally show ?thesis
      using 1 True pp by (simp add: sift_to_root.simps [of f x pos h] Let_def)
  next
    case False
    then show ?thesis by (auto simp: sift_to_root.simps [of f x pos h] Let_def)
  qed
qed

lemma is_heap_hole: "is_heap f h \<Longrightarrow> heap_hole f x (length h) (h @ [x])"
  unfolding heap_hole_def is_heap_def
proof (intro ballI impI)
  fix i
  assume h: "\<forall>i \<in> {1..<length h}. f (h ! parent i) \<le> f (h ! i)"
    and i: "i \<in> {1..<length (h @ [x])}" "i \<noteq> length h"
  then have "i < length h" "parent i < length h" "0 < i" by auto
  with h show "if parent i = length h
      then f x \<le> f ((h @ [x]) ! i) \<and>
        (0 < length h \<longrightarrow> f ((h @ [x]) ! parent (length h)) \<le> f ((h @ [x]) ! i))
      else f ((h @ [x]) ! parent i) \<le> f ((h @ [x]) ! i)"
    by (simp add: nth_append)
qed

lemma heappush_heap: "is_heap f h \<Longrightarrow> is_heap f (heappush f x h)"
  by (simp add: heappush_def sift_heap is_heap_hole)

lemma heappush_mset [simp]: "mset (heappush f x h) = add_mset x (mset h)"
  by (simp add: heappush_def sift_mset)

lemma heappush_length [simp]: "length (heappush f x h) = Suc (length h)"
  using heappush_mset [of f x h] by (metis size_mset size_add_mset)

lemma heappush_set [simp]: "set (heappush f x h) = insert x (set h)"
  using heappush_mset [of f x h] by (metis set_mset_mset set_mset_add_mset_insert)

lemma is_heap_root: "is_heap f h \<Longrightarrow> i < length h \<Longrightarrow> f (h ! 0) \<le> f (h ! i)"
proof (induction i rule: less_induct)
  case (less i)
  show ?case
  proof (cases "i = 0")
    case False
    then have "f (h ! 0) \<le> f (h ! parent i)" using less by simp
    also have "\<dots> \<le> f (h ! i)" using less.prems False by (simp add: is_heap_def)
    finally show ?thesis .
  qed simp
qed

interpretation heapq: min_heap "[]" "heappush f" "is_heap f" mset hd f
proof
  show "is_heap f []" by (simp add: is_heap_def)
next
  fix h :: "'a list" and x
  assume "is_heap f h" "x \<in># mset h"
  then show "f (hd h) \<le> f x \<and> hd h \<in># mset h"
    using is_heap_root [of f h] by (cases "h = []") (auto simp: in_set_conv_nth hd_conv_nth)
qed (simp_all add: heappush_heap)

section \<open>Gain\<close>

lemma learning_range: "0 \<le> learning_progress step s \<and> learning_progress step s \<le> 1"
  by (simp add: learning_progress_def)

lemma recovery_range: "0 \<le> recovery_value step s \<and> recovery_value step s < 1"
  by (simp add: recovery_value_def LAMBDA_def)

lemma urgency_range:
  assumes "0 < sg_slo_deadline_steps s"
  shows "0 \<le> urgency step s \<and> urgency step s \<le> 1"
  using assms by (simp add: urgency_def)

text \<open>A step that is the last checkpoint step itself has a full budget, hence no urgency.\<close>

lemma urgency_fresh:
  assumes "0 < sg_slo_deadline_steps s" and "step \<le> sg_last_ckpt_step s"
  shows "urgency step s = 0"
  using assms by (simp add: urgency_def max_def)

definition gain_ok :: "'j service_gain \<Rightarrow> bool" where
  "gain_ok s \<longleftrightarrow> 0 < sg_slo_deadline_steps s \<and> 0 < sg_milestone_interval s"

lemma compute_gain_cases:
  assumes "gain_ok s"
  obtains (milestone) "0 < step" "sg_milestone_interval s dvd step" "compute_gain step s = Inr MILESTONE_GAIN"
    | (plain) "\<not> (0 < step \<and> sg_milestone_interval s dvd step)"
      "compute_gain step s = Inr (ALPHA * learning_progress step s + BETA * recovery_value step s
         + GAMMA * urgency step s)"
      "0 \<le> ALPHA * learning_progress step s + BETA * recovery_value step s + GAMMA * urgency step s"
      "ALPHA * learning_progress step s + BETA * recovery_value step s
         < 80 / 100"
proof (cases "0 < step \<and> sg_milestone_interval s dvd step")
  case True
  then show ?thesis using assms milestone by (simp add: compute_gain_def gain_ok_def dvd_eq_mod_eq_0)
next
  case False
  let ?g = "ALPHA * learning_progress step s + BETA * recovery_value step s + GAMMA * urgency step s"
  have r: "0 \<le> urgency step s" "urgency step s \<le> 1"
    using urgency_range [of s step] assms by (simp_all add: gain_ok_def)
  have "0 \<le> ?g" "?g \<le> 1" "ALPHA * learning_progress step s + BETA * recovery_value step s < 80 / 100"
    using r learning_range [of step s] recovery_range [of step s]
    by (auto simp: gain_constants)
  moreover from this have "compute_gain step s = Inr ?g"
    using False assms by (auto simp: compute_gain_def gain_ok_def dvd_eq_mod_eq_0 Let_def)
  ultimately show ?thesis using False by (intro plain) auto
qed

lemma compute_gain_ok: "gain_ok s \<Longrightarrow> \<exists>g. compute_gain step s = Inr g \<and> 0 \<le> g \<and> g \<le> 1"
proof -
  assume ok: "gain_ok s"
  then show ?thesis
  proof (cases rule: compute_gain_cases [where step = step])
    case milestone
    then show ?thesis by (intro exI [of _ MILESTONE_GAIN]) (simp add: MILESTONE_GAIN_def)
  next
    case plain
    have "urgency step s \<le> 1" using urgency_range [of s step] ok by (simp add: gain_ok_def)
    with plain show ?thesis by (simp add: GAMMA_def)
  qed
qed

lemma commit_mono:
  "learning_progress step (mark_committed c s) \<le> learning_progress step s \<and>
    recovery_value step (mark_committed c s) \<le> recovery_value step s \<and>
    urgency step (mark_committed c s) = urgency step s"
proof -
  let ?d' = "real_of_int (max 0 (step - sg_last_committed_step (mark_committed c s)))"
  let ?d = "real_of_int (max 0 (step - sg_last_committed_step s))"
  have le: "?d' \<le> ?d" by (simp add: mark_committed_def)
  have h: "sg_horizon (mark_committed c s) = sg_horizon s" by (simp add: mark_committed_def)
  have "?d' / real_of_int (max 1 (sg_horizon s)) \<le> ?d / real_of_int (max 1 (sg_horizon s))"
    by (intro divide_right_mono le) simp
  then have "learning_progress step (mark_committed c s) \<le> learning_progress step s"
    unfolding learning_progress_def h by (intro min.mono order_refl)
  moreover have "recovery_value step (mark_committed c s) \<le> recovery_value step s"
    using le by (simp add: recovery_value_def LAMBDA_def)
  ultimately show ?thesis by (simp add: urgency_def mark_committed_def)
qed

section \<open>Submission\<close>

lemma flush_priority_of_simps [simp]:
  "fp_gain (flush_priority_of i g s) = g" "fp_job_id (flush_priority_of i g s) = i"
  by (simp_all add: flush_priority_of_def Let_def)

lemma enqueue_job_simps [simp]:
  "mset (sg_heap (enqueue_job now j p s)) =
     add_mset \<lparr>je_key = Job_Key (- fp_gain p) now (fp_job_id p), je_flush_job = j\<rparr> (mset (sg_heap s))"
  "is_heap je_key (sg_heap s) \<Longrightarrow> is_heap je_key (sg_heap (enqueue_job now j p s))"
  "sg_job_counter (enqueue_job now j p s) = sg_job_counter s"
  "sg_jobs_submitted (enqueue_job now j p s) = sg_jobs_submitted s"
  "sg_slo_deadline_steps (enqueue_job now j p s) = sg_slo_deadline_steps s"
  "sg_milestone_interval (enqueue_job now j p s) = sg_milestone_interval s"
  "sg_jobs_deferred (enqueue_job now j p s) + sg_jobs_expedited (enqueue_job now j p s)
     + sg_recompute_recommended (enqueue_job now j p s)
   = sg_jobs_deferred s + sg_jobs_expedited s + sg_recompute_recommended s + 1"
  by (simp_all add: enqueue_job_def Let_def heappush_heap)

lemma submit_job_ok:
  assumes "gain_ok s"
  obtains s1 g where "s1 = s\<lparr>sg_last_ckpt_step := step, sg_job_counter := sg_job_counter s + 1,
        sg_jobs_submitted := sg_jobs_submitted s + 1\<rparr>" "gain_ok s1"
    "compute_gain step s1 = Inr g" "0 \<le> g" "g \<le> 1"
    "submit_job now j step s =
       (Inr (flush_priority_of (sg_job_counter s + 1) g s1),
        enqueue_job now j (flush_priority_of (sg_job_counter s + 1) g s1) s1)"
proof -
  let ?s1 = "s\<lparr>sg_last_ckpt_step := step, sg_job_counter := sg_job_counter s + 1,
        sg_jobs_submitted := sg_jobs_submitted s + 1\<rparr>"
  have "gain_ok ?s1" using assms by (simp add: gain_ok_def)
  then obtain g where "compute_gain step ?s1 = Inr g" "0 \<le> g" "g \<le> 1"
    using compute_gain_ok by blast
  then show ?thesis using that [of ?s1 g] \<open>gain_ok ?s1\<close> by (simp add: submit_job_def Let_def)
qed

lemma submit_job_counts [simp]:
  "sg_jobs_submitted (snd (submit_job now j step s)) = sg_jobs_submitted s + 1"
  by (simp add: submit_job_def Let_def split: sum.splits)

text \<open>Operation sequences on the scheduler.\<close>

datatype 'j sg_op = Sg_Update int | Sg_Commit int | Sg_Congested bool | Sg_Submit real 'j int

fun sg_exec :: "'j sg_op \<Rightarrow> 'j service_gain \<Rightarrow> 'j service_gain" where
  "sg_exec (Sg_Update step) s = update_step step s"
| "sg_exec (Sg_Commit step) s = mark_committed step s"
| "sg_exec (Sg_Congested flag) s = set_congested flag s"
| "sg_exec (Sg_Submit now j step) s = snd (submit_job now j step s)"

definition sg_inv :: "'j service_gain \<Rightarrow> bool" where
  "sg_inv s \<longleftrightarrow> gain_ok s \<and> is_heap je_key (sg_heap s) \<and>
     sg_jobs_submitted s = int (length (sg_heap s)) \<and> sg_job_counter s = sg_jobs_submitted s \<and>
     sg_jobs_deferred s + sg_jobs_expedited s + sg_recompute_recommended s = sg_jobs_submitted s \<and>
     (\<forall>e \<in> set (sg_heap s). 1 \<le> key_job_id (je_key e) \<and> key_job_id (je_key e) \<le> sg_job_counter s
        \<and> -1 \<le> key_neg_gain (je_key e) \<and> key_neg_gain (je_key e) \<le> 0) \<and>
     distinct (map (key_job_id \<circ> je_key) (sg_heap s))"

lemma sg_inv_init: "0 < interval \<Longrightarrow> 0 < slo \<Longrightarrow> sg_inv (service_gain_init base interval slo factor)"
  by (simp add: sg_inv_def gain_ok_def service_gain_init_def is_heap_def)

lemma distinct_map_mset: "mset xs = add_mset x (mset ys) \<Longrightarrow>
    distinct (map f xs) \<longleftrightarrow> f x \<notin> f ` set ys \<and> distinct (map f ys)"
proof -
  assume "mset xs = add_mset x (mset ys)"
  then have "mset xs = mset (x # ys)" by simp
  then have "mset (map f xs) = mset (map f (x # ys))" by (simp only: mset_map)
  then have "distinct (map f xs) \<longleftrightarrow> distinct (map f (x # ys))"
    by (metis mset_eq_imp_distinct_iff)
  then show ?thesis by simp
qed

lemma sg_inv_submit: "sg_inv s \<Longrightarrow> sg_inv (snd (submit_job now j step s))"
proof -
  assume inv: "sg_inv s"
  then have "gain_ok s" by (simp add: sg_inv_def)
  then obtain s1 g where s1: "s1 = s\<lparr>sg_last_ckpt_step := step,
        sg_job_counter := sg_job_counter s + 1, sg_jobs_submitted := sg_jobs_submitted s + 1\<rparr>"
      and g: "0 \<le> g" "g \<le> 1" "gain_ok s1"
      and sub: "snd (submit_job now j step s) =
        enqueue_job now j (flush_priority_of (sg_job_counter s + 1) g s1) s1"
    by (rule submit_job_ok [where now = now and j = j and step = step]) auto
  let ?p = "flush_priority_of (sg_job_counter s + 1) g s1"
  let ?e = "\<lparr>je_key = Job_Key (- g) now (sg_job_counter s + 1), je_flush_job = j\<rparr>"
  let ?s' = "enqueue_job now j ?p s1"
  have m: "mset (sg_heap ?s') = add_mset ?e (mset (sg_heap s))" by (simp add: s1)
  have len: "length (sg_heap ?s') = Suc (length (sg_heap s))"
    using m by (metis size_mset size_add_mset)
  have set: "set (sg_heap ?s') = insert ?e (set (sg_heap s))"
    using m by (metis set_mset_mset set_mset_add_mset_insert)
  have new: "sg_job_counter s + 1 \<notin> (key_job_id \<circ> je_key) ` set (sg_heap s)"
    using inv by (fastforce simp: sg_inv_def)
  have "gain_ok ?s'" using g(3) by (simp add: gain_ok_def)
  moreover have "is_heap je_key (sg_heap ?s')" using inv by (simp add: sg_inv_def s1)
  moreover have "distinct (map (key_job_id \<circ> je_key) (sg_heap ?s'))"
    using distinct_map_mset [OF m, of "key_job_id \<circ> je_key"] new inv by (simp add: sg_inv_def)
  ultimately show ?thesis
    using inv g enqueue_job_simps(7) [of now j ?p s1] unfolding sub sg_inv_def set len
    by (auto simp: s1)
qed

lemma sg_inv_exec: "sg_inv s \<Longrightarrow> sg_inv (sg_exec op s)"
proof (cases op)
  case (Sg_Submit now j step)
  then show "sg_inv s \<Longrightarrow> ?thesis" by (simp add: sg_inv_submit)
qed (auto simp: sg_inv_def gain_ok_def update_step_def mark_committed_def set_congested_def)

lemma sg_inv_fold: "sg_inv s \<Longrightarrow> sg_inv (fold sg_exec ops s)"
  by (induction ops arbitrary: s) (simp_all add: sg_inv_exec)

section \<open>Token bucket lemmas\<close>

text \<open>
  \<open>clock_from t clock\<close>: the readings of the monotonic clock, starting no earlier than
  \<open>t\<close>, in the order the loop takes them.
\<close>

fun clock_from :: "real \<Rightarrow> (real \<times> real) list \<Rightarrow> bool" where
  "clock_from t [] \<longleftrightarrow> True"
| "clock_from t ((a, b) # ts) \<longleftrightarrow> t \<le> a \<and> a \<le> b \<and> clock_from b ts"

definition bucket_ok :: "real \<Rightarrow> token_bucket \<Rightarrow> bool" where
  "bucket_ok R b \<longleftrightarrow> 0 \<le> tb_rate_bps b \<and> tb_rate_bps b \<le> R \<and> 0 \<le> tb_tokens b \<and>
     tb_tokens b \<le> tb_capacity b"

lemma refill_simps [simp]:
  "tb_rate_bps (refill t b) = tb_rate_bps b" "tb_capacity (refill t b) = tb_capacity b"
  "tb_last_ts (refill t b) = t"
  by (simp_all add: refill_def)

lemma refill_tokens:
  "tb_tokens (refill t b) = min (tb_capacity b) (tb_tokens b + (t - tb_last_ts b) * tb_rate_bps b)"
  by (simp add: refill_def)

lemma refill_ok: "bucket_ok R b \<Longrightarrow> tb_last_ts b \<le> t \<Longrightarrow> bucket_ok R (refill t b)"
  by (auto simp: bucket_ok_def min_def refill_tokens)

lemma refill_bound:
  "bucket_ok R b \<Longrightarrow> tb_last_ts b \<le> t \<Longrightarrow>
     tb_tokens (refill t b) - R * t \<le> tb_tokens b - R * tb_last_ts b"
proof -
  assume "bucket_ok R b" "tb_last_ts b \<le> t"
  then have "(t - tb_last_ts b) * tb_rate_bps b \<le> (t - tb_last_ts b) * R"
    by (intro mult_left_mono) (auto simp: bucket_ok_def)
  then show ?thesis by (simp add: refill_tokens algebra_simps min_def)
qed

text \<open>
  One call keeps the bucket well formed, and tokens granted plus tokens left grow by at most
  \<open>R\<close> per second.
\<close>

lemma acquire_loop_bound:
  assumes "acquire_loop n deadline clock b = Some (ok, b')" and "bucket_ok R b" and "0 \<le> n"
    and "clock_from (tb_last_ts b) clock"
  shows "bucket_ok R b' \<and> tb_capacity b' = tb_capacity b \<and> tb_last_ts b \<le> tb_last_ts b' \<and>
    (if ok then n else 0) + tb_tokens b' - R * tb_last_ts b' \<le> tb_tokens b - R * tb_last_ts b"
  using assms
proof (induction n deadline clock b rule: acquire_loop.induct)
  case (1 n deadline b)
  then show ?case by simp
next
  case (2 n deadline t_refill t_check ts b)
  let ?b1 = "refill t_refill b"
  have t: "tb_last_ts b \<le> t_refill" "t_refill \<le> t_check" "clock_from t_check ts"
    using "2.prems"(4) by simp_all
  have b1: "bucket_ok R ?b1"
    "tb_tokens ?b1 - R * t_refill \<le> tb_tokens b - R * tb_last_ts b"
    using "2.prems"(2) t refill_ok [of R b t_refill] refill_bound [of R b t_refill] by simp_all
  consider (grant) "n \<le> tb_tokens ?b1" | (late) "\<not> n \<le> tb_tokens ?b1" "deadline - t_check \<le> 0"
    | (wait) "\<not> n \<le> tb_tokens ?b1" "\<not> deadline - t_check \<le> 0"
    by blast
  then show ?case
  proof cases
    case grant
    then have "ok" "b' = ?b1\<lparr>tb_tokens := tb_tokens ?b1 - n\<rparr>"
      using "2.prems"(1) by (simp_all add: Let_def)
    then show ?thesis using b1 t grant \<open>0 \<le> n\<close> by (simp add: bucket_ok_def)
  next
    case late
    then have "\<not> ok" "b' = ?b1" using "2.prems"(1) by (simp_all add: Let_def)
    then show ?thesis using b1 t by simp
  next
    case wait
    then have r: "acquire_loop n deadline ts ?b1 = Some (ok, b')"
      using "2.prems"(1) by (simp add: Let_def)
    have "clock_from (tb_last_ts ?b1) ts"
      using t by (cases ts) auto
    note ih = "2.IH" [OF refl wait r b1(1) \<open>0 \<le> n\<close> this]
    then have "(if ok then n else 0) + tb_tokens b' - R * tb_last_ts b' \<le> tb_tokens b - R * tb_last_ts b"
      using b1(2) by (simp only: refill_simps) linarith
    with ih t show ?thesis by simp
  qed
qed

lemma acquire_loop_liveness:
  assumes "clock \<noteq> []" and "n \<le> tb_capacity b" and "\<forall>(a, c) \<in> set clock. c < deadline"
    and "n \<le> tb_tokens b + (fst (last clock) - tb_last_ts b) * tb_rate_bps b"
  shows "\<exists>b'. acquire_loop n deadline clock b = Some (True, b')"
  using assms
proof (induction n deadline clock b rule: acquire_loop.induct)
  case (1 n deadline b)
  then show ?case by simp
next
  case (2 n deadline t_refill t_check ts b)
  let ?b1 = "refill t_refill b"
  show ?case
  proof (cases "n \<le> tb_tokens ?b1")
    case True
    then show ?thesis by (simp add: Let_def)
  next
    case False
    then have tok: "tb_tokens ?b1 = tb_tokens b + (t_refill - tb_last_ts b) * tb_rate_bps b"
      using "2.prems"(2) by (simp add: refill_tokens min_def split: if_splits)
    have ts: "ts \<noteq> []" using False "2.prems"(2,4) tok by auto
    then have "n \<le> tb_tokens ?b1 + (fst (last ts) - tb_last_ts ?b1) * tb_rate_bps ?b1"
      using "2.prems"(4) unfolding tok by (simp add: algebra_simps)
    moreover have "\<not> deadline - t_check \<le> 0" using "2.prems"(3) by simp
    ultimately have "\<exists>b'. acquire_loop n deadline ts ?b1 = Some (True, b')"
      using "2.IH" [OF refl False _ ts] "2.prems"(2,3) by simp
    with False \<open>\<not> deadline - t_check \<le> 0\<close> show ?thesis by (simp add: Let_def)
  qed
qed

lemma acquire_loop_oversize:
  "acquire_loop n deadline clock b = Some (ok, b') \<Longrightarrow> tb_capacity b < n \<Longrightarrow> \<not> ok"
proof (induction n deadline clock b rule: acquire_loop.induct)
  case (2 n deadline t_refill t_check ts b)
  then show ?case by (auto simp: Let_def refill_tokens split: if_splits)
qed simp

text \<open>Calls on a bucket, with the bytes granted so far.\<close>

datatype tb_op = Tb_Set_Rate real | Tb_Acquire real real "real option" "(real \<times> real) list"

fun tb_exec :: "tb_op \<Rightarrow> real \<times> token_bucket \<Rightarrow> (real \<times> token_bucket) option" where
  "tb_exec (Tb_Set_Rate r) (g, b) = Some (g, set_rate r b)"
| "tb_exec (Tb_Acquire now n timeout clock) (g, b) =
     (case acquire now n timeout clock b of
        None \<Rightarrow> None
      | Some (ok, b') \<Rightarrow> Some (if ok then g + n else g, b'))"

fun tb_run :: "tb_op list \<Rightarrow> real \<times> token_bucket \<Rightarrow> (real \<times> token_bucket) option" where
  "tb_run [] gb = Some gb"
| "tb_run (op # ops) gb = (case tb_exec op gb of None \<Rightarrow> None | Some gb' \<Rightarrow> tb_run ops gb')"

text \<open>Rates stay within \<open>R\<close>, sizes are not negative and the clock does not go back.\<close>

fun tb_legal :: "real \<Rightarrow> tb_op \<Rightarrow> token_bucket \<Rightarrow> bool" where
  "tb_legal R (Tb_Set_Rate r) b \<longleftrightarrow> 0 \<le> r \<and> r \<le> R"
| "tb_legal R (Tb_Acquire now n timeout clock) b \<longleftrightarrow> 0 \<le> n \<and> clock_from (tb_last_ts b) clock"

fun tb_legal_run :: "real \<Rightarrow> tb_op list \<Rightarrow> real \<times> token_bucket \<Rightarrow> bool" where
  "tb_legal_run R [] gb \<longleftrightarrow> True"
| "tb_legal_run R (op # ops) gb \<longleftrightarrow>
     tb_legal R op (snd gb) \<and> (case tb_exec op gb of None \<Rightarrow> True | Some gb' \<Rightarrow> tb_legal_run R ops gb')"

lemma tb_exec_bound:
  "tb_exec op (g, b) = Some (g', b') \<Longrightarrow> tb_legal R op b \<Longrightarrow> bucket_ok R b \<Longrightarrow>
     bucket_ok R b' \<and> tb_capacity b' = tb_capacity b \<and> tb_last_ts b \<le> tb_last_ts b' \<and>
     g' + tb_tokens b' - R * tb_last_ts b' \<le> g + tb_tokens b - R * tb_last_ts b"
proof (cases op)
  case (Tb_Set_Rate r)
  then show "tb_exec op (g, b) = Some (g', b') \<Longrightarrow> tb_legal R op b \<Longrightarrow> bucket_ok R b \<Longrightarrow> ?thesis"
    by (auto simp: set_rate_def bucket_ok_def)
next
  case (Tb_Acquire now n timeout clock)
  assume "tb_exec op (g, b) = Some (g', b')" "tb_legal R op b" "bucket_ok R b"
  then obtain ok where "acquire_loop n (acquire_deadline now timeout) clock b = Some (ok, b')"
      "g' = (if ok then g + n else g)" "0 \<le> n" "clock_from (tb_last_ts b) clock"
    using Tb_Acquire by (auto simp: acquire_def split: option.splits)
  with acquire_loop_bound [OF this(1) \<open>bucket_ok R b\<close> this(3,4)] show ?thesis
    by (cases ok) simp_all
qed

lemma tb_run_bound:
  "tb_run ops (g, b) = Some (g', b') \<Longrightarrow> tb_legal_run R ops (g, b) \<Longrightarrow> bucket_ok R b \<Longrightarrow>
     bucket_ok R b' \<and> tb_capacity b' = tb_capacity b \<and> tb_last_ts b \<le> tb_last_ts b' \<and>
     g' + tb_tokens b' - R * tb_last_ts b' \<le> g + tb_tokens b - R * tb_last_ts b"
proof (induction ops arbitrary: g b)
  case Nil
  then show ?case by simp
next
  case (Cons op ops)
  obtain g1 b1 where 1: "tb_exec op (g, b) = Some (g1, b1)" "tb_run ops (g1, b1) = Some (g', b')"
    using Cons.prems(1) by (auto split: option.splits)
  then have "tb_legal R op b" "tb_legal_run R ops (g1, b1)" using Cons.prems(2) by simp_all
  with Cons.IH [of g1 b1] tb_exec_bound [of op g b g1 b1 R] 1 Cons.prems(3) show ?case
    by fastforce
qed

section \<open>Routing lemmas\<close>

definition effective_ceiling :: "real \<Rightarrow> real" where
  "effective_ceiling c = (if 0 < c then c else PCIE_CEILING_BPS)"

lemma effective_ceiling_pos: "0 < effective_ceiling c"
  by (simp add: effective_ceiling_def PCIE_CEILING_BPS_def)

lemma predict_flush_bw_nonneg: "0 \<le> kv \<Longrightarrow> 0 \<le> predict_flush_bw kv w"
  by (simp add: predict_flush_bw_def)

lemma pcie_pressure_eq:
  "pcie_pressure f n (effective_ceiling c) = (f + n) / effective_ceiling c"
  using effective_ceiling_pos [of c] by (simp add: pcie_pressure_def)

lemma route_decision_eq:
  "route_decision kv w n r c =
     (let C = effective_ceiling c; f = predict_flush_bw kv w in
      if f + n < 90 / 100 * C then Proceed f
      else if 0 < r \<and> f \<le> (C - n) * of_int r then Rate_Limit ((C - n) * (85 / 100))
      else if f + n < 150 / 100 * C
      then Micro_Delay (max 1 (min 50 ((f + n - C) / max (n / max (w * 1000) 1) 1)))
      else Defer 0)"
proof -
  have C: "0 < effective_ceiling c" by (rule effective_ceiling_pos)
  have r: "0 < r \<Longrightarrow> real_of_int (max 1 r) = of_int r" by simp
  have d: "x / effective_ceiling c < k \<longleftrightarrow> x < k * effective_ceiling c" for x k
    using C by (rule pos_divide_less_eq)
  show ?thesis
    unfolding route_decision_def effective_ceiling_def [symmetric] Let_def pcie_pressure_eq d
    by (simp add: r cong: conj_cong)
qed

lemma Rate_Limit_fits:
  fixes f :: real
  assumes "0 \<le> f" and "0 < r" and "f \<le> (C - n) * of_int r" and "0 \<le> n"
  shows "(C - n) * (85 / 100) + n \<le> C"
proof -
  have "0 \<le> (C - n) * real_of_int r" using assms by linarith
  then have "n \<le> C" using assms by (simp add: zero_le_mult_iff)
  then show ?thesis by (simp add: field_simps)
qed

section \<open>Properties\<close>

text \<open>
  C6: Whatever the order of step updates, commits, congestion changes and submissions, the
  scheduler's queue is a heap whose first entry has the highest gain, job ids are distinct
  and every submitted job was counted as exactly one of deferred, expedited or recompute; the
  reported queue depth equals the number of submissions (no operation removes a job).
\<close>

theorem sg_queue_invariant:
  assumes "0 < interval" and "0 < slo"
    and "s = fold sg_exec ops (service_gain_init base interval slo factor)"
  shows "is_heap je_key (sg_heap s) \<and>
    (\<forall>e \<in> set (sg_heap s). - key_neg_gain (je_key e) \<le> - key_neg_gain (je_key (hd (sg_heap s)))) \<and>
    distinct (map (key_job_id \<circ> je_key) (sg_heap s)) \<and>
    ss_jobs_deferred (sg_get_stats s) + ss_jobs_expedited (sg_get_stats s)
      + ss_recompute_recommended (sg_get_stats s) = ss_jobs_submitted (sg_get_stats s) \<and>
    int (ss_queue_depth (sg_get_stats s)) = ss_jobs_submitted (sg_get_stats s)"
proof -
  have inv: "sg_inv s" using assms sg_inv_init sg_inv_fold by metis
  then have h: "is_heap je_key (sg_heap s)" by (simp add: sg_inv_def)
  have "key_neg_gain (je_key (hd (sg_heap s))) \<le> key_neg_gain (je_key e)"
    if "e \<in> set (sg_heap s)" for e
    using heapq.top_least [OF h, of e] that by (auto simp: less_eq_job_key_def)
  then show ?thesis using inv by (auto simp: sg_inv_def sg_get_stats_def)
qed

theorem sg_queue_invariant_witness:
  "ss_jobs_submitted (sg_get_stats (fold sg_exec [Sg_Submit 0 ''a'' 7, Sg_Submit 1 ''b'' 500]
      (service_gain_init 100 500 100 (1 / 4)))) = 2 \<and>
   int (ss_queue_depth (sg_get_stats (fold sg_exec [Sg_Submit 0 ''a'' 7, Sg_Submit 1 ''b'' 500]
      (service_gain_init 100 500 100 (1 / 4))))) = 2"
proof -
  let ?s = "fold sg_exec [Sg_Submit 0 ''a'' 7, Sg_Submit 1 ''b'' 500]
      (service_gain_init 100 500 100 (1 / 4))"
  have "ss_jobs_submitted (sg_get_stats ?s) = 2"
    by (simp add: sg_get_stats_def service_gain_init_def)
  moreover have "int (ss_queue_depth (sg_get_stats ?s)) = ss_jobs_submitted (sg_get_stats ?s)"
    using sg_queue_invariant [OF _ _ refl, of 500 100
        "[Sg_Submit 0 ''a'' 7, Sg_Submit 1 ''b'' 500]" 100 "1 / 4"] by simp
  ultimately show ?thesis by simp
qed

text \<open>
  \<open>compute_gain\<close> raises exactly when the SLO budget is 0, or the milestone interval is
  0 at a positive step (division by zero); otherwise, with positive parameters, the score is
  in [0, 1], it is 0.95 at every positive multiple of the milestone interval, and away from
  milestones a later last commit never increases it.
\<close>

lemma compute_gain_correct:
  "(compute_gain step s = Inl e \<longleftrightarrow> e = ZeroDivisionError \<and>
      (sg_slo_deadline_steps s = 0 \<or> 0 < step \<and> sg_milestone_interval s = 0)) \<and>
   (gain_ok s \<longrightarrow>
      (\<exists>g. compute_gain step s = Inr g \<and> 0 \<le> g \<and> g \<le> 1 \<and>
        (0 < step \<and> sg_milestone_interval s dvd step \<longrightarrow> g = MILESTONE_GAIN) \<and>
        (\<forall>c g'. compute_gain step (mark_committed c s) = Inr g' \<longrightarrow> g' \<le> g)))"
proof -
  have mono: "learning_progress step (mark_committed c s) \<le> learning_progress step s \<and>
    recovery_value step (mark_committed c s) \<le> recovery_value step s \<and>
    urgency step (mark_committed c s) = urgency step s" for c
    by (rule commit_mono)
  have later: "g' \<le> g" if ok: "gain_ok s" and g: "compute_gain step s = Inr g"
      "compute_gain step (mark_committed c s) = Inr g'" for c g g'
  proof -
    have ok': "gain_ok (mark_committed c s)" and i: "sg_milestone_interval (mark_committed c s)
        = sg_milestone_interval s"
      using ok by (simp_all add: gain_ok_def mark_committed_def)
    show ?thesis
      using ok ok' g i mono [of c]
      by (cases rule: compute_gain_cases [OF ok, of step];
          cases rule: compute_gain_cases [OF ok', of step])
        (auto simp: gain_constants)
  qed
  show ?thesis
  proof (intro conjI impI)
    show "compute_gain step s = Inl e \<longleftrightarrow> e = ZeroDivisionError \<and>
      (sg_slo_deadline_steps s = 0 \<or> 0 < step \<and> sg_milestone_interval s = 0)"
      by (auto simp: compute_gain_def Let_def)
  next
    assume ok: "gain_ok s"
    then obtain g where "compute_gain step s = Inr g" "0 \<le> g" "g \<le> 1"
      using compute_gain_ok by blast
    moreover have "0 < step \<and> sg_milestone_interval s dvd step \<longrightarrow> g = MILESTONE_GAIN"
      using calculation(1) ok by (auto simp: compute_gain_def gain_ok_def dvd_eq_mod_eq_0)
    ultimately show "\<exists>g. compute_gain step s = Inr g \<and> 0 \<le> g \<and> g \<le> 1 \<and>
        (0 < step \<and> sg_milestone_interval s dvd step \<longrightarrow> g = MILESTONE_GAIN) \<and>
        (\<forall>c g'. compute_gain step (mark_committed c s) = Inr g' \<longrightarrow> g' \<le> g)"
      using later [OF ok] by blast
  qed
qed

text \<open>
  C4: What \<open>submit_job\<close> returns. A job is deferrable exactly if its gain is below the
  deferral threshold, or below 0.6 under congestion; it gets its gain's share of the base
  bandwidth, scaled by the congestion factor when it is deferrable under congestion. The SLO
  has no part in it: the checkpoint step is recorded before the gain is computed, so the
  urgency term is always 0, every non-milestone gain is below 0.8 and the priority is the
  same for every SLO budget.
\<close>

theorem submit_job_priority:
  assumes "gain_ok s"
  shows "\<exists>p s'. submit_job now j step s = (Inr p, s') \<and> fp_job_id p = sg_job_counter s + 1 \<and>
    (fp_deferrable p \<longleftrightarrow> fp_gain p < (if sg_congested s then 6 / 10 else DEFERRAL_THRESH)) \<and>
    fp_allocated_bps p = sg_base_bps s * fp_gain p *
      (if sg_congested s \<and> fp_deferrable p then sg_congestion_bw_factor s else 1) \<and>
    (fp_recompute_fallback p \<longrightarrow> sg_congested s \<and> fp_deferrable p) \<and>
    (sg_milestone_interval s dvd step \<and> 0 < step \<or> fp_gain p < 80 / 100) \<and>
    (\<forall>slo > 0. fst (submit_job now j step (s\<lparr>sg_slo_deadline_steps := slo\<rparr>)) = Inr p)"
proof -
  obtain s1 g where s1: "s1 = s\<lparr>sg_last_ckpt_step := step,
        sg_job_counter := sg_job_counter s + 1, sg_jobs_submitted := sg_jobs_submitted s + 1\<rparr>"
      and ok: "gain_ok s1" and g: "compute_gain step s1 = Inr g"
      and sub: "submit_job now j step s = (Inr (flush_priority_of (sg_job_counter s + 1) g s1),
        enqueue_job now j (flush_priority_of (sg_job_counter s + 1) g s1) s1)"
    using assms by (rule submit_job_ok)
  have u0: "urgency step s1 = 0" using ok by (intro urgency_fresh) (simp_all add: gain_ok_def s1)
  have low: "sg_milestone_interval s dvd step \<and> 0 < step \<or> g < 80 / 100"
    using g u0 by (cases rule: compute_gain_cases [OF ok, of step]) (auto simp: s1)
  have indep: "fst (submit_job now j step (s\<lparr>sg_slo_deadline_steps := slo\<rparr>)) = fst (submit_job now j step s)"
    if slo: "0 < slo" for slo
  proof -
    let ?s2 = "s1\<lparr>sg_slo_deadline_steps := slo\<rparr>"
    have "urgency step ?s2 = 0" using slo by (intro urgency_fresh) (simp_all add: s1)
    then have "compute_gain step ?s2 = compute_gain step s1"
      using u0 slo ok by (simp add: compute_gain_def gain_ok_def learning_progress_def
          recovery_value_def)
    moreover have "s\<lparr>sg_slo_deadline_steps := slo, sg_last_ckpt_step := step,
        sg_job_counter := sg_job_counter s + 1, sg_jobs_submitted := sg_jobs_submitted s + 1\<rparr>
      = ?s2" by (cases s) (simp add: s1)
    ultimately have "compute_gain step (s\<lparr>sg_slo_deadline_steps := slo, sg_last_ckpt_step := step,
        sg_job_counter := sg_job_counter s + 1, sg_jobs_submitted := sg_jobs_submitted s + 1\<rparr>)
      = Inr g" using g by simp
    then show ?thesis by (simp add: sub) (auto simp: submit_job_def s1 Let_def flush_priority_of_def)
  qed
  let ?p = "flush_priority_of (sg_job_counter s + 1) g s1"
  have p: "fp_deferrable ?p \<longleftrightarrow> g < (if sg_congested s then 6 / 10 else DEFERRAL_THRESH)"
    "fp_allocated_bps ?p = sg_base_bps s * g *
      (if sg_congested s \<and> fp_deferrable ?p then sg_congestion_bw_factor s else 1)"
    "fp_recompute_fallback ?p \<longrightarrow> sg_congested s \<and> fp_deferrable ?p"
    by (auto simp: flush_priority_of_def s1 Let_def DEFERRAL_THRESH_def)
  have "\<forall>slo > 0. fst (submit_job now j step (s\<lparr>sg_slo_deadline_steps := slo\<rparr>)) = Inr ?p"
    using indep by (simp add: sub)
  with sub p low show ?thesis
    by (intro exI [of _ ?p] exI [of _ "enqueue_job now j ?p s1"] conjI)
      (simp_all only: flush_priority_of_simps)
qed

theorem submit_job_priority_witness:
  "\<exists>p s'. submit_job 0 ''a'' 99 (service_gain_init 100 500 100 (1 / 4)) = (Inr p, s') \<and>
     fp_gain p < 80 / 100 \<and> fp_job_id p = 1"
proof -
  have "gain_ok (service_gain_init 100 500 100 (1 / 4))"
    by (simp add: gain_ok_def service_gain_init_def)
  then show ?thesis
    using submit_job_priority [of "service_gain_init 100 500 100 (1 / 4)" 0 "''a''" 99]
    by (fastforce simp: service_gain_init_def)
qed

text \<open>
  C3: Traffic conformance of the token bucket: over any sequence of \<open>set_rate\<close> and
  \<open>acquire\<close> calls on a monotonic clock, with rates at most \<open>R\<close>, the bytes granted
  are at most the capacity plus \<open>R\<close> times the elapsed time, and the fill level stays
  between 0 and the capacity.
\<close>

theorem token_bucket_conformance:
  assumes "0 \<le> rate" and "rate \<le> R" and "0 < cap"
    and "tb_legal_run R ops (0, token_bucket_init t0 rate (Some cap))"
    and "tb_run ops (0, token_bucket_init t0 rate (Some cap)) = Some (granted, b)"
  shows "granted \<le> cap + R * (tb_last_ts b - t0) \<and> 0 \<le> tb_tokens b \<and> tb_tokens b \<le> cap"
proof -
  let ?b0 = "token_bucket_init t0 rate (Some cap)"
  have "bucket_ok R ?b0" "tb_capacity ?b0 = cap" "tb_tokens ?b0 = cap" "tb_last_ts ?b0 = t0"
    using assms(1-3) by (simp_all add: bucket_ok_def token_bucket_init_def)
  then show ?thesis
    using tb_run_bound [OF assms(5,4)] by (auto simp: bucket_ok_def algebra_simps)
qed

theorem token_bucket_conformance_witness:
  "tb_run [Tb_Acquire 0 10 None [(0, 0)], Tb_Acquire 0 4 (Some 5) [(1, 1), (2, 2)]]
     (0, token_bucket_init 0 2 (Some 10)) = Some (14, \<lparr>tb_rate_bps = 2, tb_capacity = 10,
        tb_tokens = 0, tb_last_ts = 2\<rparr>) \<and> (14::real) \<le> 10 + 2 * (2 - 0)"
proof -
  let ?ops = "[Tb_Acquire 0 10 None [(0, 0)], Tb_Acquire 0 4 (Some 5) [(1, 1), (2, 2)]]"
  let ?b0 = "token_bucket_init 0 2 (Some 10)"
  note eval = token_bucket_init_def acquire_def acquire_deadline_def refill_def Let_def
  have r: "tb_run ?ops (0, ?b0) = Some (14, \<lparr>tb_rate_bps = 2, tb_capacity = 10,
        tb_tokens = 0, tb_last_ts = 2\<rparr>)"
    by (simp add: eval)
  have l: "tb_legal_run 2 ?ops (0, ?b0)" by (simp add: eval)
  show ?thesis using token_bucket_conformance [OF _ _ _ l r] r by simp
qed

text \<open>
  C7: Liveness of \<open>acquire\<close>: a request of at most the capacity is granted as soon as an
  iteration of the loop runs at a time when rate times elapsed time covers what is missing,
  provided the deadline has not passed before; a request above the capacity is never granted.
\<close>

theorem token_bucket_liveness:
  "(clock \<noteq> [] \<and> n \<le> tb_capacity b \<and> (\<forall>(a, c) \<in> set clock. c < acquire_deadline now timeout) \<and>
      n \<le> tb_tokens b + (fst (last clock) - tb_last_ts b) * tb_rate_bps b \<longrightarrow>
      (\<exists>b'. acquire now n timeout clock b = Some (True, b'))) \<and>
   (tb_capacity b < n \<longrightarrow> (\<forall>b'. acquire now n timeout clock b \<noteq> Some (True, b')))"
  using acquire_loop_liveness [of clock n b "acquire_deadline now timeout"]
    acquire_loop_oversize [of n "acquire_deadline now timeout" clock b True]
  by (auto simp: acquire_def)

theorem token_bucket_liveness_witness:
  "\<exists>b'. acquire 0 4 (Some 5) [(1, 1), (2, 2)]
     \<lparr>tb_rate_bps = 2, tb_capacity = 10, tb_tokens = 0, tb_last_ts = 0\<rparr> = Some (True, b')"
  using token_bucket_liveness [of "[(1, 1), (2, 2)]" 4
      "\<lparr>tb_rate_bps = 2, tb_capacity = 10, tb_tokens = 0, tb_last_ts = 0\<rparr>" 0 "Some 5"]
  by (simp add: acquire_deadline_def)

text \<open>
  C5: The routing decision respects the PCIe ceiling. A flush that may proceed needs less
  than 90 percent of the ceiling together with the collective traffic; a rate limit plus the
  collective traffic never exceeds the ceiling; a micro delay is between 1 and 50 ms and only
  used below a pressure of 1.5; a flush is deferred only from a pressure of 1.5 on. Above 1.5
  the flush is still rate-limited instead of deferred when the idle rails' headroom fits it.
\<close>

theorem route_decision_safe:
  assumes "0 \<le> kv" and "0 \<le> nccl"
  shows "case route_decision kv w nccl rails c of
      Proceed r \<Rightarrow> r = predict_flush_bw kv w \<and> r + nccl < 90 / 100 * effective_ceiling c
    | Rate_Limit r \<Rightarrow> r + nccl \<le> effective_ceiling c \<and> 0 < rails
    | Micro_Delay d \<Rightarrow> 1 \<le> d \<and> d \<le> 50 \<and>
        predict_flush_bw kv w + nccl < 150 / 100 * effective_ceiling c
    | Defer z \<Rightarrow> z = 0 \<and> 150 / 100 * effective_ceiling c \<le> predict_flush_bw kv w + nccl \<and>
        \<not> (0 < rails \<and> predict_flush_bw kv w \<le> (effective_ceiling c - nccl) * of_int rails)"
proof -
  have "0 < rails \<and> predict_flush_bw kv w \<le> (effective_ceiling c - nccl) * of_int rails \<Longrightarrow>
      (effective_ceiling c - nccl) * (85 / 100) + nccl \<le> effective_ceiling c"
    using Rate_Limit_fits [OF predict_flush_bw_nonneg [OF assms(1)] _ _ assms(2)] by blast
  then show ?thesis unfolding route_decision_eq Let_def by auto
qed

theorem route_decision_safe_witness:
  "route_decision (160 * 10 ^ 9) 1 (10 * 10 ^ 9) 4 0 = Rate_Limit (459 * 10 ^ 8) \<and>
   (459 * 10 ^ 8 :: real) + 10 * 10 ^ 9 \<le> effective_ceiling 0"
proof -
  have e: "route_decision (160 * 10 ^ 9) 1 (10 * 10 ^ 9) 4 0 = Rate_Limit (459 * 10 ^ 8)"
    by (simp add: route_decision_eq effective_ceiling_def PCIE_CEILING_BPS_def
        predict_flush_bw_def Let_def)
  then show ?thesis
    using route_decision_safe [of "160 * 10 ^ 9" "10 * 10 ^ 9" 1 0 4] by simp
qed

end
