(* ===== verification/Interleaving.thy ===== *)
theory Interleaving
  imports Prelude
begin

text \<open>
  \<^verbatim>\<open>tempo/interleaving_engine.py\<close>: the predictor of phase durations and the
  engine that opens an I/O window in a compute phase and closes it before the predicted NCCL
  phase. A \<open>threading.Timer\<close> is an entry of \<open>ie_pending\<close> with its due time; when
  it expires its callback is in flight (\<open>ie_callbacks\<close>) until it gets the lock, and
  cancelling it then has no effect.
\<close>

section \<open>Predictor\<close>

definition WINDOW_SIZE :: nat where "WINDOW_SIZE = 32"
definition SAFETY_MARGIN_MS :: real where "SAFETY_MARGIN_MS = 2"
definition EWMA_ALPHA :: real where "EWMA_ALPHA = 20 / 100"
definition MIN_IO_WINDOW_MS :: real where "MIN_IO_WINDOW_MS = 1"
definition DEFAULT_PRED_MS :: real where "DEFAULT_PRED_MS = 50"

record predictor =
  pd_alpha :: real
  pd_compute_ewma :: real
  pd_nccl_ewma :: real
  pd_compute_var :: real
  pd_nccl_var :: real
  pd_history :: "(real \<times> real) list"

definition predictor_init :: "real \<Rightarrow> predictor" where
  "predictor_init alpha =
     \<lparr>pd_alpha = alpha, pd_compute_ewma = DEFAULT_PRED_MS, pd_nccl_ewma = DEFAULT_PRED_MS / 2,
      pd_compute_var = (DEFAULT_PRED_MS * (15 / 100))\<^sup>2,
      pd_nccl_var = (DEFAULT_PRED_MS * (15 / 100))\<^sup>2, pd_history = []\<rparr>"

definition ewma :: "real \<Rightarrow> real \<Rightarrow> real \<Rightarrow> real" where
  "ewma alpha x e = alpha * x + (1 - alpha) * e"

definition ewm_var :: "real \<Rightarrow> real \<Rightarrow> real \<Rightarrow> real \<Rightarrow> real" where
  "ewm_var alpha x e v = (1 - alpha) * v + alpha * (x - e)\<^sup>2"

definition update_compute :: "real \<Rightarrow> predictor \<Rightarrow> predictor" where
  "update_compute dur_ms p =
     p\<lparr>pd_compute_var := ewm_var (pd_alpha p) dur_ms (pd_compute_ewma p) (pd_compute_var p),
       pd_compute_ewma := ewma (pd_alpha p) dur_ms (pd_compute_ewma p)\<rparr>"

definition update_nccl :: "real \<Rightarrow> predictor \<Rightarrow> predictor" where
  "update_nccl dur_ms p =
     (let p1 = p\<lparr>pd_nccl_var := ewm_var (pd_alpha p) dur_ms (pd_nccl_ewma p) (pd_nccl_var p),
                 pd_nccl_ewma := ewma (pd_alpha p) dur_ms (pd_nccl_ewma p)\<rparr>
      in p1\<lparr>pd_history := deque_append WINDOW_SIZE (pd_compute_ewma p1, pd_nccl_ewma p1)
              (pd_history p1)\<rparr>)"

definition predict :: "predictor \<Rightarrow> real \<times> real \<times> real" where
  "predict p =
     (let sigma_nccl = sqrt (max 0 (pd_nccl_var p));
          safety = max SAFETY_MARGIN_MS (15 / 100 * sigma_nccl)
      in (pd_compute_ewma p, pd_nccl_ewma p, safety))"

definition has_data :: "predictor \<Rightarrow> bool" where
  "has_data p \<longleftrightarrow> 4 \<le> length (pd_history p)"

section \<open>Engine\<close>

record engine =
  ie_predictor :: predictor
  ie_in_compute :: bool
  ie_compute_start :: real
  ie_deadline :: bool
  ie_deadline_timer :: "nat option"
  ie_pending :: "(nat \<times> real) list"
  ie_callbacks :: nat
  ie_timer_count :: nat
  ie_io_windows_opened :: int
  ie_io_windows_cut_early :: int
  ie_io_windows_cut_late :: int
  ie_total_io_window_ms :: real
  ie_total_safe_window_ms :: real
  ie_efficiency_sum :: real
  ie_efficiency_count :: int

definition engine_init :: "predictor \<Rightarrow> engine" where
  "engine_init p =
     \<lparr>ie_predictor = p, ie_in_compute = False, ie_compute_start = 0, ie_deadline = False,
      ie_deadline_timer = None, ie_pending = [], ie_callbacks = 0, ie_timer_count = 0,
      ie_io_windows_opened = 0, ie_io_windows_cut_early = 0, ie_io_windows_cut_late = 0,
      ie_total_io_window_ms = 0, ie_total_safe_window_ms = 0, ie_efficiency_sum = 0,
      ie_efficiency_count = 0\<rparr>"

definition cancel_timer :: "engine \<Rightarrow> engine" where
  "cancel_timer e =
     (case ie_deadline_timer e of
        None \<Rightarrow> e
      | Some i \<Rightarrow> e\<lparr>ie_pending := filter (\<lambda>(j, due). j \<noteq> i) (ie_pending e)\<rparr>)"

definition start_timer :: "real \<Rightarrow> engine \<Rightarrow> engine" where
  "start_timer due e =
     e\<lparr>ie_deadline_timer := Some (ie_timer_count e),
       ie_pending := ie_pending e @ [(ie_timer_count e, due)],
       ie_timer_count := ie_timer_count e + 1\<rparr>"

definition safe_window :: "predictor \<Rightarrow> real" where
  "safe_window p = (case predict p of (pred_compute_ms, _, safety_ms) \<Rightarrow> max 0 (pred_compute_ms - safety_ms))"

definition on_compute_start :: "real \<Rightarrow> engine \<Rightarrow> engine" where
  "on_compute_start now e =
     (let e1 = e\<lparr>ie_in_compute := True, ie_compute_start := now, ie_deadline := False,
                 ie_io_windows_opened := ie_io_windows_opened e + 1\<rparr>;
          safe_window_ms = safe_window (ie_predictor e1);
          e2 = e1\<lparr>ie_total_safe_window_ms := ie_total_safe_window_ms e1 + safe_window_ms\<rparr>
      in if MIN_IO_WINDOW_MS \<le> safe_window_ms
         then start_timer (now + safe_window_ms / 1000) (cancel_timer e2)
         else e2\<lparr>ie_deadline := True\<rparr>)"

definition on_compute_end :: "real \<Rightarrow> engine \<Rightarrow> engine" where
  "on_compute_end now e =
     (let e1 = (cancel_timer e)\<lparr>ie_deadline_timer := None\<rparr>;
          elapsed_ms = (now - ie_compute_start e1) * 1000;
          e2 = (if ie_in_compute e1
                then e1\<lparr>ie_predictor := update_compute elapsed_ms (ie_predictor e1),
                        ie_total_io_window_ms := ie_total_io_window_ms e1 + elapsed_ms,
                        ie_in_compute := False\<rparr>
                else e1)
      in if \<not> ie_deadline e2
         then e2\<lparr>ie_deadline := True, ie_io_windows_cut_late := ie_io_windows_cut_late e2 + 1\<rparr>
         else e2)"

definition on_nccl_end :: "real \<Rightarrow> engine \<Rightarrow> engine" where
  "on_nccl_end nccl_dur_ms e = e\<lparr>ie_predictor := update_nccl nccl_dur_ms (ie_predictor e)\<rparr>"

definition io_deadline_reached :: "engine \<Rightarrow> bool" where
  "io_deadline_reached e \<longleftrightarrow> ie_deadline e"

text \<open>
  The polling loop of \<open>wait_for_io_window\<close>: each observation is the event flag at the
  loop head and the time waited when the timeout is checked.
\<close>

fun wait_for_io_window :: "real option \<Rightarrow> (bool \<times> real) list \<Rightarrow> bool option" where
  "wait_for_io_window timeout [] = None"
| "wait_for_io_window timeout ((is_set, waited) # obs) =
     (if \<not> is_set then Some True
      else case timeout of
             Some t \<Rightarrow> if t \<noteq> 0 \<and> t < waited then Some False else wait_for_io_window timeout obs
           | None \<Rightarrow> wait_for_io_window timeout obs)"

definition get_safe_window_ms :: "real \<Rightarrow> engine \<Rightarrow> real" where
  "get_safe_window_ms now e =
     (if \<not> ie_in_compute e then 0
      else
        let elapsed_ms = (now - ie_compute_start e) * 1000
        in case predict (ie_predictor e) of (pred_ms, _, s) \<Rightarrow> max 0 (pred_ms - s - elapsed_ms))"

text \<open>The timer expires and its callback waits for the lock; the callback runs.\<close>

definition timer_expires :: "nat \<Rightarrow> engine \<Rightarrow> engine" where
  "timer_expires i e =
     e\<lparr>ie_pending := filter (\<lambda>(j, due). j \<noteq> i) (ie_pending e), ie_callbacks := ie_callbacks e + 1\<rparr>"

definition fire_deadline :: "engine \<Rightarrow> engine" where
  "fire_deadline e =
     e\<lparr>ie_deadline := True, ie_io_windows_cut_early := ie_io_windows_cut_early e + 1,
       ie_callbacks := ie_callbacks e - 1\<rparr>"

record ie_stats =
  is_io_windows_opened :: int
  is_io_windows_cut_early :: int
  is_io_windows_cut_late :: int
  is_total_io_window_ms :: real
  is_total_safe_window_ms :: real
  is_efficiency_sum :: real
  is_efficiency_count :: int
  is_safe_window_ms_avg :: real
  is_io_window_ms_avg :: real

definition ie_get_stats :: "engine \<Rightarrow> ie_stats" where
  "ie_get_stats e =
     \<lparr>is_io_windows_opened = ie_io_windows_opened e,
      is_io_windows_cut_early = ie_io_windows_cut_early e,
      is_io_windows_cut_late = ie_io_windows_cut_late e,
      is_total_io_window_ms = ie_total_io_window_ms e,
      is_total_safe_window_ms = ie_total_safe_window_ms e,
      is_efficiency_sum = ie_efficiency_sum e, is_efficiency_count = ie_efficiency_count e,
      is_safe_window_ms_avg = ie_total_safe_window_ms e / of_int (max 1 (ie_io_windows_opened e)),
      is_io_window_ms_avg = ie_total_io_window_ms e / of_int (max 1 (ie_io_windows_opened e))\<rparr>"

section \<open>Predictor lemmas\<close>

lemma ewma_filter: "0 < alpha \<Longrightarrow> alpha \<le> 1 \<Longrightarrow> ema_filter (ewma alpha) alpha"
  by unfold_locales (simp_all add: ewma_def)

interpretation phase_ewma: ema_filter "ewma EWMA_ALPHA" EWMA_ALPHA
  by (rule ewma_filter) (simp_all add: EWMA_ALPHA_def)

definition pd_ok :: "real \<Rightarrow> real \<Rightarrow> predictor \<Rightarrow> bool" where
  "pd_ok lo hi p \<longleftrightarrow> pd_alpha p = EWMA_ALPHA \<and>
     lo \<le> pd_compute_ewma p \<and> pd_compute_ewma p \<le> hi \<and>
     lo \<le> pd_nccl_ewma p \<and> pd_nccl_ewma p \<le> hi \<and>
     0 \<le> pd_nccl_var p \<and> pd_nccl_var p \<le> (hi - lo)\<^sup>2 \<and> length (pd_history p) \<le> WINDOW_SIZE"

lemma sq_dist_le: "lo \<le> x \<Longrightarrow> x \<le> hi \<Longrightarrow> lo \<le> y \<Longrightarrow> y \<le> hi \<Longrightarrow> (x - y)\<^sup>2 \<le> (hi - lo)\<^sup>2" for x :: real
  by (rule power2_le_iff_abs_le [THEN iffD2]) auto

lemma ewm_var_range:
  assumes "0 \<le> v" "v \<le> w" "0 \<le> (x - e)\<^sup>2" "(x - e)\<^sup>2 \<le> w"
  shows "0 \<le> ewm_var EWMA_ALPHA x e v \<and> ewm_var EWMA_ALPHA x e v \<le> w"
  using assms by (simp add: ewm_var_def EWMA_ALPHA_def)

lemma pd_ok_compute:
  "pd_ok lo hi p \<Longrightarrow> lo \<le> d \<Longrightarrow> d \<le> hi \<Longrightarrow> pd_ok lo hi (update_compute d p)"
  by (auto simp: pd_ok_def update_compute_def intro: phase_ewma.upd_lower phase_ewma.upd_upper)

lemma pd_ok_nccl:
  assumes "pd_ok lo hi p" and "lo \<le> d" and "d \<le> hi"
  shows "pd_ok lo hi (update_nccl d p)"
proof -
  have "(d - pd_nccl_ewma p)\<^sup>2 \<le> (hi - lo)\<^sup>2"
    using assms by (intro sq_dist_le) (auto simp: pd_ok_def)
  with assms show ?thesis
    using ewm_var_range [of "pd_nccl_var p" "(hi - lo)\<^sup>2" d "pd_nccl_ewma p"]
    by (auto simp: pd_ok_def update_nccl_def Let_def
        intro: phase_ewma.upd_lower phase_ewma.upd_upper)
qed

section \<open>Engine lemmas\<close>

text \<open>
  Histories of the engine with the clock. A timer expires only when it is due, and a callback
  that is in flight may run at any later moment.
\<close>

inductive ie_reach :: "real \<Rightarrow> real \<Rightarrow> real \<Rightarrow> engine \<Rightarrow> bool" for lo :: real and hi :: real where
  init: "pd_ok lo hi p \<Longrightarrow> ie_reach lo hi t0 (engine_init p)"
| tick: "ie_reach lo hi t e \<Longrightarrow> t \<le> t' \<Longrightarrow> ie_reach lo hi t' e"
| compute_start: "ie_reach lo hi t e \<Longrightarrow> ie_reach lo hi t (on_compute_start t e)"
| compute_end: "ie_reach lo hi t e \<Longrightarrow>
    (ie_in_compute e \<Longrightarrow> lo \<le> (t - ie_compute_start e) * 1000 \<and> (t - ie_compute_start e) * 1000 \<le> hi) \<Longrightarrow>
    ie_reach lo hi t (on_compute_end t e)"
| nccl_end: "ie_reach lo hi t e \<Longrightarrow> lo \<le> d \<Longrightarrow> d \<le> hi \<Longrightarrow> ie_reach lo hi t (on_nccl_end d e)"
| expires: "ie_reach lo hi t e \<Longrightarrow> (i, due) \<in> set (ie_pending e) \<Longrightarrow> due \<le> t \<Longrightarrow>
    ie_reach lo hi t (timer_expires i e)"
| fires: "ie_reach lo hi t e \<Longrightarrow> 0 < ie_callbacks e \<Longrightarrow> ie_reach lo hi t (fire_deadline e)"

text \<open>
  The window is closed outside compute phases, and an open window has a timer armed within the
  bound on the predictions, or its callback is about to run. Every window has at most one timer.
\<close>

definition ie_inv :: "real \<Rightarrow> real \<Rightarrow> engine \<Rightarrow> bool" where
  "ie_inv lo hi e \<longleftrightarrow> pd_ok lo hi (ie_predictor e) \<and>
     (\<not> ie_in_compute e \<and> 0 < ie_io_windows_opened e \<longrightarrow> ie_deadline e) \<and>
     (ie_in_compute e \<and> \<not> ie_deadline e \<longrightarrow>
        0 < ie_callbacks e \<or>
        (\<exists>i due. ie_deadline_timer e = Some i \<and> (i, due) \<in> set (ie_pending e) \<and>
           due \<le> ie_compute_start e + (hi - SAFETY_MARGIN_MS) / 1000)) \<and>
     (\<forall>(i, due) \<in> set (ie_pending e). i < ie_timer_count e) \<and>
     0 \<le> ie_io_windows_cut_early e \<and> 0 \<le> ie_io_windows_cut_late e \<and>
     ie_io_windows_cut_early e + int (ie_callbacks e) + int (length (ie_pending e))
       \<le> ie_io_windows_opened e \<and>
     ie_io_windows_cut_late e + (if ie_deadline e then 0 else 1) \<le> ie_io_windows_opened e + 1"

lemma safe_window_le: "pd_ok lo hi p \<Longrightarrow> MIN_IO_WINDOW_MS \<le> safe_window p \<Longrightarrow>
    safe_window p \<le> hi - SAFETY_MARGIN_MS"
  by (auto simp: safe_window_def predict_def Let_def pd_ok_def MIN_IO_WINDOW_MS_def max_def
      split: if_splits)

lemma cancel_timer_simps [simp]:
  "ie_predictor (cancel_timer e) = ie_predictor e" "ie_in_compute (cancel_timer e) = ie_in_compute e"
  "ie_compute_start (cancel_timer e) = ie_compute_start e" "ie_deadline (cancel_timer e) = ie_deadline e"
  "ie_deadline_timer (cancel_timer e) = ie_deadline_timer e"
  "ie_callbacks (cancel_timer e) = ie_callbacks e" "ie_timer_count (cancel_timer e) = ie_timer_count e"
  "ie_io_windows_opened (cancel_timer e) = ie_io_windows_opened e"
  "ie_io_windows_cut_early (cancel_timer e) = ie_io_windows_cut_early e"
  "ie_io_windows_cut_late (cancel_timer e) = ie_io_windows_cut_late e"
  by (auto simp: cancel_timer_def split: option.splits)

lemma cancel_timer_pending:
  "set (ie_pending (cancel_timer e)) \<subseteq> set (ie_pending e)"
  "length (ie_pending (cancel_timer e)) \<le> length (ie_pending e)"
  by (auto simp: cancel_timer_def split: option.splits)

lemma ie_inv_start: "ie_inv lo hi e \<Longrightarrow> ie_inv lo hi (on_compute_start t e)"
proof -
  assume inv: "ie_inv lo hi e"
  let ?e1 = "e\<lparr>ie_in_compute := True, ie_compute_start := t, ie_deadline := False,
      ie_io_windows_opened := ie_io_windows_opened e + 1,
      ie_total_safe_window_ms := ie_total_safe_window_ms e + safe_window (ie_predictor e)\<rparr>"
  let ?due = "t + safe_window (ie_predictor e) / 1000"
  note c = cancel_timer_pending [of ?e1]
  show ?thesis
  proof (cases "MIN_IO_WINDOW_MS \<le> safe_window (ie_predictor e)")
    case True
    then have "safe_window (ie_predictor e) \<le> hi - SAFETY_MARGIN_MS"
      using inv safe_window_le unfolding ie_inv_def by blast
    then have "?due \<le> t + (hi - SAFETY_MARGIN_MS) / 1000" by simp
    moreover have "on_compute_start t e = start_timer ?due (cancel_timer ?e1)"
      using True by (simp add: on_compute_start_def Let_def)
    moreover have "\<forall>(i, due) \<in> set (ie_pending (cancel_timer ?e1)). i < ie_timer_count e"
      using inv c(1) by (fastforce simp: ie_inv_def)
    ultimately show ?thesis
      using inv c(2) by (fastforce simp: ie_inv_def start_timer_def split: if_splits)
  next
    case False
    then have "on_compute_start t e = ?e1\<lparr>ie_deadline := True\<rparr>"
      by (simp add: on_compute_start_def Let_def)
    then show ?thesis using inv by (auto simp: ie_inv_def split: if_splits)
  qed
qed

lemma ie_inv_end:
  assumes "ie_inv lo hi e"
    and "ie_in_compute e \<Longrightarrow> lo \<le> (t - ie_compute_start e) * 1000 \<and> (t - ie_compute_start e) * 1000 \<le> hi"
  shows "ie_inv lo hi (on_compute_end t e)"
proof -
  have "\<forall>(i, due) \<in> set (ie_pending (cancel_timer e)). i < ie_timer_count e"
    using assms(1) cancel_timer_pending(1) [of e] by (fastforce simp: ie_inv_def)
  then show ?thesis
    using assms cancel_timer_pending(2) [of e]
    by (auto simp: ie_inv_def on_compute_end_def Let_def pd_ok_compute split: if_splits)
qed

lemma ie_inv_expires:
  assumes inv: "ie_inv lo hi e" and i: "(i, due) \<in> set (ie_pending e)"
  shows "ie_inv lo hi (timer_expires i e)"
proof -
  have "length (filter (\<lambda>(j, due). j \<noteq> i) (ie_pending e)) < length (ie_pending e)"
    using i by (intro length_filter_less) auto
  then show ?thesis using inv by (auto simp: ie_inv_def timer_expires_def)
qed

lemma ie_reach_inv: "ie_reach lo hi t e \<Longrightarrow> ie_inv lo hi e"
proof (induction rule: ie_reach.induct)
  case (init p t0)
  then show ?case by (simp add: ie_inv_def engine_init_def)
next
  case (nccl_end t e d)
  then show ?case by (auto simp: ie_inv_def on_nccl_end_def pd_ok_nccl)
next
  case (fires t e)
  then show ?case by (auto simp: ie_inv_def fire_deadline_def split: if_splits)
qed (auto simp: ie_inv_start ie_inv_end ie_inv_expires)

lemma predict_safety: "predict p = (c, n, s) \<Longrightarrow> SAFETY_MARGIN_MS \<le> s"
  by (auto simp: predict_def Let_def)

lemma safe_window_predict: "predict p = (c, n, s) \<Longrightarrow> safe_window p = max 0 (c - s)"
  by (simp add: safe_window_def)

section \<open>Properties\<close>



text \<open>
  What a compute phase's start computes: the window opens exactly if the predicted compute
  time less the safety margin (at least 2 ms) is 1 ms or more, and then a timer is due that
  long after the start; while the prediction is unchanged the remaining window reported to
  the flush thread is the predicted one less the time passed; the timer's callback, or
  the end of the phase, closes the window.
\<close>

lemma compute_start_window:
  assumes "predict (ie_predictor e) = (c, n, s)"
  shows "SAFETY_MARGIN_MS \<le> s \<and>
    (io_deadline_reached (on_compute_start t e) \<longleftrightarrow> c - s < MIN_IO_WINDOW_MS) \<and>
    (MIN_IO_WINDOW_MS \<le> c - s \<longrightarrow>
      (ie_timer_count e, t + (c - s) / 1000) \<in> set (ie_pending (on_compute_start t e)) \<and>
      ie_deadline_timer (on_compute_start t e) = Some (ie_timer_count e)) \<and>
    get_safe_window_ms (t + d / 1000) (on_compute_start t e) = max 0 (c - s - d) \<and>
    io_deadline_reached (fire_deadline (timer_expires (ie_timer_count e) (on_compute_start t e))) \<and>
    io_deadline_reached (on_compute_end (t + d / 1000) (on_compute_start t e))"
proof -
  have w: "safe_window (ie_predictor e) = max 0 (c - s)"
    using assms by (rule safe_window_predict)
  have f: "ie_in_compute (on_compute_start t e)" "ie_compute_start (on_compute_start t e) = t"
    "ie_predictor (on_compute_start t e) = ie_predictor e"
    by (simp_all add: on_compute_start_def Let_def start_timer_def)
  have "io_deadline_reached (on_compute_start t e) \<longleftrightarrow> c - s < MIN_IO_WINDOW_MS"
    by (auto simp: on_compute_start_def Let_def io_deadline_reached_def start_timer_def w
        MIN_IO_WINDOW_MS_def max_def)
  moreover have "MIN_IO_WINDOW_MS \<le> c - s \<longrightarrow>
      (ie_timer_count e, t + (c - s) / 1000) \<in> set (ie_pending (on_compute_start t e)) \<and>
      ie_deadline_timer (on_compute_start t e) = Some (ie_timer_count e)"
    by (auto simp: on_compute_start_def Let_def start_timer_def w MIN_IO_WINDOW_MS_def max_def)
  moreover have "get_safe_window_ms (t + d / 1000) (on_compute_start t e) = max 0 (c - s - d)"
    by (simp add: get_safe_window_ms_def f assms)
  ultimately show ?thesis
    using predict_safety [OF assms]
    by (simp add: io_deadline_reached_def fire_deadline_def on_compute_end_def Let_def)
qed

end
