(* ===== verification/Phase_Monitor.thy ===== *)
theory Phase_Monitor
  imports Prelude
begin

text \<open>
  \<^verbatim>\<open>tempo/phase_monitor.py\<close>: the phase of the training loop and the gate that
  pauses background I/O while an NCCL collective is in flight. The lock makes every method
  atomic, so each is one function from the monitor's state (and the value read from
  \<open>time.perf_counter()\<close>) to the new state. A user callback is recorded in \<open>pm_calls\<close>
  when it is called; logging is left out.
\<close>

section \<open>State\<close>

datatype training_phase = IDLE | COMPUTE | NCCL_COMM | CHECKPOINT

datatype pm_call = On_nccl_start | On_nccl_end

record phase_monitor =
  pm_phase :: training_phase
  pm_rank :: int
  pm_verbose :: bool
  pm_nccl_enter_time :: real
  pm_nccl_total_s :: real
  pm_compute_enter_time :: real
  pm_compute_total_s :: real
  pm_step :: int
  pm_nccl_window_size :: nat
  pm_nccl_durations_ms :: "real list"
  pm_ema_nccl_ms :: real
  pm_io_allowed :: bool
  pm_on_nccl_start :: bool
  pm_on_nccl_end :: bool
  pm_calls :: "pm_call list"

definition phase_monitor_init :: "int \<Rightarrow> bool \<Rightarrow> phase_monitor" where
  "phase_monitor_init rank verbose =
     \<lparr>pm_phase = IDLE, pm_rank = rank, pm_verbose = verbose,
      pm_nccl_enter_time = 0, pm_nccl_total_s = 0,
      pm_compute_enter_time = 0, pm_compute_total_s = 0, pm_step = 0,
      pm_nccl_window_size = 16, pm_nccl_durations_ms = [], pm_ema_nccl_ms = 0,
      pm_io_allowed = True, pm_on_nccl_start = False, pm_on_nccl_end = False, pm_calls = []\<rparr>"

section \<open>Accessors\<close>

definition is_nccl_active :: "phase_monitor \<Rightarrow> bool" where
  "is_nccl_active m \<longleftrightarrow> pm_phase m = NCCL_COMM"

definition is_io_allowed :: "phase_monitor \<Rightarrow> bool" where
  "is_io_allowed m \<longleftrightarrow> pm_io_allowed m"

text \<open>
  \<open>Event.wait(timeout)\<close> returns once the flag is set, or with the flag's value when the
  timeout expires; the argument says whether the gate opened before the timeout.
\<close>

definition wait_for_io_allowed :: "bool \<Rightarrow> phase_monitor \<Rightarrow> bool" where
  "wait_for_io_allowed opened_in_time m \<longleftrightarrow> pm_io_allowed m \<or> opened_in_time"

definition TYPICAL_ALLREDUCE_BYTES :: real where
  "TYPICAL_ALLREDUCE_BYTES = 256 * 1024 * 1024"

definition get_dynamic_flush_rate :: "real \<Rightarrow> real \<Rightarrow> real \<Rightarrow> real \<Rightarrow> phase_monitor \<Rightarrow> real" where
  "get_dynamic_flush_rate requested_bps nccl_bw_bps pcie_ceiling_bps safety_margin m =
     (if pm_phase m = NCCL_COMM then 0
      else
        let effective_nccl_bps =
              (if nccl_bw_bps = 0 \<and> 0 < pm_ema_nccl_ms m
               then TYPICAL_ALLREDUCE_BYTES / (pm_ema_nccl_ms m * (1 / 1000))
               else nccl_bw_bps);
            nccl_fraction = effective_nccl_bps / max pcie_ceiling_bps 1;
            available_fraction = max 0 (1 - nccl_fraction - safety_margin);
            allocated_bps = pcie_ceiling_bps * available_fraction
        in min requested_bps allocated_bps)"

definition estimated_nccl_bps :: "phase_monitor \<Rightarrow> real" where
  "estimated_nccl_bps m =
     (if pm_phase m \<noteq> NCCL_COMM then 0
      else if pm_ema_nccl_ms m \<le> 0 then 0
      else TYPICAL_ALLREDUCE_BYTES / (pm_ema_nccl_ms m * (1 / 1000)))"

definition get_avg_nccl_duration_ms :: "phase_monitor \<Rightarrow> real" where
  "get_avg_nccl_duration_ms m =
     (if pm_nccl_durations_ms m = [] then 0
      else sum_list (pm_nccl_durations_ms m) / real (length (pm_nccl_durations_ms m)))"

definition nccl_phase_duration_ms :: "phase_monitor \<Rightarrow> real" where
  "nccl_phase_duration_ms m = pm_ema_nccl_ms m"

section \<open>Transitions\<close>

definition nccl_ema_update :: "real \<Rightarrow> real \<Rightarrow> real" where
  "nccl_ema_update elapsed_ms ema = 30 / 100 * elapsed_ms + 70 / 100 * ema"

definition leave_nccl :: "real \<Rightarrow> phase_monitor \<Rightarrow> phase_monitor" where
  "leave_nccl now m =
     (let elapsed = now - pm_nccl_enter_time m;
          elapsed_ms = elapsed * 1000;
          ds = pm_nccl_durations_ms m @ [elapsed_ms];
          ds' = (if length ds > pm_nccl_window_size m then tl ds else ds);
          ema = (if pm_ema_nccl_ms m = 0 then elapsed_ms
                 else nccl_ema_update elapsed_ms (pm_ema_nccl_ms m))
      in m\<lparr>pm_nccl_total_s := pm_nccl_total_s m + elapsed,
           pm_nccl_durations_ms := ds', pm_ema_nccl_ms := ema, pm_io_allowed := True,
           pm_calls := pm_calls m @ (if pm_on_nccl_end m then [On_nccl_end] else [])\<rparr>)"

definition enter_nccl :: "real \<Rightarrow> phase_monitor \<Rightarrow> phase_monitor" where
  "enter_nccl now m =
     m\<lparr>pm_nccl_enter_time := now, pm_io_allowed := False,
       pm_calls := pm_calls m @ (if pm_on_nccl_start m then [On_nccl_start] else [])\<rparr>"

definition set_phase :: "real \<Rightarrow> training_phase \<Rightarrow> phase_monitor \<Rightarrow> phase_monitor" where
  "set_phase now new_phase m =
     (let old_phase = pm_phase m in
      if old_phase = new_phase then m
      else
        let m1 = (if old_phase = COMPUTE
                  then m\<lparr>pm_compute_total_s :=
                         pm_compute_total_s m + (now - pm_compute_enter_time m)\<rparr>
                  else m);
            m2 = (if old_phase = NCCL_COMM then leave_nccl now m1 else m1);
            m3 = (if new_phase = NCCL_COMM then enter_nccl now m2 else m2);
            m4 = (if new_phase = COMPUTE then m3\<lparr>pm_compute_enter_time := now\<rparr> else m3)
        in m4\<lparr>pm_phase := new_phase\<rparr>)"

definition increment_step :: "phase_monitor \<Rightarrow> phase_monitor" where
  "increment_step m = m\<lparr>pm_step := pm_step m + 1\<rparr>"

definition reset_stats :: "phase_monitor \<Rightarrow> phase_monitor" where
  "reset_stats m = m\<lparr>pm_nccl_total_s := 0, pm_compute_total_s := 0\<rparr>"

text \<open>
  The context managers. The body is a computation on the monitor that may raise; the
  \<open>finally\<close> clause runs on both outcomes.
\<close>

type_synonym 'a pm_body = "phase_monitor \<Rightarrow> 'a result \<times> phase_monitor"

definition nccl_phase :: "real \<Rightarrow> real \<Rightarrow> 'a pm_body \<Rightarrow> 'a pm_body" where
  "nccl_phase t_enter t_exit body m =
     (case body (set_phase t_enter NCCL_COMM m) of (r, m') \<Rightarrow> (r, set_phase t_exit COMPUTE m'))"

definition compute_phase :: "real \<Rightarrow> real \<Rightarrow> 'a pm_body \<Rightarrow> 'a pm_body" where
  "compute_phase t_enter t_exit body m =
     (case body (set_phase t_enter COMPUTE m) of (r, m') \<Rightarrow> (r, set_phase t_exit IDLE m'))"

definition checkpoint_phase :: "real \<Rightarrow> real \<Rightarrow> 'a pm_body \<Rightarrow> 'a pm_body" where
  "checkpoint_phase t_enter t_exit body m =
     (case body (set_phase t_enter CHECKPOINT m) of (r, m') \<Rightarrow> (r, set_phase t_exit IDLE m'))"

section \<open>Communication hooks\<close>

text \<open>
  \<open>fsdp_comm_hook\<close> and the hook of \<open>make_ddp_comm_hook\<close> start an asynchronous
  all-reduce and return; when the collective finishes, the future's callback runs. The
  environment counts the collectives that were started and have not finished.
\<close>

record hook_env =
  he_monitor :: phase_monitor
  he_in_flight :: nat

definition fsdp_comm_hook :: "real \<Rightarrow> hook_env \<Rightarrow> hook_env" where
  "fsdp_comm_hook now h =
     h\<lparr>he_monitor := set_phase now NCCL_COMM (he_monitor h), he_in_flight := he_in_flight h + 1\<rparr>"

definition fsdp_mark_done :: "real \<Rightarrow> real \<Rightarrow> real \<Rightarrow> hook_env \<Rightarrow> real list \<times> hook_env" where
  "fsdp_mark_done now world_size value0 h =
     ([value0 / world_size],
      h\<lparr>he_monitor := set_phase now COMPUTE (he_monitor h), he_in_flight := he_in_flight h - 1\<rparr>)"

definition ddp_hook :: "real \<Rightarrow> hook_env \<Rightarrow> hook_env" where
  "ddp_hook now h =
     h\<lparr>he_monitor := set_phase now NCCL_COMM (he_monitor h), he_in_flight := he_in_flight h + 1\<rparr>"

definition ddp_on_done :: "real \<Rightarrow> real \<Rightarrow> hook_env \<Rightarrow> real list \<times> hook_env" where
  "ddp_on_done now value0 h =
     ([value0],
      h\<lparr>he_monitor := set_phase now COMPUTE (he_monitor h), he_in_flight := he_in_flight h - 1\<rparr>)"

section \<open>Statistics\<close>

record pm_stats =
  ps_step :: int
  ps_phase :: training_phase
  ps_nccl_total_s :: real
  ps_compute_total_s :: real
  ps_nccl_fraction :: real
  ps_io_allowed :: bool
  ps_avg_nccl_ms :: real
  ps_ema_nccl_ms :: real

definition pm_get_stats :: "phase_monitor \<Rightarrow> pm_stats" where
  "pm_get_stats m =
     (let total = pm_nccl_total_s m + pm_compute_total_s m + 1 / 10 ^ 12;
          avg_nccl = (if pm_nccl_durations_ms m = [] then 0
                      else sum_list (pm_nccl_durations_ms m) / real (length (pm_nccl_durations_ms m)))
      in \<lparr>ps_step = pm_step m, ps_phase = pm_phase m,
          ps_nccl_total_s = py_round 4 (pm_nccl_total_s m),
          ps_compute_total_s = py_round 4 (pm_compute_total_s m),
          ps_nccl_fraction = py_round 4 (pm_nccl_total_s m / total),
          ps_io_allowed = pm_io_allowed m,
          ps_avg_nccl_ms = py_round 2 avg_nccl,
          ps_ema_nccl_ms = py_round 2 (pm_ema_nccl_ms m)\<rparr>)"

section \<open>The gate as an interface\<close>

text \<open>
  What the flush thread relies on: a busy test, a gate that is open exactly when the
  monitor is not busy, and a granted rate that is zero while busy and otherwise leaves
  the estimated collective traffic and a margin free below the ceiling.
\<close>

locale flush_gate =
  fixes valid :: "'s \<Rightarrow> bool" and busy :: "'s \<Rightarrow> bool" and gate_open :: "'s \<Rightarrow> bool"
    and rate :: "real \<Rightarrow> real \<Rightarrow> real \<Rightarrow> real \<Rightarrow> 's \<Rightarrow> real"
    and demand :: "real \<Rightarrow> 's \<Rightarrow> real"
  assumes gate_closed_iff: "valid s \<Longrightarrow> gate_open s \<longleftrightarrow> \<not> busy s"
    and rate_busy: "busy s \<Longrightarrow> rate req nccl ceil margin s = 0"
    and rate_idle: "\<not> busy s \<Longrightarrow> 1 \<le> ceil \<Longrightarrow>
      rate req nccl ceil margin s = min req (max 0 (ceil * (1 - margin) - demand nccl s))"
begin

lemma rate_le_request: "0 \<le> req \<Longrightarrow> 1 \<le> ceil \<Longrightarrow> rate req nccl ceil margin s \<le> req"
  by (cases "busy s") (simp_all add: rate_busy rate_idle)

lemma rate_nonneg: "0 \<le> req \<Longrightarrow> 1 \<le> ceil \<Longrightarrow> 0 \<le> rate req nccl ceil margin s"
  by (cases "busy s") (simp_all add: rate_busy rate_idle)

lemma rate_budget:
  "1 \<le> ceil \<Longrightarrow> 0 < rate req nccl ceil margin s \<Longrightarrow>
     rate req nccl ceil margin s + demand nccl s \<le> ceil * (1 - margin)"
  by (cases "busy s") (auto simp: rate_busy rate_idle min_def max_def split: if_splits)

text \<open>
  A client that writes when it was granted a positive rate, or after it saw the gate open,
  never starts a write while the monitor is busy.
\<close>

lemma granted_not_busy:
  "valid s \<Longrightarrow> 0 < rate req nccl ceil margin s \<or> gate_open s \<Longrightarrow> \<not> busy s"
  using gate_closed_iff rate_busy by fastforce

lemma rate_antimono_demand:
  "\<not> busy s \<Longrightarrow> \<not> busy s' \<Longrightarrow> 1 \<le> ceil \<Longrightarrow> demand nccl s \<le> demand nccl' s' \<Longrightarrow>
     rate req nccl' ceil margin s' \<le> rate req nccl ceil margin s"
  by (simp add: rate_idle min_def max_def)

end

section \<open>Lemmas\<close>

text \<open>The collective traffic \<open>get_dynamic_flush_rate\<close> charges against the ceiling.\<close>

definition effective_nccl_bps :: "real \<Rightarrow> phase_monitor \<Rightarrow> real" where
  "effective_nccl_bps nccl_bw_bps m =
     (if nccl_bw_bps = 0 \<and> 0 < pm_ema_nccl_ms m
      then TYPICAL_ALLREDUCE_BYTES / (pm_ema_nccl_ms m * (1 / 1000)) else nccl_bw_bps)"

interpretation nccl_ema: ema_filter nccl_ema_update "30 / 100"
  by unfold_locales (simp_all add: nccl_ema_update_def)

lemma max_scale: "0 \<le> (c::real) \<Longrightarrow> c * max 0 x = max 0 (c * x)"
  by (auto simp: max_def mult_le_0_iff zero_le_mult_iff)

lemma dynamic_rate_idle:
  assumes "pm_phase m \<noteq> NCCL_COMM" and "1 \<le> ceil"
  shows "get_dynamic_flush_rate req nccl ceil margin m =
    min req (max 0 (ceil * (1 - margin) - effective_nccl_bps nccl m))"
proof -
  have "max ceil 1 = ceil" using assms by simp
  then have "ceil * (1 - effective_nccl_bps nccl m / max ceil 1 - margin)
      = ceil * (1 - margin) - effective_nccl_bps nccl m"
    using assms by (simp add: field_simps)
  then show ?thesis
    using assms by (simp add: get_dynamic_flush_rate_def Let_def effective_nccl_bps_def [symmetric]
        max_scale)
qed

lemmas set_phase_simps = set_phase_def leave_nccl_def enter_nccl_def Let_def

lemma set_phase_phase [simp]: "pm_phase (set_phase t p m) = p"
  by (simp add: set_phase_simps)

lemma set_phase_same [simp]: "set_phase t (pm_phase m) m = m"
  by (simp add: set_phase_def)

definition gate_ok :: "phase_monitor \<Rightarrow> bool" where
  "gate_ok m \<longleftrightarrow> (pm_io_allowed m \<longleftrightarrow> pm_phase m \<noteq> NCCL_COMM)"

lemma gate_ok_init [simp]: "gate_ok (phase_monitor_init r v)"
  by (simp add: gate_ok_def phase_monitor_init_def)

lemma gate_ok_set_phase [simp]: "gate_ok m \<Longrightarrow> gate_ok (set_phase t p m)"
  by (cases "pm_phase m"; cases p) (auto simp: gate_ok_def set_phase_simps)

interpretation pm: flush_gate gate_ok is_nccl_active is_io_allowed get_dynamic_flush_rate
    effective_nccl_bps
  by unfold_locales
    (auto simp: gate_ok_def is_nccl_active_def is_io_allowed_def dynamic_rate_idle,
     simp add: get_dynamic_flush_rate_def)

text \<open>
  The states the training thread can bring the monitor into, with the clock. \<open>D\<close> restricts
  the NCCL phase durations (in milliseconds) that occur.
\<close>

inductive pm_reach :: "(real \<Rightarrow> bool) \<Rightarrow> real \<Rightarrow> real \<Rightarrow> phase_monitor \<Rightarrow> bool"
  for D :: "real \<Rightarrow> bool" and t0 :: real where
  start: "pm_reach D t0 t0 (phase_monitor_init rank verbose)"
| tick: "pm_reach D t0 t m \<Longrightarrow> t \<le> now \<Longrightarrow> pm_reach D t0 now m"
| phase: "pm_reach D t0 t m \<Longrightarrow>
    (pm_phase m = NCCL_COMM \<Longrightarrow> p \<noteq> NCCL_COMM \<Longrightarrow> D ((t - pm_nccl_enter_time m) * 1000)) \<Longrightarrow>
    pm_reach D t0 t (set_phase t p m)"
| count: "pm_reach D t0 t m \<Longrightarrow> pm_reach D t0 t (increment_step m)"
| reset: "pm_reach D t0 t m \<Longrightarrow> pm_reach D t0 t (reset_stats m)"
| on_start: "pm_reach D t0 t m \<Longrightarrow> pm_reach D t0 t (m\<lparr>pm_on_nccl_start := b\<rparr>)"
| on_end: "pm_reach D t0 t m \<Longrightarrow> pm_reach D t0 t (m\<lparr>pm_on_nccl_end := b\<rparr>)"

definition open_interval :: "real \<Rightarrow> phase_monitor \<Rightarrow> real" where
  "open_interval t m =
     (case pm_phase m of NCCL_COMM \<Rightarrow> t - pm_nccl_enter_time m
      | COMPUTE \<Rightarrow> t - pm_compute_enter_time m | _ \<Rightarrow> 0)"

definition pm_inv :: "(real \<Rightarrow> bool) \<Rightarrow> real \<Rightarrow> real \<Rightarrow> phase_monitor \<Rightarrow> bool" where
  "pm_inv D t0 t m \<longleftrightarrow>
     gate_ok m \<and> t0 \<le> t \<and> pm_nccl_window_size m = 16 \<and>
     length (pm_nccl_durations_ms m) \<le> 16 \<and>
     (\<forall>d \<in> set (pm_nccl_durations_ms m). 0 \<le> d \<and> D d) \<and>
     0 \<le> pm_nccl_total_s m \<and> 0 \<le> pm_compute_total_s m \<and> 0 \<le> open_interval t m \<and>
     pm_nccl_total_s m + pm_compute_total_s m + open_interval t m \<le> t - t0"

lemmas pm_inv_simps = pm_inv_def open_interval_def

lemma pm_inv_init: "pm_inv D t0 t0 (phase_monitor_init r v)"
  by (simp add: pm_inv_simps) (simp add: phase_monitor_init_def)

lemma pm_inv_tick: "pm_inv D t0 t m \<Longrightarrow> t \<le> now \<Longrightarrow> pm_inv D t0 now m"
  by (auto simp: pm_inv_simps split: training_phase.splits)

lemma set_tl: "x \<in> set (tl xs) \<Longrightarrow> x \<in> set xs"
  by (cases xs) auto

lemma pm_inv_set_phase:
  assumes inv: "pm_inv D t0 t m"
    and D: "pm_phase m = NCCL_COMM \<Longrightarrow> p \<noteq> NCCL_COMM \<Longrightarrow> D ((t - pm_nccl_enter_time m) * 1000)"
  shows "pm_inv D t0 t (set_phase t p m)"
proof -
  from inv have g: "gate_ok (set_phase t p m)" by (simp add: pm_inv_def)
  from inv D have "length (pm_nccl_durations_ms (set_phase t p m)) \<le> 16 \<and>
      (\<forall>d \<in> set (pm_nccl_durations_ms (set_phase t p m)). 0 \<le> d \<and> D d)"
    by (cases "pm_phase m"; cases p) (auto simp: pm_inv_simps set_phase_simps dest!: set_tl)
  moreover from inv have "pm_nccl_window_size (set_phase t p m) = 16"
    by (simp add: pm_inv_def set_phase_simps)
  moreover from inv have "0 \<le> pm_nccl_total_s (set_phase t p m) \<and>
      0 \<le> pm_compute_total_s (set_phase t p m) \<and> 0 \<le> open_interval t (set_phase t p m) \<and>
      pm_nccl_total_s (set_phase t p m) + pm_compute_total_s (set_phase t p m)
        + open_interval t (set_phase t p m) \<le> t - t0"
    by (cases "pm_phase m"; cases p) (simp_all add: pm_inv_simps set_phase_simps)
  ultimately show ?thesis using g inv by (simp add: pm_inv_def)
qed

lemma pm_reach_inv: "pm_reach D t0 t m \<Longrightarrow> pm_inv D t0 t m"
proof (induction rule: pm_reach.induct)
  case (start rank verbose)
  then show ?case by (rule pm_inv_init)
next
  case (tick t m now)
  then show ?case by (blast intro: pm_inv_tick)
next
  case (phase t m p)
  then show ?case by (blast intro: pm_inv_set_phase)
qed (auto simp: pm_inv_simps gate_ok_def increment_step_def reset_stats_def
      split: training_phase.splits)

lemma pm_reach_gate: "pm_reach D t0 t m \<Longrightarrow> gate_ok m"
  by (drule pm_reach_inv) (simp add: pm_inv_def)

text \<open>Both estimates of the NCCL phase length stay in the range of the phases observed.\<close>

lemma pm_reach_ema:
  assumes "pm_reach (\<lambda>d. lo \<le> d \<and> d \<le> hi) t0 t m"
  shows "pm_ema_nccl_ms m = 0 \<or> lo \<le> pm_ema_nccl_ms m \<and> pm_ema_nccl_ms m \<le> hi"
  using assms
proof (induction rule: pm_reach.induct)
  case (phase t m p)
  then show ?case
    using nccl_ema.upd_lower nccl_ema.upd_upper
    by (cases "pm_phase m"; cases p) (auto simp: set_phase_simps)
qed (auto simp: phase_monitor_init_def increment_step_def reset_stats_def)

lemma mean_range:
  fixes lo hi :: real
  assumes "xs \<noteq> []" and "\<forall>x \<in> set xs. lo \<le> x \<and> x \<le> hi"
  shows "lo \<le> sum_list xs / length xs" and "sum_list xs / length xs \<le> hi"
proof -
  from assms(2) have "lo * length xs \<le> sum_list xs" and "sum_list xs \<le> hi * length xs"
    by (induction xs) (auto simp: algebra_simps)
  with assms(1) show "lo \<le> sum_list xs / length xs" and "sum_list xs / length xs \<le> hi"
    by (simp_all add: field_simps)
qed

lemma pm_reach_avg:
  assumes "pm_reach (\<lambda>d. lo \<le> d \<and> d \<le> hi) t0 t m"
  shows "get_avg_nccl_duration_ms m = 0 \<or>
    lo \<le> get_avg_nccl_duration_ms m \<and> get_avg_nccl_duration_ms m \<le> hi"
  using pm_reach_inv [OF assms] mean_range [of "pm_nccl_durations_ms m" lo hi]
  by (auto simp: get_avg_nccl_duration_ms_def pm_inv_def)

lemma nccl_fraction_range:
  assumes "0 \<le> a" and "0 \<le> b"
  shows "0 \<le> py_round 4 (a / (a + b + 1 / 10 ^ 12))"
    and "py_round 4 (a / (a + b + 1 / 10 ^ 12)) \<le> 1"
proof -
  have "0 < a + b + 1 / 10 ^ 12" using assms by (simp add: add_nonneg_pos)
  then have "of_int 0 \<le> a / (a + b + 1 / 10 ^ 12)" and "a / (a + b + 1 / 10 ^ 12) \<le> of_int 1"
    using assms by simp_all
  from py_round_range [OF this] show "0 \<le> py_round 4 (a / (a + b + 1 / 10 ^ 12))"
    and "py_round 4 (a / (a + b + 1 / 10 ^ 12)) \<le> 1" by simp_all
qed

datatype hook_op = Fsdp_start real | Fsdp_done real real real | Ddp_start real | Ddp_done real real

fun hook_exec :: "hook_op \<Rightarrow> hook_env \<Rightarrow> hook_env" where
  "hook_exec (Fsdp_start t) h = fsdp_comm_hook t h"
| "hook_exec (Fsdp_done t ws v) h = snd (fsdp_mark_done t ws v h)"
| "hook_exec (Ddp_start t) h = ddp_hook t h"
| "hook_exec (Ddp_done t v) h = snd (ddp_on_done t v h)"

fun is_start :: "hook_op \<Rightarrow> bool" where
  "is_start (Fsdp_start t) \<longleftrightarrow> True"
| "is_start (Ddp_start t) \<longleftrightarrow> True"
| "is_start (Fsdp_done t ws v) \<longleftrightarrow> False"
| "is_start (Ddp_done t v) \<longleftrightarrow> False"

lemmas hook_defs = fsdp_comm_hook_def fsdp_mark_done_def ddp_hook_def ddp_on_done_def

lemma hook_exec_gate:
  "gate_ok (he_monitor h) \<Longrightarrow>
     gate_ok (he_monitor (hook_exec op h)) \<and>
     (is_io_allowed (he_monitor (hook_exec op h)) \<longleftrightarrow> \<not> is_start op)"
  using gate_ok_set_phase [of "he_monitor h"]
  by (cases op) (auto simp: hook_defs gate_ok_def is_io_allowed_def)

lemma hook_exec_in_flight:
  "he_in_flight (hook_exec op h) = (if is_start op then he_in_flight h + 1 else he_in_flight h - 1)"
  by (cases op) (simp_all add: hook_defs)

text \<open>A run in which a bucket starts only when no other is in flight.\<close>

fun serial_hooks :: "nat \<Rightarrow> hook_op list \<Rightarrow> bool" where
  "serial_hooks n [] \<longleftrightarrow> True"
| "serial_hooks n (op # ops) \<longleftrightarrow>
     (if is_start op then n = 0 \<and> serial_hooks 1 ops else n = 1 \<and> serial_hooks 0 ops)"

lemma serial_hooks_gate:
  "serial_hooks (he_in_flight h) ops \<Longrightarrow> gate_ok (he_monitor h) \<Longrightarrow>
     is_io_allowed (he_monitor h) \<longleftrightarrow> he_in_flight h = 0 \<Longrightarrow>
     is_io_allowed (he_monitor (fold hook_exec ops h)) \<longleftrightarrow> he_in_flight (fold hook_exec ops h) = 0"
proof (induction ops arbitrary: h)
  case Nil
  then show ?case by simp
next
  case (Cons op ops)
  from Cons.prems have "serial_hooks (he_in_flight (hook_exec op h)) ops"
    and "is_io_allowed (he_monitor (hook_exec op h)) \<longleftrightarrow> he_in_flight (hook_exec op h) = 0"
    by (auto simp: hook_exec_in_flight hook_exec_gate split: if_splits)
  moreover have "gate_ok (he_monitor (hook_exec op h))"
    using Cons.prems(2) hook_exec_gate by blast
  ultimately show ?case using Cons.IH by simp
qed

section \<open>Properties\<close>

text \<open>
  C1: In every state the training loop can bring the monitor into, whatever the order and
  times of the phase changes, the I/O gate is closed exactly while an NCCL collective is
  active; a flush thread that does not see the gate open before its timeout is told not to
  write.
\<close>

theorem phase_gate:
  assumes "pm_reach D t0 t m"
  shows "(is_io_allowed m \<longleftrightarrow> \<not> is_nccl_active m) \<and>
    (wait_for_io_allowed False m \<longleftrightarrow> \<not> is_nccl_active m) \<and> wait_for_io_allowed True m"
  using pm.gate_closed_iff [OF pm_reach_gate [OF assms]]
  by (simp add: wait_for_io_allowed_def is_io_allowed_def)

theorem phase_gate_witness:
  "pm_reach (\<lambda>_. True) 0 2 (set_phase 2 NCCL_COMM (phase_monitor_init 0 False)) \<and>
   \<not> is_io_allowed (set_phase 2 NCCL_COMM (phase_monitor_init 0 False))"
proof -
  have "pm_reach (\<lambda>_. True) 0 2 (phase_monitor_init 0 False)"
    by (rule pm_reach.tick [OF pm_reach.start]) simp
  then have r: "pm_reach (\<lambda>_. True) 0 2 (set_phase 2 NCCL_COMM (phase_monitor_init 0 False))"
    by (rule pm_reach.phase) simp
  with phase_gate [OF r] show ?thesis by (simp add: is_nccl_active_def)
qed

text \<open>
  Time accounting: at any reachable time the NCCL and compute totals are non-negative and
  their sum is at most the time since the monitor was created, the rolling window holds at
  most 16 durations, and the reported NCCL fraction is in [0, 1].
\<close>

lemma phase_accounting:
  assumes "pm_reach D t0 t m"
  shows "0 \<le> pm_nccl_total_s m \<and> 0 \<le> pm_compute_total_s m \<and>
    pm_nccl_total_s m + pm_compute_total_s m \<le> t - t0 \<and>
    length (pm_nccl_durations_ms m) \<le> 16 \<and>
    0 \<le> ps_nccl_fraction (pm_get_stats m) \<and> ps_nccl_fraction (pm_get_stats m) \<le> 1"
  using pm_reach_inv [OF assms] nccl_fraction_range
  by (simp add: pm_inv_def pm_get_stats_def Let_def)

text \<open>
  If every NCCL phase lasts between \<open>lo\<close> and \<open>hi\<close> milliseconds, then both
  estimates of the phase length that drive chunk sizing, the EMA and the rolling mean, are
  either 0 (no phase observed) or within the same bounds.
\<close>

lemma phase_estimates:
  assumes "pm_reach (\<lambda>d. lo \<le> d \<and> d \<le> hi) t0 t m"
  shows "(nccl_phase_duration_ms m = 0 \<or>
      lo \<le> nccl_phase_duration_ms m \<and> nccl_phase_duration_ms m \<le> hi) \<and>
    (get_avg_nccl_duration_ms m = 0 \<or>
      lo \<le> get_avg_nccl_duration_ms m \<and> get_avg_nccl_duration_ms m \<le> hi)"
  using pm_reach_ema [OF assms] pm_reach_avg [OF assms] by (simp add: nccl_phase_duration_ms_def)

text \<open>
  C2: The dynamic flush rate is between 0 and the requested rate; it is 0 during an NCCL
  phase; and when it is positive, rate plus the collective traffic it charges (the measured
  bandwidth, or the EMA-based estimate when none is given) stays below the PCIe ceiling less
  the safety margin.
\<close>

theorem dynamic_rate_budget:
  assumes "0 \<le> req" and "1 \<le> ceil"
  shows "0 \<le> get_dynamic_flush_rate req nccl ceil margin m \<and>
    get_dynamic_flush_rate req nccl ceil margin m \<le> req \<and>
    (is_nccl_active m \<longrightarrow> get_dynamic_flush_rate req nccl ceil margin m = 0) \<and>
    (0 < get_dynamic_flush_rate req nccl ceil margin m \<longrightarrow>
      get_dynamic_flush_rate req nccl ceil margin m + effective_nccl_bps nccl m
        \<le> ceil * (1 - margin))"
  using pm.rate_nonneg [OF assms] pm.rate_le_request [OF assms] pm.rate_budget [OF assms(2)]
    pm.rate_busy by blast

theorem dynamic_rate_budget_witness:
  "get_dynamic_flush_rate 40 60 100 (1 / 10) (phase_monitor_init 0 False) = 30 \<and>
   get_dynamic_flush_rate 40 60 100 (1 / 10) (phase_monitor_init 0 False) \<le> 40"
proof -
  have "get_dynamic_flush_rate 40 60 100 (1 / 10) (phase_monitor_init 0 False) = 30"
    by (simp add: get_dynamic_flush_rate_def phase_monitor_init_def)
  with dynamic_rate_budget [of 40 100 60 "1 / 10" "phase_monitor_init 0 False"]
  show ?thesis by simp
qed

text \<open>
  The \<open>nccl_phase\<close> context manager runs its body with the gate closed, passes the
  body's result or exception on, and in both cases leaves the monitor in the compute phase
  with the gate open.
\<close>

lemma nccl_phase_brackets:
  assumes "gate_ok m" and "\<And>s. gate_ok s \<Longrightarrow> gate_ok (snd (body s))"
  shows "\<not> is_io_allowed (set_phase t1 NCCL_COMM m) \<and>
    fst (nccl_phase t1 t2 body m) = fst (body (set_phase t1 NCCL_COMM m)) \<and>
    pm_phase (snd (nccl_phase t1 t2 body m)) = COMPUTE \<and>
    is_io_allowed (snd (nccl_phase t1 t2 body m))"
proof -
  have 1: "gate_ok (set_phase t1 NCCL_COMM m)" using assms(1) by simp
  have 2: "gate_ok (set_phase t2 COMPUTE (snd (body (set_phase t1 NCCL_COMM m))))"
    using assms(2) [OF 1] by simp
  from 1 2 show ?thesis
    by (simp add: nccl_phase_def gate_ok_def is_io_allowed_def split_beta)
qed

text \<open>
  With the communication hooks, the gate follows the last hook event and not the number of
  collectives in flight. As long as buckets do not overlap this is the same: the gate is
  closed exactly while a collective is in flight. When one of several overlapping buckets
  finishes, the gate opens although another collective is still in flight.
\<close>

lemma hook_gate:
  assumes "gate_ok (he_monitor h)" and "is_io_allowed (he_monitor h) \<longleftrightarrow> he_in_flight h = 0"
  shows "(serial_hooks (he_in_flight h) ops \<longrightarrow>
      (is_io_allowed (he_monitor (fold hook_exec ops h))
        \<longleftrightarrow> he_in_flight (fold hook_exec ops h) = 0)) \<and>
    (2 \<le> he_in_flight h \<longrightarrow>
      is_io_allowed (he_monitor (snd (fsdp_mark_done t ws v h))) \<and>
      1 \<le> he_in_flight (snd (fsdp_mark_done t ws v h)))"
  using serial_hooks_gate [OF _ assms] hook_exec_gate [OF assms(1), of "Fsdp_done t ws v"]
    hook_exec_in_flight [of "Fsdp_done t ws v" h] by auto

end
