(* ===== verification/Checkpoint_Manager.thy ===== *)
theory Checkpoint_Manager
  imports Phase_Monitor
begin

text \<open>
  \<^verbatim>\<open>tempo/checkpoint_manager.py\<close>: local checkpoints, the bounded flush queue and
  the background copy to Lustre with adaptive chunks and pacing. The file system is a map
  from paths to contents, shared by the local and the remote directory; \<open>torch.save\<close> is
  the bytes it writes. One iteration of the copy loop takes an environment that says what the
  thread observes there: the phase monitor's state, the failed waits at a closed gate, whether
  the write succeeds, and the times.
\<close>

section \<open>State\<close>

type_synonym 'b fs = "string \<rightharpoonup> 'b list"

record flush_job =
  fj_local_path :: string
  fj_remote_path :: string
  fj_step :: int
  fj_rank :: int
  fj_size_bytes :: int
  fj_enqueue_time :: real

definition DEFAULT_CHUNK :: int where "DEFAULT_CHUNK = 128 * 1024 * 1024"
definition MIN_CHUNK_BYTES :: int where "MIN_CHUNK_BYTES = 4 * 1024 * 1024"
definition MAX_CHUNK_BYTES :: int where "MAX_CHUNK_BYTES = 512 * 1024 * 1024"

record 'b ckpt =
  cm_rank :: int
  cm_world_size :: int
  cm_max_pending :: int
  cm_chunk_bytes :: int
  cm_base_chunk :: int
  cm_adaptive_chunk :: bool
  cm_has_monitor :: bool
  cm_local_dir :: string
  cm_lustre_dir :: "string option"
  cm_queue :: "flush_job list"
  cm_unfinished :: int
  cm_stop :: bool
  cm_bytes_local :: int
  cm_bytes_lustre :: int
  cm_bytes_pending :: int
  cm_flush_count :: int
  cm_throttle_waits :: int
  cm_flush_write_ms :: real
  cm_flush_block_ms :: real
  cm_fs :: "'b fs"

definition ckpt_init ::
    "string \<Rightarrow> string option \<Rightarrow> int \<Rightarrow> int \<Rightarrow> int \<Rightarrow> int \<Rightarrow> bool \<Rightarrow> bool \<Rightarrow> 'b fs \<Rightarrow> 'b ckpt" where
  "ckpt_init local_nvme_dir lustre_dir rank world_size max_pending flush_chunk_bytes adaptive_chunk
      has_monitor fs =
     \<lparr>cm_rank = rank, cm_world_size = world_size, cm_max_pending = max_pending,
      cm_chunk_bytes = flush_chunk_bytes, cm_base_chunk = flush_chunk_bytes,
      cm_adaptive_chunk = adaptive_chunk, cm_has_monitor = has_monitor,
      cm_local_dir = local_nvme_dir @ ''/rank'' @ str_int rank,
      cm_lustre_dir = (case lustre_dir of Some d \<Rightarrow> if d = [] then None else Some d | None \<Rightarrow> None),
      cm_queue = [], cm_unfinished = 0, cm_stop = False, cm_bytes_local = 0, cm_bytes_lustre = 0,
      cm_bytes_pending = 0, cm_flush_count = 0, cm_throttle_waits = 0, cm_flush_write_ms = 0,
      cm_flush_block_ms = 0, cm_fs = fs\<rparr>"

section \<open>Saving\<close>

definition ckpt_fname :: "int \<Rightarrow> int \<Rightarrow> string" where
  "ckpt_fname step rank = ''step_'' @ format_0d 7 step @ ''_rank'' @ str_int rank @ ''.pt''"

text \<open>\<open>queue.Queue(maxsize)\<close>: a bound of 0 or less means unbounded.\<close>

definition queue_full :: "int \<Rightarrow> 'a list \<Rightarrow> bool" where
  "queue_full maxsize q \<longleftrightarrow> 0 < maxsize \<and> maxsize \<le> int (length q)"

definition save_async :: "real \<Rightarrow> 'b list \<Rightarrow> int \<Rightarrow> 'b ckpt \<Rightarrow> string \<times> 'b ckpt" where
  "save_async now blob step c =
     (let fname = ckpt_fname step (cm_rank c);
          local_path = cm_local_dir c @ ''/'' @ fname;
          size_bytes = int (length blob);
          c1 = c\<lparr>cm_fs := (cm_fs c)(local_path \<mapsto> blob),
                 cm_bytes_local := cm_bytes_local c + size_bytes\<rparr>
      in (local_path,
          case cm_lustre_dir c1 of
            None \<Rightarrow> c1
          | Some dir \<Rightarrow>
              (let job = \<lparr>fj_local_path = local_path, fj_remote_path = dir @ ''/'' @ fname,
                          fj_step = step, fj_rank = cm_rank c1, fj_size_bytes = size_bytes,
                          fj_enqueue_time = now\<rparr>
               in if queue_full (cm_max_pending c1) (cm_queue c1) then c1
                  else c1\<lparr>cm_queue := cm_queue c1 @ [job],
                          cm_unfinished := cm_unfinished c1 + 1,
                          cm_bytes_pending := cm_bytes_pending c1 + size_bytes\<rparr>)))"

definition save_sync_lustre :: "'b list \<Rightarrow> int \<Rightarrow> 'b ckpt \<Rightarrow> string result \<times> 'b ckpt" where
  "save_sync_lustre blob step c =
     (case cm_lustre_dir c of
        None \<Rightarrow> (Inl ValueError, c)
      | Some dir \<Rightarrow>
          (let lustre_path = dir @ ''/'' @ ckpt_fname step (cm_rank c)
           in (Inr lustre_path,
               c\<lparr>cm_fs := (cm_fs c)(lustre_path \<mapsto> blob),
                 cm_bytes_lustre := cm_bytes_lustre c + int (length blob),
                 cm_flush_count := cm_flush_count c + 1\<rparr>)))"

definition wait_for_all_flushes_returns :: "'b ckpt \<Rightarrow> bool" where
  "wait_for_all_flushes_returns c \<longleftrightarrow> cm_unfinished c = 0"

record cm_stats =
  cs_bytes_local_GB :: real
  cs_bytes_lustre_GB :: real
  cs_bytes_pending_GB :: real
  cs_flush_count :: int
  cs_throttle_waits :: int
  cs_flush_overlap_pct :: real
  cs_flush_write_ms :: real
  cs_flush_block_ms :: real
  cs_chunk_mb :: int
  cs_adaptive_chunk :: bool

definition cm_get_stats :: "'b ckpt \<Rightarrow> cm_stats" where
  "cm_get_stats c =
     (let total_io_ms = cm_flush_write_ms c + cm_flush_block_ms c + 1 / 10 ^ 6;
          overlap_pct = 100 * cm_flush_write_ms c / total_io_ms
      in \<lparr>cs_bytes_local_GB = py_round 3 (of_int (cm_bytes_local c) / 10 ^ 9),
          cs_bytes_lustre_GB = py_round 3 (of_int (cm_bytes_lustre c) / 10 ^ 9),
          cs_bytes_pending_GB = py_round 3 (of_int (cm_bytes_pending c) / 10 ^ 9),
          cs_flush_count = cm_flush_count c, cs_throttle_waits = cm_throttle_waits c,
          cs_flush_overlap_pct = py_round 1 overlap_pct,
          cs_flush_write_ms = py_round 1 (cm_flush_write_ms c),
          cs_flush_block_ms = py_round 1 (cm_flush_block_ms c),
          cs_chunk_mb = cm_chunk_bytes c div (1024 * 1024),
          cs_adaptive_chunk = cm_adaptive_chunk c\<rparr>)"

definition shutdown :: "'b ckpt \<Rightarrow> 'b ckpt" where
  "shutdown c = c\<lparr>cm_stop := True\<rparr>"

section \<open>One flush\<close>

text \<open>What one iteration of the copy loop observes.\<close>

record chunk_env =
  ce_monitor :: phase_monitor
  ce_failed_waits :: nat
  ce_stop_seen :: bool
  ce_monitor_after :: phase_monitor
  ce_gate_ms :: real
  ce_write_ok :: bool
  ce_write_ms :: real

record 'b flush_loop =
  fl_rest :: "'b list"
  fl_written :: "'b list"
  fl_chunk_bytes :: int
  fl_samples :: "(int \<times> real) list"
  fl_write_ms :: real
  fl_block_ms :: real
  fl_waits :: int

definition sample_bw :: "(int \<times> real) list \<Rightarrow> real" where
  "sample_bw samples = of_int (sum_list (map fst samples)) / sum_list (map snd samples)"

definition adaptive_chunk_size :: "phase_monitor \<Rightarrow> (int \<times> real) list \<Rightarrow> int \<Rightarrow> int" where
  "adaptive_chunk_size m samples chunk_bytes =
     (let avg0 = nccl_phase_duration_ms m;
          avg_nccl_ms = (if avg0 = 0 then get_avg_nccl_duration_ms m else avg0)
      in if 0 < avg_nccl_ms \<and> samples \<noteq> []
         then max MIN_CHUNK_BYTES
                (min MAX_CHUNK_BYTES (py_int (1 / 2 * avg_nccl_ms * sample_bw samples)))
         else chunk_bytes)"

definition est_bw :: "(int \<times> real) list \<Rightarrow> real" where
  "est_bw samples = (if samples \<noteq> [] then sample_bw samples * 1000 else 10 ^ 9)"

definition PCIE_CEILING :: real where "PCIE_CEILING = 64 * 10 ^ 9"
definition SAFETY_MARGIN :: real where "SAFETY_MARGIN = 10 / 100"

definition dynamic_rate :: "real \<Rightarrow> (int \<times> real) list \<Rightarrow> phase_monitor \<Rightarrow> real" where
  "dynamic_rate nccl_bw_bps samples m =
     get_dynamic_flush_rate (est_bw samples) nccl_bw_bps PCIE_CEILING SAFETY_MARGIN m"

text \<open>
  The decision at the gate: stop without writing, or go on after some counted waits and a
  sleep. The loop on \<open>wait_for_io_allowed\<close> returns from the flush when a wait has failed
  and the stop flag is set; the rate it computes after the gate opened is not used.
\<close>

datatype pace = Pace_Abort int | Pace_Go int real

definition pacing :: "chunk_env \<Rightarrow> int \<Rightarrow> (int \<times> real) list \<Rightarrow> pace" where
  "pacing e chunk_bytes samples =
     (let rate = dynamic_rate (estimated_nccl_bps (ce_monitor e)) samples (ce_monitor e) in
      if rate \<le> 0
      then if 0 < ce_failed_waits e \<and> ce_stop_seen e then Pace_Abort (int (ce_failed_waits e))
           else Pace_Go (int (ce_failed_waits e)) 0
      else if rate < est_bw samples * (95 / 100)
      then (let token_wait_s = of_int chunk_bytes / max rate 1
                               - of_int chunk_bytes / max (est_bw samples) 1
            in if 0 < token_wait_s then Pace_Go 1 (min token_wait_s (50 / 1000)) else Pace_Go 0 0)
      else Pace_Go 0 0)"

definition py_read :: "int \<Rightarrow> 'b list \<Rightarrow> 'b list" where
  "py_read n rest = (if n < 0 then rest else take (nat n) rest)"

datatype 'b flush_outcome = Flush_Running "'b flush_loop" | Flush_Aborted "'b flush_loop"
  | Flush_Failed "'b flush_loop" | Flush_Copied "'b flush_loop"

definition flush_iteration ::
    "bool \<Rightarrow> bool \<Rightarrow> chunk_env \<Rightarrow> 'b flush_loop \<Rightarrow> 'b flush_outcome" where
  "flush_iteration adaptive has_monitor e l =
     (let l1 = (if adaptive \<and> has_monitor
                then l\<lparr>fl_chunk_bytes :=
                       adaptive_chunk_size (ce_monitor e) (fl_samples l) (fl_chunk_bytes l)\<rparr>
                else l);
          p = (if has_monitor then pacing e (fl_chunk_bytes l1) (fl_samples l1) else Pace_Go 0 0)
      in case p of
           Pace_Abort waits \<Rightarrow> Flush_Aborted (l1\<lparr>fl_waits := fl_waits l1 + waits\<rparr>)
         | Pace_Go waits sleep \<Rightarrow>
             (let l2 = l1\<lparr>fl_waits := fl_waits l1 + waits,
                          fl_block_ms := fl_block_ms l1 + (if has_monitor then ce_gate_ms e else 0)\<rparr>;
                  chunk = py_read (fl_chunk_bytes l2) (fl_rest l2)
              in if chunk = [] then Flush_Copied l2
                 else if \<not> ce_write_ok e then Flush_Failed l2
                 else
                   let samples = fl_samples l2 @ [(int (length chunk), ce_write_ms e + 1 / 10 ^ 6)]
                   in Flush_Running
                        (l2\<lparr>fl_rest := drop (length chunk) (fl_rest l2),
                            fl_written := fl_written l2 @ chunk,
                            fl_write_ms := fl_write_ms l2 + ce_write_ms e,
                            fl_samples := (if 8 < length samples then tl samples else samples)\<rparr>)))"

fun flush_chunks ::
    "bool \<Rightarrow> bool \<Rightarrow> chunk_env list \<Rightarrow> 'b flush_loop \<Rightarrow> 'b flush_outcome" where
  "flush_chunks adaptive has_monitor [] l = Flush_Running l"
| "flush_chunks adaptive has_monitor (e # es) l =
     (case flush_iteration adaptive has_monitor e l of
        Flush_Running l' \<Rightarrow> flush_chunks adaptive has_monitor es l'
      | done \<Rightarrow> done)"

text \<open>\<open>Path.with_suffix\<close> of a name whose suffix is the three characters \<^verbatim>\<open>.pt\<close>.\<close>

definition tmp_path :: "string \<Rightarrow> string" where
  "tmp_path dst = take (length dst - 3) dst @ ''.tmp''"

text \<open>
  \<open>_do_flush\<close> up to the point the environment covers. \<open>None\<close>: the thread is still
  copying. The result says whether an exception was raised.
\<close>

definition flush_start :: "'b list \<Rightarrow> 'b ckpt \<Rightarrow> 'b flush_loop" where
  "flush_start src c =
     \<lparr>fl_rest = src, fl_written = [], fl_chunk_bytes = cm_chunk_bytes c, fl_samples = [],
      fl_write_ms = 0, fl_block_ms = 0, fl_waits = 0\<rparr>"

definition loop_effect :: "flush_job \<Rightarrow> 'b flush_loop \<Rightarrow> 'b ckpt \<Rightarrow> 'b ckpt" where
  "loop_effect job l c =
     c\<lparr>cm_chunk_bytes := fl_chunk_bytes l, cm_throttle_waits := cm_throttle_waits c + fl_waits l,
       cm_fs := (cm_fs c)(tmp_path (fj_remote_path job) \<mapsto> fl_written l)\<rparr>"

definition finish_flush :: "flush_job \<Rightarrow> 'b flush_loop \<Rightarrow> 'b ckpt \<Rightarrow> 'b ckpt" where
  "finish_flush job l c =
     c\<lparr>cm_fs := ((cm_fs c)(tmp_path (fj_remote_path job) := None,
                           fj_remote_path job \<mapsto> fl_written l))(fj_local_path job := None),
       cm_bytes_lustre := cm_bytes_lustre c + int (length (fl_written l)),
       cm_bytes_pending := cm_bytes_pending c - fj_size_bytes job,
       cm_flush_count := cm_flush_count c + 1,
       cm_flush_write_ms := cm_flush_write_ms c + fl_write_ms l,
       cm_flush_block_ms := cm_flush_block_ms c + fl_block_ms l\<rparr>"

definition do_flush :: "chunk_env list \<Rightarrow> flush_job \<Rightarrow> 'b ckpt \<Rightarrow> (unit result option \<times> 'b ckpt)" where
  "do_flush envs job c =
     (case cm_fs c (fj_local_path job) of
        None \<Rightarrow> (Some (Inr ()), c\<lparr>cm_bytes_pending := cm_bytes_pending c - fj_size_bytes job\<rparr>)
      | Some src \<Rightarrow>
          (case flush_chunks (cm_adaptive_chunk c) (cm_has_monitor c) envs (flush_start src c) of
             Flush_Running l \<Rightarrow> (None, loop_effect job l c)
           | Flush_Aborted l \<Rightarrow> (Some (Inr ()), loop_effect job l c)
           | Flush_Failed l \<Rightarrow> (Some (Inl OSError), loop_effect job l c)
           | Flush_Copied l \<Rightarrow> (Some (Inr ()), finish_flush job l (loop_effect job l c))))"

text \<open>
  One turn of \<open>_flush_worker\<close>: nothing on a set stop flag or an empty queue; otherwise a
  flush whose exception is logged, and \<open>task_done\<close>.
\<close>

definition flush_worker_turn :: "chunk_env list \<Rightarrow> 'b ckpt \<Rightarrow> 'b ckpt option" where
  "flush_worker_turn envs c =
     (if cm_stop c then Some c
      else case cm_queue c of
             [] \<Rightarrow> Some c
           | job # jobs \<Rightarrow>
               (case do_flush envs job (c\<lparr>cm_queue := jobs\<rparr>) of
                  (None, c') \<Rightarrow> None
                | (Some r, c') \<Rightarrow> Some (c'\<lparr>cm_unfinished := cm_unfinished c' - 1\<rparr>)))"

section \<open>Lemmas on the copy loop\<close>

fun loop_of :: "'b flush_outcome \<Rightarrow> 'b flush_loop" where
  "loop_of (Flush_Running l) = l"
| "loop_of (Flush_Aborted l) = l"
| "loop_of (Flush_Failed l) = l"
| "loop_of (Flush_Copied l) = l"

lemma adaptive_chunk_range:
  "adaptive_chunk_size m samples n = n \<or>
   MIN_CHUNK_BYTES \<le> adaptive_chunk_size m samples n \<and> adaptive_chunk_size m samples n \<le> MAX_CHUNK_BYTES"
  by (simp add: adaptive_chunk_size_def Let_def MIN_CHUNK_BYTES_def MAX_CHUNK_BYTES_def)

lemma adaptive_chunk_pos: "0 < n \<Longrightarrow> 0 < adaptive_chunk_size m samples n"
  using adaptive_chunk_range [of m samples n] by (auto simp: MIN_CHUNK_BYTES_def)

lemma py_read_append [simp]: "py_read n xs @ drop (length (py_read n xs)) xs = xs"
  by (auto simp: py_read_def min_def)

lemma py_read_Nil: "0 < n \<Longrightarrow> py_read n xs = [] \<longleftrightarrow> xs = []"
  by (simp add: py_read_def)

text \<open>
  One iteration: the bytes written and the bytes left are always a split of the source, the
  chunk size stays positive, and it ends the loop only for one of its three reasons.
\<close>

lemma flush_iteration_split:
  assumes "0 < fl_chunk_bytes l"
  shows "fl_written (loop_of (flush_iteration a h e l)) @ fl_rest (loop_of (flush_iteration a h e l))
      = fl_written l @ fl_rest l"
    and "0 < fl_chunk_bytes (loop_of (flush_iteration a h e l))"
    and "flush_iteration a h e l = Flush_Running l' \<Longrightarrow> length (fl_rest l') < length (fl_rest l)"
    and "flush_iteration a h e l = Flush_Copied l' \<Longrightarrow> fl_rest l' = []"
    and "flush_iteration a h e l = Flush_Failed l' \<Longrightarrow> \<not> ce_write_ok e"
    and "flush_iteration a h e l = Flush_Aborted l' \<Longrightarrow> h \<and> ce_stop_seen e"
proof -
  let ?n = "if a \<and> h then adaptive_chunk_size (ce_monitor e) (fl_samples l) (fl_chunk_bytes l)
      else fl_chunk_bytes l"
  have n: "0 < ?n" using assms adaptive_chunk_pos by simp
  have d: "length (drop (length (py_read ?n (fl_rest l))) (fl_rest l)) < length (fl_rest l)"
    if "py_read ?n (fl_rest l) \<noteq> []"
    using that by (cases "fl_rest l") (auto simp: py_read_def)
  have ab: "pacing e k ss = Pace_Abort w \<Longrightarrow> ce_stop_seen e" for k ss w
    by (auto simp: pacing_def Let_def split: if_splits)
  note simps = flush_iteration_def Let_def
  show "fl_written (loop_of (flush_iteration a h e l)) @ fl_rest (loop_of (flush_iteration a h e l))
      = fl_written l @ fl_rest l"
    by (auto simp: simps split: pace.splits)
  show "0 < fl_chunk_bytes (loop_of (flush_iteration a h e l))"
    using n by (auto simp: simps split: pace.splits if_splits)
  show "flush_iteration a h e l = Flush_Running l' \<Longrightarrow> length (fl_rest l') < length (fl_rest l)"
    using d by (auto simp: simps split: pace.splits if_splits)
  show "flush_iteration a h e l = Flush_Copied l' \<Longrightarrow> fl_rest l' = []"
    using n by (auto simp: simps py_read_Nil split: pace.splits if_splits)
  show "flush_iteration a h e l = Flush_Failed l' \<Longrightarrow> \<not> ce_write_ok e"
    by (auto simp: simps split: pace.splits if_splits)
  show "flush_iteration a h e l = Flush_Aborted l' \<Longrightarrow> h \<and> ce_stop_seen e"
    using ab by (auto simp: simps split: pace.splits if_splits)
qed

lemma flush_chunks_split:
  assumes "0 < fl_chunk_bytes l"
  shows "fl_written (loop_of (flush_chunks a h es l)) @ fl_rest (loop_of (flush_chunks a h es l))
      = fl_written l @ fl_rest l \<and>
    (\<forall>l'. flush_chunks a h es l = Flush_Copied l' \<longrightarrow> fl_rest l' = [])"
  using assms
proof (induction es arbitrary: l)
  case Nil
  then show ?case by simp
next
  case (Cons e es)
  note it = flush_iteration_split [OF Cons.prems, of a h e]
  show ?case
  proof (cases "flush_iteration a h e l")
    case (Flush_Running l')
    with it(1,2) Cons.IH [of l'] show ?thesis by simp
  qed (use it(1,4) in auto)
qed

lemma flush_chunks_terminates:
  assumes "0 < fl_chunk_bytes l" and "length (fl_rest l) < length es"
    and "\<forall>e \<in> set es. ce_write_ok e \<and> \<not> ce_stop_seen e"
  shows "\<exists>l'. flush_chunks a h es l = Flush_Copied l'"
  using assms
proof (induction es arbitrary: l)
  case Nil
  then show ?case by simp
next
  case (Cons e es)
  note it = flush_iteration_split [OF Cons.prems(1), of a h e]
  show ?case
  proof (cases "flush_iteration a h e l")
    case (Flush_Running l')
    have "0 < fl_chunk_bytes l'" using it(2) Flush_Running by simp
    moreover have "length (fl_rest l') < length es"
      using it(3) [OF Flush_Running] Cons.prems(2) by simp
    ultimately show ?thesis using Cons.IH [of l'] Cons.prems(3) Flush_Running by simp
  qed (use it(5,6) Cons.prems(3) in auto)
qed

section \<open>Lemmas on paths\<close>

lemma tmp_path_pt: "tmp_path (d @ ''.pt'') = d @ ''.tmp''"
  by (simp add: tmp_path_def)

lemma tmp_path_neq [simp]: "d @ ''.tmp'' \<noteq> d' @ ''.pt''"
proof
  assume "d @ ''.tmp'' = d' @ ''.pt''"
  then have "last (d @ ''.tmp'') = last (d' @ ''.pt'')" by simp
  then show False by simp
qed

lemma format_0d_chars: "0 \<le> i \<Longrightarrow> set (format_0d w i) \<subseteq> set ''0123456789''"
  using pad_zero_chars [of w "digits (nat i)"] digits_chars [of "nat i"]
  by (auto simp: format_0d_def)

lemma append_sep_cancel:
  "a @ x # b = a' @ x # b' \<Longrightarrow> x \<notin> set a \<Longrightarrow> x \<notin> set a' \<Longrightarrow> a = a' \<and> b = b'"
proof (induction a arbitrary: a')
  case Nil
  then show ?case by (cases a') auto
next
  case (Cons y a)
  then show ?case by (cases a') auto
qed

lemma str_int_inj: "str_int i = str_int j \<Longrightarrow> i = j"
proof -
  have minus: "''-'' @ digits m \<noteq> digits n" for m n
  proof
    assume "''-'' @ digits m = digits n"
    then have "CHR ''-'' \<in> set (digits n)" by (metis append_Cons list.set_intros(1))
    then show False using digits_chars [of n] by auto
  qed
  assume e: "str_int i = str_int j"
  show "i = j"
  proof (cases "i < 0"; cases "j < 0")
    assume "i < 0" "j < 0"
    with e show ?thesis by (simp add: str_int_def digits_inj)
  next
    assume "i < 0" "\<not> j < 0"
    with e minus show ?thesis by (simp add: str_int_def)
  next
    assume "\<not> i < 0" "j < 0"
    with e minus show ?thesis by (metis str_int_def)
  next
    assume "\<not> i < 0" "\<not> j < 0"
    with e show ?thesis by (simp add: str_int_def digits_inj)
  qed
qed

lemma ckpt_fname_inj:
  assumes "ckpt_fname s r = ckpt_fname s' r'" and "0 \<le> s" and "0 \<le> s'"
  shows "s = s' \<and> r = r'"
proof -
  have c: "CHR ''_'' \<notin> set (format_0d 7 s)" "CHR ''_'' \<notin> set (format_0d 7 s')"
    using format_0d_chars [of s 7] format_0d_chars [of s' 7] assms by auto
  have "format_0d 7 s @ CHR ''_'' # (''rank'' @ str_int r @ ''.pt'') =
      format_0d 7 s' @ CHR ''_'' # (''rank'' @ str_int r' @ ''.pt'')"
    using assms(1) by (simp add: ckpt_fname_def)
  from append_sep_cancel [OF this c] have f: "format_0d 7 s = format_0d 7 s'"
    and "str_int r = str_int r'" by simp_all
  then have "r = r'" using str_int_inj by blast
  have "undigits (format_0d 7 s) = undigits (format_0d 7 s')" using f by simp
  then have "s = s'" using assms(2,3) by (simp add: format_0d_def)
  with \<open>r = r'\<close> show ?thesis by simp
qed

section \<open>Lemmas on the queue\<close>

definition queued_bytes :: "flush_job list \<Rightarrow> int" where
  "queued_bytes q = sum_list (map fj_size_bytes q)"

lemma finish_flush_simps [simp]:
  "cm_bytes_pending (finish_flush job l c) = cm_bytes_pending c - fj_size_bytes job"
  "cm_queue (finish_flush job l c) = cm_queue c" "cm_unfinished (finish_flush job l c) = cm_unfinished c"
  "cm_max_pending (finish_flush job l c) = cm_max_pending c"
  "cm_bytes_pending (loop_effect job l c) = cm_bytes_pending c"
  "cm_queue (loop_effect job l c) = cm_queue c" "cm_unfinished (loop_effect job l c) = cm_unfinished c"
  "cm_max_pending (loop_effect job l c) = cm_max_pending c"
  by (simp_all add: finish_flush_def loop_effect_def)

text \<open>
  A flush ends either settled (copied, or its source is missing), which takes its size off
  the pending bytes, or unsettled (stopped or failed), which does not.
\<close>

definition flush_settles :: "chunk_env list \<Rightarrow> flush_job \<Rightarrow> 'b ckpt \<Rightarrow> bool" where
  "flush_settles envs job c \<longleftrightarrow>
     (case cm_fs c (fj_local_path job) of
        None \<Rightarrow> True
      | Some src \<Rightarrow> \<exists>l. flush_chunks (cm_adaptive_chunk c) (cm_has_monitor c) envs (flush_start src c)
                        = Flush_Copied l)"

lemma do_flush_queue:
  assumes "do_flush envs job c = (r, c')"
  shows "cm_queue c' = cm_queue c \<and> cm_unfinished c' = cm_unfinished c \<and>
    cm_max_pending c' = cm_max_pending c \<and>
    cm_bytes_pending c' = cm_bytes_pending c - (if flush_settles envs job c then fj_size_bytes job else 0)"
  using assms
  by (auto simp: do_flush_def flush_settles_def split: option.splits flush_outcome.splits)

text \<open>
  Histories of saves, worker turns and shutdown. \<open>leak\<close> adds up the sizes of the flushes
  that ended unsettled.
\<close>

inductive cm_reach :: "int \<Rightarrow> 'b ckpt \<Rightarrow> bool" where
  init: "cm_reach 0 (ckpt_init local lustre rank world max_pending chunk adaptive mon fs)"
| save: "cm_reach leak c \<Longrightarrow> cm_reach leak (snd (save_async now blob step c))"
| sync: "cm_reach leak c \<Longrightarrow> cm_reach leak (snd (save_sync_lustre blob step c))"
| idle: "cm_reach leak c \<Longrightarrow> cm_stop c \<or> cm_queue c = [] \<Longrightarrow> flush_worker_turn envs c = Some c' \<Longrightarrow>
    cm_reach leak c'"
| turn: "cm_reach leak c \<Longrightarrow> \<not> cm_stop c \<Longrightarrow> cm_queue c = job # jobs \<Longrightarrow>
    flush_worker_turn envs c = Some c' \<Longrightarrow>
    leak' = leak + (if flush_settles envs job (c\<lparr>cm_queue := jobs\<rparr>) then 0 else fj_size_bytes job) \<Longrightarrow>
    cm_reach leak' c'"
| stop: "cm_reach leak c \<Longrightarrow> cm_reach leak (shutdown c)"

definition cm_inv :: "int \<Rightarrow> 'b ckpt \<Rightarrow> bool" where
  "cm_inv leak c \<longleftrightarrow> cm_bytes_pending c = queued_bytes (cm_queue c) + leak \<and>
     cm_unfinished c = int (length (cm_queue c)) \<and>
     (0 < cm_max_pending c \<longrightarrow> int (length (cm_queue c)) \<le> cm_max_pending c) \<and> 0 \<le> leak \<and>
     (\<forall>job \<in> set (cm_queue c). 0 \<le> fj_size_bytes job)"

lemma cm_reach_inv: "cm_reach leak c \<Longrightarrow> cm_inv leak c"
proof (induction rule: cm_reach.induct)
  case (init "local" lustre rank world max_pending chunk adaptive mon fs)
  then show ?case by (simp add: cm_inv_def ckpt_init_def queued_bytes_def)
next
  case (save leak c now blob step)
  then show ?case
    by (auto simp: cm_inv_def save_async_def Let_def queued_bytes_def queue_full_def
        split: option.splits)
next
  case (sync leak c blob step)
  then show ?case
    by (auto simp: cm_inv_def save_sync_lustre_def Let_def split: option.splits)
next
  case (idle leak c envs c')
  then have "c' = c" by (auto simp: flush_worker_turn_def split: list.splits)
  with idle show ?case by simp
next
  case (turn leak c job jobs envs c' leak')
  obtain r c1 where d: "do_flush envs job (c\<lparr>cm_queue := jobs\<rparr>) = (Some r, c1)"
    and c': "c' = c1\<lparr>cm_unfinished := cm_unfinished c1 - 1\<rparr>"
    using turn by (auto simp: flush_worker_turn_def split: prod.splits option.splits)
  from do_flush_queue [OF d] turn show ?case
    by (auto simp: c' cm_inv_def queued_bytes_def)
next
  case (stop leak c)
  then show ?case by (simp add: cm_inv_def shutdown_def)
qed

lemma rate_zero_cases:
  "get_dynamic_flush_rate req nccl ceil margin m \<noteq> 0 \<Longrightarrow> \<not> is_nccl_active m"
  using pm.rate_busy by blast

section \<open>Properties\<close>


definition plain_env :: chunk_env where
  "plain_env = \<lparr>ce_monitor = phase_monitor_init 0 False, ce_failed_waits = 0, ce_stop_seen = False,
     ce_monitor_after = phase_monitor_init 0 False, ce_gate_ms = 0, ce_write_ok = True, ce_write_ms = 1\<rparr>"

definition sample_job :: flush_job where
  "sample_job = \<lparr>fj_local_path = ''/a.pt'', fj_remote_path = ''/b.pt'', fj_step = 1, fj_rank = 0,
     fj_size_bytes = 2, fj_enqueue_time = 0\<rparr>"

definition sample_ckpt :: "bool ckpt" where
  "sample_ckpt = ckpt_init ''/tmp'' (Some ''/l'') 0 1 3 1 False False [''/a.pt'' \<mapsto> [True, False]]"


text \<open>
  C15: Flush liveness: if no write fails and the stop flag is not seen, a loop of at most one
  iteration more than the checkpoint has bytes completes the flush, and the final path then
  holds the checkpoint.
\<close>

theorem flush_completes:
  assumes "cm_fs c (fj_local_path job) = Some src" and "0 < cm_chunk_bytes c"
    and "length src < length envs" and "\<forall>e \<in> set envs. ce_write_ok e \<and> \<not> ce_stop_seen e"
    and "fj_remote_path job \<noteq> fj_local_path job"
  shows "\<exists>c'. do_flush envs job c = (Some (Inr ()), c') \<and>
    cm_fs c' (fj_remote_path job) = Some src \<and> cm_flush_count c' = cm_flush_count c + 1"
proof -
  have pos: "0 < fl_chunk_bytes (flush_start src c)" using assms(2) by (simp add: flush_start_def)
  have "length (fl_rest (flush_start src c)) < length envs"
    using assms(3) by (simp add: flush_start_def)
  with pos assms(4) obtain l where
    l: "flush_chunks (cm_adaptive_chunk c) (cm_has_monitor c) envs (flush_start src c) = Flush_Copied l"
    using flush_chunks_terminates by blast
  with flush_chunks_split [OF pos, of "cm_adaptive_chunk c" "cm_has_monitor c" envs]
  have "fl_written l = src" by (auto simp: flush_start_def)
  with l assms(1,5) show ?thesis
    by (simp add: do_flush_def finish_flush_def loop_effect_def)
qed

theorem flush_completes_witness:
  "\<exists>c'. do_flush [plain_env, plain_env, plain_env] sample_job sample_ckpt = (Some (Inr ()), c') \<and>
     cm_fs c' ''/b.pt'' = Some [True, False]"
proof -
  have "cm_fs sample_ckpt (fj_local_path sample_job) = Some [True, False]" "0 < cm_chunk_bytes sample_ckpt"
    "fj_remote_path sample_job \<noteq> fj_local_path sample_job" "fj_remote_path sample_job = ''/b.pt''"
    by (simp_all add: sample_ckpt_def sample_job_def ckpt_init_def)
  with flush_completes [OF this(1,2), of "[plain_env, plain_env, plain_env]"] show ?thesis
    by (auto simp: plain_env_def)
qed

text \<open>
  Pacing. While an NCCL collective is active a chunk is only written after the gate was
  waited for, every failed wait is counted, and a stop request then ends the flush; a soft
  throttle sleeps at most 50 ms. A rate of 0 without an active collective (its estimate
  exhausts the PCIe budget) throttles nothing: the open gate lets the chunk go at full speed.
  The adaptive chunk stays between 4 MB and 512 MB once it is adapted.
\<close>

lemma pacing_correct:
  "(is_nccl_active (ce_monitor e) \<longrightarrow>
      pacing e n samples = (if 0 < ce_failed_waits e \<and> ce_stop_seen e
        then Pace_Abort (int (ce_failed_waits e)) else Pace_Go (int (ce_failed_waits e)) 0)) \<and>
   (\<not> is_nccl_active (ce_monitor e) \<and> ce_failed_waits e = 0 \<and>
      PCIE_CEILING * (1 - SAFETY_MARGIN) \<le> effective_nccl_bps 0 (ce_monitor e) \<and>
      0 \<le> est_bw samples \<longrightarrow> pacing e n samples = Pace_Go 0 0) \<and>
   (\<forall>w s. pacing e n samples = Pace_Go w s \<longrightarrow> 0 \<le> s \<and> s \<le> 50 / 1000) \<and>
   (adaptive_chunk_size m samples n = n \<or> MIN_CHUNK_BYTES \<le> adaptive_chunk_size m samples n \<and>
      adaptive_chunk_size m samples n \<le> MAX_CHUNK_BYTES)"
proof -
  have busy: "is_nccl_active (ce_monitor e) \<Longrightarrow> dynamic_rate b samples (ce_monitor e) = 0" for b
    by (simp add: dynamic_rate_def pm.rate_busy)
  have idle: "dynamic_rate (estimated_nccl_bps (ce_monitor e)) samples (ce_monitor e) \<le> 0"
    if "\<not> is_nccl_active (ce_monitor e)" "0 \<le> est_bw samples"
      "PCIE_CEILING * (1 - SAFETY_MARGIN) \<le> effective_nccl_bps 0 (ce_monitor e)"
  proof -
    have "estimated_nccl_bps (ce_monitor e) = 0"
      using that(1) by (simp add: estimated_nccl_bps_def is_nccl_active_def)
    moreover have "1 \<le> PCIE_CEILING" by (simp add: PCIE_CEILING_def)
    ultimately show ?thesis using that by (simp add: dynamic_rate_def pm.rate_idle)
  qed
  have "pacing e n samples = Pace_Go w s \<Longrightarrow> 0 \<le> s \<and> s \<le> 50 / 1000" for w s
    by (auto simp: pacing_def Let_def min_def split: if_splits)
  moreover have "is_nccl_active (ce_monitor e) \<Longrightarrow> pacing e n samples =
      (if 0 < ce_failed_waits e \<and> ce_stop_seen e
       then Pace_Abort (int (ce_failed_waits e)) else Pace_Go (int (ce_failed_waits e)) 0)"
    by (simp add: pacing_def Let_def busy)
  moreover have "\<not> is_nccl_active (ce_monitor e) \<and> ce_failed_waits e = 0 \<and>
      PCIE_CEILING * (1 - SAFETY_MARGIN) \<le> effective_nccl_bps 0 (ce_monitor e) \<and>
      0 \<le> est_bw samples \<Longrightarrow> pacing e n samples = Pace_Go 0 0"
    using idle by (simp add: pacing_def Let_def)
  ultimately show ?thesis using adaptive_chunk_range [of m samples n] by blast
qed

text \<open>
  Accounting of the flush queue over any history of saves, worker turns and shutdown: the
  pending bytes are those of the queued jobs plus those of the flushes that were stopped or
  failed, which are never taken off; a bounded queue is never exceeded;
  \<open>wait_for_all_flushes\<close> returns exactly when the queue is empty; and after shutdown the
  worker does not touch the queue, so with jobs left it never returns.
\<close>

lemma pending_accounting:
  assumes "cm_reach leak c"
  shows "cm_bytes_pending c = queued_bytes (cm_queue c) + leak \<and> 0 \<le> leak \<and>
    (0 < cm_max_pending c \<longrightarrow> int (length (cm_queue c)) \<le> cm_max_pending c) \<and>
    (wait_for_all_flushes_returns c \<longleftrightarrow> cm_queue c = []) \<and>
    (cm_stop c \<longrightarrow> (\<forall>envs. flush_worker_turn envs c = Some c))"
  using cm_reach_inv [OF assms]
  by (auto simp: cm_inv_def wait_for_all_flushes_returns_def flush_worker_turn_def)

text \<open>
  Checkpoint file names are unique: two checkpoints with non-negative steps get the same
  file name only if step and rank are the same, so no save overwrites another one's file.
\<close>

lemma checkpoint_names_unique:
  assumes "0 \<le> s" and "0 \<le> s'"
  shows "ckpt_fname s r = ckpt_fname s' r' \<longleftrightarrow> s = s' \<and> r = r'"
  using ckpt_fname_inj assms by blast

end
