(* ===== verification/QoS.thy ===== *)
theory QoS
  imports Prelude
begin

text \<open>
  \<^verbatim>\<open>tempo/qos_mapper.py\<close> and \<^verbatim>\<open>tempo/libfabric_qos.py\<close>: traffic
  classes, the classification of service gains, socket marking, and the endpoint-level
  control of the Slingshot class. Calls of the operating system and of libfabric are
  parameters: whether a socket option is accepted, and the value \<open>fi_setopt\<close> returns for
  an endpoint and a class.
\<close>

section \<open>Traffic classes\<close>

datatype tc = BACKGROUND | STORAGE | BULK | LATENCY

fun tc_val :: "tc \<Rightarrow> nat" where
  "tc_val BACKGROUND = 0"
| "tc_val STORAGE = 1"
| "tc_val BULK = 2"
| "tc_val LATENCY = 3"

lemma tc_val_inj: "tc_val a = tc_val b \<longleftrightarrow> a = b"
  by (cases a; cases b) simp_all

instantiation tc :: linorder
begin

definition less_eq_tc :: "tc \<Rightarrow> tc \<Rightarrow> bool" where
  "less_eq_tc a b \<longleftrightarrow> tc_val a \<le> tc_val b"

definition less_tc :: "tc \<Rightarrow> tc \<Rightarrow> bool" where
  "less_tc a b \<longleftrightarrow> tc_val a < tc_val b"

instance
  by standard (auto simp: less_eq_tc_def less_tc_def tc_val_inj [symmetric])

end

definition TC_LIST :: "tc list" where "TC_LIST = [BACKGROUND, STORAGE, BULK, LATENCY]"

fun TC_DSCP :: "tc \<Rightarrow> nat" where
  "TC_DSCP BACKGROUND = 0"
| "TC_DSCP STORAGE = 18"
| "TC_DSCP BULK = 34"
| "TC_DSCP LATENCY = 46"

fun TC_SO_PRIO :: "tc \<Rightarrow> nat" where
  "TC_SO_PRIO BACKGROUND = 0"
| "TC_SO_PRIO STORAGE = 2"
| "TC_SO_PRIO BULK = 4"
| "TC_SO_PRIO LATENCY = 6"

fun tc_name :: "tc \<Rightarrow> string" where
  "tc_name BACKGROUND = ''BACKGROUND''"
| "tc_name STORAGE = ''STORAGE''"
| "tc_name BULK = ''BULK''"
| "tc_name LATENCY = ''LATENCY''"

record traffic_class =
  trc_tc :: tc
  trc_dscp :: nat
  trc_tos_byte :: nat
  trc_so_prio :: nat
  trc_name :: string

definition build_tc :: "tc \<Rightarrow> traffic_class" where
  "build_tc c =
     (let dscp = TC_DSCP c in
      \<lparr>trc_tc = c, trc_dscp = dscp, trc_tos_byte = push_bit 2 dscp, trc_so_prio = TC_SO_PRIO c,
       trc_name = tc_name c\<rparr>)"

section \<open>QoSMapper\<close>

definition GAIN_TC3 :: real where "GAIN_TC3 = 70 / 100"
definition GAIN_TC2 :: real where "GAIN_TC2 = 40 / 100"
definition GAIN_TC1 :: real where "GAIN_TC1 = 15 / 100"

record qos_mapper =
  qm_enabled :: bool
  qm_dry_run :: bool
  qm_tos_ok :: bool
  qm_counters :: "tc \<Rightarrow> int"
  qm_bytes :: "tc \<Rightarrow> int"
  qm_applied :: int

text \<open>\<open>_probe_tos\<close>: whether the kernel accepts the option on a fresh socket.\<close>

definition qos_mapper_init :: "bool \<Rightarrow> bool \<Rightarrow> bool \<Rightarrow> qos_mapper" where
  "qos_mapper_init probe_tos enabled dry_run =
     \<lparr>qm_enabled = enabled, qm_dry_run = dry_run,
      qm_tos_ok = (if enabled \<and> \<not> dry_run then probe_tos else False),
      qm_counters = (\<lambda>_. 0), qm_bytes = (\<lambda>_. 0), qm_applied = 0\<rparr>"

definition effective_gain :: "real \<Rightarrow> real \<Rightarrow> real" where
  "effective_gain gain urgency = min 1 (gain + 8 / 100 * urgency)"

definition eff_to_tc :: "real \<Rightarrow> tc" where
  "eff_to_tc eff =
     (if GAIN_TC3 \<le> eff then LATENCY
      else if GAIN_TC2 \<le> eff then BULK
      else if GAIN_TC1 \<le> eff then STORAGE
      else BACKGROUND)"

definition classify :: "real \<Rightarrow> string \<Rightarrow> real \<Rightarrow> int \<Rightarrow> qos_mapper \<Rightarrow> traffic_class \<times> qos_mapper" where
  "classify gain traffic_type urgency size_bytes q =
     (if \<not> qm_enabled q then (build_tc BACKGROUND, q)
      else
        let c = (if traffic_type = ''nccl'' then LATENCY
                 else if traffic_type = ''bg_io'' then BACKGROUND
                 else eff_to_tc (effective_gain gain urgency))
        in (build_tc c,
            q\<lparr>qm_counters := (qm_counters q)(c := qm_counters q c + 1),
              qm_bytes := (qm_bytes q)(c := qm_bytes q c + size_bytes)\<rparr>))"

text \<open>The two arguments say whether the two \<open>setsockopt\<close> calls are accepted.\<close>

definition apply_to_socket :: "bool \<Rightarrow> bool \<Rightarrow> traffic_class \<Rightarrow> qos_mapper \<Rightarrow> bool \<times> qos_mapper" where
  "apply_to_socket tos_accepted prio_accepted c q =
     (if \<not> qm_enabled q then (False, q)
      else if qm_dry_run q then (True, q\<lparr>qm_applied := qm_applied q + 1\<rparr>)
      else if \<not> qm_tos_ok q then (False, q)
      else if tos_accepted then (True, q\<lparr>qm_applied := qm_applied q + 1\<rparr>)
      else (False, q))"

definition apply_fd_priority :: "bool \<Rightarrow> real \<Rightarrow> real \<Rightarrow> qos_mapper \<Rightarrow> bool \<times> qos_mapper" where
  "apply_fd_priority setpriority_ok gain urgency q =
     (if \<not> qm_enabled q then (False, q)
      else case classify gain ''kv_cache'' urgency 0 q of
             (c, q') \<Rightarrow> (trc_tc c = BACKGROUND \<and> setpriority_ok, q'))"

record qm_stats =
  qs_enabled :: bool
  qs_dry_run :: bool
  qs_tos_capable :: bool
  qs_applied_marks :: int
  qs_tc_distribution :: "(string, real \<times> real) dict"

definition qm_get_stats :: "qos_mapper \<Rightarrow> qm_stats" where
  "qm_get_stats q =
     (let total_ops = max 1 (sum_list (map (qm_counters q) TC_LIST));
          total_bytes = max 1 (sum_list (map (qm_bytes q) TC_LIST))
      in \<lparr>qs_enabled = qm_enabled q, qs_dry_run = qm_dry_run q, qs_tos_capable = qm_tos_ok q,
          qs_applied_marks = qm_applied q,
          qs_tc_distribution =
            map (\<lambda>c. (tc_name c, (100 * of_int (qm_counters q c) / of_int total_ops,
                                  100 * of_int (qm_bytes q c) / of_int total_bytes))) TC_LIST\<rparr>)"

section \<open>CXI traffic classes\<close>

datatype cxi_tc = CXI_UNSPECIFIED | CXI_BEST_EFFORT | CXI_STORAGE | CXI_BULK | CXI_LOW_LATENCY

fun cxi_val :: "cxi_tc \<Rightarrow> nat" where
  "cxi_val CXI_UNSPECIFIED = 0"
| "cxi_val CXI_BEST_EFFORT = 1"
| "cxi_val CXI_STORAGE = 2"
| "cxi_val CXI_BULK = 4"
| "cxi_val CXI_LOW_LATENCY = 6"

lemma cxi_val_inj: "cxi_val a = cxi_val b \<longleftrightarrow> a = b"
  by (cases a; cases b) simp_all

instantiation cxi_tc :: linorder
begin

definition less_eq_cxi_tc :: "cxi_tc \<Rightarrow> cxi_tc \<Rightarrow> bool" where
  "less_eq_cxi_tc a b \<longleftrightarrow> cxi_val a \<le> cxi_val b"

definition less_cxi_tc :: "cxi_tc \<Rightarrow> cxi_tc \<Rightarrow> bool" where
  "less_cxi_tc a b \<longleftrightarrow> cxi_val a < cxi_val b"

instance
  by standard (auto simp: less_eq_cxi_tc_def less_cxi_tc_def cxi_val_inj [symmetric])

end

definition GAIN_TO_CXI_TC :: "(real \<times> cxi_tc) list" where
  "GAIN_TO_CXI_TC =
     [(70 / 100, CXI_LOW_LATENCY), (40 / 100, CXI_BULK), (15 / 100, CXI_STORAGE),
      (0, CXI_BEST_EFFORT)]"

fun first_threshold :: "real \<Rightarrow> (real \<times> cxi_tc) list \<Rightarrow> cxi_tc" where
  "first_threshold gain_score [] = CXI_BEST_EFFORT"
| "first_threshold gain_score ((threshold, c) # rest) =
     (if threshold \<le> gain_score then c else first_threshold gain_score rest)"

definition gain_to_cxi_tc :: "real \<Rightarrow> cxi_tc" where
  "gain_to_cxi_tc gain_score = first_threshold gain_score GAIN_TO_CXI_TC"

fun cxi_tc_to_socket_tc :: "cxi_tc \<Rightarrow> tc" where
  "cxi_tc_to_socket_tc CXI_UNSPECIFIED = BACKGROUND"
| "cxi_tc_to_socket_tc CXI_BEST_EFFORT = BACKGROUND"
| "cxi_tc_to_socket_tc CXI_STORAGE = STORAGE"
| "cxi_tc_to_socket_tc CXI_BULK = BULK"
| "cxi_tc_to_socket_tc CXI_LOW_LATENCY = LATENCY"

fun describe_tc_impact :: "cxi_tc \<Rightarrow> string" where
  "describe_tc_impact CXI_UNSPECIFIED = ''Default (Cassini implementation-defined behaviour)''"
| "describe_tc_impact CXI_BEST_EFFORT =
     ''Q0: de-prioritised under any congestion; deferred transfer''"
| "describe_tc_impact CXI_STORAGE = ''Q1: checkpoint / cold-KV flush, yield to NCCL and hot KV''"
| "describe_tc_impact CXI_BULK = ''Q2: normal KV-cache; guaranteed BW, lower latency than Q1''"
| "describe_tc_impact CXI_LOW_LATENCY =
     ''Q3: deadline-critical; Expedited Forwarding, co-equal with NCCL''"

section \<open>CXIEndpointQoS\<close>

text \<open>
  The environment: the loaded library as the function \<open>fi_setopt\<close> computes (0 means
  success), and whether the CXI sysfs directory exists. \<open>cq_calls\<close> logs the calls made,
  with their class and whether they succeeded.
\<close>

record fabric_env =
  fe_setopt :: "(int \<Rightarrow> nat \<Rightarrow> int) option"
  fe_cxi_sysfs :: bool

definition libfabric_available :: "fabric_env \<Rightarrow> bool" where
  "libfabric_available env \<longleftrightarrow> fe_setopt env \<noteq> None \<and> fe_cxi_sysfs env"

record cxi_qos =
  cq_ep_ptr :: int
  cq_current :: cxi_tc
  cq_dry_run :: bool
  cq_set_count :: int
  cq_calls :: "(cxi_tc \<times> bool) list"

definition cxi_apply :: "fabric_env \<Rightarrow> cxi_tc \<Rightarrow> cxi_qos \<Rightarrow> bool \<times> cxi_qos" where
  "cxi_apply env c q =
     (if cq_dry_run q then (True, q\<lparr>cq_set_count := cq_set_count q + 1\<rparr>)
      else case fe_setopt env of
             None \<Rightarrow> (False, q)
           | Some setopt \<Rightarrow>
               (if cq_ep_ptr q = 0 then (False, q)
                else
                  let ret = setopt (cq_ep_ptr q) (cxi_val c);
                      q1 = q\<lparr>cq_calls := cq_calls q @ [(c, ret = 0)]\<rparr>
                  in if ret \<noteq> 0 then (False, q1)
                     else (True, q1\<lparr>cq_set_count := cq_set_count q1 + 1\<rparr>)))"

definition cxi_qos_init :: "fabric_env \<Rightarrow> int \<Rightarrow> cxi_tc \<Rightarrow> bool \<Rightarrow> cxi_qos" where
  "cxi_qos_init env ep_ptr initial_tc dry_run =
     (let q = \<lparr>cq_ep_ptr = ep_ptr, cq_current = initial_tc,
               cq_dry_run = (dry_run \<or> \<not> libfabric_available env), cq_set_count = 0,
               cq_calls = []\<rparr>
      in if \<not> cq_dry_run q then snd (cxi_apply env initial_tc q) else q)"

definition set_tc :: "fabric_env \<Rightarrow> cxi_tc \<Rightarrow> cxi_qos \<Rightarrow> bool \<times> cxi_qos" where
  "set_tc env c q =
     (if c = cq_current q then (False, q)
      else case cxi_apply env c q of
             (ok, q1) \<Rightarrow> (ok, if ok then q1\<lparr>cq_current := c\<rparr> else q1))"

definition set_tc_for_gain :: "fabric_env \<Rightarrow> real \<Rightarrow> cxi_qos \<Rightarrow> cxi_tc \<times> cxi_qos" where
  "set_tc_for_gain env gain_score q =
     (let c = gain_to_cxi_tc gain_score in (c, snd (set_tc env c q)))"

record cq_stats =
  cqs_current_tc :: cxi_tc
  cqs_set_count :: int
  cqs_libfabric_active :: bool
  cqs_dry_run :: bool

definition cq_get_stats :: "fabric_env \<Rightarrow> cxi_qos \<Rightarrow> cq_stats" where
  "cq_get_stats env q =
     \<lparr>cqs_current_tc = cq_current q, cqs_set_count = cq_set_count q,
      cqs_libfabric_active = (libfabric_available env \<and> \<not> cq_dry_run q), cqs_dry_run = cq_dry_run q\<rparr>"

section \<open>FabricQoSManager\<close>

text \<open>
  An endpoint handle of the pool: absent, a Python integer, or a \<open>ctypes.c_void_p\<close>
  object, which \<open>int()\<close> does not accept.
\<close>

datatype ep_handle = No_Handle | Int_Handle int | C_Void_P int

fun handle_to_int :: "ep_handle \<Rightarrow> int result" where
  "handle_to_int No_Handle = Inr 0"
| "handle_to_int (Int_Handle n) = Inr n"
| "handle_to_int (C_Void_P n) = Inl TypeError"

record fabric_qos =
  fq_n_nics :: nat
  fq_dry_run :: bool
  fq_default_tc :: cxi_tc
  fq_endpoints :: "(nat, cxi_qos) dict"
  fq_socket_qos :: qos_mapper

definition fabric_qos_init :: "bool \<Rightarrow> nat \<Rightarrow> bool \<Rightarrow> cxi_tc \<Rightarrow> fabric_qos" where
  "fabric_qos_init probe_tos n_nics dry_run default_tc =
     \<lparr>fq_n_nics = n_nics, fq_dry_run = dry_run, fq_default_tc = default_tc, fq_endpoints = [],
      fq_socket_qos = qos_mapper_init probe_tos True False\<rparr>"

fun attach_nics ::
    "fabric_env \<Rightarrow> (nat \<Rightarrow> ep_handle) \<Rightarrow> nat list \<Rightarrow> fabric_qos \<Rightarrow> unit result \<times> fabric_qos" where
  "attach_nics env pool [] f = (Inr (), f)"
| "attach_nics env pool (nic_idx # nics) f =
     (case handle_to_int (pool nic_idx) of
        Inl e \<Rightarrow> (Inl e, f)
      | Inr ep_ptr \<Rightarrow>
          attach_nics env pool nics
            (f\<lparr>fq_endpoints := AList.update nic_idx
                 (cxi_qos_init env ep_ptr (fq_default_tc f) (fq_dry_run f)) (fq_endpoints f)\<rparr>))"

definition attach_pool ::
    "fabric_env \<Rightarrow> (nat \<Rightarrow> ep_handle) \<Rightarrow> fabric_qos \<Rightarrow> unit result \<times> fabric_qos" where
  "attach_pool env pool f = attach_nics env pool [0..<fq_n_nics f] f"

definition apply_for_gain :: "fabric_env \<Rightarrow> nat \<Rightarrow> real \<Rightarrow> fabric_qos \<Rightarrow> cxi_tc \<times> fabric_qos" where
  "apply_for_gain env nic_idx gain_score f =
     (let c = gain_to_cxi_tc gain_score in
      case map_of (fq_endpoints f) nic_idx of
        None \<Rightarrow> (c, f)
      | Some ep \<Rightarrow>
          (c, f\<lparr>fq_endpoints := AList.update nic_idx (snd (set_tc env c ep)) (fq_endpoints f)\<rparr>))"

text \<open>\<open>QoSMapper\<close> has no method \<open>apply\<close>, so the call raises.\<close>

definition apply_socket_fallback :: "int \<Rightarrow> real \<Rightarrow> fabric_qos \<Rightarrow> unit result" where
  "apply_socket_fallback sock_fd gain_score f = Inl AttributeError"

definition set_all_tc :: "fabric_env \<Rightarrow> cxi_tc \<Rightarrow> fabric_qos \<Rightarrow> fabric_qos" where
  "set_all_tc env c f =
     f\<lparr>fq_endpoints := map (\<lambda>(i, ep). (i, snd (set_tc env c ep))) (fq_endpoints f)\<rparr>"

record fq_stats =
  fqs_libfabric_available :: bool
  fqs_n_endpoints :: nat
  fqs_endpoints :: "(nat, cq_stats) dict"

definition fq_get_stats :: "fabric_env \<Rightarrow> fabric_qos \<Rightarrow> fq_stats" where
  "fq_get_stats env f =
     \<lparr>fqs_libfabric_available = libfabric_available env,
      fqs_n_endpoints = length (fq_endpoints f),
      fqs_endpoints = map (\<lambda>(i, ep). (i, cq_get_stats env ep)) (fq_endpoints f)\<rparr>"

section \<open>Classifiers as an interface\<close>

text \<open>
  Both levels classify a score by three cut points into four rising classes. What a client
  relies on, that a higher score never gets a lower class, is proved once.
\<close>

locale threshold_classifier =
  fixes cls :: "real \<Rightarrow> 'c::linorder" and cut :: "nat \<Rightarrow> real" and level :: "nat \<Rightarrow> 'c"
  assumes cut_mono: "cut 1 \<le> cut 2" "cut 2 \<le> cut 3"
    and level_mono: "level 0 < level 1" "level 1 < level 2" "level 2 < level 3"
    and cls_eq: "cls x = (if cut 3 \<le> x then level 3 else if cut 2 \<le> x then level 2
      else if cut 1 \<le> x then level 1 else level 0)"
begin

lemma cls_range: "level 0 \<le> cls x \<and> cls x \<le> level 3"
  using level_mono by (auto simp: cls_eq)

lemma cls_mono: "x \<le> y \<Longrightarrow> cls x \<le> cls y"
  using level_mono cut_mono by (auto simp: cls_eq)

lemma cls_at_least:
  "level 1 \<le> cls x \<longleftrightarrow> cut 1 \<le> x" "level 2 \<le> cls x \<longleftrightarrow> cut 2 \<le> x" "level 3 \<le> cls x \<longleftrightarrow> cut 3 \<le> x"
  using level_mono cut_mono by (auto simp: cls_eq)

end

definition gain_cut :: "nat \<Rightarrow> real" where
  "gain_cut n = (if n = 3 then GAIN_TC3 else if n = 2 then GAIN_TC2 else GAIN_TC1)"

definition tc_level :: "nat \<Rightarrow> tc" where
  "tc_level n = (if n = 3 then LATENCY else if n = 2 then BULK else if n = 1 then STORAGE else BACKGROUND)"

definition cxi_level :: "nat \<Rightarrow> cxi_tc" where
  "cxi_level n = (if n = 3 then CXI_LOW_LATENCY else if n = 2 then CXI_BULK
     else if n = 1 then CXI_STORAGE else CXI_BEST_EFFORT)"

lemmas gain_cuts = gain_cut_def GAIN_TC1_def GAIN_TC2_def GAIN_TC3_def

interpretation socket_cls: threshold_classifier eff_to_tc gain_cut tc_level
  by unfold_locales (simp_all add: gain_cuts tc_level_def eff_to_tc_def less_tc_def)

interpretation fabric_cls: threshold_classifier gain_to_cxi_tc gain_cut cxi_level
  by unfold_locales (simp_all add: gain_cuts cxi_level_def gain_to_cxi_tc_def GAIN_TO_CXI_TC_def
      less_cxi_tc_def)

section \<open>Lemmas\<close>

lemma build_tc_tc [simp]: "trc_tc (build_tc c) = c"
  by (simp add: build_tc_def Let_def)

lemma classify_enabled:
  assumes "qm_enabled q"
  obtains c where "classify g ty u n q = (build_tc c,
      q\<lparr>qm_counters := (qm_counters q)(c := qm_counters q c + 1),
        qm_bytes := (qm_bytes q)(c := qm_bytes q c + n)\<rparr>)"
    and "c = (if ty = ''nccl'' then LATENCY else if ty = ''bg_io'' then BACKGROUND
      else eff_to_tc (effective_gain g u))"
  using assms that by (simp add: classify_def Let_def)

lemma eff_to_tc_capped: "eff_to_tc (min 1 x) = eff_to_tc x"
  by (auto simp: eff_to_tc_def GAIN_TC1_def GAIN_TC2_def GAIN_TC3_def min_def)

lemma cxi_socket_agree: "cxi_tc_to_socket_tc (gain_to_cxi_tc g) = eff_to_tc g"
  by (simp add: gain_to_cxi_tc_def GAIN_TO_CXI_TC_def eff_to_tc_def GAIN_TC1_def GAIN_TC2_def
      GAIN_TC3_def)

text \<open>The last class the provider accepted, if any.\<close>

definition last_set :: "(cxi_tc \<times> bool) list \<Rightarrow> cxi_tc option" where
  "last_set calls =
     (let cs = filter snd calls in if cs = [] then None else Some (fst (last cs)))"

lemma last_set_snoc [simp]: "last_set (calls @ [(c, ok)]) = (if ok then Some c else last_set calls)"
  by (simp add: last_set_def Let_def)

lemma last_set_single [simp]: "last_set [(c, ok)] = (if ok then Some c else None)"
  using last_set_snoc [of "[]"] by (simp add: last_set_def)

lemma last_set_Nil [simp]: "last_set [] = None"
  by (simp add: last_set_def)

text \<open>
  An active endpoint: the recorded class is the last one the provider accepted, or, if it
  accepted none, the initial class that was never applied.
\<close>

definition cxi_ok :: "cxi_tc \<Rightarrow> cxi_qos \<Rightarrow> bool" where
  "cxi_ok initial q \<longleftrightarrow> cq_dry_run q \<or>
     last_set (cq_calls q) = Some (cq_current q) \<or> last_set (cq_calls q) = None \<and> cq_current q = initial"

lemma cxi_ok_init: "cxi_ok initial (cxi_qos_init env ep initial dry)"
  by (simp add: cxi_ok_def cxi_qos_init_def cxi_apply_def Let_def split: option.split)

lemma cxi_ok_set: "cxi_ok initial q \<Longrightarrow> cxi_ok initial (snd (set_tc env c q))"
  by (auto simp: cxi_ok_def set_tc_def cxi_apply_def Let_def split: option.split)

lemma cxi_ok_fold: "cxi_ok initial q \<Longrightarrow> cxi_ok initial (fold (\<lambda>c q. snd (set_tc env c q)) cs q)"
  by (induction cs arbitrary: q) (simp_all add: cxi_ok_set)

lemma attach_nics_keys:
  assumes "\<forall>i \<in> set nics. \<exists>n. handle_to_int (pool i) = Inr n"
  shows "\<exists>f'. attach_nics env pool nics f = (Inr (), f') \<and>
    fst ` set (fq_endpoints f') = set nics \<union> fst ` set (fq_endpoints f)"
  using assms
proof (induction nics arbitrary: f)
  case Nil
  then show ?case by simp
next
  case (Cons i nics)
  then obtain n where n: "handle_to_int (pool i) = Inr n" by auto
  let ?f1 = "f\<lparr>fq_endpoints := AList.update i
      (cxi_qos_init env n (fq_default_tc f) (fq_dry_run f)) (fq_endpoints f)\<rparr>"
  have "\<exists>f'. attach_nics env pool nics ?f1 = (Inr (), f') \<and>
      fst ` set (fq_endpoints f') = set nics \<union> fst ` set (fq_endpoints ?f1)"
    using Cons.prems by (intro Cons.IH) simp
  then show ?case by (auto simp: n dom_update)
qed

section \<open>Properties\<close>

text \<open>
  C19: Classification. An enabled mapper gives NCCL the highest and background I/O the lowest
  class; any other transfer gets a class that rises with gain and urgency, reaches LATENCY,
  BULK and STORAGE exactly from the thresholds 0.70, 0.40 and 0.15 on for gain plus 0.08
  times urgency, and exactly that class is counted. A disabled mapper answers BACKGROUND and
  counts nothing.
\<close>

theorem qos_classify:
  shows "(\<not> qm_enabled q \<longrightarrow> classify g ty u n q = (build_tc BACKGROUND, q)) \<and>
    (qm_enabled q \<longrightarrow> (case classify g ty u n q of (c, q') \<Rightarrow>
       qm_counters q' = (qm_counters q)(trc_tc c := qm_counters q (trc_tc c) + 1) \<and>
       qm_bytes q' = (qm_bytes q)(trc_tc c := qm_bytes q (trc_tc c) + n) \<and>
       (ty = ''nccl'' \<longrightarrow> trc_tc c = LATENCY) \<and> (ty = ''bg_io'' \<longrightarrow> trc_tc c = BACKGROUND) \<and>
       (ty \<noteq> ''nccl'' \<and> ty \<noteq> ''bg_io'' \<longrightarrow>
         (LATENCY \<le> trc_tc c \<longleftrightarrow> 70 / 100 \<le> g + 8 / 100 * u) \<and>
         (BULK \<le> trc_tc c \<longleftrightarrow> 40 / 100 \<le> g + 8 / 100 * u) \<and>
         (STORAGE \<le> trc_tc c \<longleftrightarrow> 15 / 100 \<le> g + 8 / 100 * u) \<and>
         (\<forall>g' u' n' q1. g \<le> g' \<and> u \<le> u' \<and> qm_enabled q1 \<longrightarrow>
            trc_tc c \<le> trc_tc (fst (classify g' ty u' n' q1))))))"
proof -
  have e: "eff_to_tc (effective_gain g u) = eff_to_tc (g + 8 / 100 * u)" for g u
    by (simp add: effective_gain_def eff_to_tc_capped)
  note ge = socket_cls.cls_at_least [of "g + 8 / 100 * u", unfolded tc_level_def gain_cuts, simplified]
  have mono: "eff_to_tc (effective_gain g u) \<le> eff_to_tc (effective_gain g' u')"
    if "g \<le> g'" "u \<le> u'" for g' u'
    using that unfolding e by (intro socket_cls.cls_mono) simp
  show ?thesis
    using ge mono by (auto simp: classify_def Let_def e)
qed

theorem qos_classify_witness:
  "BULK \<le> trc_tc (fst (classify (37 / 100) ''kv_cache'' (1 / 2) 10 (qos_mapper_init True True False)))"
  using qos_classify [of "qos_mapper_init True True False" "37 / 100" "''kv_cache''" "1 / 2" 10]
  by (simp add: qos_mapper_init_def split_beta)

text \<open>
  C20: The two levels. Without urgency the fabric class of a gain, translated to the socket
  level, is exactly the mapper's class; with urgency the mapper's class is at least that one
  and it is really higher for some scores, so the fabric table does not mirror the mapper.
\<close>

theorem fabric_socket_levels:
  assumes "qm_enabled q" and "ty \<noteq> ''nccl''" and "ty \<noteq> ''bg_io''" and "0 \<le> u"
  shows "trc_tc (fst (classify g ty 0 n q)) = cxi_tc_to_socket_tc (gain_to_cxi_tc g) \<and>
    cxi_tc_to_socket_tc (gain_to_cxi_tc g) \<le> trc_tc (fst (classify g ty u n q)) \<and>
    (0 < u \<longrightarrow> (\<exists>g' > 0. cxi_tc_to_socket_tc (gain_to_cxi_tc g') < trc_tc (fst (classify g' ty u n q))))"
proof -
  have c: "trc_tc (fst (classify g' ty u' n q)) = eff_to_tc (g' + 8 / 100 * u')" for g' u'
    using assms by (simp add: classify_def Let_def effective_gain_def eff_to_tc_capped)
  have le: "eff_to_tc g \<le> eff_to_tc (g + 8 / 100 * u)"
    using assms(4) by (intro socket_cls.cls_mono) simp
  have "\<exists>g' > 0. eff_to_tc g' < eff_to_tc (g' + 8 / 100 * u)" if "0 < u"
  proof (intro exI conjI)
    let ?g = "max (1 / 2) (70 / 100 - 8 / 100 * u)"
    show "0 < ?g" by simp
    have "70 / 100 \<le> ?g + 8 / 100 * u" and "?g < 70 / 100" and "40 / 100 \<le> ?g"
      using that by (simp_all add: max_def field_simps)
    then show "eff_to_tc ?g < eff_to_tc (?g + 8 / 100 * u)"
      by (simp add: eff_to_tc_def GAIN_TC1_def GAIN_TC2_def GAIN_TC3_def less_tc_def)
  qed
  then show ?thesis using le by (simp add: c cxi_socket_agree)
qed

theorem fabric_socket_levels_witness:
  "trc_tc (fst (classify (1 / 2) ''kv_cache'' 0 1 (qos_mapper_init True True False)))
     = cxi_tc_to_socket_tc (gain_to_cxi_tc (1 / 2))"
  using fabric_socket_levels [of "qos_mapper_init True True False" "''kv_cache''" 0 "1 / 2" 1]
  by (simp add: qos_mapper_init_def)

text \<open>
  The marks: every class has a ToS byte of 8 bits with the two ECN bits clear whose upper
  bits are the DSCP, an unprivileged socket priority, and both rise with the class.
\<close>

lemma tc_marks_wf:
  "trc_tos_byte (build_tc c) < 256 \<and> trc_tos_byte (build_tc c) mod 4 = 0 \<and>
   drop_bit 2 (trc_tos_byte (build_tc c)) = trc_dscp (build_tc c) \<and>
   trc_so_prio (build_tc c) \<le> 6 \<and>
   (c < d \<longleftrightarrow> trc_tos_byte (build_tc c) < trc_tos_byte (build_tc d)) \<and>
   (c < d \<longleftrightarrow> trc_so_prio (build_tc c) < trc_so_prio (build_tc d))"
  by (cases c; cases d) (simp_all add: build_tc_def Let_def less_tc_def push_bit_eq_mult)

text \<open>
  Endpoint control. After any sequence of class changes on an active endpoint, the
  recorded class is the last one the provider accepted; or it accepted none and the recorded
  class is the initial one. A change to the recorded class makes no call and reports
  \<open>False\<close>, so an initial class that was not applied is never applied by asking for it.
\<close>

lemma endpoint_tc_tracking:
  assumes "q = fold (\<lambda>c q. snd (set_tc env c q)) cs (cxi_qos_init env ep initial dry)"
  shows "(cq_dry_run q \<or> last_set (cq_calls q) = Some (cq_current q) \<or>
      last_set (cq_calls q) = None \<and> cq_current q = initial) \<and>
    set_tc env (cq_current q) q = (False, q) \<and>
    (set_tc env c q = (True, q') \<longrightarrow> cq_current q' = c \<and> cq_set_count q' = cq_set_count q + 1)"
proof -
  have "cxi_ok initial q" using cxi_ok_fold [OF cxi_ok_init] assms by blast
  then show ?thesis
    by (auto simp: cxi_ok_def set_tc_def cxi_apply_def Let_def split: option.splits if_splits)
qed

text \<open>
  Attaching a pool. If every handle converts to an integer, exactly the managed NICs get
  an endpoint; a handle that is a \<open>ctypes.c_void_p\<close> object, which an opened endpoint
  has, raises \<open>TypeError\<close>. The socket fallback raises \<open>AttributeError\<close> always.
\<close>

lemma attach_pool_correct:
  assumes "fq_endpoints f = []"
  shows "((\<forall>i < fq_n_nics f. \<exists>n. handle_to_int (pool i) = Inr n) \<longrightarrow>
      (\<exists>f'. attach_pool env pool f = (Inr (), f') \<and>
        fst ` set (fq_endpoints f') = {0..<fq_n_nics f})) \<and>
    (0 < fq_n_nics f \<and> pool 0 = C_Void_P p \<longrightarrow> attach_pool env pool f = (Inl TypeError, f)) \<and>
    apply_socket_fallback sock_fd g f = Inl AttributeError"
proof -
  have "0 < fq_n_nics f \<and> pool 0 = C_Void_P p \<Longrightarrow> attach_pool env pool f = (Inl TypeError, f)"
    by (simp add: attach_pool_def upt_rec)
  then show ?thesis
    using attach_nics_keys [of "[0..<fq_n_nics f]" pool env f] assms
    by (auto simp: attach_pool_def apply_socket_fallback_def)
qed

end
