(* ===== verification/Network_Monitor.thy ===== *)
theory Network_Monitor
  imports Prelude
begin

text \<open>
  \<^verbatim>\<open>tempo/network_monitor.py\<close>: the NIC bandwidth monitor with its congestion gate, rail
  selection and congestion predictor, and the reader of the Cassini hardware counters. File
  contents are parameters: \<open>sysfs\<close> is \<open>_read_sysfs_counter\<close> (the integer in a
  file, or \<open>None\<close>), \<open>c_lib\<close> the optional C counter library. One iteration of each
  daemon thread's loop is one function; \<open>Monitor_Threads\<close> runs the threads.
\<close>

section \<open>Discovery\<close>

definition LINK_SPEED_BPS :: real where "LINK_SPEED_BPS = 200 * 10 ^ 9"
definition CONGESTION_THRESH :: real where "CONGESTION_THRESH = 75 / 100"
definition EMA_ALPHA :: real where "EMA_ALPHA = 25 / 100"
definition POLL_INTERVAL_S :: real where "POLL_INTERVAL_S = 5 / 1000"
definition WINDOW_SIZE :: nat where "WINDOW_SIZE = 64"

type_synonym sysfs = "string \<Rightarrow> int option"

text \<open>
  The environment: the sorted entries of \<^verbatim>\<open>/sys/class/net\<close> with whether their
  \<^verbatim>\<open>tx_bytes\<close> file exists, and the lines of \<^verbatim>\<open>/proc/net/dev\<close> if it opens.
\<close>

definition proc_iface :: "string \<Rightarrow> string list" where
  "proc_iface line =
     (let parts = py_split CHR '':'' (py_strip line) in
      if length parts = 2 \<and>
         list_ex (\<lambda>p. startswith (py_strip (hd parts)) p) [''ens'', ''eth'', ''bond'', ''ib'']
      then [py_strip (hd parts)] else [])"

definition discover_slingshot_nics :: "(string \<times> bool) list \<Rightarrow> string list option \<Rightarrow> string list" where
  "discover_slingshot_nics net_root proc_net_dev =
     (let candidates = [name. (name, has_tx) \<leftarrow> net_root,
            startswith name ''hsn'' \<or> startswith name ''ib'' \<or> startswith name ''hfi'', has_tx]
      in if candidates = []
         then (case proc_net_dev of None \<Rightarrow> [] | Some lines \<Rightarrow> concat (map proc_iface lines))
         else candidates)"

section \<open>The monitor\<close>

record nic_sample =
  ns_ts :: real
  ns_tx :: int
  ns_rx :: int

record nic_state =
  nc_sample :: "nic_sample option"
  nc_ema :: real
  nc_window :: "real list"

record network_monitor =
  nm_congestion_threshold :: real
  nm_poll_interval_s :: real
  nm_link_speed_bps :: real
  nm_nics :: "string list"
  nm_simulated :: bool
  nm_nic_state :: "(string, nic_state) dict"
  nm_total_bps_ema :: real
  nm_total_bps_peak :: real
  nm_io_allowed :: bool
  nm_stop_set :: bool
  nm_poll_count :: int
  nm_congestion_events :: int
  nm_total_congestion_ms :: real
  nm_peak_bps :: real
  nm_congestion_start :: "real option"
  nm_sim_bps :: real

definition network_monitor_init :: "real \<Rightarrow> real \<Rightarrow> real \<Rightarrow> string list \<Rightarrow> network_monitor" where
  "network_monitor_init congestion_threshold poll_interval_s link_speed_bps nics =
     \<lparr>nm_congestion_threshold = congestion_threshold, nm_poll_interval_s = poll_interval_s,
      nm_link_speed_bps = link_speed_bps, nm_nics = nics, nm_simulated = (length nics = 0),
      nm_nic_state = fold (\<lambda>nic. AList.update nic \<lparr>nc_sample = None, nc_ema = 0, nc_window = []\<rparr>)
        nics [],
      nm_total_bps_ema = 0, nm_total_bps_peak = 0, nm_io_allowed = True, nm_stop_set = False,
      nm_poll_count = 0, nm_congestion_events = 0, nm_total_congestion_ms = 0, nm_peak_bps = 0,
      nm_congestion_start = None, nm_sim_bps = 0\<rparr>"

definition nm_start :: "bool \<Rightarrow> network_monitor \<Rightarrow> network_monitor" where
  "nm_start already_running m = (if already_running then m else m\<lparr>nm_stop_set := False\<rparr>)"

definition nm_stop :: "network_monitor \<Rightarrow> network_monitor" where
  "nm_stop m = m\<lparr>nm_stop_set := True, nm_io_allowed := True\<rparr>"

definition is_congested :: "network_monitor \<Rightarrow> bool" where
  "is_congested m \<longleftrightarrow> \<not> nm_io_allowed m"

definition wait_for_bw_headroom :: "bool \<Rightarrow> network_monitor \<Rightarrow> bool" where
  "wait_for_bw_headroom cleared_in_time m \<longleftrightarrow> nm_io_allowed m \<or> cleared_in_time"

definition current_util_fraction :: "network_monitor \<Rightarrow> real" where
  "current_util_fraction m =
     (let bps = (if nm_simulated m then nm_sim_bps m else nm_total_bps_ema m)
      in bps * 8 / nm_link_speed_bps m)"

definition per_rail_util :: "network_monitor \<Rightarrow> (string, real) dict" where
  "per_rail_util m =
     (if nm_simulated m then []
      else map (\<lambda>(nic, st). (nic, nc_ema st * 8 / nm_link_speed_bps m)) (nm_nic_state m))"

definition select_idle_rail :: "network_monitor \<Rightarrow> string option" where
  "select_idle_rail m =
     (case py_min snd (per_rail_util m) of
        None \<Rightarrow> None
      | Some (best_nic, best_util) \<Rightarrow>
          if nm_congestion_threshold m \<le> best_util then None else Some best_nic)"

definition count_idle_rails :: "network_monitor \<Rightarrow> nat" where
  "count_idle_rails m =
     (if nm_simulated m then 1
      else length (filter (\<lambda>(nic, u). u < nm_congestion_threshold m) (per_rail_util m)))"

text \<open>\<open>None\<close> stands for \<open>float("inf")\<close>.\<close>

definition predict_congestion_ms :: "int \<Rightarrow> real \<Rightarrow> network_monitor \<Rightarrow> real option" where
  "predict_congestion_ms bytes_pending flush_bps m =
     (if nm_simulated m then None
      else if \<not> nm_io_allowed m then Some 0
      else
        let current_bits_s = nm_total_bps_ema m * 8;
            threshold_bits_s = nm_link_speed_bps m * nm_congestion_threshold m;
            headroom_bits_s = max 0 (threshold_bits_s - current_bits_s);
            flush_bits_s = flush_bps * 8
        in if flush_bits_s \<le> headroom_bits_s then None
           else
             let incremental_bits_s = flush_bits_s - headroom_bits_s;
                 time_s = headroom_bits_s / max incremental_bits_s 1
             in Some (time_s * 1000))"

definition nm_ema_update :: "real \<Rightarrow> real \<Rightarrow> real" where
  "nm_ema_update x ema = EMA_ALPHA * x + (1 - EMA_ALPHA) * ema"

definition tx_path :: "string \<Rightarrow> string" where
  "tx_path nic = ''/sys/class/net/'' @ nic @ ''/statistics/tx_bytes''"

definition rx_path :: "string \<Rightarrow> string" where
  "rx_path nic = ''/sys/class/net/'' @ nic @ ''/statistics/rx_bytes''"

definition read_nic_bytes :: "sysfs \<Rightarrow> string \<Rightarrow> (int \<times> int) option" where
  "read_nic_bytes sysfs nic =
     (case (sysfs (tx_path nic), sysfs (rx_path nic)) of
        (Some tx, Some rx) \<Rightarrow> Some (tx, rx)
      | _ \<Rightarrow> None)"

definition next_nic_ema :: "real \<Rightarrow> int \<Rightarrow> nic_state \<Rightarrow> real" where
  "next_nic_ema now nbytes st =
     (case nc_sample st of
        None \<Rightarrow> 0
      | Some prev \<Rightarrow>
          (let dt = now - ns_ts prev in
           if dt < 1 / 10 ^ 6 then nc_ema st
           else nm_ema_update (max (of_int (nbytes - (ns_tx prev + ns_rx prev)) / dt) 0) (nc_ema st)))"

definition poll_one_nic ::
    "sysfs \<Rightarrow> real \<Rightarrow> string \<Rightarrow> network_monitor \<Rightarrow> (real \<times> network_monitor) result" where
  "poll_one_nic sysfs now nic m =
     (case read_nic_bytes sysfs nic of
        None \<Rightarrow> Inr (0, m)
      | Some (tx, rx) \<Rightarrow>
          (case map_of (nm_nic_state m) nic of
             None \<Rightarrow> Inl KeyError
           | Some st \<Rightarrow>
               (let new_ema = next_nic_ema now (tx + rx) st;
                    st' = \<lparr>nc_sample = Some \<lparr>ns_ts = now, ns_tx = tx, ns_rx = rx\<rparr>,
                           nc_ema = new_ema,
                           nc_window = deque_append WINDOW_SIZE new_ema (nc_window st)\<rparr>
                in Inr (new_ema, m\<lparr>nm_nic_state := AList.update nic st' (nm_nic_state m)\<rparr>))))"

fun poll_nics ::
    "sysfs \<Rightarrow> real \<Rightarrow> string list \<Rightarrow> network_monitor \<Rightarrow> (real \<times> network_monitor) result" where
  "poll_nics sysfs now [] m = Inr (0, m)"
| "poll_nics sysfs now (nic # nics) m =
     (case poll_one_nic sysfs now nic m of
        Inl e \<Rightarrow> Inl e
      | Inr (x, m1) \<Rightarrow>
          (case poll_nics sysfs now nics m1 of
             Inl e \<Rightarrow> Inl e
           | Inr (y, m2) \<Rightarrow> Inr (x + y, m2)))"

definition update_congestion_state :: "real \<Rightarrow> real \<Rightarrow> network_monitor \<Rightarrow> network_monitor" where
  "update_congestion_state now total_bps m =
     (let threshold_bps = nm_link_speed_bps m * nm_congestion_threshold m / 8;
          congested = (threshold_bps \<le> total_bps);
          m1 = (if congested \<and> nm_io_allowed m
                then m\<lparr>nm_io_allowed := False, nm_congestion_start := Some now,
                       nm_congestion_events := nm_congestion_events m + 1\<rparr>
                else if \<not> congested \<and> \<not> nm_io_allowed m
                then (case nm_congestion_start m of
                        Some start \<Rightarrow>
                          if start \<noteq> 0
                          then m\<lparr>nm_io_allowed := True,
                                 nm_total_congestion_ms :=
                                   nm_total_congestion_ms m + (now - start) * 1000,
                                 nm_congestion_start := None\<rparr>
                          else m\<lparr>nm_io_allowed := True\<rparr>
                      | None \<Rightarrow> m\<lparr>nm_io_allowed := True\<rparr>)
                else m)
      in if nm_peak_bps m1 < total_bps then m1\<lparr>nm_peak_bps := total_bps\<rparr> else m1)"

definition set_simulated_bps :: "real \<Rightarrow> real \<Rightarrow> network_monitor \<Rightarrow> network_monitor" where
  "set_simulated_bps now bps m = update_congestion_state now bps (m\<lparr>nm_sim_bps := bps\<rparr>)"

text \<open>One iteration of \<open>_poll_loop\<close>; \<open>now\<close> is read at its start, \<open>now'\<close> in the gate.\<close>

definition poll_step ::
    "sysfs \<Rightarrow> real \<Rightarrow> real \<Rightarrow> network_monitor \<Rightarrow> network_monitor result" where
  "poll_step sysfs now now' m =
     (let m0 = m\<lparr>nm_poll_count := nm_poll_count m + 1\<rparr> in
      case (if nm_simulated m0 then Inr (nm_sim_bps m0, m0)
            else poll_nics sysfs now (nm_nics m0) m0) of
        Inl e \<Rightarrow> Inl e
      | Inr (total_bps, m1) \<Rightarrow>
          (let m2 = m1\<lparr>nm_total_bps_ema := nm_ema_update total_bps (nm_total_bps_ema m1),
                       nm_total_bps_peak := (if nm_total_bps_peak m1 < total_bps
                                              then total_bps else nm_total_bps_peak m1)\<rparr>
           in Inr (update_congestion_state now' (nm_total_bps_ema m2) m2)))"

record nm_stats =
  nst_poll_count :: int
  nst_congestion_events :: int
  nst_total_congestion_ms :: real
  nst_peak_bps :: real
  nst_nic_count :: nat
  nst_simulated :: bool
  nst_util_pct :: real
  nst_ema_bps_gbps :: real
  nst_peak_bps_gbps :: real

definition nm_get_stats :: "network_monitor \<Rightarrow> nm_stats" where
  "nm_get_stats m =
     \<lparr>nst_poll_count = nm_poll_count m, nst_congestion_events = nm_congestion_events m,
      nst_total_congestion_ms = nm_total_congestion_ms m, nst_peak_bps = nm_peak_bps m,
      nst_nic_count = length (nm_nics m), nst_simulated = nm_simulated m,
      nst_util_pct = py_round 1 (current_util_fraction m * 100),
      nst_ema_bps_gbps = py_round 3 (nm_total_bps_ema m * 8 / 10 ^ 9),
      nst_peak_bps_gbps = py_round 3 (nm_peak_bps m * 8 / 10 ^ 9)\<rparr>"

section \<open>Cassini hardware counters\<close>

datatype cassini_counter = Congestion_Flits | Reliability_Retx | Tx_Stall_Ns | Hwmark_Pct

definition CASSINI_COUNTERS :: "cassini_counter list" where
  "CASSINI_COUNTERS = [Congestion_Flits, Reliability_Retx, Tx_Stall_Ns, Hwmark_Pct]"

fun counter_subpath :: "cassini_counter \<Rightarrow> string" where
  "counter_subpath Congestion_Flits = ''flit_cntr/congestion''"
| "counter_subpath Reliability_Retx = ''link/reliability_retx''"
| "counter_subpath Tx_Stall_Ns = ''performance/tx_stall_ns''"
| "counter_subpath Hwmark_Pct = ''buffer/hwmark_pct''"

text \<open>
  \<open>c_lib\<close> is the loaded library's \<open>cassini_read_counter\<close>.
\<close>

fun first_some :: "'a option list \<Rightarrow> 'a option" where
  "first_some [] = None"
| "first_some (Some x # xs) = Some x"
| "first_some (None # xs) = first_some xs"

definition cxi_roots :: "string \<Rightarrow> string list" where
  "cxi_roots n = [''/sys/bus/cxi/devices/cxi'' @ n @ ''/stats'',
                  ''/sys/class/net/hsn'' @ n @ ''/device/stats'']"

definition read_cassini_counter ::
    "(nat \<Rightarrow> string \<Rightarrow> int) option \<Rightarrow> sysfs \<Rightarrow> nat \<Rightarrow> string \<Rightarrow> int option" where
  "read_cassini_counter c_lib sysfs cxi_idx subpath =
     (case c_lib of
        Some read \<Rightarrow> (let val = read cxi_idx subpath in if 0 \<le> val then Some val else None)
      | None \<Rightarrow>
          first_some (map (\<lambda>root. sysfs (root @ ''/'' @ subpath)) (cxi_roots (digits cxi_idx))))"

type_synonym counters = "cassini_counter \<Rightarrow> int"

record cassini_hw =
  hw_poll_interval_s :: real
  hw_congestion_threshold :: int
  hw_n_nics :: nat
  hw_available :: bool
  hw_prev :: "counters list"
  hw_delta :: "counters list"
  hw_congested :: bool
  hw_total_congestion_events :: int
  hw_total_retx :: int
  hw_total_stall_ns :: int

definition detect_cxi_count :: "string list option \<Rightarrow> nat" where
  "detect_cxi_count devices =
     (case devices of
        None \<Rightarrow> 0
      | Some names \<Rightarrow>
          length (filter (\<lambda>d. startswith d ''cxi'' \<and> drop 3 d \<noteq> [] \<and>
            list_all (\<lambda>c. c \<in> set ''0123456789'') (drop 3 d)) names))"

definition cassini_init :: "string list option \<Rightarrow> nat \<Rightarrow> real \<Rightarrow> int \<Rightarrow> cassini_hw" where
  "cassini_init devices n_nics0 poll_interval_s congestion_threshold =
     (let n_nics = (if n_nics0 = 0 then detect_cxi_count devices else n_nics0) in
      \<lparr>hw_poll_interval_s = poll_interval_s, hw_congestion_threshold = congestion_threshold,
       hw_n_nics = n_nics, hw_available = (0 < n_nics),
       hw_prev = replicate n_nics (\<lambda>_. 0), hw_delta = replicate n_nics (\<lambda>_. 0),
       hw_congested = False, hw_total_congestion_events = 0, hw_total_retx = 0,
       hw_total_stall_ns = 0\<rparr>)"

definition is_fabric_congested :: "cassini_hw \<Rightarrow> bool" where
  "is_fabric_congested h \<longleftrightarrow> hw_congested h"

definition congestion_flit_rate :: "cassini_hw \<Rightarrow> real" where
  "congestion_flit_rate h =
     of_int (\<Sum>i \<leftarrow> [0..<hw_n_nics h]. (hw_delta h ! i) Congestion_Flits)
       / max (1 / 10 ^ 6) (hw_poll_interval_s h)"

definition retransmit_rate :: "cassini_hw \<Rightarrow> real" where
  "retransmit_rate h =
     of_int (\<Sum>i \<leftarrow> [0..<hw_n_nics h]. (hw_delta h ! i) Reliability_Retx)
       / max (1 / 10 ^ 6) (hw_poll_interval_s h)"

text \<open>\<open>read i name\<close> is \<open>_read_cassini_counter(i, subpath of name)\<close>.\<close>

type_synonym counter_read = "nat \<Rightarrow> cassini_counter \<Rightarrow> int option"

definition read_nic_counters :: "counter_read \<Rightarrow> nat \<Rightarrow> cassini_hw \<Rightarrow> counters" where
  "read_nic_counters read i h =
     (\<lambda>name. case read i name of Some val \<Rightarrow> val | None \<Rightarrow> (hw_prev h ! i) name)"

definition cassini_loop_start :: "counter_read \<Rightarrow> cassini_hw \<Rightarrow> cassini_hw" where
  "cassini_loop_start read h =
     fold (\<lambda>i h. h\<lparr>hw_prev := (hw_prev h)[i := read_nic_counters read i h]\<rparr>) [0..<hw_n_nics h] h"

definition poll_cassini_nic :: "counter_read \<Rightarrow> nat \<Rightarrow> int \<times> cassini_hw \<Rightarrow> int \<times> cassini_hw" where
  "poll_cassini_nic read i th =
     (case th of (total_flits, h) \<Rightarrow>
        (let curr = read_nic_counters read i h;
             delta = (\<lambda>name. max 0 (curr name - (hw_prev h ! i) name))
         in (total_flits + delta Congestion_Flits,
             h\<lparr>hw_delta := (hw_delta h)[i := delta],
               hw_total_retx := hw_total_retx h + delta Reliability_Retx,
               hw_total_stall_ns := hw_total_stall_ns h + delta Tx_Stall_Ns,
               hw_prev := (hw_prev h)[i := curr]\<rparr>)))"

definition cassini_poll_step :: "counter_read \<Rightarrow> cassini_hw \<Rightarrow> cassini_hw" where
  "cassini_poll_step read h =
     (case fold (poll_cassini_nic read) [0..<hw_n_nics h] (0, h) of
        (total_flits, h1) \<Rightarrow>
          (let new_congested = (hw_congestion_threshold h1 \<le> total_flits);
               h2 = (if new_congested \<and> \<not> hw_congested h1
                     then h1\<lparr>hw_total_congestion_events := hw_total_congestion_events h1 + 1\<rparr>
                     else h1)
           in h2\<lparr>hw_congested := new_congested\<rparr>))"

record hw_stats =
  hs_available :: bool
  hs_n_nics :: nat
  hs_congested :: bool
  hs_total_congestion_events :: int
  hs_total_retx :: int
  hs_total_stall_ns :: int
  hs_per_nic_deltas :: "counters list"
  hs_congestion_flit_rate :: real
  hs_retransmit_rate :: real

definition cassini_get_stats :: "cassini_hw \<Rightarrow> hw_stats" where
  "cassini_get_stats h =
     \<lparr>hs_available = hw_available h, hs_n_nics = hw_n_nics h, hs_congested = hw_congested h,
      hs_total_congestion_events = hw_total_congestion_events h,
      hs_total_retx = hw_total_retx h, hs_total_stall_ns = hw_total_stall_ns h,
      hs_per_nic_deltas = map ((!) (hw_delta h)) [0..<hw_n_nics h],
      hs_congestion_flit_rate = congestion_flit_rate h,
      hs_retransmit_rate = retransmit_rate h\<rparr>"

section \<open>Gate lemmas\<close>

interpretation nic_ema: ema_filter nm_ema_update EMA_ALPHA
  by unfold_locales (simp_all add: nm_ema_update_def EMA_ALPHA_def)

definition threshold_bps :: "network_monitor \<Rightarrow> real" where
  "threshold_bps m = nm_link_speed_bps m * nm_congestion_threshold m / 8"

lemma update_congestion_gate [simp]:
  "nm_io_allowed (update_congestion_state now bps m) \<longleftrightarrow> bps < threshold_bps m"
  by (auto simp: update_congestion_state_def threshold_bps_def Let_def split: option.splits)

lemma update_congestion_frame [simp]:
  "nm_congestion_threshold (update_congestion_state now bps m) = nm_congestion_threshold m"
  "nm_link_speed_bps (update_congestion_state now bps m) = nm_link_speed_bps m"
  "nm_nics (update_congestion_state now bps m) = nm_nics m"
  "nm_simulated (update_congestion_state now bps m) = nm_simulated m"
  "nm_nic_state (update_congestion_state now bps m) = nm_nic_state m"
  "nm_total_bps_ema (update_congestion_state now bps m) = nm_total_bps_ema m"
  "nm_total_bps_peak (update_congestion_state now bps m) = nm_total_bps_peak m"
  "nm_sim_bps (update_congestion_state now bps m) = nm_sim_bps m"
  "nm_poll_count (update_congestion_state now bps m) = nm_poll_count m"
  "nm_peak_bps (update_congestion_state now bps m) = max (nm_peak_bps m) bps"
  by (auto simp: update_congestion_state_def Let_def split: option.splits)

text \<open>
  Congested time: what has been accounted plus the episode in progress fits in the time since
  \<open>t0\<close>, and an episode is in progress whenever the gate is closed.
\<close>

definition congestion_ok :: "real \<Rightarrow> real \<Rightarrow> network_monitor \<Rightarrow> bool" where
  "congestion_ok t0 t m \<longleftrightarrow> t0 \<le> t \<and> 0 \<le> nm_total_congestion_ms m \<and>
     nm_total_congestion_ms m
       + (case nm_congestion_start m of None \<Rightarrow> 0 | Some s \<Rightarrow> (t - s) * 1000) \<le> (t - t0) * 1000 \<and>
     (case nm_congestion_start m of None \<Rightarrow> True | Some s \<Rightarrow> s \<le> t) \<and>
     (\<not> nm_io_allowed m \<longrightarrow> nm_congestion_start m \<noteq> None) \<and> 0 \<le> nm_congestion_events m"

lemma congestion_ok_later:
  assumes "congestion_ok t0 t m" and "t \<le> t'"
  shows "congestion_ok t0 t' m"
  using assms by (auto simp: congestion_ok_def algebra_simps split: option.splits)

lemma congestion_ok_update:
  assumes "congestion_ok t0 t m"
  shows "congestion_ok t0 t (update_congestion_state t bps m)"
proof -
  have "nm_total_congestion_ms m \<le> (t - t0) * 1000"
    using assms by (auto simp: congestion_ok_def split: option.splits)
  then show ?thesis
    using assms by (cases "nm_congestion_start m")
      (auto simp: congestion_ok_def update_congestion_state_def Let_def)
qed

text \<open>The keys of the NIC table are the discovered NICs, and every per-NIC state is sane.\<close>

definition nic_ok :: "nic_state \<Rightarrow> bool" where
  "nic_ok st \<longleftrightarrow> 0 \<le> nc_ema st \<and> length (nc_window st) \<le> WINDOW_SIZE \<and>
     (\<forall>x \<in> set (nc_window st). 0 \<le> x)"

definition table_ok :: "network_monitor \<Rightarrow> bool" where
  "table_ok m \<longleftrightarrow> set (nm_nics m) = fst ` set (nm_nic_state m) \<and>
     distinct (map fst (nm_nic_state m)) \<and> (\<forall>(nic, st) \<in> set (nm_nic_state m). nic_ok st) \<and>
     (nm_simulated m \<longleftrightarrow> nm_nics m = [])"

lemma next_nic_ema_nonneg: "nic_ok st \<Longrightarrow> 0 \<le> next_nic_ema now nb st"
  by (auto simp: next_nic_ema_def nic_ok_def Let_def split: option.splits
      intro!: nic_ema.upd_nonneg)

lemma nic_state_refl: "\<exists>tab. m = m\<lparr>nm_nic_state := tab\<rparr>"
  by (rule exI [of _ "nm_nic_state m"]) simp

lemma poll_one_nic_ok:
  assumes "table_ok m" and "nic \<in> set (nm_nics m)"
  obtains x m' where "poll_one_nic sysfs now nic m = Inr (x, m')" "0 \<le> x"
    "\<exists>tab. m' = m\<lparr>nm_nic_state := tab\<rparr>" "table_ok m'"
proof (cases "read_nic_bytes sysfs nic")
  case None
  then show ?thesis using assms nic_state_refl
    by (intro that [of 0 m]) (simp_all add: poll_one_nic_def)
next
  case (Some r)
  obtain tx rx where r: "r = (tx, rx)" by (cases r)
  have "nic \<in> fst ` set (nm_nic_state m)" using assms by (simp add: table_ok_def)
  then obtain st where st: "map_of (nm_nic_state m) nic = Some st"
    by (metis map_of_eq_None_iff not_None_eq)
  then have ok: "nic_ok st" using assms map_of_SomeD [OF st] by (auto simp: table_ok_def)
  let ?x = "next_nic_ema now (tx + rx) st"
  let ?st' = "\<lparr>nc_sample = Some \<lparr>ns_ts = now, ns_tx = tx, ns_rx = rx\<rparr>, nc_ema = ?x,
      nc_window = deque_append WINDOW_SIZE ?x (nc_window st)\<rparr>"
  let ?m' = "m\<lparr>nm_nic_state := AList.update nic ?st' (nm_nic_state m)\<rparr>"
  have x: "0 \<le> ?x" using ok by (rule next_nic_ema_nonneg)
  then have "nic_ok ?st'"
    using ok deque_append_set [of WINDOW_SIZE ?x "nc_window st"] by (auto simp: nic_ok_def)
  then have "table_ok ?m'"
    using assms alist_update_all [of "nm_nic_state m" nic_ok ?st' nic]
    by (auto simp: table_ok_def distinct_update dom_update)
  then show ?thesis using Some r st x
    by (intro that [of ?x ?m']) (auto simp: poll_one_nic_def Let_def)
qed

lemma poll_nics_ok:
  assumes "table_ok m" and "set nics \<subseteq> set (nm_nics m)"
  shows "\<exists>x m'. poll_nics sysfs now nics m = Inr (x, m') \<and> 0 \<le> x \<and>
    (\<exists>tab. m' = m\<lparr>nm_nic_state := tab\<rparr>) \<and> table_ok m'"
  using assms
proof (induction nics arbitrary: m)
  case Nil
  then show ?case using nic_state_refl by simp
next
  case (Cons nic nics)
  then have "nic \<in> set (nm_nics m)" by simp
  with Cons.prems(1) obtain x m1 tab where 1: "poll_one_nic sysfs now nic m = Inr (x, m1)" "0 \<le> x"
      "m1 = m\<lparr>nm_nic_state := tab\<rparr>" "table_ok m1"
    by (rule poll_one_nic_ok [of m nic sysfs now]) auto
  then have "set nics \<subseteq> set (nm_nics m1)" using Cons.prems by simp
  with Cons.IH [OF 1(4)] obtain y m2 tab2 where 2: "poll_nics sysfs now nics m1 = Inr (y, m2)"
      "0 \<le> y" "m2 = m1\<lparr>nm_nic_state := tab2\<rparr>" "table_ok m2"
    by blast
  then have "m2 = m\<lparr>nm_nic_state := tab2\<rparr>" using 1 by simp
  then show ?case using 1(1,2) 2(1,2,4) by auto
qed

text \<open>The invariant of the monitor at time \<open>t\<close>.\<close>

definition nm_inv :: "real \<Rightarrow> real \<Rightarrow> network_monitor \<Rightarrow> bool" where
  "nm_inv t0 t m \<longleftrightarrow> table_ok m \<and> congestion_ok t0 t m \<and> 0 \<le> nm_total_bps_ema m \<and>
     0 \<le> nm_sim_bps m \<and> nm_total_bps_ema m \<le> nm_total_bps_peak m \<and> 0 \<le> nm_peak_bps m"

lemma fold_init_keys:
  "fst ` set (fold (\<lambda>nic. AList.update nic v) nics al) = set nics \<union> fst ` set al"
  by (induction nics arbitrary: al) (simp_all add: dom_update)

lemma fold_init_distinct:
  "distinct (map fst al) \<Longrightarrow> distinct (map fst (fold (\<lambda>nic. AList.update nic v) nics al))"
  by (induction nics arbitrary: al) (simp_all add: distinct_update)

lemma fold_init_all:
  "\<forall>(k, u) \<in> set al. P u \<Longrightarrow> P v \<Longrightarrow>
     \<forall>(k, u) \<in> set (fold (\<lambda>nic. AList.update nic v) nics al). P u"
proof (induction nics arbitrary: al)
  case Nil
  then show ?case by simp
next
  case (Cons nic nics)
  from Cons.IH [OF alist_update_all [OF Cons.prems] Cons.prems(2)] show ?case by simp
qed

lemma nm_inv_init: "nm_inv t0 t0 (network_monitor_init th iv speed nics)"
proof -
  have "nic_ok \<lparr>nc_sample = None, nc_ema = 0, nc_window = []\<rparr>" by (simp add: nic_ok_def)
  then have "table_ok (network_monitor_init th iv speed nics)"
    using fold_init_all [of "[]" nic_ok "\<lparr>nc_sample = None, nc_ema = 0, nc_window = []\<rparr>" nics]
    by (simp add: table_ok_def network_monitor_init_def fold_init_keys fold_init_distinct)
  then show ?thesis
    by (simp add: nm_inv_def congestion_ok_def network_monitor_init_def)
qed

lemma nm_inv_later: "nm_inv t0 t m \<Longrightarrow> t \<le> t' \<Longrightarrow> nm_inv t0 t' m"
  using congestion_ok_later by (auto simp: nm_inv_def)

lemma nm_inv_update:
  assumes "nm_inv t0 t m" and "0 \<le> bps"
  shows "nm_inv t0 t (update_congestion_state t bps m)"
  using assms congestion_ok_update by (auto simp: nm_inv_def table_ok_def)

lemma nm_inv_sim: "nm_inv t0 t m \<Longrightarrow> 0 \<le> bps \<Longrightarrow> nm_inv t0 t (set_simulated_bps t bps m)"
  unfolding set_simulated_bps_def
  by (intro nm_inv_update) (auto simp: nm_inv_def table_ok_def congestion_ok_def)

lemma nm_inv_poll:
  assumes "nm_inv t0 t m"
  shows "\<exists>m'. poll_step sysfs now t m = Inr m' \<and> nm_inv t0 t m' \<and>
    (nm_io_allowed m' \<longleftrightarrow> nm_total_bps_ema m' < threshold_bps m') \<and>
    nm_poll_count m' = nm_poll_count m + 1"
proof -
  let ?m0 = "m\<lparr>nm_poll_count := nm_poll_count m + 1\<rparr>"
  have m0: "table_ok ?m0" "congestion_ok t0 t ?m0" "set (nm_nics ?m0) \<subseteq> set (nm_nics ?m0)"
    using assms by (auto simp: nm_inv_def table_ok_def congestion_ok_def)
  obtain x m1 where 1: "(if nm_simulated ?m0 then Inr (nm_sim_bps ?m0, ?m0)
        else poll_nics sysfs now (nm_nics ?m0) ?m0) = Inr (x, m1)" "0 \<le> x" "table_ok m1"
      and tab: "\<exists>tab. m1 = ?m0\<lparr>nm_nic_state := tab\<rparr>"
  proof (cases "nm_simulated m")
    case True
    with that [OF _ _ m0(1) nic_state_refl, of "nm_sim_bps m"] show ?thesis
      using assms by (simp add: nm_inv_def)
  next
    case False
    then show ?thesis using poll_nics_ok [OF m0(1,3), of sysfs now] that by auto
  qed
  then obtain tab where m1: "m1 = ?m0\<lparr>nm_nic_state := tab\<rparr>" by blast
  let ?ema = "nm_ema_update x (nm_total_bps_ema m1)"
  let ?m2 = "m1\<lparr>nm_total_bps_ema := ?ema,
      nm_total_bps_peak := (if nm_total_bps_peak m1 < x then x else nm_total_bps_peak m1)\<rparr>"
  have e: "0 \<le> ?ema" "?ema \<le> max x (nm_total_bps_peak m)"
    using assms 1(2) by (auto simp: m1 nm_inv_def intro!: nic_ema.upd_nonneg nic_ema.upd_upper)
  have "table_ok ?m2" using 1(3) by (simp add: table_ok_def)
  moreover have "congestion_ok t0 t ?m2" using m0(2) by (simp add: m1 congestion_ok_def)
  ultimately have "nm_inv t0 t ?m2"
    using assms e by (simp add: nm_inv_def m1 max_def split: if_splits)
  then have "nm_inv t0 t (update_congestion_state t ?ema ?m2)" using e(1) by (rule nm_inv_update)
  moreover have "poll_step sysfs now t m = Inr (update_congestion_state t ?ema ?m2)"
    using 1(1) by (simp add: poll_step_def Let_def)
  moreover have "nm_poll_count m1 = nm_poll_count m + 1" by (simp add: m1)
  ultimately show ?thesis by (simp add: threshold_bps_def)
qed

text \<open>The histories of a monitor: polls, injected values, stop and restart.\<close>

inductive nm_reach :: "real \<Rightarrow> real \<Rightarrow> network_monitor \<Rightarrow> bool" for t0 :: real where
  init: "nm_reach t0 t0 (network_monitor_init th iv speed nics)"
| tick: "nm_reach t0 t m \<Longrightarrow> t \<le> t' \<Longrightarrow> nm_reach t0 t' m"
| poll: "nm_reach t0 t m \<Longrightarrow> poll_step sysfs now t m = Inr m' \<Longrightarrow> nm_reach t0 t m'"
| sim: "nm_reach t0 t m \<Longrightarrow> 0 \<le> bps \<Longrightarrow> nm_reach t0 t (set_simulated_bps t bps m)"
| stop: "nm_reach t0 t m \<Longrightarrow> nm_reach t0 t (nm_stop m)"
| restart: "nm_reach t0 t m \<Longrightarrow> nm_reach t0 t (nm_start running m)"

lemma nm_reach_inv: "nm_reach t0 t m \<Longrightarrow> nm_inv t0 t m"
proof (induction rule: nm_reach.induct)
  case (init th iv speed nics)
  then show ?case by (rule nm_inv_init)
next
  case (tick t m t')
  then show ?case by (blast intro: nm_inv_later)
next
  case (poll t m sysfs now m')
  then show ?case using nm_inv_poll [of t0 t m sysfs now] by auto
next
  case (sim t m bps)
  then show ?case by (simp add: nm_inv_sim)
next
  case (stop t m)
  then show ?case by (auto simp: nm_inv_def nm_stop_def table_ok_def congestion_ok_def)
next
  case (restart t m running)
  then show ?case by (auto simp: nm_inv_def nm_start_def table_ok_def congestion_ok_def)
qed

section \<open>Rail lemmas\<close>

text \<open>Rail selection is a client of the shared least-pick interface.\<close>

lemma select_idle_rail_Some:
  "select_idle_rail m = Some nic \<longleftrightarrow>
     (\<exists>u. py_min snd (per_rail_util m) = Some (nic, u) \<and> u < nm_congestion_threshold m)"
  by (auto simp: select_idle_rail_def not_le split: option.splits if_splits)

lemma select_idle_rail_None:
  "select_idle_rail m = None \<longleftrightarrow>
     (\<forall>(nic, u) \<in> set (per_rail_util m). nm_congestion_threshold m \<le> u)"
proof (cases "py_min snd (per_rail_util m)")
  case None
  then show ?thesis by (simp add: select_idle_rail_def)
next
  case (Some best)
  have "nm_congestion_threshold m \<le> snd best \<longleftrightarrow>
      (\<forall>r \<in> set (per_rail_util m). nm_congestion_threshold m \<le> snd r)"
    by (rule py_min.pick_bound [OF Some])
  then show ?thesis using Some
    by (auto simp: select_idle_rail_def split: prod.splits)
qed

section \<open>Cassini lemmas\<close>

definition cassini_delta :: "counter_read \<Rightarrow> cassini_hw \<Rightarrow> nat \<Rightarrow> counters" where
  "cassini_delta read h i =
     (\<lambda>name. max 0 (read_nic_counters read i h name - (hw_prev h ! i) name))"

lemma cassini_delta_cong:
  "hw_prev h' ! i = hw_prev h ! i \<Longrightarrow>
     read_nic_counters read i h' = read_nic_counters read i h \<and>
     cassini_delta read h' i = cassini_delta read h i"
  by (auto simp: cassini_delta_def read_nic_counters_def fun_eq_iff split: option.split)

lemma poll_cassini_frame:
  assumes "fold (poll_cassini_nic read) is (tot, h) = (tot', h')"
  shows "hw_n_nics h' = hw_n_nics h \<and> hw_congested h' = hw_congested h \<and>
    hw_congestion_threshold h' = hw_congestion_threshold h \<and>
    hw_total_congestion_events h' = hw_total_congestion_events h \<and>
    hw_poll_interval_s h' = hw_poll_interval_s h \<and>
    length (hw_prev h') = length (hw_prev h) \<and> length (hw_delta h') = length (hw_delta h)"
  using assms
proof (induction "is" arbitrary: tot h)
  case Nil
  then show ?case by simp
next
  case (Cons i "is")
  obtain tot1 h1 where 1: "poll_cassini_nic read i (tot, h) = (tot1, h1)" by fastforce
  with Cons.prems have "fold (poll_cassini_nic read) is (tot1, h1) = (tot', h')" by simp
  from Cons.IH [OF this] 1 show ?case by (auto simp: poll_cassini_nic_def Let_def)
qed

lemma poll_cassini_sum:
  assumes "fold (poll_cassini_nic read) is (tot, h) = (tot', h')" and "distinct is"
    and "set is \<subseteq> {..<length (hw_prev h)}" and "length (hw_delta h) = length (hw_prev h)"
  shows "tot' = tot + (\<Sum>i \<leftarrow> is. cassini_delta read h i Congestion_Flits) \<and>
    hw_total_retx h' = hw_total_retx h + (\<Sum>i \<leftarrow> is. cassini_delta read h i Reliability_Retx) \<and>
    hw_total_stall_ns h' = hw_total_stall_ns h + (\<Sum>i \<leftarrow> is. cassini_delta read h i Tx_Stall_Ns) \<and>
    (\<forall>i < length (hw_prev h). hw_prev h' ! i =
       (if i \<in> set is then read_nic_counters read i h else hw_prev h ! i)) \<and>
    (\<forall>i < length (hw_prev h). hw_delta h' ! i =
       (if i \<in> set is then cassini_delta read h i else hw_delta h ! i))"
  using assms
proof (induction "is" arbitrary: tot h)
  case Nil
  then show ?case by simp
next
  case (Cons i "is")
  define h1 where "h1 = h\<lparr>hw_delta := (hw_delta h)[i := cassini_delta read h i],
      hw_total_retx := hw_total_retx h + cassini_delta read h i Reliability_Retx,
      hw_total_stall_ns := hw_total_stall_ns h + cassini_delta read h i Tx_Stall_Ns,
      hw_prev := (hw_prev h)[i := read_nic_counters read i h]\<rparr>"
  then have f: "hw_prev h1 = (hw_prev h)[i := read_nic_counters read i h]"
    "hw_delta h1 = (hw_delta h)[i := cassini_delta read h i]"
    "hw_total_retx h1 = hw_total_retx h + cassini_delta read h i Reliability_Retx"
    "hw_total_stall_ns h1 = hw_total_stall_ns h + cassini_delta read h i Tx_Stall_Ns"
    by simp_all
  have "poll_cassini_nic read i (tot, h) = (tot + cassini_delta read h i Congestion_Flits, h1)"
    by (simp add: poll_cassini_nic_def Let_def cassini_delta_def h1_def)
  then have run: "fold (poll_cassini_nic read) is (tot + cassini_delta read h i Congestion_Flits, h1)
      = (tot', h')"
    using Cons.prems(1) by simp
  have same: "read_nic_counters read j h1 = read_nic_counters read j h"
    "cassini_delta read h1 j = cassini_delta read h j" if "j \<in> set is" for j
  proof -
    have "i \<noteq> j" using that Cons.prems(2) by auto
    then have "hw_prev h1 ! j = hw_prev h ! j" by (simp add: f)
    then show "read_nic_counters read j h1 = read_nic_counters read j h"
      "cassini_delta read h1 j = cassini_delta read h j"
      using cassini_delta_cong by blast+
  qed
  have sums: "(\<Sum>j \<leftarrow> is. cassini_delta read h1 j c) = (\<Sum>j \<leftarrow> is. cassini_delta read h j c)" for c
    using same(2) by (auto intro!: arg_cong [where f = sum_list] map_cong)
  show ?case
    using Cons.IH [OF run] Cons.prems(2-4) same unfolding sums
    by (auto simp: f nth_list_update)
qed

definition cassini_wf :: "cassini_hw \<Rightarrow> bool" where
  "cassini_wf h \<longleftrightarrow> length (hw_prev h) = hw_n_nics h \<and> length (hw_delta h) = hw_n_nics h"

lemma cassini_poll_step_eq:
  assumes "cassini_wf h"
  shows "cassini_wf (cassini_poll_step read h) \<and>
    hw_n_nics (cassini_poll_step read h) = hw_n_nics h \<and>
    hw_congestion_threshold (cassini_poll_step read h) = hw_congestion_threshold h \<and>
    (hw_congested (cassini_poll_step read h) \<longleftrightarrow> hw_congestion_threshold h
       \<le> (\<Sum>i \<leftarrow> [0..<hw_n_nics h]. cassini_delta read h i Congestion_Flits)) \<and>
    hw_total_congestion_events (cassini_poll_step read h) = hw_total_congestion_events h
       + (if hw_congested (cassini_poll_step read h) \<and> \<not> hw_congested h then 1 else 0) \<and>
    hw_total_retx (cassini_poll_step read h) = hw_total_retx h
       + (\<Sum>i \<leftarrow> [0..<hw_n_nics h]. cassini_delta read h i Reliability_Retx) \<and>
    hw_total_stall_ns (cassini_poll_step read h) = hw_total_stall_ns h
       + (\<Sum>i \<leftarrow> [0..<hw_n_nics h]. cassini_delta read h i Tx_Stall_Ns) \<and>
    (\<forall>i < hw_n_nics h. hw_prev (cassini_poll_step read h) ! i = read_nic_counters read i h)"
proof -
  obtain tot h1 where f: "fold (poll_cassini_nic read) [0..<hw_n_nics h] (0, h) = (tot, h1)"
    by fastforce
  have "set [0..<hw_n_nics h] \<subseteq> {..<length (hw_prev h)}" "length (hw_delta h) = length (hw_prev h)"
    using assms by (auto simp: cassini_wf_def)
  from poll_cassini_sum [OF f distinct_upt this] poll_cassini_frame [OF f] assms
  show ?thesis by (auto simp: cassini_poll_step_def f Let_def cassini_wf_def)
qed

lemma cassini_delta_exact:
  "read i name = Some v \<Longrightarrow> (hw_prev h ! i) name \<le> v \<Longrightarrow>
     cassini_delta read h i name = v - (hw_prev h ! i) name"
  by (simp add: cassini_delta_def read_nic_counters_def)

text \<open>
  \<open>counters_grow n v0 reads\<close>: starting from the values \<open>v0\<close>, every read of the
  \<open>n\<close> NICs succeeds and no counter decreases.
\<close>

fun counters_grow :: "nat \<Rightarrow> (nat \<Rightarrow> counters) \<Rightarrow> (nat \<Rightarrow> counters) list \<Rightarrow> bool" where
  "counters_grow n v0 [] \<longleftrightarrow> True"
| "counters_grow n v0 (v # vs) \<longleftrightarrow> (\<forall>i < n. \<forall>c. v0 i c \<le> v i c) \<and> counters_grow n v vs"

definition all_read :: "(nat \<Rightarrow> counters) \<Rightarrow> counter_read" where
  "all_read v = (\<lambda>i c. Some (v i c))"

lemma cassini_run_totals:
  assumes "cassini_wf h" and "\<forall>i < hw_n_nics h. hw_prev h ! i = v0 i"
    and "counters_grow (hw_n_nics h) v0 vs"
  shows "hw_total_retx (fold (\<lambda>v. cassini_poll_step (all_read v)) vs h) = hw_total_retx h
      + (\<Sum>i \<leftarrow> [0..<hw_n_nics h]. last (v0 # vs) i Reliability_Retx - v0 i Reliability_Retx) \<and>
    hw_total_stall_ns (fold (\<lambda>v. cassini_poll_step (all_read v)) vs h) = hw_total_stall_ns h
      + (\<Sum>i \<leftarrow> [0..<hw_n_nics h]. last (v0 # vs) i Tx_Stall_Ns - v0 i Tx_Stall_Ns)"
  using assms
proof (induction vs arbitrary: h v0)
  case Nil
  then show ?case by (simp add: sum_list_0)
next
  case (Cons v vs)
  let ?h1 = "cassini_poll_step (all_read v) h" and ?n = "hw_n_nics h"
  note step = cassini_poll_step_eq [OF Cons.prems(1), of "all_read v"]
  have d: "cassini_delta (all_read v) h i c = v i c - v0 i c" if "i < ?n" for i c
    using that Cons.prems(2,3) by (subst cassini_delta_exact [of _ i c "v i c"]) (auto simp: all_read_def)
  have sums: "(\<Sum>i \<leftarrow> [0..<?n]. cassini_delta (all_read v) h i c)
      = (\<Sum>i \<leftarrow> [0..<?n]. v i c - v0 i c)" for c
    using d by (auto intro!: arg_cong [where f = sum_list] map_cong)
  have "\<forall>i < hw_n_nics ?h1. hw_prev ?h1 ! i = v i"
    using step by (auto simp: read_nic_counters_def all_read_def)
  then have ih: "hw_total_retx (fold (\<lambda>v. cassini_poll_step (all_read v)) vs ?h1) = hw_total_retx ?h1
      + (\<Sum>i \<leftarrow> [0..<?n]. last (v # vs) i Reliability_Retx - v i Reliability_Retx)"
    "hw_total_stall_ns (fold (\<lambda>v. cassini_poll_step (all_read v)) vs ?h1) = hw_total_stall_ns ?h1
      + (\<Sum>i \<leftarrow> [0..<?n]. last (v # vs) i Tx_Stall_Ns - v i Tx_Stall_Ns)"
    using Cons.IH [of ?h1 v] step Cons.prems(3) by simp_all
  have tel: "(\<Sum>i \<leftarrow> [0..<?n]. v i c - v0 i c) + (\<Sum>i \<leftarrow> [0..<?n]. last (v # vs) i c - v i c)
      = (\<Sum>i \<leftarrow> [0..<?n]. last (v # vs) i c - v0 i c)" for c
    by (simp flip: sum_list_addf)
  show ?case using ih step sums tel [of Reliability_Retx] tel [of Tx_Stall_Ns] by simp
qed

lemma cassini_loop_start_prev:
  assumes "cassini_wf h"
  shows "cassini_wf (cassini_loop_start (all_read v) h) \<and>
    hw_n_nics (cassini_loop_start (all_read v) h) = hw_n_nics h \<and>
    hw_total_retx (cassini_loop_start (all_read v) h) = hw_total_retx h \<and>
    hw_total_stall_ns (cassini_loop_start (all_read v) h) = hw_total_stall_ns h \<and>
    (\<forall>i < hw_n_nics h. hw_prev (cassini_loop_start (all_read v) h) ! i = v i)"
proof -
  have "\<forall>h'. h' = fold (\<lambda>i h. h\<lparr>hw_prev := (hw_prev h)[i := read_nic_counters (all_read v) i h]\<rparr>)
        [0..<k] h \<longrightarrow> cassini_wf h' \<and> hw_n_nics h' = hw_n_nics h \<and> hw_total_retx h' = hw_total_retx h \<and>
      hw_total_stall_ns h' = hw_total_stall_ns h \<and> (\<forall>i < k. i < hw_n_nics h \<longrightarrow> hw_prev h' ! i = v i)" for k
    using assms
    by (induction k) (auto simp: cassini_wf_def nth_list_update less_Suc_eq read_nic_counters_def
        all_read_def)
  then show ?thesis by (simp add: cassini_loop_start_def)
qed

section \<open>Properties\<close>



text \<open>
  Rail selection: the chosen rail is one with the lowest utilisation and below the
  threshold; no rail is chosen exactly when every rail is at or above it (in particular in
  simulation mode), and on real hardware exactly when no rail is counted idle. The gate in
  contrast compares the sum over all rails with one link's threshold: \<open>k\<close> rails, each at
  the same idle utilisation, close it as soon as their sum reaches it.
\<close>

lemma rail_selection:
  "(select_idle_rail m = Some nic \<longrightarrow>
      (\<exists>u. (nic, u) \<in> set (per_rail_util m) \<and> u < nm_congestion_threshold m \<and>
        (\<forall>(nic', u') \<in> set (per_rail_util m). u \<le> u'))) \<and>
   (select_idle_rail m = None \<longleftrightarrow>
      (\<forall>(nic, u) \<in> set (per_rail_util m). nm_congestion_threshold m \<le> u)) \<and>
   (\<not> nm_simulated m \<longrightarrow> (select_idle_rail m = None \<longleftrightarrow> count_idle_rails m = 0)) \<and>
   (is_congested (update_congestion_state now (of_nat k * rail_bps) m)
      \<longleftrightarrow> nm_link_speed_bps m * nm_congestion_threshold m \<le> of_nat k * (rail_bps * 8))"
proof -
  have "\<exists>u. (nic, u) \<in> set (per_rail_util m) \<and> u < nm_congestion_threshold m \<and>
        (\<forall>(nic', u') \<in> set (per_rail_util m). u \<le> u')" if sel: "select_idle_rail m = Some nic"
  proof -
    from sel obtain u where u: "py_min snd (per_rail_util m) = Some (nic, u)"
        "u < nm_congestion_threshold m"
      by (auto simp: select_idle_rail_Some)
    from py_min.pick_sound [OF u(1)] u(2) show ?thesis by (intro exI [of _ u]) auto
  qed
  moreover have "\<not> nm_simulated m \<longrightarrow> (select_idle_rail m = None \<longleftrightarrow> count_idle_rails m = 0)"
    unfolding select_idle_rail_None count_idle_rails_def
    by (auto simp: filter_empty_conv not_less split: prod.splits)
  ultimately show ?thesis
    using select_idle_rail_None [of m]
    by (auto simp: is_congested_def threshold_bps_def not_less)
qed

text \<open>
  The congestion predictor: 0 exactly at a closed gate or without headroom; unlimited
  exactly in simulation mode or when the flush fits the headroom; otherwise a non-negative
  time, and a faster flush never gets a longer prediction. The pending bytes play no part.
\<close>

lemma predict_congestion_correct:
  assumes "predict_congestion_ms pending f m = r"
  shows "(r = None \<longleftrightarrow> nm_simulated m \<or> nm_io_allowed m \<and>
      f * 8 \<le> max 0 (nm_link_speed_bps m * nm_congestion_threshold m - nm_total_bps_ema m * 8)) \<and>
    (\<forall>x. r = Some x \<longrightarrow> 0 \<le> x \<and> (x = 0 \<longleftrightarrow> \<not> nm_io_allowed m \<or>
        threshold_bps m \<le> nm_total_bps_ema m)) \<and>
    (\<forall>f' x' pending'. f \<le> f' \<longrightarrow> predict_congestion_ms pending' f' m = Some x' \<longrightarrow>
      (case r of None \<Rightarrow> True | Some x \<Rightarrow> x' \<le> x))"
proof -
  define h where
    "h = max 0 (nm_link_speed_bps m * nm_congestion_threshold m - nm_total_bps_ema m * 8)"
  have z: "h = 0 \<longleftrightarrow> threshold_bps m \<le> nm_total_bps_ema m" and h0: "0 \<le> h"
    by (auto simp: threshold_bps_def h_def max_def)
  have eq: "predict_congestion_ms p f m = (if nm_simulated m then None
      else if \<not> nm_io_allowed m then Some 0
      else if f * 8 \<le> h then None else Some (h / max (f * 8 - h) 1 * 1000))" for p f
    by (simp add: predict_congestion_ms_def Let_def h_def)
  have anti: "h / max (f' * 8 - h) 1 \<le> h / max (f * 8 - h) 1" if "f \<le> f'" for f' :: real
    using that h0 by (intro divide_left_mono mult_pos_pos) auto
  have nn: "h / max (f * 8 - h) 1 = 0 \<longleftrightarrow> h = 0" "0 \<le> h / max (f * 8 - h) 1"
    using h0 by (auto simp: max_def)
  show ?thesis unfolding assms [symmetric] h_def [symmetric]
  proof (intro conjI allI impI)
    show "(predict_congestion_ms pending f m = None) \<longleftrightarrow> nm_simulated m \<or> nm_io_allowed m \<and> f * 8 \<le> h"
      by (simp add: eq)
  next
    fix x assume "predict_congestion_ms pending f m = Some x"
    then have e: "\<not> nm_io_allowed m \<and> x = 0 \<or> nm_io_allowed m \<and> x = h / max (f * 8 - h) 1 * 1000"
      by (auto simp: eq split: if_splits)
    have "0 \<le> h / max (f * 8 - h) 1 * 1000" using nn(2) by (rule mult_nonneg_nonneg) simp
    then show "0 \<le> x" using e by blast
    have "h / max (f * 8 - h) 1 * 1000 = 0 \<longleftrightarrow> h = 0" using nn(1) by simp
    then show "x = 0 \<longleftrightarrow> \<not> nm_io_allowed m \<or> threshold_bps m \<le> nm_total_bps_ema m"
      using e z by metis
  next
    fix f' x' and pending' :: int
    assume f': "f \<le> f'" "predict_congestion_ms pending' f' m = Some x'"
    from f'(2) have "\<not> nm_io_allowed m \<and> x' = 0 \<or>
        nm_io_allowed m \<and> x' = h / max (f' * 8 - h) 1 * 1000"
      by (auto simp: eq split: if_splits)
    then show "case predict_congestion_ms pending f m of None \<Rightarrow> True | Some x \<Rightarrow> x' \<le> x"
      using mult_right_mono [OF anti [OF f'(1)], of 1000] by (auto simp: eq)
  qed
qed

text \<open>
  The Cassini poller: the fabric is flagged congested exactly when the counted flits of
  the interval reach the threshold, events count rising edges, and if the hardware counters
  never decrease and every read succeeds, the cumulative retransmit and stall totals equal the
  last readings less the first ones, however the growth is split over polls.
\<close>

lemma cassini_totals:
  assumes "h = cassini_loop_start (all_read v0) (cassini_init devices n iv th)"
    and "counters_grow (hw_n_nics h) v0 vs"
  shows "hw_total_retx (fold (\<lambda>v. cassini_poll_step (all_read v)) vs h) =
      (\<Sum>i \<leftarrow> [0..<hw_n_nics h]. last (v0 # vs) i Reliability_Retx - v0 i Reliability_Retx) \<and>
    hw_total_stall_ns (fold (\<lambda>v. cassini_poll_step (all_read v)) vs h) =
      (\<Sum>i \<leftarrow> [0..<hw_n_nics h]. last (v0 # vs) i Tx_Stall_Ns - v0 i Tx_Stall_Ns) \<and>
    (is_fabric_congested (cassini_poll_step read h) \<longleftrightarrow> hw_congestion_threshold h
       \<le> (\<Sum>i \<leftarrow> [0..<hw_n_nics h]. cassini_delta read h i Congestion_Flits)) \<and>
    hw_total_congestion_events (cassini_poll_step read h) = hw_total_congestion_events h
       + (if is_fabric_congested (cassini_poll_step read h) \<and> \<not> is_fabric_congested h then 1 else 0)"
proof -
  let ?h0 = "cassini_init devices n iv th"
  have wf: "cassini_wf ?h0" and z: "hw_total_retx ?h0 = 0" "hw_total_stall_ns ?h0 = 0"
    by (simp_all add: cassini_wf_def cassini_init_def Let_def)
  have "cassini_wf h" "hw_n_nics h = hw_n_nics ?h0" "\<forall>i < hw_n_nics h. hw_prev h ! i = v0 i"
    "hw_total_retx h = 0" "hw_total_stall_ns h = 0"
    using cassini_loop_start_prev [OF wf, of v0] assms(1) z by simp_all
  with cassini_run_totals [of h v0 vs] cassini_poll_step_eq [of h read] assms(2) show ?thesis
    by (simp add: is_fabric_congested_def)
qed

end
