(* ===== verification/Topology_Router.thy ===== *)
theory Topology_Router
  imports Network_Monitor
begin

text \<open>
  \<^verbatim>\<open>tempo/topology_router.py\<close>: host names to Dragonfly groups, the peer table,
  and the placement of a KV chunk in a local peer, on Lustre, or deferred. The hardware
  counters are the model of \<open>CassiniHWCounters\<close>; a router without them has \<open>None\<close>.
\<close>

section \<open>Decisions\<close>

definition DRAGONFLY_GROUP_SIZE :: int where "DRAGONFLY_GROUP_SIZE = 64"
definition GLOBAL_LINK_QUOTA :: real where "GLOBAL_LINK_QUOTA = 20 / 100"
definition LINK_BPS :: real where "LINK_BPS = 200 * 10 ^ 9"
definition MAX_SLICE_BYTES :: int where "MAX_SLICE_BYTES = 40 * 1024 * 1024"
definition PEER_SLICE_BYTES :: int where "PEER_SLICE_BYTES = 128 * 1024 * 1024"

datatype placement_tier = LOCAL_PEER | LUSTRE_LOCAL | LUSTRE_REMOTE | DEFERRED

record placement_decision =
  pl_tier :: placement_tier
  pl_target_rank :: "int option"
  pl_slice_size_bytes :: int
  pl_estimated_latency_ms :: real
  pl_crosses_global_link :: bool
  pl_reason :: string

section \<open>Host names\<close>

definition is_digit :: "char \<Rightarrow> bool" where
  "is_digit c \<longleftrightarrow> c \<in> set ''0123456789''"

text \<open>
  \<open>re.match(r"nid0*(\d+)", hostname)\<close>: at least one digit must follow \<open>nid\<close>, and the
  zeros that \<open>0*\<close> takes do not change the number of the greedy digits.
\<close>

definition parse_nid :: "string \<Rightarrow> int option" where
  "parse_nid hostname =
     (if startswith hostname ''nid''
      then let ds = takeWhile is_digit (drop 3 hostname)
           in if ds = [] then None else Some (int (undigits ds))
      else None)"

definition nid_to_group :: "int \<Rightarrow> int \<Rightarrow> int" where
  "nid_to_group nid group_size = nid div group_size"

section \<open>The router\<close>

record router =
  tr_world_size :: int
  tr_rank :: int
  tr_group_size :: int
  tr_global_link_quota :: real
  tr_my_nid :: "int option"
  tr_my_group :: int
  tr_rank_to_group :: "(int, int) dict"
  tr_local_peers :: "int list"
  tr_global_link_saturated :: bool
  tr_total_decisions :: int
  tr_local_decisions :: int
  tr_deferred_decisions :: int
  tr_hw_counters :: "cassini_hw option"

definition router_init ::
    "string \<Rightarrow> string list option \<Rightarrow> int \<Rightarrow> int \<Rightarrow> int \<Rightarrow> real \<Rightarrow> bool \<Rightarrow> router result" where
  "router_init hostname devices world_size rank group_size global_link_quota enable_hw_counters =
     (if group_size = 0 then Inl ZeroDivisionError
      else
        let my_nid = parse_nid hostname;
            my_group = (case my_nid of Some nid \<Rightarrow> nid_to_group nid group_size
                        | None \<Rightarrow> rank div group_size);
            hw = cassini_init devices 0 (10 / 1000) 1
        in Inr \<lparr>tr_world_size = world_size, tr_rank = rank, tr_group_size = group_size,
             tr_global_link_quota = global_link_quota, tr_my_nid = my_nid, tr_my_group = my_group,
             tr_rank_to_group = [(rank, my_group)], tr_local_peers = [],
             tr_global_link_saturated = False, tr_total_decisions = 0, tr_local_decisions = 0,
             tr_deferred_decisions = 0,
             tr_hw_counters = (if enable_hw_counters \<and> hw_n_nics hw \<noteq> 0 then Some hw else None)\<rparr>)"

definition register_peer_groups :: "(int, int) dict \<Rightarrow> router \<Rightarrow> router" where
  "register_peer_groups rank_to_group r =
     r\<lparr>tr_rank_to_group := fold (\<lambda>(k, g). AList.update k g) rank_to_group (tr_rank_to_group r),
       tr_local_peers :=
         map fst (filter (\<lambda>(k, g). g = tr_my_group r \<and> k \<noteq> tr_rank r) rank_to_group)\<rparr>"

definition is_same_group :: "router \<Rightarrow> int \<Rightarrow> bool" where
  "is_same_group r rank \<longleftrightarrow>
     (case map_of (tr_rank_to_group r) rank of Some g \<Rightarrow> g | None \<Rightarrow> -1) = tr_my_group r"

definition is_cross_group :: "router \<Rightarrow> int \<Rightarrow> bool" where
  "is_cross_group r rank \<longleftrightarrow>
     (case map_of (tr_rank_to_group r) rank of Some g \<Rightarrow> g | None \<Rightarrow> -1) \<noteq> tr_my_group r"

definition local_latency_ms :: "int \<Rightarrow> real" where
  "local_latency_ms size_bytes = 1 / 1000 + of_int size_bytes / (25 * 1024 ^ 3 / 1000)"

definition lustre_latency_ms :: "int \<Rightarrow> real" where
  "lustre_latency_ms size_bytes = 5 / 10 + of_int size_bytes / (10 * 1024 ^ 3 / 1000)"

definition compute_slice :: "router \<Rightarrow> int \<Rightarrow> int" where
  "compute_slice r total_bytes =
     (let bw_bytes_per_ms = LINK_BPS * tr_global_link_quota r / 8 / 1000;
          max_per_window = py_int (bw_bytes_per_ms * 8)
      in min (min max_per_window total_bytes) (128 * 1024 * 1024))"

definition hw_congested_now :: "router \<Rightarrow> bool" where
  "hw_congested_now r \<longleftrightarrow> (case tr_hw_counters r of None \<Rightarrow> False | Some h \<Rightarrow> is_fabric_congested h)"

definition must_defer :: "router \<Rightarrow> real option \<Rightarrow> bool" where
  "must_defer r nccl_window_ms_remaining \<longleftrightarrow>
     (tr_global_link_saturated r \<or> hw_congested_now r) \<and>
     (case nccl_window_ms_remaining of None \<Rightarrow> False | Some w \<Rightarrow> w < 4)"

definition route_kv_placement ::
    "int \<Rightarrow> int list option \<Rightarrow> real option \<Rightarrow> router \<Rightarrow> placement_decision \<times> router" where
  "route_kv_placement kv_size_bytes available_peers nccl_window_ms_remaining r =
     (let r1 = r\<lparr>tr_total_decisions := tr_total_decisions r + 1\<rparr>;
          peers = (case available_peers of Some ps \<Rightarrow> ps | None \<Rightarrow> tr_local_peers r1);
          locals = filter (is_same_group r1) peers
      in case py_min id locals of
           Some target \<Rightarrow>
             (\<lparr>pl_tier = LOCAL_PEER, pl_target_rank = Some target,
               pl_slice_size_bytes = min kv_size_bytes (128 * 1024 * 1024),
               pl_estimated_latency_ms = local_latency_ms kv_size_bytes,
               pl_crosses_global_link = False, pl_reason = ''intra-group peer memory''\<rparr>,
              r1\<lparr>tr_local_decisions := tr_local_decisions r1 + 1\<rparr>)
         | None \<Rightarrow>
             (if must_defer r1 nccl_window_ms_remaining
              then (\<lparr>pl_tier = DEFERRED, pl_target_rank = None,
                     pl_slice_size_bytes = MAX_SLICE_BYTES,
                     pl_estimated_latency_ms =
                       (case nccl_window_ms_remaining of Some w \<Rightarrow> w | None \<Rightarrow> 0) + 8,
                     pl_crosses_global_link = True,
                     pl_reason = ''global link saturated'' @
                       (if hw_congested_now r1 then '' [hw-ecn]'' else []) @
                       '', NCCL window closing''\<rparr>,
                    r1\<lparr>tr_deferred_decisions := tr_deferred_decisions r1 + 1\<rparr>)
              else (\<lparr>pl_tier = LUSTRE_REMOTE, pl_target_rank = None,
                     pl_slice_size_bytes = compute_slice r1 kv_size_bytes,
                     pl_estimated_latency_ms = lustre_latency_ms kv_size_bytes,
                     pl_crosses_global_link = True,
                     pl_reason = ''no local peers; sliced Lustre transfer''\<rparr>,
                    r1)))"

definition set_global_link_saturated :: "bool \<Rightarrow> router \<Rightarrow> router" where
  "set_global_link_saturated saturated r = r\<lparr>tr_global_link_saturated := saturated\<rparr>"

definition get_local_peers :: "router \<Rightarrow> int list" where
  "get_local_peers r = tr_local_peers r"

record router_stats =
  rs_my_group :: int
  rs_my_nid :: "int option"
  rs_local_peer_count :: nat
  rs_global_link_sat :: bool
  rs_total_decisions :: int
  rs_local_pct :: real
  rs_deferred_pct :: real
  rs_cassini_hw :: "hw_stats option"

definition router_get_stats :: "router \<Rightarrow> router_stats" where
  "router_get_stats r =
     (let total = max 1 (tr_total_decisions r) in
      \<lparr>rs_my_group = tr_my_group r, rs_my_nid = tr_my_nid r,
       rs_local_peer_count = length (tr_local_peers r),
       rs_global_link_sat = tr_global_link_saturated r,
       rs_total_decisions = tr_total_decisions r,
       rs_local_pct = 100 * of_int (tr_local_decisions r) / of_int total,
       rs_deferred_pct = 100 * of_int (tr_deferred_decisions r) / of_int total,
       rs_cassini_hw = map_option cassini_get_stats (tr_hw_counters r)\<rparr>)"

section \<open>Lemmas\<close>

lemma takeWhile_digits:
  "set ds \<subseteq> set ''0123456789'' \<Longrightarrow> rest = [] \<or> \<not> is_digit (hd rest) \<Longrightarrow>
     takeWhile is_digit (ds @ rest) = ds"
proof (induction ds)
  case Nil
  then show ?case by (cases rest) auto
next
  case (Cons d ds)
  then show ?case by (simp add: is_digit_def)
qed

lemma digits_not_Nil [simp]: "digits n \<noteq> []"
  by (subst digits.simps) simp

lemma parse_nid_padded:
  assumes "rest = [] \<or> \<not> is_digit (hd rest)"
  shows "parse_nid (''nid'' @ pad_zero w (digits n) @ rest) = Some (int n)"
proof -
  have "set (pad_zero w (digits n)) \<subseteq> set ''0123456789''"
    using pad_zero_chars [of w "digits n"] digits_chars [of n] by auto
  then have "takeWhile is_digit (pad_zero w (digits n) @ rest) = pad_zero w (digits n)"
    using assms by (rule takeWhile_digits)
  moreover have "pad_zero w (digits n) \<noteq> []" by (simp add: pad_zero_def)
  ultimately show ?thesis by (simp add: parse_nid_def)
qed

text \<open>The table after registration: the given groups, over what was known before.\<close>

lemma fold_update_map_of:
  "distinct (map fst kvs) \<Longrightarrow>
     map_of (fold (\<lambda>(k, g). AList.update k g) kvs al) k =
       (case map_of kvs k of Some g \<Rightarrow> Some g | None \<Rightarrow> map_of al k)"
proof (induction kvs arbitrary: al)
  case Nil
  then show ?case by simp
next
  case (Cons kv kvs)
  obtain k' g' where kv: "kv = (k', g')" by (cases kv)
  have "map_of kvs k' = None" using Cons.prems kv by (simp add: map_of_eq_None_iff)
  then show ?case using Cons kv by (auto simp: update_conv' split: option.splits)
qed

definition router_ok :: "router \<Rightarrow> bool" where
  "router_ok r \<longleftrightarrow> 0 \<le> tr_local_decisions r \<and> 0 \<le> tr_deferred_decisions r \<and>
     tr_local_decisions r + tr_deferred_decisions r \<le> tr_total_decisions r \<and>
     tr_rank r \<notin> set (tr_local_peers r) \<and>
     (\<forall>p \<in> set (tr_local_peers r). is_same_group r p)"

datatype router_op = Route int "int list option" "real option" | Saturate bool
  | Register "(int, int) dict" | Hw_Poll counter_read

fun router_exec :: "router_op \<Rightarrow> router \<Rightarrow> router" where
  "router_exec (Route kv peers w) r = snd (route_kv_placement kv peers w r)"
| "router_exec (Saturate b) r = set_global_link_saturated b r"
| "router_exec (Register rg) r = register_peer_groups rg r"
| "router_exec (Hw_Poll read) r = r\<lparr>tr_hw_counters := map_option (cassini_poll_step read) (tr_hw_counters r)\<rparr>"

text \<open>A Python dictionary has distinct keys.\<close>

fun router_op_ok :: "router_op \<Rightarrow> bool" where
  "router_op_ok (Register rg) \<longleftrightarrow> distinct (map fst rg)"
| "router_op_ok _ \<longleftrightarrow> True"

lemma router_ok_init: "router_init h dev ws rank gs q hw = Inr r \<Longrightarrow> router_ok r"
  by (auto simp: router_init_def router_ok_def Let_def split: if_splits)

lemma same_group_frame:
  "tr_rank_to_group r' = tr_rank_to_group r \<Longrightarrow> tr_my_group r' = tr_my_group r \<Longrightarrow>
     is_same_group r' p \<longleftrightarrow> is_same_group r p"
  by (simp add: is_same_group_def)

lemma router_ok_route: "router_ok r \<Longrightarrow> router_ok (snd (route_kv_placement kv peers w r))"
  by (auto simp: router_ok_def route_kv_placement_def Let_def is_same_group_def split: option.splits)

lemma router_ok_register:
  assumes "router_ok r" and "distinct (map fst rg)"
  shows "router_ok (register_peer_groups rg r)"
proof -
  have "is_same_group (register_peer_groups rg r) p" if "(p, tr_my_group r) \<in> set rg" for p
    using that assms(2) map_of_is_SomeI [OF assms(2) that]
    by (simp add: is_same_group_def register_peer_groups_def fold_update_map_of)
  then show ?thesis using assms(1) by (auto simp: router_ok_def register_peer_groups_def)
qed

lemma router_ok_exec: "router_ok r \<Longrightarrow> router_op_ok op \<Longrightarrow> router_ok (router_exec op r)"
proof (cases op)
  case (Saturate b)
  then show "router_ok r \<Longrightarrow> ?thesis"
    by (auto simp: router_ok_def set_global_link_saturated_def is_same_group_def)
next
  case (Hw_Poll read)
  then show "router_ok r \<Longrightarrow> ?thesis" by (auto simp: router_ok_def is_same_group_def)
qed (simp_all add: router_ok_route router_ok_register)

lemma router_ok_fold:
  "router_ok r \<Longrightarrow> list_all router_op_ok ops \<Longrightarrow> router_ok (fold router_exec ops r)"
  by (induction ops arbitrary: r) (simp_all add: router_ok_exec)

lemma pct_range: "0 \<le> a \<Longrightarrow> a \<le> n \<Longrightarrow>
    0 \<le> 100 * real_of_int a / of_int (max 1 n) \<and> 100 * real_of_int a / of_int (max 1 n) \<le> 100"
  by (auto simp: divide_le_eq max_def)

section \<open>Properties\<close>

text \<open>
  C21: Placement. A chunk goes to a local peer exactly if some candidate is in the router's own
  group, then to the lowest such rank and without crossing a global link; otherwise it is
  deferred exactly if the links are saturated (by the flag or by the hardware counters) and
  less than 4 ms of the NCCL window remain; otherwise it goes to remote Lustre in slices that
  fit the quota. The tier LUSTRE_LOCAL is never chosen.
\<close>

theorem placement_correct:
  assumes "route_kv_placement kv peers w r = (d, r')"
    and "locals = filter (is_same_group r) (case peers of Some ps \<Rightarrow> ps | None \<Rightarrow> tr_local_peers r)"
  shows "(pl_tier d = LOCAL_PEER \<longleftrightarrow> locals \<noteq> []) \<and>
    (pl_tier d = DEFERRED \<longleftrightarrow> locals = [] \<and> must_defer r w) \<and>
    (pl_tier d = LUSTRE_REMOTE \<longleftrightarrow> locals = [] \<and> \<not> must_defer r w) \<and> pl_tier d \<noteq> LUSTRE_LOCAL \<and>
    (pl_target_rank d = (if locals = [] then None else Some (Min (set locals)))) \<and>
    (pl_crosses_global_link d \<longleftrightarrow> pl_tier d \<noteq> LOCAL_PEER) \<and>
    (pl_tier d \<noteq> DEFERRED \<longrightarrow> pl_slice_size_bytes d \<le> kv \<and> pl_slice_size_bytes d \<le> PEER_SLICE_BYTES) \<and>
    (pl_tier d = LUSTRE_REMOTE \<and> 0 \<le> tr_global_link_quota r \<longrightarrow>
       of_int (pl_slice_size_bytes d) \<le> LINK_BPS * tr_global_link_quota r / 8 / 1000 * 8)"
proof -
  let ?r1 = "r\<lparr>tr_total_decisions := tr_total_decisions r + 1\<rparr>"
  have frame: "is_same_group ?r1 = is_same_group r" "must_defer ?r1 w = must_defer r w"
    "compute_slice ?r1 kv = compute_slice r kv"
    by (auto simp: is_same_group_def must_defer_def hw_congested_now_def compute_slice_def)
  have locals: "filter (is_same_group r) (case peers of Some ps \<Rightarrow> ps | None \<Rightarrow> tr_local_peers ?r1)
      = locals"
    using assms(2) frame(1) by (simp split: option.splits)
  have slice: "of_int (compute_slice r kv) \<le> LINK_BPS * tr_global_link_quota r / 8 / 1000 * 8"
    if "0 \<le> tr_global_link_quota r"
  proof -
    let ?x = "LINK_BPS * tr_global_link_quota r / 8 / 1000 * 8"
    have "0 \<le> ?x" using that by (simp add: LINK_BPS_def)
    then have "real_of_int (py_int ?x) \<le> ?x" by (rule py_int_le)
    moreover have "compute_slice r kv \<le> py_int ?x" by (simp add: compute_slice_def Let_def)
    ultimately show ?thesis by linarith
  qed
  show ?thesis
  proof (cases "py_min id locals")
    case None
    then have n: "locals = []" by simp
    show ?thesis
      using assms(1) slice n unfolding route_kv_placement_def Let_def locals frame None option.case
      by (auto simp: compute_slice_def Let_def PEER_SLICE_BYTES_def split: if_splits)
  next
    case (Some t)
    then have "locals \<noteq> []" and "Min (set locals) = t"
      using py_min.pick_key [OF Some] by auto
    then show ?thesis
      using assms(1) unfolding route_kv_placement_def Let_def locals frame Some option.case
      by (auto simp: PEER_SLICE_BYTES_def)
  qed
qed

theorem placement_correct_witness:
  "pl_target_rank (fst (route_kv_placement 100 (Some [7, 0]) None
     \<lparr>tr_world_size = 8, tr_rank = 0, tr_group_size = 64, tr_global_link_quota = 1 / 5,
      tr_my_nid = None, tr_my_group = 0, tr_rank_to_group = [(0, 0), (7, 0)], tr_local_peers = [7],
      tr_global_link_saturated = False, tr_total_decisions = 0, tr_local_decisions = 0,
      tr_deferred_decisions = 0, tr_hw_counters = None\<rparr>)) = Some 0"
proof -
  let ?r = "\<lparr>tr_world_size = 8, tr_rank = 0, tr_group_size = 64, tr_global_link_quota = 1 / 5,
      tr_my_nid = None, tr_my_group = 0, tr_rank_to_group = [(0, 0), (7, 0)], tr_local_peers = [7],
      tr_global_link_saturated = False, tr_total_decisions = 0, tr_local_decisions = 0,
      tr_deferred_decisions = 0, tr_hw_counters = None\<rparr>"
  obtain d r' where d: "route_kv_placement 100 (Some [7, 0]) None ?r = (d, r')" by fastforce
  have "[7, 0] = filter (is_same_group ?r) (case Some [7, 0] of Some ps \<Rightarrow> ps | None \<Rightarrow> tr_local_peers ?r)"
    by (simp add: is_same_group_def)
  from placement_correct [OF d this] d show ?thesis by simp
qed

text \<open>
  After any sequence of decisions, registrations, saturation changes and counter polls the
  default candidates never include the own rank and are all in the own group, the counters of
  local and deferred decisions sum to at most the total, and the reported percentages are
  between 0 and 100.
\<close>

lemma router_invariant:
  assumes "router_init h dev ws rank gs quota hw = Inr r0" and "list_all router_op_ok ops"
    and "r = fold router_exec ops r0"
  shows "tr_rank r \<notin> set (get_local_peers r) \<and>
    (\<forall>p \<in> set (get_local_peers r). \<not> is_cross_group r p) \<and>
    tr_local_decisions r + tr_deferred_decisions r \<le> rs_total_decisions (router_get_stats r) \<and>
    0 \<le> rs_local_pct (router_get_stats r) \<and> rs_local_pct (router_get_stats r) \<le> 100 \<and>
    0 \<le> rs_deferred_pct (router_get_stats r) \<and> rs_deferred_pct (router_get_stats r) \<le> 100"
proof -
  have ok: "router_ok r" using router_ok_fold [OF router_ok_init [OF assms(1)] assms(2)] assms(3) by simp
  then show ?thesis
    using pct_range [of "tr_local_decisions r" "tr_total_decisions r"]
      pct_range [of "tr_deferred_decisions r" "tr_total_decisions r"]
    by (auto simp: router_ok_def get_local_peers_def is_cross_group_def is_same_group_def
        router_get_stats_def Let_def)
qed

text \<open>
  Node numbers survive the host name: a zero-padded number after \<open>nid\<close>, followed by
  anything that is no digit, is read back, and the group is its quotient by the group size, so
  nodes of one group differ by less than the group size.
\<close>

lemma parse_nid_roundtrip:
  assumes "rest = [] \<or> \<not> is_digit (hd rest)"
  shows "parse_nid (''nid'' @ pad_zero w (digits n) @ rest) = Some (int n) \<and>
    (0 < gs \<longrightarrow> nid_to_group (int n) gs = nid_to_group m gs \<longrightarrow> \<bar>int n - m\<bar> < gs)"
proof -
  have "\<bar>int n - m\<bar> < gs" if "0 < gs" "int n div gs = m div gs"
  proof -
    have "int n = gs * (m div gs) + int n mod gs" and "m = gs * (m div gs) + m mod gs"
      using that(2) mult_div_mod_eq [of gs "int n"] mult_div_mod_eq [of gs m] by simp_all
    then have "int n - m = int n mod gs - m mod gs" by linarith
    moreover have "0 \<le> int n mod gs" "int n mod gs < gs" "0 \<le> m mod gs" "m mod gs < gs"
      using that(1) by simp_all
    ultimately show ?thesis by linarith
  qed
  then show ?thesis using parse_nid_padded [OF assms] by (simp add: nid_to_group_def)
qed

end
