(* ===== verification/Scheduler.thy ===== *)
theory Scheduler
  imports Service_Gain Interleaving Checkpoint_Manager QoS Topology_Router
begin

text \<open>
  \<^verbatim>\<open>tempo/scheduler.py\<close>, versions 1 to 3: the controller the training loop
  calls, composed from the components. A subclass is a record that extends its parent's, and
  \<open>super().m\<close> is the parent's function on the extended record. What a method of the parent
  calls on \<open>self\<close> and a subclass changes (the phase gate, whose \<open>set\<close> and \<open>clear\<close>
  version 2 replaces) is an argument of the parent's function. Each function is one call on the
  training thread; what the background threads do in between are steps of \<open>v2_reach\<close>.
  The printing of statistics is left out.
\<close>

section \<open>Version 1\<close>

record 'b tempo =
  te_rank :: int
  te_world_size :: int
  te_mode :: string
  te_verbose :: bool
  te_lustre_dir :: "string option"
  te_phase_monitor :: phase_monitor
  te_ckpt_manager :: "'b ckpt"
  te_step_start :: real
  te_step_times :: "real list"

text \<open>\<open>pscratch\<close> is the environment variable, \<open>fs\<close> the file system at the start.\<close>

definition default_lustre_dir :: "string option \<Rightarrow> string option \<Rightarrow> string option" where
  "default_lustre_dir pscratch lustre_dir =
     (case lustre_dir of
        Some d \<Rightarrow> Some d
      | None \<Rightarrow> (case pscratch of
                   None \<Rightarrow> None
                 | Some p \<Rightarrow> if p = [] then None else Some (p @ ''/tempo_checkpoints'')))"

definition tempo_init ::
    "string option \<Rightarrow> 'b fs \<Rightarrow> int \<Rightarrow> int \<Rightarrow> string \<Rightarrow> string option \<Rightarrow> string \<Rightarrow> int \<Rightarrow> bool \<Rightarrow> bool
     \<Rightarrow> 'b tempo result" where
  "tempo_init pscratch fs rank world_size local_nvme_dir lustre_dir0 mode flush_chunk_mb
      adaptive_chunk verbose =
     (if mode \<noteq> ''tempo'' \<and> mode \<noteq> ''baseline'' then Inl ValueError
      else
        let lustre_dir = default_lustre_dir pscratch lustre_dir0
        in Inr \<lparr>te_rank = rank, te_world_size = world_size, te_mode = mode, te_verbose = verbose,
                te_lustre_dir = lustre_dir,
                te_phase_monitor = phase_monitor_init rank verbose,
                te_ckpt_manager = ckpt_init local_nvme_dir lustre_dir rank world_size 3
                  (flush_chunk_mb * 1024 * 1024) adaptive_chunk (mode = ''tempo'') fs,
                te_step_start = 0, te_step_times = []\<rparr>)"

definition on_step_begin :: "real \<Rightarrow> ('b, 'm) tempo_scheme \<Rightarrow> ('b, 'm) tempo_scheme" where
  "on_step_begin now s =
     s\<lparr>te_phase_monitor := increment_step (te_phase_monitor s), te_step_start := now\<rparr>"

definition on_step_end :: "real \<Rightarrow> ('b, 'm) tempo_scheme \<Rightarrow> real \<times> ('b, 'm) tempo_scheme" where
  "on_step_end now s =
     (let elapsed_ms = (now - te_step_start s) * 1000
      in (elapsed_ms, s\<lparr>te_step_times := te_step_times s @ [elapsed_ms]\<rparr>))"

text \<open>
  The times one checkpoint call reads, in the order of the versions: the first and second
  \<open>submit_job\<close>, the safe window, the phase change, its hook, the enqueueing and the change
  back. A phase change takes two of them.
\<close>

record ckpt_clock =
  ck_submit_v3 :: real
  ck_window :: real
  ck_submit_v2 :: real
  ck_enter :: real
  ck_enter_hook :: real
  ck_enqueue :: real
  ck_exit :: real

type_synonym 's phase_change = "real \<Rightarrow> real \<Rightarrow> training_phase \<Rightarrow> 's \<Rightarrow> 's"

definition change_phase :: "('b, 'm) tempo_scheme phase_change" where
  "change_phase now hook_now new_phase s =
     s\<lparr>te_phase_monitor := set_phase now new_phase (te_phase_monitor s)\<rparr>"

text \<open>\<open>blob\<close> is what \<open>torch.save\<close> writes for the state dictionary, step and metadata.\<close>

definition checkpoint_v1 ::
    "('b, 'm) tempo_scheme phase_change \<Rightarrow> ckpt_clock \<Rightarrow> 'b list \<Rightarrow> int \<Rightarrow> ('b, 'm) tempo_scheme
     \<Rightarrow> string result \<times> ('b, 'm) tempo_scheme" where
  "checkpoint_v1 change ck blob step s =
     (if te_mode s = ''tempo''
      then (let s1 = change (ck_enter ck) (ck_enter_hook ck) CHECKPOINT s;
                (path, c) = save_async (ck_enqueue ck) blob step (te_ckpt_manager s1);
                s2 = s1\<lparr>te_ckpt_manager := c\<rparr>
            in (Inr path, change (ck_exit ck) (ck_exit ck) IDLE s2))
      else if te_lustre_dir s = None then (Inl RuntimeError, s)
      else (let (r, c) = save_sync_lustre blob step (te_ckpt_manager s)
            in (r, s\<lparr>te_ckpt_manager := c\<rparr>)))"

record tempo_stats =
  ts_mode :: string
  ts_rank :: int
  ts_avg_step_ms :: real
  ts_phase :: pm_stats
  ts_checkpoint :: cm_stats

definition get_stats_v1 :: "('b, 'm) tempo_scheme \<Rightarrow> tempo_stats" where
  "get_stats_v1 s =
     (let step_times = te_step_times s;
          avg_step_ms = (if step_times = [] then 0
                         else sum_list step_times / of_nat (length step_times))
      in \<lparr>ts_mode = te_mode s, ts_rank = te_rank s, ts_avg_step_ms = py_round 2 avg_step_ms,
          ts_phase = pm_get_stats (te_phase_monitor s),
          ts_checkpoint = cm_get_stats (te_ckpt_manager s)\<rparr>)"

text \<open>With \<open>wait\<close>, \<open>shutdown\<close> returns once every queued flush is finished.\<close>

definition shutdown_returns :: "bool \<Rightarrow> ('b, 'm) tempo_scheme \<Rightarrow> bool" where
  "shutdown_returns wait s \<longleftrightarrow> (wait \<longrightarrow> wait_for_all_flushes_returns (te_ckpt_manager s))"

definition shutdown_v1 :: "('b, 'm) tempo_scheme \<Rightarrow> ('b, 'm) tempo_scheme" where
  "shutdown_v1 s = s\<lparr>te_ckpt_manager := shutdown (te_ckpt_manager s)\<rparr>"

section \<open>Version 2\<close>

text \<open>What the scheduler submits as the flush job: \<open>None\<close> (version 2) or \<open>{}\<close> (version 3).\<close>

datatype submitted = No_Job | Empty_Dict

text \<open>\<open>te_slept_ms\<close> records the delays the call slept.\<close>

record 'b tempo_v2 = "'b tempo" +
  te_net_monitor :: "network_monitor option"
  te_svc_gain :: "submitted service_gain option"
  te_interleaving :: "engine option"
  te_slept_ms :: "real list"

definition tempo_v2_init ::
    "string list \<Rightarrow> int \<Rightarrow> real \<Rightarrow> bool \<Rightarrow> bool \<Rightarrow> bool \<Rightarrow> 'b tempo \<Rightarrow> 'b tempo_v2" where
  "tempo_v2_init nics milestone_interval congestion_threshold enable_network_monitor
      enable_service_gain enable_interleaving s =
     tempo.extend s
       \<lparr>te_net_monitor =
          (if enable_network_monitor
           then Some (nm_start False (network_monitor_init congestion_threshold POLL_INTERVAL_S
                        LINK_SPEED_BPS nics))
           else None),
        te_svc_gain =
          (if enable_service_gain
           then Some (service_gain_init (25 * 10 ^ 9) milestone_interval DEFAULT_SLO_STEPS (25 / 100))
           else None),
        te_interleaving =
          (if enable_interleaving then Some (engine_init (predictor_init EWMA_ALPHA)) else None),
        te_slept_ms = []\<rparr>"

text \<open>
  The hooks on the gate: leaving an NCCL phase opens it, which starts the engine's compute
  window first; entering one closes it, which ends the window first.
\<close>

definition gate_hooks :: "real \<Rightarrow> training_phase \<Rightarrow> training_phase \<Rightarrow> engine \<Rightarrow> engine" where
  "gate_hooks hook_now old_phase new_phase e =
     (if old_phase = new_phase then e
      else if old_phase = NCCL_COMM then on_compute_start hook_now e
      else if new_phase = NCCL_COMM then on_compute_end hook_now e
      else e)"

definition change_phase_v2 :: "('b, 'm) tempo_v2_scheme phase_change" where
  "change_phase_v2 now hook_now new_phase s =
     change_phase now hook_now new_phase
       (s\<lparr>te_interleaving := map_option (gate_hooks hook_now (pm_phase (te_phase_monitor s)) new_phase)
            (te_interleaving s)\<rparr>)"

type_synonym metadata = "string \<rightharpoonup> int"

definition meta_get :: "metadata option \<Rightarrow> string \<Rightarrow> int \<Rightarrow> int" where
  "meta_get metadata key dflt =
     (case metadata of None \<Rightarrow> dflt | Some m \<Rightarrow> (case m key of Some v \<Rightarrow> v | None \<Rightarrow> dflt))"

definition shape_known :: "metadata option \<Rightarrow> bool" where
  "shape_known metadata \<longleftrightarrow>
     (case metadata of
        None \<Rightarrow> False
      | Some m \<Rightarrow> list_all (\<lambda>k. m k \<noteq> None)
          [''batch_size'', ''seq_len'', ''n_layers'', ''n_heads'', ''head_dim''])"

definition flush_kv_bytes :: "metadata option \<Rightarrow> int" where
  "flush_kv_bytes metadata =
     (if shape_known metadata
      then predict_kv_bytes (meta_get metadata ''batch_size'' 8) (meta_get metadata ''seq_len'' 512)
             (meta_get metadata ''n_layers'' 24) (meta_get metadata ''n_heads'' 16)
             (meta_get metadata ''head_dim'' 64) 2
      else meta_get metadata ''size_bytes'' (256 * 1024 * 1024))"

definition look_ahead :: "metadata option \<Rightarrow> ('b, 'm) tempo_v2_scheme \<Rightarrow> route_action" where
  "look_ahead metadata s =
     (let nccl_bw = estimated_nccl_bps (te_phase_monitor s);
          nccl_ms = nccl_phase_duration_ms (te_phase_monitor s);
          flush_win_s = max (10 / 1000) (nccl_ms * (1 / 1000) * (5 / 10));
          n_idle = (case te_net_monitor s of Some nm \<Rightarrow> int (count_idle_rails nm) | None \<Rightarrow> 1)
      in route_decision (flush_kv_bytes metadata) flush_win_s nccl_bw n_idle 0)"

text \<open>A gain decision: \<open>None\<close> without a gain scheduler, and the exception if it raises.\<close>

definition submit_gain ::
    "real \<Rightarrow> submitted \<Rightarrow> int \<Rightarrow> ('b, 'm) tempo_v2_scheme
     \<Rightarrow> flush_priority option result \<times> ('b, 'm) tempo_v2_scheme" where
  "submit_gain now job step s =
     (case te_svc_gain s of
        None \<Rightarrow> (Inr None, s)
      | Some g \<Rightarrow>
          (case submit_job now job step g of
             (Inl e, g') \<Rightarrow> (Inl e, s\<lparr>te_svc_gain := Some g'\<rparr>)
           | (Inr p, g') \<Rightarrow> (Inr (Some p), s\<lparr>te_svc_gain := Some g'\<rparr>)))"

text \<open>The final gate of the version 2 checkpoint, and the delegation to version 1.\<close>

definition gated_checkpoint ::
    "ckpt_clock \<Rightarrow> 'b list \<Rightarrow> int \<Rightarrow> ('b, 'm) tempo_v2_scheme
     \<Rightarrow> string result \<times> ('b, 'm) tempo_v2_scheme" where
  "gated_checkpoint ck blob step s =
     (case submit_gain (ck_submit_v2 ck) No_Job step s of
        (Inl e, s2) \<Rightarrow> (Inl e, s2)
      | (Inr (Some p), s2) \<Rightarrow>
          if fp_recompute_fallback p then (Inr [], s2)
          else checkpoint_v1 change_phase_v2 ck blob step s2
      | (Inr None, s2) \<Rightarrow> checkpoint_v1 change_phase_v2 ck blob step s2)"

definition checkpoint_v2 ::
    "ckpt_clock \<Rightarrow> 'b list \<Rightarrow> int \<Rightarrow> metadata option \<Rightarrow> ('b, 'm) tempo_v2_scheme
     \<Rightarrow> string result \<times> ('b, 'm) tempo_v2_scheme" where
  "checkpoint_v2 ck blob step metadata s =
     (let s0 = s\<lparr>te_svc_gain := map_option (update_step step) (te_svc_gain s)\<rparr> in
      if te_mode s0 \<noteq> ''tempo'' then checkpoint_v1 change_phase_v2 ck blob step s0
      else
        case look_ahead metadata s0 of
          Defer _ \<Rightarrow>
            (case submit_gain (ck_submit_v2 ck) No_Job step s0 of
               (Inl e, s1) \<Rightarrow> (Inl e, s1)
             | (Inr _, s1) \<Rightarrow> (Inr [], s1))
        | action \<Rightarrow>
            (let s1 = (case action of
                         Micro_Delay delay_ms \<Rightarrow> s0\<lparr>te_slept_ms := te_slept_ms s0 @ [delay_ms]\<rparr>
                       | _ \<Rightarrow> s0)
             in gated_checkpoint ck blob step s1))"

definition on_step_begin_v2 :: "real \<Rightarrow> int \<Rightarrow> ('b, 'm) tempo_v2_scheme \<Rightarrow> ('b, 'm) tempo_v2_scheme" where
  "on_step_begin_v2 now step s =
     (let s1 = on_step_begin now s;
          s2 = s1\<lparr>te_svc_gain := map_option (update_step step) (te_svc_gain s1)\<rparr>
      in case te_net_monitor s2 of
           None \<Rightarrow> s2
         | Some nm \<Rightarrow> s2\<lparr>te_svc_gain := map_option (set_congested (is_congested nm)) (te_svc_gain s2)\<rparr>)"

record tempo_v2_stats = tempo_stats +
  ts_network :: "nm_stats option"
  ts_service_gain :: "sg_stats option"
  ts_interleaving :: "ie_stats option"

definition get_stats_v2 :: "('b, 'm) tempo_v2_scheme \<Rightarrow> tempo_v2_stats" where
  "get_stats_v2 s =
     tempo_stats.extend (get_stats_v1 s)
       \<lparr>ts_network = map_option nm_get_stats (te_net_monitor s),
        ts_service_gain = map_option sg_get_stats (te_svc_gain s),
        ts_interleaving = map_option ie_get_stats (te_interleaving s)\<rparr>"

definition shutdown_v2 :: "('b, 'm) tempo_v2_scheme \<Rightarrow> ('b, 'm) tempo_v2_scheme" where
  "shutdown_v2 s =
     (let s1 = shutdown_v1 s in s1\<lparr>te_net_monitor := map_option nm_stop (te_net_monitor s1)\<rparr>)"

section \<open>Version 3\<close>

record 'b tempo_v3 = "'b tempo_v2" +
  te_topo_router :: "router option"
  te_qos_mapper :: "qos_mapper option"

definition tempo_v3_init ::
    "string \<Rightarrow> string list option \<Rightarrow> bool \<Rightarrow> bool \<Rightarrow> bool \<Rightarrow> bool \<Rightarrow> real \<Rightarrow> 'b tempo_v2
     \<Rightarrow> 'b tempo_v3 result" where
  "tempo_v3_init hostname devices probe_tos enable_topology_routing enable_qos dry_run_qos
      global_link_quota s =
     (let qm = (if enable_qos then Some (qos_mapper_init probe_tos True dry_run_qos) else None) in
      if enable_topology_routing
      then (case router_init hostname devices (te_world_size s) (te_rank s) DRAGONFLY_GROUP_SIZE
                   global_link_quota True of
              Inl e \<Rightarrow> Inl e
            | Inr r \<Rightarrow> Inr (tempo_v2.extend s \<lparr>te_topo_router = Some r, te_qos_mapper = qm\<rparr>))
      else Inr (tempo_v2.extend s \<lparr>te_topo_router = None, te_qos_mapper = qm\<rparr>))"

text \<open>The hook the constructor stores in the monitor as \<open>_set_congested\<close>.\<close>

definition patched_set_cong :: "bool \<Rightarrow> ('b, 'm) tempo_v3_scheme \<Rightarrow> ('b, 'm) tempo_v3_scheme" where
  "patched_set_cong val s =
     s\<lparr>te_topo_router := map_option (set_global_link_saturated val) (te_topo_router s)\<rparr>"

definition classify_checkpoint ::
    "flush_priority option \<Rightarrow> ('b, 'm) tempo_v3_scheme \<Rightarrow> ('b, 'm) tempo_v3_scheme" where
  "classify_checkpoint prio s =
     (let gain = (case prio of Some p \<Rightarrow> fp_gain p | None \<Rightarrow> 5 / 10)
      in s\<lparr>te_qos_mapper :=
             map_option (\<lambda>q. snd (classify gain ''checkpoint'' (5 / 10) 0 q)) (te_qos_mapper s)\<rparr>)"

definition place_checkpoint ::
    "real \<Rightarrow> metadata option \<Rightarrow> ('b, 'm) tempo_v3_scheme
     \<Rightarrow> placement_decision option \<times> ('b, 'm) tempo_v3_scheme" where
  "place_checkpoint now metadata s =
     (case te_topo_router s of
        None \<Rightarrow> (None, s)
      | Some r \<Rightarrow>
          (let window = map_option (get_safe_window_ms now) (te_interleaving s);
               (d, r') = route_kv_placement (meta_get metadata ''size_bytes'' (256 * 1024 * 1024))
                           None window r
           in (Some d, s\<lparr>te_topo_router := Some r'\<rparr>)))"

definition checkpoint_v3 ::
    "ckpt_clock \<Rightarrow> 'b list \<Rightarrow> int \<Rightarrow> metadata option \<Rightarrow> ('b, 'm) tempo_v3_scheme
     \<Rightarrow> unit result \<times> ('b, 'm) tempo_v3_scheme" where
  "checkpoint_v3 ck blob step metadata s =
     (case submit_gain (ck_submit_v3 ck) Empty_Dict step s of
        (Inl e, s1) \<Rightarrow> (Inl e, s1)
      | (Inr prio, s1) \<Rightarrow>
          (case place_checkpoint (ck_window ck) metadata (classify_checkpoint prio s1) of
             (decision, s2) \<Rightarrow>
               if map_option pl_tier decision = Some DEFERRED then (Inr (), s2)
               else (case checkpoint_v2 ck blob step metadata s2 of
                       (Inl e, s3) \<Rightarrow> (Inl e, s3)
                     | (Inr path, s3) \<Rightarrow> (Inr (), s3))))"

record tempo_v3_stats = tempo_v2_stats +
  ts_topology :: "router_stats option"
  ts_qos :: "qm_stats option"

definition get_stats_v3 :: "('b, 'm) tempo_v3_scheme \<Rightarrow> tempo_v3_stats" where
  "get_stats_v3 s =
     tempo_v2_stats.extend (get_stats_v2 s)
       \<lparr>ts_topology = map_option router_get_stats (te_topo_router s),
        ts_qos = map_option qm_get_stats (te_qos_mapper s)\<rparr>"

section \<open>Saving or dropping\<close>

definition unsaved :: "('b, 'm) tempo_v2_scheme \<Rightarrow> ('b, 'm) tempo_v2_scheme \<Rightarrow> bool" where
  "unsaved s s' \<longleftrightarrow> te_ckpt_manager s' = te_ckpt_manager s \<and>
     te_phase_monitor s' = te_phase_monitor s \<and> te_interleaving s' = te_interleaving s"

text \<open>
  \<open>blob\<close> is on the local store under \<open>path\<close>, and the flush of it was queued unless there is
  no remote directory or the queue was full.
\<close>

definition staged :: "'b list \<Rightarrow> int \<Rightarrow> string \<Rightarrow> 'b ckpt \<Rightarrow> 'b ckpt \<Rightarrow> bool" where
  "staged blob step path c c' \<longleftrightarrow>
     path = cm_local_dir c @ ''/'' @ ckpt_fname step (cm_rank c) \<and>
     cm_fs c' = (cm_fs c)(path \<mapsto> blob) \<and>
     cm_bytes_local c' = cm_bytes_local c + int (length blob) \<and>
     (if cm_lustre_dir c = None \<or> queue_full (cm_max_pending c) (cm_queue c)
      then cm_queue c' = cm_queue c
      else \<exists>job. cm_queue c' = cm_queue c @ [job] \<and> fj_local_path job = path \<and>
             fj_size_bytes job = int (length blob) \<and> fj_step job = step)"

text \<open>The gain scheduler advises against the flush.\<close>

definition recompute_advised :: "real \<Rightarrow> int \<Rightarrow> ('b, 'm) tempo_v2_scheme \<Rightarrow> bool" where
  "recompute_advised now step s \<longleftrightarrow>
     (case submit_gain now No_Job step s of
        (Inr (Some p), _) \<Rightarrow> fp_recompute_fallback p | _ \<Rightarrow> False)"

definition is_defer :: "route_action \<Rightarrow> bool" where
  "is_defer a \<longleftrightarrow> (case a of Defer _ \<Rightarrow> True | _ \<Rightarrow> False)"

lemma save_async_staged: "save_async now blob step c = (path, c') \<Longrightarrow> staged blob step path c c'"
  by (auto simp: save_async_def staged_def Let_def split: option.splits if_splits)

lemma change_phase_v2_keeps [simp]:
  "te_ckpt_manager (change_phase_v2 t h p s) = te_ckpt_manager s"
  "te_phase_monitor (change_phase_v2 t h p s) = set_phase t p (te_phase_monitor s)"
  "te_interleaving (change_phase_v2 t h p s) =
     map_option (gate_hooks h (pm_phase (te_phase_monitor s)) p) (te_interleaving s)"
  by (simp_all add: change_phase_v2_def change_phase_def)

lemma set_phase_result [simp]: "pm_phase (set_phase t p m) = p"
  by (simp add: set_phase_def Let_def)

lemma submit_gain_cases:
  assumes "submit_gain now job step s = (r, s')"
  obtains (none) "te_svc_gain s = None" "r = Inr None" "s' = s"
  | (raised) e g' where "r = Inl e" "e = ZeroDivisionError" "s' = s\<lparr>te_svc_gain := Some g'\<rparr>"
  | (queued) g p g' where "te_svc_gain s = Some g" "submit_job now job step g = (Inr p, g')"
      "r = Inr (Some p)" "s' = s\<lparr>te_svc_gain := Some g'\<rparr>"
  using assms
  by (auto simp: submit_gain_def submit_job_def compute_gain_def Let_def
      split: option.splits prod.splits sum.splits if_splits)

lemma submit_gain_unsaved: "submit_gain now job step s = (r, s') \<Longrightarrow> unsaved s s'"
  by (erule submit_gain_cases) (auto simp: unsaved_def)

lemma checkpoint_v1_tempo:
  assumes "te_mode s = ''tempo''" and "checkpoint_v1 change_phase_v2 ck blob step s = (r, s')"
  obtains path where "r = Inr path" and "staged blob step path (te_ckpt_manager s) (te_ckpt_manager s')"
    and "pm_phase (te_phase_monitor s') = IDLE"
  using assms
  by (auto simp: checkpoint_v1_def Let_def split: prod.splits dest: save_async_staged)

lemma look_ahead_svc [simp]: "look_ahead md (s\<lparr>te_svc_gain := g\<rparr>) = look_ahead md s"
  by (simp add: look_ahead_def)

lemma unsaved_simps [simp]:
  "unsaved (s\<lparr>te_svc_gain := g\<rparr>) s' = unsaved s s'" "unsaved (s\<lparr>te_slept_ms := d\<rparr>) s' = unsaved s s'"
  by (simp_all add: unsaved_def)

text \<open>What the call does after the look-ahead has let the flush through.\<close>

lemma v2_flush_cases:
  assumes mode: "te_mode s = ''tempo''"
    and run: "gated_checkpoint ck blob step s = (r, s')"
  obtains (raised) "r = Inl ZeroDivisionError" "unsaved s s'"
  | (dropped) "r = Inr []" "unsaved s s'" "recompute_advised (ck_submit_v2 ck) step s"
  | (saved) path where "r = Inr path" "staged blob step path (te_ckpt_manager s) (te_ckpt_manager s')"
      "pm_phase (te_phase_monitor s') = IDLE" "\<not> recompute_advised (ck_submit_v2 ck) step s"
proof -
  obtain d s2 where d: "submit_gain (ck_submit_v2 ck) No_Job step s = (d, s2)" by fastforce
  from d have un: "unsaved s s2" by (rule submit_gain_unsaved)
  have sv: thesis if "checkpoint_v1 change_phase_v2 ck blob step s2 = (r, s')"
      and "te_mode s2 = ''tempo''" and "\<not> recompute_advised (ck_submit_v2 ck) step s"
    using that un saved by (elim checkpoint_v1_tempo) (auto simp: unsaved_def)
  from d show thesis
  proof (cases rule: submit_gain_cases)
    case none
    with run d mode sv show ?thesis by (simp add: recompute_advised_def gated_checkpoint_def)
  next
    case (raised e g')
    with run d un that(1) show ?thesis by (simp add: gated_checkpoint_def)
  next
    case (queued g p g')
    with run d un mode sv that(2) show ?thesis
      by (cases "fp_recompute_fallback p") (auto simp: recompute_advised_def gated_checkpoint_def)
  qed
qed

lemma checkpoint_v2_cases:
  assumes mode: "te_mode s = ''tempo''" and run: "checkpoint_v2 ck blob step md s = (r, s')"
    and s0: "s0 = s\<lparr>te_svc_gain := map_option (update_step step) (te_svc_gain s)\<rparr>"
  obtains (raised) "r = Inl ZeroDivisionError" "unsaved s s'"
  | (dropped) "r = Inr []" "unsaved s s'"
      "is_defer (look_ahead md s) \<or> recompute_advised (ck_submit_v2 ck) step s0"
  | (saved) path where "r = Inr path" "staged blob step path (te_ckpt_manager s) (te_ckpt_manager s')"
      "pm_phase (te_phase_monitor s') = IDLE" "\<not> is_defer (look_ahead md s)"
      "\<not> recompute_advised (ck_submit_v2 ck) step s0"
proof (cases "look_ahead md s")
  case (Defer x)
  with run mode s0 have "(case submit_gain (ck_submit_v2 ck) No_Job step s0 of
      (Inl e, s1) \<Rightarrow> (Inl e, s1) | (Inr _, s1) \<Rightarrow> (Inr [], s1)) = (r, s')"
    by (simp add: checkpoint_v2_def)
  moreover obtain d s2 where d: "submit_gain (ck_submit_v2 ck) No_Job step s0 = (d, s2)" by fastforce
  ultimately show thesis
    using submit_gain_unsaved [OF d] s0 Defer that(1,2)
    by (cases rule: submit_gain_cases [OF d]) (auto simp: is_defer_def)
next
  case (Micro_Delay x)
  let ?s1 = "s0\<lparr>te_slept_ms := te_slept_ms s @ [x]\<rparr>"
  have adv: "recompute_advised t step ?s1 = recompute_advised t step s0" for t
    by (simp add: recompute_advised_def submit_gain_def split: option.split prod.split sum.split)
  show thesis
    by (rule v2_flush_cases [where s = ?s1 and step = step and ck = ck and blob = blob and r = r and s' = s'])
      (use run mode s0 Micro_Delay adv that in \<open>auto simp: checkpoint_v2_def is_defer_def unsaved_def\<close>)
next
  case (Proceed x)
  show thesis
    by (rule v2_flush_cases [where s = s0 and step = step and ck = ck and blob = blob and r = r and s' = s'])
      (use run mode s0 Proceed that in \<open>auto simp: checkpoint_v2_def is_defer_def unsaved_def\<close>)
next
  case (Rate_Limit x)
  show thesis
    by (rule v2_flush_cases [where s = s0 and step = step and ck = ck and blob = blob and r = r and s' = s'])
      (use run mode s0 Rate_Limit that in \<open>auto simp: checkpoint_v2_def is_defer_def unsaved_def\<close>)
qed

section \<open>The gate and the engine together\<close>

text \<open>
  What the training thread (phases, steps, checkpoints), the flush thread, the network monitor's
  thread and the engine's timer can do to a version 2 scheduler, in any order.
\<close>

inductive v2_reach :: "'b tempo_v2 \<Rightarrow> bool" where
  init: "tempo_init ps fs rank ws local_dir lustre mode mb adaptive verbose = Inr s \<Longrightarrow>
    v2_reach (tempo_v2_init nics interval thresh nm sg il s)"
| phase: "v2_reach s \<Longrightarrow> v2_reach (change_phase_v2 t h p s)"
| step: "v2_reach s \<Longrightarrow> v2_reach (on_step_begin_v2 t step s)"
| ckpt: "v2_reach s \<Longrightarrow> v2_reach (snd (checkpoint_v2 ck blob step md s))"
| flush: "v2_reach s \<Longrightarrow> flush_worker_turn envs (te_ckpt_manager s) = Some c \<Longrightarrow>
    v2_reach (s\<lparr>te_ckpt_manager := c\<rparr>)"
| poll: "v2_reach s \<Longrightarrow> te_net_monitor s = Some nm \<Longrightarrow>
    v2_reach (s\<lparr>te_net_monitor := Some (update_congestion_state now bps nm)\<rparr>)"
| expires: "v2_reach s \<Longrightarrow> te_interleaving s = Some e \<Longrightarrow> (i, due) \<in> set (ie_pending e) \<Longrightarrow>
    v2_reach (s\<lparr>te_interleaving := Some (timer_expires i e)\<rparr>)"
| fires: "v2_reach s \<Longrightarrow> te_interleaving s = Some e \<Longrightarrow> 0 < ie_callbacks e \<Longrightarrow>
    v2_reach (s\<lparr>te_interleaving := Some (fire_deadline e)\<rparr>)"
| stop: "v2_reach s \<Longrightarrow> v2_reach (shutdown_v2 s)"

definition gates_agree :: "('b, 'm) tempo_v2_scheme \<Rightarrow> bool" where
  "gates_agree s \<longleftrightarrow> gate_ok (te_phase_monitor s) \<and>
     (\<forall>e. te_interleaving s = Some e \<and> is_nccl_active (te_phase_monitor s) \<longrightarrow>
        io_deadline_reached e \<and> \<not> ie_in_compute e)"

lemma gates_agree_cong:
  "te_phase_monitor s' = te_phase_monitor s \<Longrightarrow> te_interleaving s' = te_interleaving s \<Longrightarrow>
   gates_agree s' = gates_agree s"
  by (simp add: gates_agree_def)

lemma on_compute_end_closed: "io_deadline_reached (on_compute_end t e) \<and> \<not> ie_in_compute (on_compute_end t e)"
  by (simp add: on_compute_end_def io_deadline_reached_def Let_def)

lemma gates_agree_change [simp]: "gates_agree s \<Longrightarrow> gates_agree (change_phase_v2 t h p s)"
  using on_compute_end_closed
  by (cases "pm_phase (te_phase_monitor s) = p")
    (auto simp: gates_agree_def is_nccl_active_def gate_hooks_def)

lemma gates_agree_unsaved: "unsaved s s' \<Longrightarrow> gates_agree s \<Longrightarrow> gates_agree s'"
  by (simp add: unsaved_def gates_agree_def)

lemma gates_agree_v1: "gates_agree s \<Longrightarrow> gates_agree (snd (checkpoint_v1 change_phase_v2 ck blob step s))"
proof (cases "te_mode s = ''tempo''")
  case True
  assume ok: "gates_agree s"
  let ?s1 = "change_phase_v2 (ck_enter ck) (ck_enter_hook ck) CHECKPOINT s"
  obtain path c where c: "save_async (ck_enqueue ck) blob step (te_ckpt_manager ?s1) = (path, c)"
    by fastforce
  have "gates_agree (?s1\<lparr>te_ckpt_manager := c\<rparr>)"
    using ok by (subst gates_agree_cong [where s = ?s1]) simp_all
  then have "gates_agree (change_phase_v2 (ck_exit ck) (ck_exit ck) IDLE (?s1\<lparr>te_ckpt_manager := c\<rparr>))"
    by (rule gates_agree_change)
  with True c show ?thesis by (simp add: checkpoint_v1_def Let_def del: change_phase_v2_keeps(1))
next
  case False
  assume "gates_agree s"
  with False show ?thesis by (simp add: checkpoint_v1_def gates_agree_def split: prod.split)
qed

lemma gates_agree_gated: "gates_agree s \<Longrightarrow> gates_agree (snd (gated_checkpoint ck blob step s))"
proof -
  assume ok: "gates_agree s"
  obtain d s2 where d: "submit_gain (ck_submit_v2 ck) No_Job step s = (d, s2)" by fastforce
  with ok have "gates_agree s2" using gates_agree_unsaved submit_gain_unsaved by blast
  with d show ?thesis by (auto simp: gated_checkpoint_def gates_agree_v1 split: sum.split option.split)
qed

lemma gates_agree_submit: "gates_agree s \<Longrightarrow> submit_gain now job step s = (r, s') \<Longrightarrow> gates_agree s'"
  using gates_agree_unsaved submit_gain_unsaved by blast

lemma gates_agree_ckpt:
  fixes s :: "('b, 'm) tempo_v2_scheme"
  assumes "gates_agree s"
  shows "gates_agree (snd (checkpoint_v2 ck blob step md s))"
proof -
  define s0 where "s0 = s\<lparr>te_svc_gain := map_option (update_step step) (te_svc_gain s)\<rparr>"
  have ok: "gates_agree s0" "gates_agree (s0\<lparr>te_slept_ms := d\<rparr>)" for d
    using assms by (simp_all add: s0_def gates_agree_def)
  obtain d s2 where d: "submit_gain (ck_submit_v2 ck) No_Job step s0 = (d, s2)" by fastforce
  show ?thesis
    unfolding checkpoint_v2_def Let_def s0_def [symmetric]
    using ok d gates_agree_submit [OF ok(1) d]
    by (auto intro: gates_agree_v1 gates_agree_gated split: route_action.split sum.split)
qed

lemma gates_agree_step [simp]: "gates_agree (on_step_begin_v2 t step s) = gates_agree s"
  by (auto simp: on_step_begin_v2_def on_step_begin_def Let_def gates_agree_def gate_ok_def
      is_nccl_active_def increment_step_def split: option.split)

lemma gates_agree_engine:
  assumes "gates_agree s" and "te_interleaving s = Some e"
    and "ie_in_compute e' = ie_in_compute e" and "ie_deadline e \<longrightarrow> ie_deadline e'"
  shows "gates_agree (s\<lparr>te_interleaving := Some e'\<rparr>)"
  using assms by (auto simp: gates_agree_def io_deadline_reached_def)

lemma v2_reach_gates: "v2_reach s \<Longrightarrow> gates_agree s"
proof (induction rule: v2_reach.induct)
  case (init ps fs rank ws local_dir lustre mode mb adaptive verbose s nics interval thresh nm sg il)
  then show ?case
    by (auto simp: tempo_init_def tempo_v2_init_def tempo.defs gates_agree_def Let_def is_nccl_active_def
        phase_monitor_init_def gate_ok_def split: if_splits)
next
  case (expires s e i due)
  then show ?case by (auto intro: gates_agree_engine simp: timer_expires_def)
next
  case (fires s e)
  then show ?case by (auto intro: gates_agree_engine simp: fire_deadline_def)
next
  case (ckpt s ck blob step md)
  then show ?case by (simp add: gates_agree_ckpt)
next
  case (phase s t h p)
  then show ?case by simp
next
  case (step s t step)
  then show ?case by simp
qed (simp_all add: gates_agree_cong [OF refl] gates_agree_def shutdown_v2_def shutdown_v1_def Let_def)

section \<open>The job queue\<close>

text \<open>\<open>k\<close> more jobs in the heap and in the counter.\<close>

definition jobs_added :: "nat \<Rightarrow> ('b, 'm) tempo_v2_scheme \<Rightarrow> ('b, 'm) tempo_v2_scheme \<Rightarrow> bool" where
  "jobs_added k s s' \<longleftrightarrow>
     (case (te_svc_gain s, te_svc_gain s') of
        (Some g, Some g') \<Rightarrow> length (sg_heap g') = length (sg_heap g) + k \<and>
                             sg_jobs_submitted g' = sg_jobs_submitted g + int k
      | (None, None) \<Rightarrow> True
      | _ \<Rightarrow> False)"

lemma jobs_added_submit:
  assumes "submit_gain now job step s = (Inr d, s')"
  shows "jobs_added 1 s s'"
  using assms
proof (cases rule: submit_gain_cases)
  case (queued g p g')
  then show ?thesis
    by (auto simp: jobs_added_def submit_job_def enqueue_job_def Let_def split: sum.splits if_splits)
qed (simp_all add: jobs_added_def)

lemma jobs_added_cong:
  "te_svc_gain s' = te_svc_gain s \<Longrightarrow> te_svc_gain t' = te_svc_gain t \<Longrightarrow>
   jobs_added k s' t' = jobs_added k s t"
  by (simp add: jobs_added_def)

lemma jobs_added_trans: "jobs_added k s t \<Longrightarrow> jobs_added l t u \<Longrightarrow> jobs_added (k + l) s u"
  by (auto simp: jobs_added_def split: option.splits)

lemma checkpoint_v1_svc: "te_svc_gain (snd (checkpoint_v1 change_phase_v2 ck blob step s)) = te_svc_gain s"
  by (simp add: checkpoint_v1_def change_phase_v2_def change_phase_def Let_def split: prod.split)

lemma gated_jobs: "gated_checkpoint ck blob step s = (Inr path, s') \<Longrightarrow> jobs_added 1 s s'"
proof -
  assume run: "gated_checkpoint ck blob step s = (Inr path, s')"
  obtain d s2 where d: "submit_gain (ck_submit_v2 ck) No_Job step s = (d, s2)" by fastforce
  have "te_svc_gain s' = te_svc_gain s2 \<and> (\<exists>p. d = Inr p)"
    using run d checkpoint_v1_svc [of ck blob step s2]
    by (auto simp: gated_checkpoint_def split: sum.splits option.splits if_splits)
  with d show ?thesis
    using jobs_added_submit jobs_added_cong [where s' = s and s = s and t' = s' and t = s2] by metis
qed

lemma checkpoint_v2_jobs:
  assumes "te_mode s = ''tempo''" and "checkpoint_v2 ck blob step md s = (Inr path, s')"
  shows "jobs_added 1 s s'"
proof -
  define s0 where "s0 = s\<lparr>te_svc_gain := map_option (update_step step) (te_svc_gain s)\<rparr>"
  have same: "jobs_added 1 s t" if "jobs_added 1 s0 t" for t
    using that by (auto simp: jobs_added_def s0_def update_step_def split: option.splits)
  have slept: "jobs_added 1 s0 t" if "jobs_added 1 (s0\<lparr>te_slept_ms := d\<rparr>) t" for t d
    using that by (simp add: jobs_added_def)
  obtain d s2 where d: "submit_gain (ck_submit_v2 ck) No_Job step s0 = (d, s2)" by fastforce
  have mode: "te_mode s0 = ''tempo''" using assms(1) by (simp add: s0_def)
  have run: "checkpoint_v2 ck blob step md s = (Inr path, s')" by (rule assms(2))
  show ?thesis
  proof (cases "look_ahead md s0")
    case (Defer x)
    with run mode d show ?thesis
      unfolding checkpoint_v2_def Let_def s0_def [symmetric]
      by (intro same) (auto dest: jobs_added_submit split: sum.splits)
  next
    case (Micro_Delay x)
    with run mode show ?thesis
      unfolding checkpoint_v2_def Let_def s0_def [symmetric]
      by (intro same slept [of "te_slept_ms s0 @ [x]"] gated_jobs) simp
  next
    case (Proceed x)
    with run mode show ?thesis
      unfolding checkpoint_v2_def Let_def s0_def [symmetric]
      by (intro same gated_jobs) simp
  next
    case (Rate_Limit x)
    with run mode show ?thesis
      unfolding checkpoint_v2_def Let_def s0_def [symmetric]
      by (intro same gated_jobs) simp
  qed
qed

definition is_saturated :: "('b, 'm) tempo_v3_scheme \<Rightarrow> bool" where
  "is_saturated s \<longleftrightarrow>
     (case te_topo_router s of None \<Rightarrow> False | Some r \<Rightarrow> tr_global_link_saturated r)"

lemma submit_gain_router [simp]:
  "submit_gain now job step s = (r, s') \<Longrightarrow> te_topo_router s' = te_topo_router s \<and> te_mode s' = te_mode s"
  by (erule submit_gain_cases) auto

lemma v1_router [simp]:
  "te_topo_router (snd (checkpoint_v1 change_phase_v2 ck blob step s)) = te_topo_router s"
  by (simp add: checkpoint_v1_def change_phase_v2_def change_phase_def Let_def split: prod.split)

lemma gated_router [simp]:
  "te_topo_router (snd (gated_checkpoint ck blob step s)) = te_topo_router s"
proof -
  obtain d s2 where d: "submit_gain (ck_submit_v2 ck) No_Job step s = (d, s2)" by fastforce
  then show ?thesis by (auto simp: gated_checkpoint_def dest: submit_gain_router split: sum.split option.split)
qed

lemma v2_router [simp]:
  "te_topo_router (snd (checkpoint_v2 ck blob step md s)) = te_topo_router s"
proof -
  define s0 where "s0 = s\<lparr>te_svc_gain := map_option (update_step step) (te_svc_gain s)\<rparr>"
  obtain d s2 where d: "submit_gain (ck_submit_v2 ck) No_Job step s0 = (d, s2)" by fastforce
  have "te_topo_router (snd (checkpoint_v2 ck blob step md s)) = te_topo_router s0"
    unfolding checkpoint_v2_def Let_def s0_def [symmetric]
    using submit_gain_router [OF d] d by (auto split: route_action.split sum.split)
  then show ?thesis by (simp add: s0_def)
qed

text \<open>The router defers the version 3 checkpoint.\<close>

definition v3_defers :: "real \<Rightarrow> metadata option \<Rightarrow> ('b, 'm) tempo_v3_scheme \<Rightarrow> bool" where
  "v3_defers now metadata s \<longleftrightarrow>
     map_option pl_tier (fst (place_checkpoint now metadata s)) = Some DEFERRED"

lemma v3_defers_cong:
  "te_topo_router s' = te_topo_router s \<Longrightarrow> te_interleaving s' = te_interleaving s \<Longrightarrow>
   v3_defers now md s' = v3_defers now md s"
  by (auto simp: v3_defers_def place_checkpoint_def split: option.split prod.split)

lemma classify_checkpoint_keeps [simp]:
  "te_topo_router (classify_checkpoint p s) = te_topo_router s"
  "te_interleaving (classify_checkpoint p s) = te_interleaving s"
  "te_svc_gain (classify_checkpoint p s) = te_svc_gain s"
  "te_mode (classify_checkpoint p s) = te_mode s"
  "unsaved s' (classify_checkpoint p s) = unsaved s' s"
  by (simp_all add: classify_checkpoint_def unsaved_def)

lemma place_checkpoint_keeps:
  assumes "place_checkpoint now md s = (d, s')"
  shows "te_svc_gain s' = te_svc_gain s" "te_mode s' = te_mode s" "unsaved s s'"
    "is_saturated s' = is_saturated s"
  using assms
  by (auto simp: place_checkpoint_def unsaved_def is_saturated_def route_kv_placement_def Let_def
      split: option.splits prod.splits if_splits)

lemma v3_defers_why:
  assumes "v3_defers now md s"
  shows "\<exists>rt w. te_topo_router s = Some rt \<and> must_defer rt (Some w)
           \<and> map_option (get_safe_window_ms now) (te_interleaving s) = Some w"
  using assms
  by (auto simp: v3_defers_def place_checkpoint_def route_kv_placement_def Let_def must_defer_def
      hw_congested_now_def split: option.splits prod.splits if_splits)

lemma unsaved_trans: "unsaved s t \<Longrightarrow> unsaved t u \<Longrightarrow> unsaved s u"
  by (simp add: unsaved_def)

text \<open>With these settings no gain computation divides by zero, and checkpoints return.\<close>

definition gain_configured :: "('b, 'm) tempo_v2_scheme \<Rightarrow> bool" where
  "gain_configured s \<longleftrightarrow>
     (case te_svc_gain s of
        None \<Rightarrow> True | Some g \<Rightarrow> sg_slo_deadline_steps g \<noteq> 0 \<and> sg_milestone_interval g \<noteq> 0)"

lemma submit_configured:
  assumes "gain_configured s" and "submit_gain now job step s = (r, s')"
  shows "(\<exists>d. r = Inr d) \<and> gain_configured s' \<and> te_mode s' = te_mode s"
proof (cases "te_svc_gain s")
  case None
  with assms show ?thesis by (auto simp: submit_gain_def)
next
  case (Some g)
  with assms(1) have "\<exists>x. compute_gain step (g\<lparr>sg_last_ckpt_step := step,
      sg_job_counter := sg_job_counter g + 1, sg_jobs_submitted := sg_jobs_submitted g + 1\<rparr>) = Inr x"
    by (simp add: gain_configured_def compute_gain_def Let_def)
  with assms Some show ?thesis
    by (auto simp: gain_configured_def submit_gain_def submit_job_def enqueue_job_def Let_def)
qed

lemma checkpoint_v1_returns:
  "te_mode s = ''tempo'' \<Longrightarrow> \<exists>path. fst (checkpoint_v1 change_phase_v2 ck blob step s) = Inr path"
  by (auto simp: checkpoint_v1_def Let_def split: prod.split)

lemma gated_configured:
  assumes "gain_configured s" and "te_mode s = ''tempo''"
  shows "\<exists>path. fst (gated_checkpoint ck blob step s) = Inr path"
proof -
  obtain d s2 where d: "submit_gain (ck_submit_v2 ck) No_Job step s = (d, s2)" by fastforce
  with submit_configured [OF assms(1) d] assms(2) show ?thesis
    by (auto simp: gated_checkpoint_def checkpoint_v1_returns split: option.split)
qed

lemma v2_configured:
  assumes "gain_configured s" and "te_mode s = ''tempo''"
  shows "\<exists>path. fst (checkpoint_v2 ck blob step md s) = Inr path"
proof -
  define s0 where "s0 = s\<lparr>te_svc_gain := map_option (update_step step) (te_svc_gain s)\<rparr>"
  have ok: "gain_configured s0" "te_mode s0 = ''tempo''" "gain_configured (s0\<lparr>te_slept_ms := sl\<rparr>)" for sl
    using assms by (auto simp: s0_def gain_configured_def update_step_def split: option.split)
  obtain d s2 where d: "submit_gain (ck_submit_v2 ck) No_Job step s0 = (d, s2)" by fastforce
  show ?thesis
    unfolding checkpoint_v2_def Let_def s0_def [symmetric]
    using ok gated_configured [of s0] gated_configured [of "s0\<lparr>te_slept_ms := sl\<rparr>" for sl] d
      submit_configured [OF ok(1) d]
    by (auto split: route_action.split)
qed

section \<open>Properties\<close>



text \<open>
  One version 3 checkpoint in tempo mode. It returns if the gain scheduler is configured
  with non-zero intervals. It never changes the router's saturation flag, and
  when that flag is clear the router defers only if the hardware counters report congestion and
  less than 4 ms of the safe window remain. A deferred call changes neither files, queue nor
  phase and enters one job into the gain scheduler's heap; any other call that returns enters
  two, one from each version.
\<close>

lemma placement_and_jobs:
  assumes "te_mode s = ''tempo''" and "checkpoint_v3 ck blob step md s = (r, s')"
  shows "(gain_configured s \<longrightarrow> r = Inr ()) \<and>
         is_saturated s' = is_saturated s \<and>
         (v3_defers (ck_window ck) md s \<and> \<not> is_saturated s \<longrightarrow>
            (\<exists>rt e. te_topo_router s = Some rt \<and> te_interleaving s = Some e \<and>
               hw_congested_now rt \<and> get_safe_window_ms (ck_window ck) e < 4)) \<and>
         (r = Inr () \<longrightarrow>
            (if v3_defers (ck_window ck) md s then unsaved s s' \<and> jobs_added 1 s s'
             else jobs_added 2 s s'))"
proof -
  obtain d s1 where d: "submit_gain (ck_submit_v3 ck) Empty_Dict step s = (d, s1)" by fastforce
  have s1: "te_topo_router s1 = te_topo_router s" "te_mode s1 = ''tempo''" "unsaved s s1"
    using submit_gain_router [OF d] submit_gain_unsaved [OF d] assms(1) by simp_all
  have why: "\<exists>rt e. te_topo_router s = Some rt \<and> te_interleaving s = Some e \<and>
               hw_congested_now rt \<and> get_safe_window_ms (ck_window ck) e < 4"
    if "v3_defers (ck_window ck) md s" and "\<not> is_saturated s"
    using v3_defers_why [OF that(1)] that(2) by (auto simp: must_defer_def is_saturated_def)
  show ?thesis
  proof (cases d)
    case (Inl e)
    with d assms(2) s1 why submit_configured [OF _ d] show ?thesis
      by (auto simp: checkpoint_v3_def is_saturated_def)
  next
    case (Inr prio)
    obtain pl s2 where pl: "place_checkpoint (ck_window ck) md (classify_checkpoint prio s1) = (pl, s2)"
      by fastforce
    note kept = place_checkpoint_keeps [OF pl]
    have df: "v3_defers (ck_window ck) md s \<longleftrightarrow> map_option pl_tier pl = Some DEFERRED"
    proof -
      have "v3_defers (ck_window ck) md s = v3_defers (ck_window ck) md (classify_checkpoint prio s1)"
        using s1 by (intro v3_defers_cong) (simp_all add: unsaved_def)
      with pl show ?thesis by (simp add: v3_defers_def [of _ _ "classify_checkpoint prio s1"])
    qed
    have sat: "is_saturated s2 = is_saturated s"
      using kept(4) s1 by (simp add: is_saturated_def)
    have un: "unsaved s s2"
      using s1(3) kept(3) unsaved_trans [of s "classify_checkpoint prio s1" s2] by simp
    have j1: "jobs_added 1 s s2"
      using jobs_added_submit [of "ck_submit_v3 ck" Empty_Dict step s prio s1] d Inr kept(1)
      by (simp add: jobs_added_def)
    obtain q s3 where q: "checkpoint_v2 ck blob step md s2 = (q, s3)" by fastforce
    have sat3: "is_saturated s3 = is_saturated s"
      using v2_router [of ck blob step md s2] q sat by (simp add: is_saturated_def)
    have cf: "\<exists>path. q = Inr path" if "gain_configured s"
    proof -
      have "gain_configured s2"
        using submit_configured [OF that d] kept(1) by (simp add: gain_configured_def)
      then show ?thesis using v2_configured [of s2 ck blob step md] kept(2) s1(2) q by simp
    qed
    have j2: "jobs_added 2 s s3" if "q = Inr path" for path
      using jobs_added_trans [OF j1, of 1 s3] checkpoint_v2_jobs [of s2 ck blob step md path s3] q that
        kept(2) s1(2) by (simp add: numeral_2_eq_2)
    show ?thesis
      using assms(2) d Inr pl df sat un j1 q sat3 j2 why cf
      by (auto simp: checkpoint_v3_def split: sum.splits if_splits)
  qed
qed

section \<open>Witnesses\<close>

definition sample_clock :: ckpt_clock where
  "sample_clock = \<lparr>ck_submit_v3 = 1, ck_window = 2, ck_submit_v2 = 3, ck_enter = 4,
     ck_enter_hook = 5, ck_enqueue = 6, ck_exit = 7\<rparr>"

definition sample_v1 :: "bool tempo" where
  "sample_v1 =
     \<lparr>te_rank = 0, te_world_size = 1, te_mode = ''tempo'', te_verbose = False,
      te_lustre_dir = Some ''/l'', te_phase_monitor = phase_monitor_init 0 False,
      te_ckpt_manager = ckpt_init ''/n'' (Some ''/l'') 0 1 3 (32 * 1024 * 1024) True True Map.empty,
      te_step_start = 0, te_step_times = []\<rparr>"

definition sample_v2 :: "bool tempo_v2" where
  "sample_v2 = tempo_v2_init [] 500 (75 / 100) True True True sample_v1"

lemma sample_v1_init:
  "tempo_init None Map.empty 0 1 ''/n'' (Some ''/l'') ''tempo'' 32 True False = Inr sample_v1"
  by (simp add: tempo_init_def sample_v1_def default_lustre_dir_def Let_def)

lemma sample_v2_fields [simp]:
  "te_mode sample_v2 = ''tempo''" "te_phase_monitor sample_v2 = phase_monitor_init 0 False"
  by (simp_all add: sample_v2_def sample_v1_def tempo_v2_init_def tempo.defs)

lemma sample_v2_defers: "is_defer (look_ahead (Some [''size_bytes'' \<mapsto> 2 * 10 ^ 9]) sample_v2)"
  by (simp add: sample_v2_def sample_v1_def tempo_v2_init_def tempo.defs look_ahead_def is_defer_def
      route_decision_def predict_flush_bw_def pcie_pressure_def flush_kv_bytes_def shape_known_def
      meta_get_def estimated_nccl_bps_def nccl_phase_duration_ms_def phase_monitor_init_def
      PCIE_CEILING_BPS_def nm_start_def network_monitor_init_def count_idle_rails_def Let_def)




definition sample_v3 :: "bool tempo_v3" where
  "sample_v3 = tempo_v2.extend sample_v2 \<lparr>te_topo_router = None, te_qos_mapper = None\<rparr>"

end
