(* ===== verification/Training.thy ===== *)
theory Training
  imports Scheduler
begin

text \<open>
  The training drivers of the evaluation: \<^verbatim>\<open>eval/e2e_training/train_with_tempo.py\<close> and
  \<^verbatim>\<open>eval/node_scaling/train_scaling.py\<close>, the FSDP communication hook and the order of calls of
  one training step. What PyTorch does in a step is the step's environment: the collectives of the
  backward pass with their sizes and measured times, an exception of the model, the bytes
  \<open>torch.save\<close> writes, the clock. The optimizer's update, the logger and the CSV file are left out.
  The driver is written over the operations of a scheduler, so that each version can be plugged in.
\<close>

section \<open>Start\<close>

record train_args =
  ta_mode :: string
  ta_num_steps :: int
  ta_warmup_steps :: int
  ta_ckpt_every :: int
  ta_local_nvme :: string
  ta_lustre_dir :: string
  ta_flush_chunk_mb :: int
  ta_adaptive_chunk :: bool
  ta_verbose :: bool

text \<open>The environment variables as integers: rank, GPU and world size.\<close>

definition init_dist :: "(string \<rightharpoonup> int) \<Rightarrow> int \<Rightarrow> int \<times> int \<times> int" where
  "init_dist env num_gpus =
     (let get = (\<lambda>key dflt. case env key of Some v \<Rightarrow> v | None \<Rightarrow> dflt);
          rank = get ''RANK'' (get ''SLURM_PROCID'' 0);
          local_rank = get ''LOCAL_RANK'' (get ''SLURM_LOCALID'' 0);
          world_size = get ''WORLD_SIZE'' (get ''SLURM_NTASKS'' 1)
      in (rank, if local_rank < num_gpus then local_rank else 0, world_size))"

definition total_steps :: "('a train_args_scheme) \<Rightarrow> int" where
  "total_steps args = ta_warmup_steps args + ta_num_steps args"

definition is_ckpt_step :: "('a train_args_scheme) \<Rightarrow> int \<Rightarrow> bool result" where
  "is_ckpt_step args step =
     (if step < ta_warmup_steps args then Inr False
      else if ta_ckpt_every args = 0 then Inl ZeroDivisionError
      else Inr ((step - ta_warmup_steps args) mod ta_ckpt_every args = 0))"

section \<open>The communication hook\<close>

text \<open>One reduce-scatter of the backward pass: its times, its size, the CUDA events' distance.\<close>

record hook_call =
  hc_start :: real
  hc_nbytes :: int
  hc_lat_ms :: real
  hc_done :: real
  hc_timestamp :: real

text \<open>\<open>cs_gated\<close>: the hook was given the phase monitor.\<close>

record 'r comm =
  cs_world_size :: int
  cs_gated :: bool
  cs_records :: "'r list"
  cs_step :: int

record 'r flag_comm = "'r comm" +
  cs_is_ckpt_step :: bool

text \<open>The operations of a scheduler that the drivers call.\<close>

record ('s, 'e) sched_ops =
  so_change :: "'s phase_change"
  so_begin :: "real \<Rightarrow> int \<Rightarrow> 's \<Rightarrow> 's"
  so_end :: "real \<Rightarrow> 's \<Rightarrow> real \<times> 's"
  so_checkpoint :: "'e \<Rightarrow> int \<Rightarrow> 's \<Rightarrow> unit result \<times> 's"
  so_chunk_bytes :: "'s \<Rightarrow> int"

definition hook_enter :: "'s phase_change \<Rightarrow> hook_call \<Rightarrow> ('r, 'c) comm_scheme \<Rightarrow> 's \<Rightarrow> 's" where
  "hook_enter change call c s =
     (if cs_gated c then change (hc_start call) (hc_start call) NCCL_COMM s else s)"

definition hook_leave :: "'s phase_change \<Rightarrow> hook_call \<Rightarrow> ('r, 'c) comm_scheme \<Rightarrow> 's \<Rightarrow> 's" where
  "hook_leave change call c s =
     (if cs_gated c then change (hc_done call) (hc_done call) COMPUTE s else s)"

definition algbw :: "hook_call \<Rightarrow> real" where
  "algbw call = (of_int (hc_nbytes call) / 10 ^ 9) / (hc_lat_ms call * (1 / 1000))"

definition busbw :: "int \<Rightarrow> hook_call \<Rightarrow> real" where
  "busbw world_size call = algbw call * of_int (world_size - 1) / of_int world_size"

definition comm_hook ::
    "'s phase_change \<Rightarrow> (('r, 'c) comm_scheme \<Rightarrow> hook_call \<Rightarrow> 'r) \<Rightarrow> hook_call
     \<Rightarrow> 's \<times> ('r, 'c) comm_scheme \<Rightarrow> unit result \<times> ('s \<times> ('r, 'c) comm_scheme)" where
  "comm_hook change row call st =
     (case st of (s, c) \<Rightarrow>
        (let s1 = hook_enter change call c s in
         if hc_lat_ms call = 0 \<or> cs_world_size c = 0 then (Inl ZeroDivisionError, (s1, c))
         else (Inr (), (hook_leave change call c s1,
                        c\<lparr>cs_records := cs_records c @ [row c call]\<rparr>))))"

section \<open>One training step\<close>

record 'b step_env =
  se_begin :: real
  se_enter :: real
  se_calls :: "hook_call list"
  se_raises :: "py_error option"
  se_exit :: real
  se_end :: real
  se_vram :: int
  se_clock :: ckpt_clock
  se_blob :: "'b list"

text \<open>
  Forward and backward pass: the hooks in order, the first exception ends it. \<open>se_raises\<close> is an
  exception of the model after them.
\<close>

fun run_hooks ::
    "(hook_call \<Rightarrow> 'st \<Rightarrow> unit result \<times> 'st) \<Rightarrow> py_error option \<Rightarrow> hook_call list \<Rightarrow> 'st
     \<Rightarrow> unit result \<times> 'st" where
  "run_hooks hook raises [] st = (case raises of Some e \<Rightarrow> (Inl e, st) | None \<Rightarrow> (Inr (), st))"
| "run_hooks hook raises (call # calls) st =
     (case hook call st of
        (Inl e, st') \<Rightarrow> (Inl e, st')
      | (Inr _, st') \<Rightarrow> run_hooks hook raises calls st')"

text \<open>\<open>with tempo.compute_phase()\<close>: the phase is set back on both outcomes.\<close>

definition compute_pass ::
    "'s phase_change \<Rightarrow> (hook_call \<Rightarrow> 's \<times> 'c \<Rightarrow> unit result \<times> ('s \<times> 'c))
     \<Rightarrow> ('b, 'e) step_env_scheme \<Rightarrow> 's \<times> 'c \<Rightarrow> unit result \<times> ('s \<times> 'c)" where
  "compute_pass change hook env st =
     (case run_hooks hook (se_raises env) (se_calls env)
             (change (se_enter env) (se_enter env) COMPUTE (fst st), snd st) of
        (r, (s, c)) \<Rightarrow> (r, (change (se_exit env) (se_exit env) IDLE s, c)))"

section \<open>The end-to-end driver\<close>

record e2e_row =
  er_step :: int
  er_latency_ms :: real
  er_algbw_GBs :: real
  er_busbw_GBs :: real
  er_timestamp :: real
  er_vram_used_gb :: "real option"
  er_chunk_mb :: "int option"

definition e2e_record :: "(e2e_row, 'c) comm_scheme \<Rightarrow> hook_call \<Rightarrow> e2e_row" where
  "e2e_record c call =
     \<lparr>er_step = cs_step c, er_latency_ms = py_round 4 (hc_lat_ms call),
      er_algbw_GBs = py_round 4 (algbw call),
      er_busbw_GBs = py_round 4 (busbw (cs_world_size c) call),
      er_timestamp = py_round 3 (hc_timestamp call), er_vram_used_gb = None, er_chunk_mb = None\<rparr>"

definition timed_pacing_hook ::
    "'s phase_change \<Rightarrow> hook_call \<Rightarrow> 's \<times> e2e_row comm \<Rightarrow> unit result \<times> ('s \<times> e2e_row comm)" where
  "timed_pacing_hook change = comm_hook change e2e_record"

definition annotate_last :: "int \<Rightarrow> int \<Rightarrow> e2e_row comm \<Rightarrow> e2e_row comm" where
  "annotate_last vram chunk_bytes c =
     (if cs_records c \<noteq> [] \<and> er_step (last (cs_records c)) = cs_step c
      then c\<lparr>cs_records := butlast (cs_records c) @
               [(last (cs_records c))
                  \<lparr>er_vram_used_gb := Some (py_round 3 (of_int vram / 10 ^ 9)),
                   er_chunk_mb := Some (chunk_bytes div (1024 * 1024))\<rparr>]\<rparr>
      else c)"

definition e2e_step ::
    "('s, ('b, 'e) step_env_scheme) sched_ops \<Rightarrow> ('a train_args_scheme) \<Rightarrow> int
     \<Rightarrow> ('b, 'e) step_env_scheme \<Rightarrow> 's \<times> e2e_row comm \<Rightarrow> unit result \<times> ('s \<times> e2e_row comm)" where
  "e2e_step ops args step env st =
     (let c1 = (snd st)\<lparr>cs_step := step - ta_warmup_steps args\<rparr>;
          s1 = so_begin ops (se_begin env) step (fst st)
      in case compute_pass (so_change ops) (timed_pacing_hook (so_change ops)) env (s1, c1) of
           (Inl e, st2) \<Rightarrow> (Inl e, st2)
         | (Inr _, (s2, c2)) \<Rightarrow>
             (let (step_ms, s3) = so_end ops (se_end env) s2;
                  c3 = annotate_last (se_vram env) (so_chunk_bytes ops s3) c2
              in case is_ckpt_step args step of
                   Inl e \<Rightarrow> (Inl e, (s3, c3))
                 | Inr b \<Rightarrow>
                     if b then (case so_checkpoint ops env step s3 of (r, s4) \<Rightarrow> (r, (s4, c3)))
                     else (Inr (), (s3, c3))))"

text \<open>The rows of the CSV file: the measured ones, written by rank 0 only.\<close>

definition e2e_csv :: "int \<Rightarrow> e2e_row comm \<Rightarrow> e2e_row list" where
  "e2e_csv rank c = (if rank = 0 then filter (\<lambda>r. 0 \<le> er_step r) (cs_records c) else [])"

definition mean :: "real list \<Rightarrow> real" where
  "mean xs = sum_list xs / of_nat (length xs)"

definition e2e_avg_algbw :: "int \<Rightarrow> e2e_row comm \<Rightarrow> real option" where
  "e2e_avg_algbw rank c =
     (let good = e2e_csv rank c
      in if good = [] then None else Some (mean (map er_algbw_GBs good)))"

section \<open>The scaling driver\<close>

record scaling_row =
  sr_step :: int
  sr_n_nodes :: int
  sr_world_size :: int
  sr_allreduce_ms :: real
  sr_algbw_GBs :: real
  sr_busbw_GBs :: real
  sr_is_ckpt_step :: int
  sr_timestamp :: real

record scaling_comm = "scaling_row flag_comm" +
  cs_n_nodes :: int

definition scaling_record :: "scaling_comm \<Rightarrow> hook_call \<Rightarrow> scaling_row" where
  "scaling_record c call =
     \<lparr>sr_step = cs_step c, sr_n_nodes = cs_n_nodes c, sr_world_size = cs_world_size c,
      sr_allreduce_ms = py_round 4 (hc_lat_ms call), sr_algbw_GBs = py_round 4 (algbw call),
      sr_busbw_GBs = py_round 4 (busbw (cs_world_size c) call),
      sr_is_ckpt_step = of_bool (cs_is_ckpt_step c),
      sr_timestamp = py_round 3 (hc_timestamp call)\<rparr>"

definition scaling_comm_hook ::
    "'s phase_change \<Rightarrow> hook_call \<Rightarrow> 's \<times> scaling_comm \<Rightarrow> unit result \<times> ('s \<times> scaling_comm)" where
  "scaling_comm_hook change = comm_hook change scaling_record"

text \<open>An override of 0 falls back to the environment variable, then to four ranks per node.\<close>

definition n_nodes_label :: "int option \<Rightarrow> int option \<Rightarrow> int \<Rightarrow> int" where
  "n_nodes_label arg slurm_nnodes world_size =
     (case arg of
        Some n \<Rightarrow> if n \<noteq> 0 then n
                  else (case slurm_nnodes of Some k \<Rightarrow> k | None \<Rightarrow> world_size div 4)
      | None \<Rightarrow> (case slurm_nnodes of Some k \<Rightarrow> k | None \<Rightarrow> world_size div 4))"

text \<open>The step of the scaling and ablation drivers: the checkpoint flag is computed first.\<close>

definition flagged_step ::
    "('s phase_change \<Rightarrow> hook_call \<Rightarrow> 's \<times> ('r, 'c) flag_comm_scheme
       \<Rightarrow> unit result \<times> ('s \<times> ('r, 'c) flag_comm_scheme))
     \<Rightarrow> ('s, ('b, 'e) step_env_scheme) sched_ops
     \<Rightarrow> ('a train_args_scheme) \<Rightarrow> int \<Rightarrow> ('b, 'e) step_env_scheme \<Rightarrow> 's \<times> ('r, 'c) flag_comm_scheme
     \<Rightarrow> unit result \<times> ('s \<times> ('r, 'c) flag_comm_scheme)" where
  "flagged_step hook ops args step env st =
     (case is_ckpt_step args step of
        Inl e \<Rightarrow> (Inl e, st)
      | Inr is_ckpt \<Rightarrow>
          (let c1 = (snd st)\<lparr>cs_step := step - ta_warmup_steps args, cs_is_ckpt_step := is_ckpt\<rparr>;
               s1 = so_begin ops (se_begin env) step (fst st)
           in case compute_pass (so_change ops) (hook (so_change ops)) env (s1, c1) of
                (Inl e, st2) \<Rightarrow> (Inl e, st2)
              | (Inr _, (s2, c2)) \<Rightarrow>
                  (let (step_ms, s3) = so_end ops (se_end env) s2
                   in if is_ckpt then (case so_checkpoint ops env step s3 of (r, s4) \<Rightarrow> (r, (s4, c2)))
                      else (Inr (), (s3, c2)))))"

definition scaling_csv :: "int \<Rightarrow> scaling_comm \<Rightarrow> scaling_row list" where
  "scaling_csv rank c = (if rank = 0 then filter (\<lambda>r. 0 \<le> sr_step r) (cs_records c) else [])"

definition scaling_means :: "int \<Rightarrow> scaling_comm \<Rightarrow> real option \<times> real option" where
  "scaling_means rank c =
     (let good = scaling_csv rank c;
          avg = (\<lambda>rows. if rows = [] then None else Some (mean (map sr_allreduce_ms rows)))
      in (avg (filter (\<lambda>r. sr_is_ckpt_step r \<noteq> 0) good),
          avg (filter (\<lambda>r. sr_is_ckpt_step r = 0) good)))"

section \<open>The loop and the program\<close>

fun train_loop ::
    "(int \<Rightarrow> 'e \<Rightarrow> 'st \<Rightarrow> unit result \<times> 'st) \<Rightarrow> (int \<Rightarrow> 'e) \<Rightarrow> int list \<Rightarrow> 'st
     \<Rightarrow> unit result \<times> 'st" where
  "train_loop body env [] st = (Inr (), st)"
| "train_loop body env (k # ks) st =
     (case body k (env k) st of
        (Inl e, st') \<Rightarrow> (Inl e, st')
      | (Inr _, st') \<Rightarrow> train_loop body env ks st')"

definition py_range :: "int \<Rightarrow> int list" where
  "py_range n = map int [0..<nat n]"

definition v1_ops :: "(('b, 'm) tempo_scheme, ('b, 'e) step_env_scheme) sched_ops" where
  "v1_ops =
     \<lparr>so_change = change_phase, so_begin = (\<lambda>now step. on_step_begin now), so_end = on_step_end,
      so_checkpoint = (\<lambda>env step s.
        case checkpoint_v1 change_phase (se_clock env) (se_blob env) step s of
          (Inl e, s') \<Rightarrow> (Inl e, s') | (Inr path, s') \<Rightarrow> (Inr (), s')),
      so_chunk_bytes = (\<lambda>s. cm_chunk_bytes (te_ckpt_manager s))\<rparr>"

definition driver_scheduler ::
    "string option \<Rightarrow> 'b fs \<Rightarrow> int \<Rightarrow> int \<Rightarrow> string \<Rightarrow> ('a train_args_scheme) \<Rightarrow> 'b tempo result" where
  "driver_scheduler pscratch fs rank world_size mode args =
     tempo_init pscratch fs rank world_size (ta_local_nvme args) (Some (ta_lustre_dir args)) mode
       (ta_flush_chunk_mb args) (ta_adaptive_chunk args) (ta_verbose args)"

definition e2e_start ::
    "string option \<Rightarrow> 'b fs \<Rightarrow> int \<Rightarrow> int \<Rightarrow> train_args \<Rightarrow> ('b tempo \<times> e2e_row comm) result" where
  "e2e_start pscratch fs rank world_size args =
     (case driver_scheduler pscratch fs rank world_size (ta_mode args) args of
        Inl e \<Rightarrow> Inl e
      | Inr s \<Rightarrow> Inr (s, \<lparr>cs_world_size = world_size, cs_gated = (ta_mode args = ''tempo''),
                          cs_records = [], cs_step = 0\<rparr>))"

definition scaling_start ::
    "string option \<Rightarrow> 'b fs \<Rightarrow> int \<Rightarrow> int \<Rightarrow> int \<Rightarrow> train_args \<Rightarrow> ('b tempo \<times> scaling_comm) result" where
  "scaling_start pscratch fs rank world_size n_nodes args =
     (case driver_scheduler pscratch fs rank world_size (ta_mode args) args of
        Inl e \<Rightarrow> Inl e
      | Inr s \<Rightarrow> Inr (s, \<lparr>cs_world_size = world_size, cs_gated = (ta_mode args = ''tempo''),
                          cs_records = [], cs_step = 0, cs_is_ckpt_step = False,
                          cs_n_nodes = n_nodes\<rparr>))"

text \<open>
  \<open>main\<close> without the flush thread's turns: \<open>None\<close> where the state is not built. After the loop the
  scheduler is shut down.
\<close>

definition e2e_main ::
    "string option \<Rightarrow> 'b fs \<Rightarrow> int \<Rightarrow> int \<Rightarrow> train_args \<Rightarrow> (int \<Rightarrow> 'b step_env)
     \<Rightarrow> unit result \<times> ('b tempo \<times> e2e_row comm) option" where
  "e2e_main pscratch fs rank world_size args env =
     (case e2e_start pscratch fs rank world_size args of
        Inl e \<Rightarrow> (Inl e, None)
      | Inr st \<Rightarrow>
          (case train_loop (e2e_step v1_ops args) env (py_range (total_steps args)) st of
             (Inl e, st') \<Rightarrow> (Inl e, Some st')
           | (Inr _, (s, c)) \<Rightarrow> (Inr (), Some (shutdown_v1 s, c))))"

definition scaling_main ::
    "string option \<Rightarrow> 'b fs \<Rightarrow> int \<Rightarrow> int \<Rightarrow> int \<Rightarrow> train_args \<Rightarrow> (int \<Rightarrow> 'b step_env)
     \<Rightarrow> unit result \<times> ('b tempo \<times> scaling_comm) option" where
  "scaling_main pscratch fs rank world_size n_nodes args env =
     (case scaling_start pscratch fs rank world_size n_nodes args of
        Inl e \<Rightarrow> (Inl e, None)
      | Inr st \<Rightarrow>
          (case train_loop (flagged_step scaling_comm_hook v1_ops args) env
                  (py_range (total_steps args)) st of
             (Inl e, st') \<Rightarrow> (Inl e, Some st')
           | (Inr _, (s, c)) \<Rightarrow> (Inr (), Some (shutdown_v1 s, c))))"

section \<open>The interface of the hook\<close>

text \<open>
  What the drivers rely on of a scheduler: a change of phase acts on its phase monitor, whatever
  else it does, and leaves \<open>keep\<close> alone.
\<close>

locale phase_scheduler =
  fixes change :: "'s phase_change" and mon :: "'s \<Rightarrow> phase_monitor" and keep :: "'s \<Rightarrow> 'k"
  assumes mon_change [simp]: "mon (change t h p s) = set_phase t p (mon s)"
    and keep_change [simp]: "keep (change t h p s) = keep s"
begin

lemma hook_keeps:
  "comm_hook change row call st = (r, st') \<Longrightarrow> keep (fst st') = keep (fst st)"
  "comm_hook change row call st = (r, st') \<Longrightarrow> gate_ok (mon (fst st)) \<Longrightarrow> gate_ok (mon (fst st'))"
  by (auto simp: comm_hook_def hook_enter_def hook_leave_def Let_def split: prod.splits if_splits)

lemma run_hooks_keeps:
  "run_hooks (comm_hook change row) raises calls st = (r, st') \<Longrightarrow>
   keep (fst st') = keep (fst st) \<and> (gate_ok (mon (fst st)) \<longrightarrow> gate_ok (mon (fst st')))"
proof (induction calls arbitrary: st)
  case Nil
  then show ?case by (auto split: option.splits)
next
  case (Cons call calls)
  obtain q st1 where h: "comm_hook change row call st = (q, st1)"
    by (cases "comm_hook change row call st")
  note k = hook_keeps [OF h]
  show ?case
  proof (cases q)
    case (Inl e)
    with Cons.prems h k show ?thesis by auto
  next
    case (Inr u)
    with Cons.prems h have "run_hooks (comm_hook change row) raises calls st1 = (r, st')" by simp
    from Cons.IH [OF this] k show ?thesis by auto
  qed
qed

text \<open>Whatever happens inside, the compute phase ends idle with the gate open.\<close>

lemma compute_pass_ends:
  assumes "compute_pass change (comm_hook change row) env st = (r, st')"
  shows "keep (fst st') = keep (fst st)" and "pm_phase (mon (fst st')) = IDLE"
    and "gate_ok (mon (fst st)) \<Longrightarrow> gate_ok (mon (fst st')) \<and> is_io_allowed (mon (fst st'))"
proof -
  let ?st = "(change (se_enter env) (se_enter env) COMPUTE (fst st), snd st)"
  obtain q s c where run: "run_hooks (comm_hook change row) (se_raises env) (se_calls env) ?st = (q, (s, c))"
    by (cases "run_hooks (comm_hook change row) (se_raises env) (se_calls env) ?st") auto
  with assms have st': "st' = (change (se_exit env) (se_exit env) IDLE s, c)"
    by (auto simp: compute_pass_def split: prod.splits)
  from run_hooks_keeps [OF run] show "keep (fst st') = keep (fst st)" by (simp add: st')
  show "pm_phase (mon (fst st')) = IDLE" by (simp add: st')
  assume "gate_ok (mon (fst st))"
  then have "gate_ok (mon s)" using run_hooks_keeps [OF run] by simp
  then have "gate_ok (mon (fst st'))" by (simp add: st')
  then show "gate_ok (mon (fst st')) \<and> is_io_allowed (mon (fst st'))"
    by (simp add: gate_ok_def is_io_allowed_def st')
qed

text \<open>During a collective that is gated the gate is closed.\<close>

lemma hook_closes:
  assumes "gate_ok (mon s)" and "cs_gated c"
  shows "is_nccl_active (mon (hook_enter change call c s)) \<and>
    \<not> is_io_allowed (mon (hook_enter change call c s))"
proof -
  have "gate_ok (set_phase (hc_start call) NCCL_COMM (mon s))" using assms(1) by simp
  then show ?thesis using assms(2)
    by (simp add: hook_enter_def is_nccl_active_def is_io_allowed_def gate_ok_def)
qed

end

interpretation v1: phase_scheduler change_phase te_phase_monitor
  "\<lambda>s. (te_ckpt_manager s, te_mode s, te_lustre_dir s)"
  by unfold_locales (simp_all add: change_phase_def)

interpretation v2: phase_scheduler change_phase_v2 te_phase_monitor te_ckpt_manager
  by unfold_locales simp_all

section \<open>The rows of a step\<close>

lemma run_hooks_rows:
  assumes "\<And>d rs call. row (d\<lparr>cs_records := rs\<rparr>) call = row d call"
  shows "run_hooks (comm_hook change row) raises calls (s, c) = (Inr (), (s', c')) \<Longrightarrow>
    c' = c\<lparr>cs_records := cs_records c @ map (row c) calls\<rparr> \<and> (\<forall>call \<in> set calls. hc_lat_ms call \<noteq> 0)"
proof (induction calls arbitrary: s c)
  case Nil
  then show ?case by (simp split: option.splits)
next
  case (Cons call calls)
  obtain q s1 c1 where h: "comm_hook change row call (s, c) = (q, (s1, c1))"
    by (cases "comm_hook change row call (s, c)") auto
  with Cons.prems have q: "q = Inr ()" by (auto split: sum.splits)
  with h have c1: "c1 = c\<lparr>cs_records := cs_records c @ [row c call]\<rparr>" and l: "hc_lat_ms call \<noteq> 0"
    by (auto simp: comm_hook_def Let_def split: if_splits)
  from Cons.prems h q have "run_hooks (comm_hook change row) raises calls (s1, c1) = (Inr (), (s', c'))"
    by simp
  from Cons.IH [OF this] show ?case using l by (simp add: c1 assms)
qed

lemma compute_pass_rows:
  assumes "\<And>d rs call. row (d\<lparr>cs_records := rs\<rparr>) call = row d call"
    and "compute_pass change (comm_hook change row) env (s, c) = (Inr (), (s', c'))"
  shows "c' = c\<lparr>cs_records := cs_records c @ map (row c) (se_calls env)\<rparr> \<and>
    (\<forall>call \<in> set (se_calls env). hc_lat_ms call \<noteq> 0)"
  using assms(2) run_hooks_rows [where row = row and change = change and raises = "se_raises env" and calls = "se_calls env",
      OF assms(1)]
  by (auto simp: compute_pass_def split: prod.splits)

section \<open>The effect of a step on the checkpoints\<close>

text \<open>
  A step changes the checkpoint manager only by its checkpoint, and only if it returns: with pacing
  the state is saved locally, otherwise it is written to the remote directory.
\<close>

definition v1_effect :: "bool result \<Rightarrow> int \<Rightarrow> 'b list \<Rightarrow> 'b tempo \<Rightarrow> unit result \<Rightarrow> 'b tempo \<Rightarrow> bool" where
  "v1_effect is_ckpt step blob s r s' \<longleftrightarrow>
     te_mode s' = te_mode s \<and>
     (if r = Inr () \<and> is_ckpt = Inr True
      then (if te_mode s = ''tempo''
            then \<exists>now. te_ckpt_manager s' = snd (save_async now blob step (te_ckpt_manager s))
            else \<exists>path. save_sync_lustre blob step (te_ckpt_manager s) = (Inr path, te_ckpt_manager s'))
      else te_ckpt_manager s' = te_ckpt_manager s)"

lemma on_step_simps [simp]:
  "te_ckpt_manager (on_step_begin now s) = te_ckpt_manager s" "te_mode (on_step_begin now s) = te_mode s"
  "te_phase_monitor (on_step_begin now s) = increment_step (te_phase_monitor s)"
  "te_ckpt_manager (snd (on_step_end now s)) = te_ckpt_manager s"
  "te_mode (snd (on_step_end now s)) = te_mode s"
  "te_phase_monitor (snd (on_step_end now s)) = te_phase_monitor s"
  by (simp_all add: on_step_begin_def on_step_end_def Let_def)

lemma v1_checkpoint_effect:
  assumes "so_checkpoint v1_ops env step s = (r, s')"
  shows "v1_effect (Inr True) step (se_blob env) s r s'"
    and "te_phase_monitor s' = te_phase_monitor s \<or> pm_phase (te_phase_monitor s') = IDLE"
    and "gate_ok (te_phase_monitor s) \<Longrightarrow> gate_ok (te_phase_monitor s')"
proof -
  obtain q where q: "checkpoint_v1 change_phase (se_clock env) (se_blob env) step s = (q, s')"
    and r: "r = (case q of Inl e \<Rightarrow> Inl e | Inr path \<Rightarrow> Inr ())"
    using assms by (auto simp: v1_ops_def split: prod.splits sum.splits)
  show "v1_effect (Inr True) step (se_blob env) s r s'"
  proof (cases "te_mode s = ''tempo''")
    case True
    then have "te_mode s' = te_mode s" "r = Inr ()"
      "te_ckpt_manager s' = snd (save_async (ck_enqueue (se_clock env)) (se_blob env) step (te_ckpt_manager s))"
      using q by (auto simp: r checkpoint_v1_def change_phase_def Let_def split: prod.splits)
    with True show ?thesis by (auto simp: v1_effect_def)
  next
    case False
    then show ?thesis
      using q by (auto simp: r v1_effect_def checkpoint_v1_def save_sync_lustre_def Let_def
          split: if_splits option.splits)
  qed
  show "te_phase_monitor s' = te_phase_monitor s \<or> pm_phase (te_phase_monitor s') = IDLE"
    and "gate_ok (te_phase_monitor s) \<Longrightarrow> gate_ok (te_phase_monitor s')"
    using q by (auto simp: checkpoint_v1_def change_phase_def Let_def split: if_splits prod.splits)
qed

text \<open>Both step functions are one compute pass, the end of the step and perhaps a checkpoint.\<close>

lemma v1_pass_effect:
  assumes "compute_pass change_phase (comm_hook change_phase row) env (on_step_begin now s, c) = (q, (s2, c2))"
  shows "te_ckpt_manager s2 = te_ckpt_manager s" and "te_mode s2 = te_mode s"
    and "pm_phase (te_phase_monitor s2) = IDLE"
    and "gate_ok (te_phase_monitor s) \<Longrightarrow> gate_ok (te_phase_monitor s2)"
  using v1.compute_pass_ends [OF assms] by (auto simp: gate_ok_def increment_step_def)

definition idle_open :: "phase_monitor \<Rightarrow> bool" where
  "idle_open m \<longleftrightarrow> pm_phase m = IDLE \<and> pm_io_allowed m"

lemma idle_openI: "pm_phase m = IDLE \<Longrightarrow> gate_ok m \<Longrightarrow> idle_open m"
  by (simp add: idle_open_def gate_ok_def)

lemma v1_step_end:
  assumes pass: "compute_pass change_phase (comm_hook change_phase row) env (on_step_begin now s, c) = (Inr (), (s2, c2))"
    and ck: "so_checkpoint v1_ops env step (snd (on_step_end t s2)) = (r, s')"
  shows "v1_effect (Inr True) step (se_blob env) s r s'"
    and "gate_ok (te_phase_monitor s) \<Longrightarrow> idle_open (te_phase_monitor s')"
proof -
  note p = v1_pass_effect [OF pass] and e = v1_checkpoint_effect [OF ck]
  from e(1) p(1,2) show "v1_effect (Inr True) step (se_blob env) s r s'"
    by (auto simp: v1_effect_def split: if_splits)
  show "gate_ok (te_phase_monitor s) \<Longrightarrow> idle_open (te_phase_monitor s')"
    using e(2,3) p(3,4) by (auto intro: idle_openI)
qed

text \<open>A step: an exception of the pass ends it; otherwise its end and, if it is due, a checkpoint.\<close>

lemma v1_body_effect:
  assumes pass: "compute_pass change_phase (comm_hook change_phase row) env (on_step_begin now s, c) = (q, (s2, c2))"
    and raised: "\<And>e. q = Inl e \<Longrightarrow> r = Inl e \<and> s' = s2"
    and due: "q = Inr () \<Longrightarrow> is_ckpt = Inr True \<Longrightarrow>
      so_checkpoint v1_ops env step (snd (on_step_end t s2)) = (r, s')"
    and rest: "q = Inr () \<Longrightarrow> is_ckpt \<noteq> Inr True \<Longrightarrow> s' = snd (on_step_end t s2)"
  shows "v1_effect is_ckpt step (se_blob env) s r s' \<and>
    (gate_ok (te_phase_monitor s) \<longrightarrow> idle_open (te_phase_monitor s'))"
proof -
  note p = v1_pass_effect [OF pass]
  consider (err) e where "q = Inl e" | (due) "q = Inr ()" "is_ckpt = Inr True"
    | (rest) "q = Inr ()" "is_ckpt \<noteq> Inr True" by (cases q) auto
  then show ?thesis
  proof cases
    case err
    with raised p show ?thesis by (auto simp: v1_effect_def intro: idle_openI)
  next
    case due
    with pass have "compute_pass change_phase (comm_hook change_phase row) env (on_step_begin now s, c) =
      (Inr (), (s2, c2))" by simp
    from v1_step_end [OF this assms(3) [OF due]] due(2) show ?thesis by simp
  next
    case rest
    from p(3,4) assms(4) [OF rest] rest(2) p(1,2) show ?thesis
      by (auto simp: v1_effect_def intro: idle_openI)
  qed
qed

lemmas driver_unfold = e2e_step_def flagged_step_def v1_ops_def timed_pacing_hook_def Let_def

lemma e2e_step_effect:
  assumes "e2e_step v1_ops args step env (s, c) = (r, (s', c'))"
  shows "v1_effect (is_ckpt_step args step) step (se_blob env) s r s' \<and>
    (gate_ok (te_phase_monitor s) \<longrightarrow> idle_open (te_phase_monitor s'))"
proof -
  obtain q s2 c2 where pass: "compute_pass change_phase (comm_hook change_phase e2e_record) env
      (on_step_begin (se_begin env) s, c\<lparr>cs_step := step - ta_warmup_steps args\<rparr>) = (q, (s2, c2))"
    by (metis surj_pair)
  show ?thesis
    by (rule v1_body_effect [OF pass, where t = "se_end env"])
      (use assms pass in \<open>auto simp: driver_unfold split: prod.splits sum.splits if_splits\<close>)
qed

lemma flagged_step_effect:
  assumes "flagged_step (\<lambda>change. comm_hook change row) v1_ops args step env (s, c) = (r, (s', c'))"
  shows "v1_effect (is_ckpt_step args step) step (se_blob env) s r s'"
    and "gate_ok (te_phase_monitor s) \<Longrightarrow> is_ckpt_step args step = Inr b \<Longrightarrow>
      idle_open (te_phase_monitor s')"
proof -
  have ok: "v1_effect (is_ckpt_step args step) step (se_blob env) s r s' \<and>
      (gate_ok (te_phase_monitor s) \<longrightarrow> idle_open (te_phase_monitor s'))"
    if ck: "is_ckpt_step args step = Inr b" for b
  proof -
    obtain q s2 c2 where pass: "compute_pass change_phase (comm_hook change_phase row) env
        (on_step_begin (se_begin env) s,
         c\<lparr>cs_step := step - ta_warmup_steps args, cs_is_ckpt_step := b\<rparr>) = (q, (s2, c2))"
      by (metis surj_pair)
    show ?thesis
      by (rule v1_body_effect [OF pass, where t = "se_end env"])
        (use assms pass ck in \<open>auto simp: driver_unfold split: prod.splits sum.splits if_splits\<close>)
  qed
  then show "gate_ok (te_phase_monitor s) \<Longrightarrow> is_ckpt_step args step = Inr b \<Longrightarrow>
      idle_open (te_phase_monitor s')" by blast
  show "v1_effect (is_ckpt_step args step) step (se_blob env) s r s'"
  proof (cases "is_ckpt_step args step")
    case (Inl e)
    with assms show ?thesis by (auto simp: driver_unfold v1_effect_def)
  qed (use ok in blast)
qed

lemma scaling_hook_unfold: "scaling_comm_hook = (\<lambda>change. comm_hook change scaling_record)"
  by (simp add: scaling_comm_hook_def fun_eq_iff)

end
