(* ===== verification/Checkpoint_Safety.thy ===== *)
theory Checkpoint_Safety
  imports Training
begin

text \<open>
  The training drivers end to end: the loop of one rank interleaved with the turns of its flush
  thread and with whatever the other ranks do to the shared file system. The theory shows that no
  checkpoint the loop has taken is lost, and how the gate behaves over a step.
\<close>

section \<open>Checkpoint files\<close>

definition ckpt_file :: "string \<Rightarrow> int \<Rightarrow> int \<Rightarrow> string" where
  "ckpt_file dir step rank = dir @ ''/'' @ ckpt_fname step rank"

lemma str_int_no_slash: "CHR ''/'' \<notin> set (str_int i)"
  using digits_chars [of "nat i"] digits_chars [of "nat (- i)"] by (auto simp: str_int_def)

lemma ckpt_fname_no_slash: "0 \<le> s \<Longrightarrow> CHR ''/'' \<notin> set (ckpt_fname s r)"
  using format_0d_chars [of s 7] str_int_no_slash [of r] by (auto simp: ckpt_fname_def)

lemma ckpt_file_inj:
  assumes "ckpt_file d s r = ckpt_file d' s' r'" and "0 \<le> s" and "0 \<le> s'"
  shows "d = d' \<and> s = s' \<and> r = r'"
proof -
  have n: "CHR ''/'' \<notin> set (rev (ckpt_fname s r))" "CHR ''/'' \<notin> set (rev (ckpt_fname s' r'))"
    using assms(2,3) ckpt_fname_no_slash by simp_all
  have "rev (ckpt_file d s r) = rev (ckpt_file d' s' r')" using assms(1) by simp
  then have "rev (ckpt_fname s r) @ CHR ''/'' # rev d = rev (ckpt_fname s' r') @ CHR ''/'' # rev d'"
    by (simp add: ckpt_file_def)
  from append_sep_cancel [OF this n] have "ckpt_fname s r = ckpt_fname s' r'" "d = d'" by simp_all
  with ckpt_fname_inj assms(2,3) show ?thesis by blast
qed

lemma tmp_path_ckpt_file: "tmp_path (ckpt_file d s r) \<noteq> ckpt_file d' s' r'"
proof -
  have e: "ckpt_file d s r = (d @ ''/step_'' @ format_0d 7 s @ ''_rank'' @ str_int r) @ ''.pt''" for d s r
    by (simp add: ckpt_file_def ckpt_fname_def)
  show ?thesis unfolding e tmp_path_pt by (rule tmp_path_neq)
qed

section \<open>What the flush thread keeps\<close>

definition held :: "'b ckpt \<Rightarrow> int \<Rightarrow> 'b list \<Rightarrow> bool" where
  "held c t blob \<longleftrightarrow>
     cm_fs c (ckpt_file (cm_local_dir c) t (cm_rank c)) = Some blob \<or>
     (\<exists>dir. cm_lustre_dir c = Some dir \<and> cm_fs c (ckpt_file dir t (cm_rank c)) = Some blob)"

text \<open>The remote copy counts only once the local one is gone.\<close>

definition held_once :: "'b ckpt \<Rightarrow> int \<Rightarrow> 'b list \<Rightarrow> bool" where
  "held_once c t blob \<longleftrightarrow>
     cm_fs c (ckpt_file (cm_local_dir c) t (cm_rank c)) = Some blob \<or>
     cm_fs c (ckpt_file (cm_local_dir c) t (cm_rank c)) = None \<and>
     (\<exists>dir. cm_lustre_dir c = Some dir \<and> cm_fs c (ckpt_file dir t (cm_rank c)) = Some blob)"

lemma held_once_held: "held_once c t blob \<Longrightarrow> held c t blob"
  by (auto simp: held_once_def held_def)

definition same_place :: "'b ckpt \<Rightarrow> 'b ckpt \<Rightarrow> bool" where
  "same_place c c' \<longleftrightarrow> cm_local_dir c' = cm_local_dir c \<and> cm_lustre_dir c' = cm_lustre_dir c \<and>
     cm_rank c' = cm_rank c"

definition job_of :: "'b ckpt \<Rightarrow> int \<Rightarrow> flush_job \<Rightarrow> bool" where
  "job_of c t job \<longleftrightarrow> fj_local_path job = ckpt_file (cm_local_dir c) t (cm_rank c) \<and>
     (\<exists>dir. cm_lustre_dir c = Some dir \<and> dir \<noteq> cm_local_dir c \<and>
        fj_remote_path job = ckpt_file dir t (cm_rank c))"

lemma flush_chunks_chunk_pos:
  "0 < fl_chunk_bytes l \<Longrightarrow> 0 < fl_chunk_bytes (loop_of (flush_chunks a h es l))"
proof (induction es arbitrary: l)
  case Nil
  then show ?case by simp
next
  case (Cons e es)
  note it = flush_iteration_split(2) [OF Cons.prems, of a h e]
  show ?case
  proof (cases "flush_iteration a h e l")
    case (Flush_Running l')
    with it Cons.IH [of l'] show ?thesis by simp
  qed (use it in auto)
qed

lemma loop_effect_place [simp]:
  "same_place c (loop_effect job l c)" "same_place c (finish_flush job l (loop_effect job l c))"
  "cm_chunk_bytes (loop_effect job l c) = fl_chunk_bytes l"
  "cm_chunk_bytes (finish_flush job l c') = cm_chunk_bytes c'"
  by (simp_all add: same_place_def loop_effect_def finish_flush_def)

lemma do_flush_place:
  assumes "do_flush envs job c = (r, c')" and "0 < cm_chunk_bytes c"
  shows "same_place c c' \<and> 0 < cm_chunk_bytes c'"
proof -
  have "0 < fl_chunk_bytes (loop_of (flush_chunks a h envs (flush_start src c)))" for a h src
    using assms(2) by (intro flush_chunks_chunk_pos) (simp add: flush_start_def)
  from this [of "cm_adaptive_chunk c" "cm_has_monitor c"] assms show ?thesis
    by (auto simp: do_flush_def same_place_def [of c "c\<lparr>cm_bytes_pending := _\<rparr>"]
        split: option.splits flush_outcome.splits) (metis loop_of.simps)+
qed

text \<open>A flush whose copy loop ends has moved the whole file.\<close>

lemma do_flush_copied:
  assumes flush: "do_flush envs job c = (r, c')" and pos: "0 < cm_chunk_bytes c"
    and src: "cm_fs c (fj_local_path job) = Some src"
    and copied: "flush_chunks (cm_adaptive_chunk c) (cm_has_monitor c) envs (flush_start src c) = Flush_Copied l"
  shows "cm_fs c' = ((cm_fs c)(tmp_path (fj_remote_path job) := None,
    fj_remote_path job \<mapsto> src))(fj_local_path job := None)"
proof -
  have "0 < fl_chunk_bytes (flush_start src c)" using pos by (simp add: flush_start_def)
  from flush_chunks_split [OF this, of "cm_adaptive_chunk c" "cm_has_monitor c" envs] copied
  have "fl_written l = src" by (auto simp: flush_start_def)
  then show ?thesis using flush src copied by (auto simp: do_flush_def finish_flush_def loop_effect_def)
qed

text \<open>Whatever the flush of a checkpoint does, every checkpoint of the rank stays held.\<close>

lemma do_flush_held:
  assumes flush: "do_flush envs job c = (r, c')" and pos: "0 < cm_chunk_bytes c"
    and job: "job_of c t job" and t: "0 \<le> t" and u: "0 \<le> u" and h: "held_once c u blob"
  shows "held_once c' u blob"
proof -
  obtain dir where dir: "cm_lustre_dir c = Some dir" "dir \<noteq> cm_local_dir c"
    and paths: "fj_local_path job = ckpt_file (cm_local_dir c) t (cm_rank c)"
      "fj_remote_path job = ckpt_file dir t (cm_rank c)"
    using job by (auto simp: job_of_def)
  have ne: "ckpt_file dir u k \<noteq> ckpt_file (cm_local_dir c) t k"
    "ckpt_file (cm_local_dir c) u k \<noteq> ckpt_file dir t k"
    "u \<noteq> t \<Longrightarrow> ckpt_file x u k \<noteq> ckpt_file x t k" for x k
    using ckpt_file_inj dir(2) t u by blast+
  note tmp = tmp_path_ckpt_file [symmetric]
  have place: "cm_local_dir c' = cm_local_dir c" "cm_lustre_dir c' = Some dir" "cm_rank c' = cm_rank c"
    using do_flush_place [OF flush pos] dir by (simp_all add: same_place_def)
  show ?thesis
  proof (cases "cm_fs c (fj_local_path job)")
    case None
    with flush have "cm_fs c' = cm_fs c" by (auto simp: do_flush_def)
    with h place dir show ?thesis by (simp add: held_once_def)
  next
    case (Some src)
    let ?o = "flush_chunks (cm_adaptive_chunk c) (cm_has_monitor c) envs (flush_start src c)"
    show ?thesis
    proof (cases ?o)
      case (Flush_Copied l)
      note fs = do_flush_copied [OF flush pos Some Flush_Copied]
      show ?thesis
      proof (cases "u = t")
        case True
        with h Some paths have "src = blob" by (simp add: held_once_def)
        with True show ?thesis using ne(1) [of "cm_rank c"] True
          by (simp add: held_once_def fs place paths)
      next
        case False
        with h show ?thesis by (simp add: held_once_def fs place paths dir ne tmp)
      qed
    qed (use flush Some h dir in \<open>auto simp: do_flush_def held_once_def loop_effect_def paths tmp\<close>)
  qed
qed

section \<open>The invariant of a run\<close>

text \<open>
  \<open>saved\<close> lists the steps and contents of the checkpoints the loop has taken. With pacing each is
  held and each queued job is the flush of one of them; without, each is in the remote directory.
\<close>

definition paced_inv :: "(int \<times> 'b list) list \<Rightarrow> 'b ckpt \<Rightarrow> bool" where
  "paced_inv saved c \<longleftrightarrow> 0 < cm_chunk_bytes c \<and> cm_lustre_dir c \<noteq> Some (cm_local_dir c) \<and>
     (\<forall>(t, blob) \<in> set saved. 0 \<le> t \<and> held_once c t blob) \<and>
     (\<forall>job \<in> set (cm_queue c). \<exists>t \<in> set (map fst saved). job_of c t job)"

definition sync_inv :: "(int \<times> 'b list) list \<Rightarrow> 'b ckpt \<Rightarrow> bool" where
  "sync_inv saved c \<longleftrightarrow> cm_queue c = [] \<and>
     (\<forall>(t, blob) \<in> set saved. 0 \<le> t \<and>
        (\<exists>dir. cm_lustre_dir c = Some dir \<and> cm_fs c (ckpt_file dir t (cm_rank c)) = Some blob))"

definition saved_inv :: "(int \<times> 'b list) list \<Rightarrow> 'b tempo \<Rightarrow> bool" where
  "saved_inv saved s \<longleftrightarrow>
     (if te_mode s = ''tempo'' then paced_inv saved (te_ckpt_manager s)
      else sync_inv saved (te_ckpt_manager s))"

lemma saved_inv_held:
  assumes "saved_inv saved s" and "(t, blob) \<in> set saved"
  shows "held (te_ckpt_manager s) t blob"
  using assms held_once_held
  by (fastforce simp: saved_inv_def paced_inv_def sync_inv_def held_def [of _ t] split: if_splits)

text \<open>A save of a new step.\<close>

lemma held_once_cong:
  assumes "same_place c c'" and "\<And>dir. cm_fs c' (ckpt_file dir t (cm_rank c)) = cm_fs c (ckpt_file dir t (cm_rank c))"
  shows "held_once c' t blob = held_once c t blob"
  using assms by (simp add: held_once_def same_place_def)

lemma job_of_cong: "same_place c c' \<Longrightarrow> job_of c' t job = job_of c t job"
  by (simp add: job_of_def same_place_def)

lemma paced_inv_save:
  assumes inv: "paced_inv saved c" and new: "step \<notin> set (map fst saved)" and "0 \<le> step"
  shows "paced_inv (saved @ [(step, blob)]) (snd (save_async now blob step c))"
proof -
  obtain path c' where sv: "save_async now blob step c = (path, c')" by fastforce
  from save_async_staged [OF sv] have path: "path = ckpt_file (cm_local_dir c) step (cm_rank c)"
    and fs: "cm_fs c' = (cm_fs c)(path \<mapsto> blob)"
    by (simp_all add: staged_def ckpt_file_def)
  have place: "same_place c c'" and chunk: "cm_chunk_bytes c' = cm_chunk_bytes c"
    and queue: "\<And>job. job \<in> set (cm_queue c') \<Longrightarrow> job \<in> set (cm_queue c) \<or> job_of c step job"
    using sv inv
    by (auto simp: save_async_def Let_def same_place_def job_of_def ckpt_file_def paced_inv_def
        split: option.splits if_splits)
  have old: "held_once c' t b" if "(t, b) \<in> set saved" for t b
  proof -
    have t: "t \<noteq> step" "0 \<le> t" "held_once c t b"
      using that new inv by (force simp: paced_inv_def)+
    then have "ckpt_file dir t k \<noteq> path" for dir k
      using ckpt_file_inj \<open>0 \<le> step\<close> unfolding path by blast
    then show ?thesis using t(3) held_once_cong [OF place, of t b] by (simp add: fs)
  qed
  have "held_once c' step blob"
    using place by (simp add: held_once_def fs path same_place_def)
  then show ?thesis
    using inv old place chunk queue assms(3) job_of_cong [OF place]
    by (auto simp: sv paced_inv_def same_place_def) blast+
qed

lemma paced_inv_flush:
  assumes inv: "paced_inv saved c" and q: "cm_queue c = job # jobs"
    and flush: "do_flush envs job (c\<lparr>cm_queue := jobs\<rparr>) = (r, c')"
  shows "paced_inv saved c'"
proof -
  let ?c = "c\<lparr>cm_queue := jobs\<rparr>"
  have place: "same_place ?c c'" "0 < cm_chunk_bytes c'" and pos: "0 < cm_chunk_bytes ?c"
    using do_flush_place [OF flush] inv by (simp_all add: paced_inv_def)
  have pc: "same_place c c'" using place(1) by (simp add: same_place_def)
  obtain t where t: "t \<in> set (map fst saved)" "job_of c t job" using inv q by (auto simp: paced_inv_def)
  then have "0 \<le> t" and j: "job_of ?c t job" using inv by (auto simp: paced_inv_def job_of_def)
  have "held_once c' u b" if "(u, b) \<in> set saved" for u b
  proof (rule do_flush_held [OF flush pos j \<open>0 \<le> t\<close>])
    show "0 \<le> u" "held_once ?c u b" using that inv by (auto simp: paced_inv_def held_once_def)
  qed
  moreover have "cm_queue c' = jobs" using do_flush_queue [OF flush] by simp
  ultimately show ?thesis
    using inv q place pc by (auto simp: paced_inv_def job_of_cong [OF pc] same_place_def)
qed

lemma paced_inv_turn:
  assumes "paced_inv saved c" and "flush_worker_turn envs c = Some c'"
  shows "paced_inv saved c'"
proof (cases "cm_stop c \<or> cm_queue c = []")
  case True
  then have "flush_worker_turn envs c = Some c" by (auto simp: flush_worker_turn_def)
  with assms show ?thesis by simp
next
  case False
  then obtain job jobs r c1 where q: "cm_queue c = job # jobs"
    and f: "do_flush envs job (c\<lparr>cm_queue := jobs\<rparr>) = (Some r, c1)"
    and c': "c' = c1\<lparr>cm_unfinished := cm_unfinished c1 - 1\<rparr>"
    using assms(2) by (auto simp: flush_worker_turn_def neq_Nil_conv split: prod.splits option.splits)
  from paced_inv_flush [OF assms(1) q f] show ?thesis
    by (simp add: c' paced_inv_def held_once_def job_of_def)
qed

lemma sync_inv_save:
  assumes inv: "sync_inv saved c" and new: "step \<notin> set (map fst saved)" and "0 \<le> step"
    and sv: "save_sync_lustre blob step c = (Inr path, c')"
  shows "sync_inv (saved @ [(step, blob)]) c'"
proof -
  obtain dir where dir: "cm_lustre_dir c = Some dir"
    and c': "cm_lustre_dir c' = Some dir" "cm_rank c' = cm_rank c" "cm_queue c' = cm_queue c"
      "cm_fs c' = (cm_fs c)(ckpt_file dir step (cm_rank c) \<mapsto> blob)"
    using sv by (auto simp: save_sync_lustre_def ckpt_file_def Let_def split: option.splits)
  have "ckpt_file dir t k \<noteq> ckpt_file dir step k" if "(t, b) \<in> set saved" for t b k
  proof -
    have "0 \<le> t" "t \<noteq> step" using that inv new by (force simp: sync_inv_def)+
    then show ?thesis using ckpt_file_inj assms(3) by blast
  qed
  then show ?thesis using inv dir c' assms(3) by (auto simp: sync_inv_def)
qed

lemma sync_inv_turn: "sync_inv saved c \<Longrightarrow> flush_worker_turn envs c = Some c' \<Longrightarrow> sync_inv saved c'"
  by (auto simp: sync_inv_def flush_worker_turn_def split: if_splits)

section \<open>Runs of a driver\<close>

text \<open>
  The loop of one rank has done \<open>n\<close> steps and taken the checkpoints \<open>saved\<close>; between the
  steps the flush thread takes turns and the other ranks change files that are not this rank's
  checkpoints. A flush that goes on during a step touches only the copied file, so it may be read
  as a turn before or after it.
\<close>

inductive train_run ::
    "(int \<Rightarrow> 'b step_env \<Rightarrow> 'b tempo \<times> 'c \<Rightarrow> unit result \<times> ('b tempo \<times> 'c)) \<Rightarrow> (int \<Rightarrow> bool result)
     \<Rightarrow> int \<Rightarrow> 'b tempo \<times> 'c \<Rightarrow> nat \<Rightarrow> (int \<times> 'b list) list \<Rightarrow> 'b tempo \<times> 'c \<Rightarrow> bool"
  for body isck limit st0 where
  start: "train_run body isck limit st0 0 [] st0"
| step: "train_run body isck limit st0 n saved st \<Longrightarrow> int n < limit \<Longrightarrow>
    body (int n) env st = (Inr (), st') \<Longrightarrow>
    saved' = (if isck (int n) = Inr True then saved @ [(int n, se_blob env)] else saved) \<Longrightarrow>
    train_run body isck limit st0 (Suc n) saved' st'"
| flush: "train_run body isck limit st0 n saved (s, c) \<Longrightarrow>
    flush_worker_turn envs (te_ckpt_manager s) = Some m \<Longrightarrow>
    train_run body isck limit st0 n saved (s\<lparr>te_ckpt_manager := m\<rparr>, c)"
| ranks: "train_run body isck limit st0 n saved (s, c) \<Longrightarrow> m = te_ckpt_manager s \<Longrightarrow>
    (\<And>dir t. 0 \<le> t \<Longrightarrow> fs (ckpt_file dir t (cm_rank m)) = cm_fs m (ckpt_file dir t (cm_rank m))) \<Longrightarrow>
    train_run body isck limit st0 n saved (s\<lparr>te_ckpt_manager := m\<lparr>cm_fs := fs\<rparr>\<rparr>, c)"

lemma saved_inv_ranks:
  assumes "saved_inv saved s" and "m = te_ckpt_manager s"
    and "\<And>dir t. 0 \<le> t \<Longrightarrow> fs (ckpt_file dir t (cm_rank m)) = cm_fs m (ckpt_file dir t (cm_rank m))"
  shows "saved_inv saved (s\<lparr>te_ckpt_manager := m\<lparr>cm_fs := fs\<rparr>\<rparr>)"
  using assms
  by (fastforce simp: saved_inv_def paced_inv_def sync_inv_def held_once_def job_of_def)

lemma saved_inv_turn:
  assumes "saved_inv saved s" and "flush_worker_turn envs (te_ckpt_manager s) = Some m"
  shows "saved_inv saved (s\<lparr>te_ckpt_manager := m\<rparr>)"
  using assms by (auto simp: saved_inv_def intro: paced_inv_turn sync_inv_turn)

lemma saved_inv_effect:
  assumes "saved_inv saved s" and "v1_effect isck step blob s (Inr ()) s'"
    and "step \<notin> set (map fst saved)" and "0 \<le> step"
  shows "saved_inv (if isck = Inr True then saved @ [(step, blob)] else saved) s'"
  using assms paced_inv_save [OF _ assms(3,4)] sync_inv_save [OF _ assms(3,4)]
  by (auto simp: saved_inv_def v1_effect_def split: if_splits)

text \<open>What the proof needs of a driver: its step acts on the checkpoints as \<open>v1_effect\<close> says.\<close>

locale training_driver =
  fixes body :: "int \<Rightarrow> 'b step_env \<Rightarrow> 'b tempo \<times> 'c \<Rightarrow> unit result \<times> ('b tempo \<times> 'c)"
    and isck :: "int \<Rightarrow> bool result"
  assumes body_effect: "body k env (s, c) = (r, (s', c')) \<Longrightarrow> v1_effect (isck k) k (se_blob env) s r s'"
begin

lemma run_saved:
  "train_run body isck limit st0 n saved st \<Longrightarrow> saved_inv [] (fst st0) \<Longrightarrow>
   map fst saved = filter (\<lambda>k. isck k = Inr True) (map int [0..<n]) \<and> saved_inv saved (fst st)"
proof (induction rule: train_run.induct)
  case start
  then show ?case by simp
next
  case (step n saved st env st' saved')
  obtain s c s' c' where st: "st = (s, c)" "st' = (s', c')" by (cases st; cases st')
  from step.IH step.prems have steps: "map fst saved = filter (\<lambda>k. isck k = Inr True) (map int [0..<n])"
    and inv: "saved_inv saved s" by (simp_all add: st)
  have "v1_effect (isck (int n)) (int n) (se_blob env) s (Inr ()) s'"
    using body_effect step.hyps(3) by (simp add: st)
  moreover have "int n \<notin> set (map fst saved)" unfolding steps by auto
  ultimately have "saved_inv saved' s'" using saved_inv_effect [OF inv] step.hyps(4) by simp
  then show ?case using steps step.hyps(4) by (simp add: st)
next
  case (flush n saved s c envs m)
  then show ?case using saved_inv_turn [of saved s envs m] by simp
next
  case (ranks n saved s c m fs)
  then show ?case using saved_inv_ranks [of saved s m fs] by simp
qed

lemma run_held:
  assumes "train_run body isck limit st0 n saved (s, c)" and "saved_inv [] (fst st0)"
    and "(t, blob) \<in> set saved"
  shows "held (te_ckpt_manager s) t blob"
    and "cm_queue (te_ckpt_manager s) = job # jobs \<Longrightarrow>
      do_flush envs job (te_ckpt_manager s\<lparr>cm_queue := jobs\<rparr>) = (r, m) \<Longrightarrow> held m t blob"
proof -
  have inv: "saved_inv saved s" using run_saved [OF assms(1,2)] by simp
  then show "held (te_ckpt_manager s) t blob" using assms(3) by (rule saved_inv_held)
  assume q: "cm_queue (te_ckpt_manager s) = job # jobs"
    and f: "do_flush envs job (te_ckpt_manager s\<lparr>cm_queue := jobs\<rparr>) = (r, m)"
  from inv q have "paced_inv saved (te_ckpt_manager s)"
    by (auto simp: saved_inv_def sync_inv_def split: if_splits)
  from paced_inv_flush [OF this q f] assms(3) show "held m t blob"
    by (auto simp: paced_inv_def intro: held_once_held)
qed

end

interpretation e2e: training_driver "e2e_step v1_ops args" "is_ckpt_step args" for args
  by unfold_locales (use e2e_step_effect in blast)

interpretation flagged: training_driver
  "flagged_step (\<lambda>change. comm_hook change row) v1_ops args" "is_ckpt_step args" for row args
  by unfold_locales (use flagged_step_effect(1) in blast)

lemma driver_start_inv:
  assumes "driver_scheduler pscratch fs rank world_size mode args = Inr s"
    and "0 < ta_flush_chunk_mb args"
    and "ta_lustre_dir args \<noteq> ta_local_nvme args @ ''/rank'' @ str_int rank"
  shows "saved_inv [] s"
  using assms
  by (auto simp: driver_scheduler_def tempo_init_def default_lustre_dir_def ckpt_init_def Let_def
      saved_inv_def paced_inv_def sync_inv_def split: if_splits)

section \<open>The loop is a run\<close>

lemma loop_run:
  "train_run body isck limit st0 n saved st \<Longrightarrow> int m \<le> limit \<Longrightarrow> n \<le> m \<Longrightarrow>
   train_loop body env (map int [n..<m]) st = (Inr (), st') \<Longrightarrow>
   train_run body isck limit st0 m
     (saved @ map (\<lambda>k. (k, se_blob (env k))) (filter (\<lambda>k. isck k = Inr True) (map int [n..<m]))) st'"
proof (induction "m - n" arbitrary: n saved st)
  case 0
  then show ?case by simp
next
  case (Suc d)
  then have up: "[n..<m] = n # [Suc n..<m]" by (simp add: upt_conv_Cons)
  obtain q st1 where b: "body (int n) (env (int n)) st = (q, st1)"
    by (cases "body (int n) (env (int n)) st")
  with Suc.prems(4) up have q: "q = Inr ()" and
    rest: "train_loop body env (map int [Suc n..<m]) st1 = (Inr (), st')"
    by (auto split: sum.splits)
  have "train_run body isck limit st0 (Suc n)
      (if isck (int n) = Inr True then saved @ [(int n, se_blob (env (int n)))] else saved) st1"
    by (rule train_run.step [OF Suc.prems(1)]) (use b q Suc.prems(2,3) Suc.hyps(2) in auto)
  from Suc.hyps(1) [OF _ this] show ?case
    using Suc.hyps(2) Suc.prems(2,3) rest up by (auto split: if_splits)
qed

section \<open>The rows of the end-to-end driver\<close>

lemma annotate_last_rows:
  "map er_step (cs_records (annotate_last v b c)) = map er_step (cs_records c) \<and>
   map er_algbw_GBs (cs_records (annotate_last v b c)) = map er_algbw_GBs (cs_records c) \<and>
   cs_gated (annotate_last v b c) = cs_gated c \<and> cs_world_size (annotate_last v b c) = cs_world_size c"
  by (cases "cs_records c" rule: rev_cases) (auto simp: annotate_last_def)

lemma e2e_step_rows:
  assumes "e2e_step v1_ops args step env (s, c) = (Inr (), (s', c'))"
  shows "map er_step (cs_records c') = map er_step (cs_records c) @
      replicate (length (se_calls env)) (step - ta_warmup_steps args) \<and>
    map er_algbw_GBs (cs_records c') = map er_algbw_GBs (cs_records c) @
      map (\<lambda>call. py_round 4 (algbw call)) (se_calls env) \<and>
    (\<forall>call \<in> set (se_calls env). hc_lat_ms call \<noteq> 0) \<and> cs_gated c' = cs_gated c"
proof -
  let ?c1 = "c\<lparr>cs_step := step - ta_warmup_steps args\<rparr>"
  obtain q s2 c2 where pass: "compute_pass change_phase (comm_hook change_phase e2e_record) env
      (on_step_begin (se_begin env) s, ?c1) = (q, (s2, c2))"
    by (metis surj_pair)
  with assms have q: "q = Inr ()" by (cases q) (auto simp: driver_unfold)
  have "e2e_record (d\<lparr>cs_records := rs\<rparr>) call = e2e_record d call" for d :: "e2e_row comm" and rs call
    by (simp add: e2e_record_def)
  from compute_pass_rows [where row = e2e_record, OF this pass [unfolded q]]
  have c2: "c2 = ?c1\<lparr>cs_records := cs_records c @ map (e2e_record ?c1) (se_calls env)\<rparr>"
    and l: "\<forall>call \<in> set (se_calls env). hc_lat_ms call \<noteq> 0" by simp_all
  obtain v b where c': "c' = annotate_last v b c2"
    using assms pass q by (auto simp: driver_unfold split: prod.splits sum.splits if_splits)
  have "map er_step (map (e2e_record ?c1) calls) = replicate (length calls) (step - ta_warmup_steps args)"
    for calls
    by (induction calls) (simp_all add: e2e_record_def)
  moreover have "map er_algbw_GBs (map (e2e_record ?c1) calls) = map (\<lambda>call. py_round 4 (algbw call)) calls"
    for calls
    by (simp add: e2e_record_def)
  ultimately show ?thesis using annotate_last_rows [of v b c2] l by (simp add: c' c2)
qed

section \<open>Properties\<close>

text \<open>
  C11: No checkpoint is lost. In every interleaving of the training loop with the flush thread and
  with the other ranks' files, the checkpoints the loop has taken are exactly those of the due
  steps, and the content of each is, complete, under its name in the local or in the remote
  directory, also at every point of a flush in progress, whatever the gate, write errors and stop
  requests did. This needs a positive chunk size and a remote directory that is not the rank's
  local one.
\<close>

theorem no_checkpoint_lost:
  assumes "e2e_start pscratch fs rank world_size args = Inr st0"
    and "train_run (e2e_step v1_ops args) (is_ckpt_step args) (total_steps args) st0 n saved (s, c)"
    and "0 < ta_flush_chunk_mb args"
    and "ta_lustre_dir args \<noteq> ta_local_nvme args @ ''/rank'' @ str_int rank"
  shows "map fst saved = filter (\<lambda>k. is_ckpt_step args k = Inr True) (map int [0..<n]) \<and>
    (\<forall>(t, blob) \<in> set saved. held (te_ckpt_manager s) t blob \<and>
       (\<forall>job jobs envs r m. cm_queue (te_ckpt_manager s) = job # jobs \<and>
          do_flush envs job (te_ckpt_manager s\<lparr>cm_queue := jobs\<rparr>) = (r, m) \<longrightarrow> held m t blob))"
proof -
  have inv: "saved_inv [] (fst st0)"
    using assms(1) driver_start_inv [OF _ assms(3,4)]
    by (auto simp: e2e_start_def split: sum.splits)
  show ?thesis
    using e2e.run_saved [OF assms(2) inv] e2e.run_held [OF assms(2) inv] by blast
qed


text \<open>
  C16: The gate over a training step. However a step ends, also by an exception of the model or of
  the hook inside a collective, the phase is idle afterwards and the gate is open; while a gated
  collective runs the gate is closed. A step that returns has one row for each collective, with the
  step counted from the end of the warm-up and the bandwidth of that collective, and no collective
  took zero time.
\<close>

theorem driver_gate:
  fixes s :: "'b tempo"
  assumes "gate_ok (te_phase_monitor s)" and "e2e_step v1_ops args step env (s, c) = (r, (s', c'))"
  shows "pm_phase (te_phase_monitor s') = IDLE \<and> is_io_allowed (te_phase_monitor s') \<and>
    (cs_gated c \<longrightarrow> (\<forall>call. \<not> is_io_allowed (te_phase_monitor (hook_enter change_phase call c s)))) \<and>
    (r = Inr () \<longrightarrow>
       map er_step (cs_records c') = map er_step (cs_records c) @
         replicate (length (se_calls env)) (step - ta_warmup_steps args) \<and>
       map er_algbw_GBs (cs_records c') = map er_algbw_GBs (cs_records c) @
         map (\<lambda>call. py_round 4 (algbw call)) (se_calls env) \<and>
       (\<forall>call \<in> set (se_calls env). hc_lat_ms call \<noteq> 0))"
proof -
  have "idle_open (te_phase_monitor s')" using e2e_step_effect [OF assms(2)] assms(1) by simp
  moreover have "cs_gated c \<Longrightarrow> \<not> is_io_allowed (te_phase_monitor (hook_enter change_phase call c s))" for call
    using v1.hook_closes [OF assms(1)] by blast
  ultimately show ?thesis
    using e2e_step_rows [of args step env s c s' c'] assms(2) by (auto simp: idle_open_def is_io_allowed_def)
qed

section \<open>Witnesses\<close>

definition sample_args :: train_args where
  "sample_args = \<lparr>ta_mode = ''tempo'', ta_num_steps = 1, ta_warmup_steps = 0, ta_ckpt_every = 2,
     ta_local_nvme = ''/n'', ta_lustre_dir = ''/l'', ta_flush_chunk_mb = 32,
     ta_adaptive_chunk = True, ta_verbose = False\<rparr>"

definition sample_call :: hook_call where
  "sample_call = \<lparr>hc_start = 2, hc_nbytes = 10 ^ 9, hc_lat_ms = 10, hc_done = 3, hc_timestamp = 3\<rparr>"

definition sample_env :: "bool step_env" where
  "sample_env = \<lparr>se_begin = 0, se_enter = 1, se_calls = [sample_call], se_raises = None, se_exit = 4,
     se_end = 5, se_vram = 0, se_clock = sample_clock, se_blob = [True]\<rparr>"

lemma sample_due [simp]:
  "is_ckpt_step sample_args 0 = Inr True" "se_blob sample_env = [True]" "total_steps sample_args = 1"
  by (simp_all add: is_ckpt_step_def sample_args_def sample_env_def total_steps_def)

lemma sample_start:
  "e2e_start None Map.empty 0 1 sample_args =
     Inr (sample_v1, \<lparr>cs_world_size = 1, cs_gated = True, cs_records = [], cs_step = 0\<rparr>)"
  using sample_v1_init by (simp add: e2e_start_def driver_scheduler_def sample_args_def)

lemma sample_step:
  "\<exists>s' c'. e2e_step v1_ops sample_args 0 sample_env
     (sample_v1, \<lparr>cs_world_size = 1, cs_gated = True, cs_records = [], cs_step = 0\<rparr>) = (Inr (), (s', c'))"
  by (simp add: e2e_step_def v1_ops_def compute_pass_def timed_pacing_hook_def comm_hook_def
      sample_env_def sample_call_def sample_args_def is_ckpt_step_def checkpoint_v1_def on_step_end_def
      on_step_begin_def change_phase_def hook_enter_def hook_leave_def sample_v1_def save_async_def
      Let_def split: option.split prod.split)

theorem no_checkpoint_lost_witness:
  "\<exists>s c. train_run (e2e_step v1_ops sample_args) (is_ckpt_step sample_args) 1
     (sample_v1, \<lparr>cs_world_size = 1, cs_gated = True, cs_records = [], cs_step = 0\<rparr>) 1 [(0, [True])] (s, c) \<and>
     held (te_ckpt_manager s) 0 [True]"
proof -
  let ?st = "(sample_v1, \<lparr>cs_world_size = 1, cs_gated = True, cs_records = [], cs_step = 0\<rparr>)"
  obtain s c where st: "e2e_step v1_ops sample_args 0 sample_env ?st = (Inr (), (s, c))"
    using sample_step by blast
  have "train_run (e2e_step v1_ops sample_args) (is_ckpt_step sample_args) (total_steps sample_args) ?st
      (Suc 0) [(0, [True])] (s, c)"
    by (rule train_run.step [OF train_run.start, where env = sample_env])
      (use st in simp_all)
  moreover from no_checkpoint_lost [OF sample_start this] have "held (te_ckpt_manager s) 0 [True]"
    by (simp add: sample_args_def str_int_def)
  ultimately show ?thesis by auto
qed


theorem driver_gate_witness:
  "is_io_allowed (te_phase_monitor (fst (snd (e2e_step v1_ops sample_args 0 sample_env
     (sample_v1, \<lparr>cs_world_size = 1, cs_gated = True, cs_records = [], cs_step = 0\<rparr>)))))"
proof -
  obtain s c where st: "e2e_step v1_ops sample_args 0 sample_env
      (sample_v1, \<lparr>cs_world_size = 1, cs_gated = True, cs_records = [], cs_step = 0\<rparr>) = (Inr (), (s, c))"
    using sample_step by blast
  have "gate_ok (te_phase_monitor sample_v1)" by (simp add: sample_v1_def)
  from driver_gate [OF this st] show ?thesis by (simp add: st)
qed

end
