(* ===== verification/P2P_Cache.thy ===== *)
theory P2P_Cache
  imports Prelude
begin

text \<open>
  \<^verbatim>\<open>tempo/p2p_cache.py\<close>: the consistent hash ring, the two-tier local store with LRU
  eviction to NVMe, and the store that routes keys to their owners. Parameters: \<open>H\<close> is the
  MD5 digest of a string as an integer; the outcome of each NVMe write and read; and, for
  other ranks, the answer of the network.
\<close>

definition DHT_VIRTUAL_NODES :: nat where "DHT_VIRTUAL_NODES = 150"
definition REPLICATION_FACTOR :: int where "REPLICATION_FACTOR = 2"
definition DEFAULT_DRAM_LIMIT_BYTES :: int where "DEFAULT_DRAM_LIMIT_BYTES = 4 * 1024 ^ 3"
definition DEFAULT_NVME_LIMIT_BYTES :: int where "DEFAULT_NVME_LIMIT_BYTES = 32 * 1024 ^ 3"

section \<open>Hash ring\<close>

record hash_ring =
  hr_vn :: nat
  hr_ring :: "(int, int) dict"
  hr_sorted_keys :: "int list"

definition ring_init :: "nat \<Rightarrow> hash_ring" where
  "ring_init virtual_nodes = \<lparr>hr_vn = virtual_nodes, hr_ring = [], hr_sorted_keys = []\<rparr>"

definition node_point :: "(string \<Rightarrow> int) \<Rightarrow> int \<Rightarrow> nat \<Rightarrow> int" where
  "node_point H rank i = H (str_int rank @ ''-'' @ digits i)"

definition add_node :: "(string \<Rightarrow> int) \<Rightarrow> int \<Rightarrow> hash_ring \<Rightarrow> hash_ring" where
  "add_node H rank r =
     (let ring = fold (\<lambda>i. AList.update (node_point H rank i) rank) [0..<hr_vn r] (hr_ring r)
      in r\<lparr>hr_ring := ring, hr_sorted_keys := sort (map fst ring)\<rparr>)"

definition remove_node :: "(string \<Rightarrow> int) \<Rightarrow> int \<Rightarrow> hash_ring \<Rightarrow> hash_ring" where
  "remove_node H rank r =
     (let ring = fold (\<lambda>i. AList.delete (node_point H rank i)) [0..<hr_vn r] (hr_ring r)
      in r\<lparr>hr_ring := ring, hr_sorted_keys := sort (map fst ring)\<rparr>)"

function bisect_loop :: "int list \<Rightarrow> int \<Rightarrow> nat \<Rightarrow> nat \<Rightarrow> nat" where
  "bisect_loop keys h lo hi =
     (if lo < hi
      then (let mid = (lo + hi) div 2 in
            if keys ! mid < h then bisect_loop keys h (mid + 1) hi else bisect_loop keys h lo mid)
      else lo)"
  by pat_completeness auto
termination
  by (relation "measure (\<lambda>(keys, h, lo, hi). hi - lo)") auto

declare bisect_loop.simps [simp del]

definition ring_bisect :: "int \<Rightarrow> hash_ring \<Rightarrow> nat" where
  "ring_bisect h r =
     bisect_loop (hr_sorted_keys r) h 0 (length (hr_sorted_keys r)) mod max 1 (length (hr_sorted_keys r))"

text \<open>The loop over the ring: new nodes are appended until there are \<open>n\<close>.\<close>

fun collect_owners :: "int \<Rightarrow> int list \<Rightarrow> int list \<Rightarrow> int list" where
  "collect_owners n [] owners = owners"
| "collect_owners n (node # nodes) owners =
     (let owners' = (if node \<in> set owners then owners else owners @ [node])
      in if n \<le> int (length owners') then owners' else collect_owners n nodes owners')"

definition get_nodes :: "(string \<Rightarrow> int) \<Rightarrow> string \<Rightarrow> int \<Rightarrow> hash_ring \<Rightarrow> int list" where
  "get_nodes H key n r =
     (let keys = hr_sorted_keys r; len = length keys in
      if keys = [] then []
      else
        let idx = ring_bisect (H key) r
        in collect_owners n
             (map (\<lambda>i. the (map_of (hr_ring r) (keys ! ((idx + i) mod len)))) [0..<len]) [])"

section \<open>Two-tier store\<close>

datatype tier = Dram | Nvme

record 'b cache_entry =
  en_key :: string
  en_data :: "'b list"
  en_size_bytes :: int
  en_tier :: tier
  en_inserted_at :: real
  en_last_access :: real
  en_hit_count :: int

record 'b tier_store =
  ts_dram_limit :: int
  ts_nvme_limit :: int
  ts_dram :: "(string, 'b cache_entry) dict"
  ts_dram_bytes :: int
  ts_nvme_index :: "(string, 'b cache_entry) dict"
  ts_nvme_bytes :: int
  ts_hits_dram :: int
  ts_hits_nvme :: int
  ts_misses :: int
  ts_evictions :: int
  ts_files :: "int \<rightharpoonup> 'b list"

definition tier_store_init :: "int \<Rightarrow> int \<Rightarrow> (int \<rightharpoonup> 'b list) \<Rightarrow> 'b tier_store" where
  "tier_store_init dram_limit_bytes nvme_limit_bytes files =
     \<lparr>ts_dram_limit = dram_limit_bytes, ts_nvme_limit = nvme_limit_bytes, ts_dram = [],
      ts_dram_bytes = 0, ts_nvme_index = [], ts_nvme_bytes = 0, ts_hits_dram = 0, ts_hits_nvme = 0,
      ts_misses = 0, ts_evictions = 0, ts_files = files\<rparr>"

text \<open>
  The environment of the file system: the digest, the keys whose write succeeds (a failed one
  is logged and ignored) and whether reads succeed.
\<close>

record io_env =
  io_hash :: "string \<Rightarrow> int"
  io_write_ok :: "string \<Rightarrow> bool"
  io_read_ok :: bool

definition nvme_write :: "io_env \<Rightarrow> string \<Rightarrow> 'b list \<Rightarrow> 'b tier_store \<Rightarrow> 'b tier_store" where
  "nvme_write io key data s =
     (if io_write_ok io key then s\<lparr>ts_files := (ts_files s)(io_hash io key \<mapsto> data)\<rparr> else s)"

definition nvme_read :: "io_env \<Rightarrow> string \<Rightarrow> 'b tier_store \<Rightarrow> 'b list option" where
  "nvme_read io key s = (if io_read_ok io then ts_files s (io_hash io key) else None)"

definition evict_one :: "io_env \<Rightarrow> 'b tier_store \<Rightarrow> 'b tier_store" where
  "evict_one io s =
     (case py_min (\<lambda>(k, e). en_last_access e) (ts_dram s) of
        None \<Rightarrow> s
      | Some (victim_key, victim) \<Rightarrow>
          (let s1 = s\<lparr>ts_dram := AList.delete victim_key (ts_dram s),
                     ts_dram_bytes := ts_dram_bytes s - en_size_bytes victim,
                     ts_evictions := ts_evictions s + 1\<rparr>
           in if ts_nvme_bytes s1 + en_size_bytes victim \<le> ts_nvme_limit s1
              then (let s2 = nvme_write io victim_key (en_data victim) s1
                    in s2\<lparr>ts_nvme_index :=
                            AList.update victim_key (victim\<lparr>en_tier := Nvme\<rparr>) (ts_nvme_index s2),
                          ts_nvme_bytes := ts_nvme_bytes s2 + en_size_bytes victim\<rparr>)
              else s1))"

lemma alist_delete_shorter: "k \<in> fst ` set al \<Longrightarrow> length (AList.delete k al) < length al"
proof -
  assume "k \<in> fst ` set al"
  then obtain v where "(k, v) \<in> set al" by auto
  then show ?thesis unfolding AList.delete_eq by (rule length_filter_less) simp
qed

lemma evict_one_shorter: "ts_dram s \<noteq> [] \<Longrightarrow> length (ts_dram (evict_one io s)) < length (ts_dram s)"
proof -
  assume ne: "ts_dram s \<noteq> []"
  then obtain k e where m: "py_min (\<lambda>(k, e). en_last_access e) (ts_dram s) = Some (k, e)"
    by (metis not_None_eq py_min_None surj_pair)
  then have "k \<in> fst ` set (ts_dram s)" using py_min_in [OF m] by force
  then have "length (AList.delete k (ts_dram s)) < length (ts_dram s)" by (rule alist_delete_shorter)
  then show ?thesis using m by (simp add: evict_one_def Let_def nvme_write_def)
qed

function evict_dram_if_needed :: "io_env \<Rightarrow> int \<Rightarrow> 'b tier_store \<Rightarrow> 'b tier_store" where
  "evict_dram_if_needed io needed s =
     (if ts_dram_limit s < ts_dram_bytes s + needed \<and> ts_dram s \<noteq> []
      then evict_dram_if_needed io needed (evict_one io s)
      else s)"
  by pat_completeness auto
termination
  by (relation "measure (\<lambda>(io, needed, s). length (ts_dram s))") (auto simp: evict_one_shorter)

declare evict_dram_if_needed.simps [simp del]

definition ts_put :: "io_env \<Rightarrow> real \<Rightarrow> string \<Rightarrow> 'b list \<Rightarrow> 'b tier_store \<Rightarrow> 'b tier_store" where
  "ts_put io now key data s =
     (let size = int (length data);
          s1 = evict_dram_if_needed io size s;
          entry = \<lparr>en_key = key, en_data = data, en_size_bytes = size, en_tier = Dram,
                   en_inserted_at = now, en_last_access = now, en_hit_count = 0\<rparr>
      in s1\<lparr>ts_dram := AList.update key entry (ts_dram s1),
            ts_dram_bytes := ts_dram_bytes s1 + size\<rparr>)"

definition promote ::
    "io_env \<Rightarrow> real \<Rightarrow> string \<Rightarrow> 'b cache_entry \<Rightarrow> 'b list \<Rightarrow> 'b tier_store \<Rightarrow> 'b tier_store" where
  "promote io now key e data s =
     (let s1 = evict_dram_if_needed io (int (length data)) s;
          promoted = \<lparr>en_key = key, en_data = data, en_size_bytes = int (length data),
                      en_tier = Dram, en_inserted_at = now, en_last_access = now,
                      en_hit_count = en_hit_count e + 1\<rparr>
      in s1\<lparr>ts_dram := AList.update key promoted (ts_dram s1),
            ts_dram_bytes := ts_dram_bytes s1 + int (length data),
            ts_nvme_index := AList.delete key (ts_nvme_index s1),
            ts_nvme_bytes := ts_nvme_bytes s1 - en_size_bytes e,
            ts_hits_nvme := ts_hits_nvme s1 + 1\<rparr>)"

definition ts_get :: "io_env \<Rightarrow> real \<Rightarrow> string \<Rightarrow> 'b tier_store \<Rightarrow> 'b list option \<times> 'b tier_store" where
  "ts_get io now key s =
     (case map_of (ts_dram s) key of
        Some e \<Rightarrow>
          (Some (en_data e),
           s\<lparr>ts_dram := AList.update key
               (e\<lparr>en_last_access := now, en_hit_count := en_hit_count e + 1\<rparr>) (ts_dram s),
             ts_hits_dram := ts_hits_dram s + 1\<rparr>)
      | None \<Rightarrow>
          (case map_of (ts_nvme_index s) key of
             Some e \<Rightarrow>
               (case nvme_read io key s of
                  Some data \<Rightarrow> (Some data, promote io now key e data s)
                | None \<Rightarrow> (None, s\<lparr>ts_misses := ts_misses s + 1\<rparr>))
           | None \<Rightarrow> (None, s\<lparr>ts_misses := ts_misses s + 1\<rparr>)))"

record tier_stats =
  tst_dram_bytes :: int
  tst_nvme_bytes :: int
  tst_hits_dram :: int
  tst_hits_nvme :: int
  tst_misses :: int
  tst_hit_rate :: real
  tst_evictions :: int

definition ts_get_stats :: "'b tier_store \<Rightarrow> tier_stats" where
  "ts_get_stats s =
     (let total = ts_hits_dram s + ts_hits_nvme s + ts_misses s in
      \<lparr>tst_dram_bytes = ts_dram_bytes s, tst_nvme_bytes = ts_nvme_bytes s,
       tst_hits_dram = ts_hits_dram s, tst_hits_nvme = ts_hits_nvme s, tst_misses = ts_misses s,
       tst_hit_rate = of_int (ts_hits_dram s + ts_hits_nvme s) / of_int (max 1 total),
       tst_evictions = ts_evictions s\<rparr>)"

section \<open>P2PCacheStore\<close>

text \<open>The network: what sending a put to an address, or fetching from it, gives.\<close>

record 'b net_env =
  ne_put :: "int \<Rightarrow> string \<Rightarrow> 'b list \<Rightarrow> bool"
  ne_get :: "int \<Rightarrow> string \<Rightarrow> 'b list option"

record 'b p2p_store =
  pp_rank :: int
  pp_world_size :: nat
  pp_replication :: int
  pp_simulation :: bool
  pp_local_store :: "'b tier_store"
  pp_ring :: hash_ring
  pp_peer_addrs :: "(int, string) dict"
  pp_puts_local :: int
  pp_puts_remote :: int
  pp_gets_local :: int
  pp_gets_remote :: int
  pp_gets_miss :: int

definition p2p_init ::
    "(string \<Rightarrow> int) \<Rightarrow> int \<Rightarrow> nat \<Rightarrow> real \<Rightarrow> real \<Rightarrow> int \<Rightarrow> bool \<Rightarrow> (int \<rightharpoonup> 'b list) \<Rightarrow> 'b p2p_store" where
  "p2p_init H rank world_size dram_limit_gb nvme_limit_gb replication simulation files =
     \<lparr>pp_rank = rank, pp_world_size = world_size, pp_replication = replication,
      pp_simulation = simulation,
      pp_local_store = tier_store_init (py_int (dram_limit_gb * 1024 ^ 3))
        (py_int (nvme_limit_gb * 1024 ^ 3)) files,
      pp_ring = fold (\<lambda>r. add_node H (int r)) [0..<world_size] (ring_init DHT_VIRTUAL_NODES),
      pp_peer_addrs = [], pp_puts_local = 0, pp_puts_remote = 0, pp_gets_local = 0,
      pp_gets_remote = 0, pp_gets_miss = 0\<rparr>"

definition remote_put :: "'b net_env \<Rightarrow> int \<Rightarrow> string \<Rightarrow> 'b list \<Rightarrow> 'b p2p_store \<Rightarrow> bool" where
  "remote_put net target_rank key data p =
     (if pp_simulation p then True
      else case map_of (pp_peer_addrs p) target_rank of
             None \<Rightarrow> False
           | Some addr \<Rightarrow> ne_put net target_rank key data)"

definition remote_get :: "'b net_env \<Rightarrow> int \<Rightarrow> string \<Rightarrow> 'b p2p_store \<Rightarrow> 'b list option" where
  "remote_get net target_rank key p =
     (if pp_simulation p then None
      else case map_of (pp_peer_addrs p) target_rank of
             None \<Rightarrow> None
           | Some addr \<Rightarrow> ne_get net target_rank key)"

fun put_owners ::
    "io_env \<Rightarrow> 'b net_env \<Rightarrow> real \<Rightarrow> string \<Rightarrow> 'b list \<Rightarrow> int list \<Rightarrow> 'b p2p_store \<Rightarrow> int list \<times> 'b p2p_store" where
  "put_owners io net now key data [] p = ([], p)"
| "put_owners io net now key data (owner # owners) p =
     (if owner = pp_rank p \<or> pp_simulation p
      then (let p1 = p\<lparr>pp_local_store := ts_put io now key data (pp_local_store p),
                       pp_puts_local := pp_puts_local p + 1\<rparr>;
                (stored_on, p2) = put_owners io net now key data owners p1
            in (pp_rank p # stored_on, p2))
      else if remote_put net owner key data p
      then (let (stored_on, p2) =
                  put_owners io net now key data owners (p\<lparr>pp_puts_remote := pp_puts_remote p + 1\<rparr>)
            in (owner # stored_on, p2))
      else put_owners io net now key data owners p)"

definition p2p_put ::
    "io_env \<Rightarrow> 'b net_env \<Rightarrow> real \<Rightarrow> string \<Rightarrow> 'b list \<Rightarrow> 'b p2p_store \<Rightarrow> int list \<times> 'b p2p_store" where
  "p2p_put io net now key data p =
     put_owners io net now key data (get_nodes (io_hash io) key (pp_replication p) (pp_ring p)) p"

fun get_owners ::
    "io_env \<Rightarrow> 'b net_env \<Rightarrow> real \<Rightarrow> string \<Rightarrow> int list \<Rightarrow> 'b p2p_store \<Rightarrow> 'b list option \<times> 'b p2p_store" where
  "get_owners io net now key [] p = (None, p\<lparr>pp_gets_miss := pp_gets_miss p + 1\<rparr>)"
| "get_owners io net now key (owner # owners) p =
     (if owner = pp_rank p \<or> pp_simulation p
      then (case ts_get io now key (pp_local_store p) of
              (Some data, s) \<Rightarrow>
                (Some data, p\<lparr>pp_local_store := s, pp_gets_local := pp_gets_local p + 1\<rparr>)
            | (None, s) \<Rightarrow> get_owners io net now key owners (p\<lparr>pp_local_store := s\<rparr>))
      else (case remote_get net owner key p of
              Some data \<Rightarrow> (Some data, p\<lparr>pp_gets_remote := pp_gets_remote p + 1\<rparr>)
            | None \<Rightarrow> get_owners io net now key owners p))"

definition p2p_get ::
    "io_env \<Rightarrow> 'b net_env \<Rightarrow> real \<Rightarrow> string \<Rightarrow> 'b p2p_store \<Rightarrow> 'b list option \<times> 'b p2p_store" where
  "p2p_get io net now key p =
     get_owners io net now key (get_nodes (io_hash io) key (pp_replication p) (pp_ring p)) p"

definition get_or_put ::
    "io_env \<Rightarrow> 'b net_env \<Rightarrow> real \<Rightarrow> string \<Rightarrow> 'b list \<Rightarrow> 'b p2p_store \<Rightarrow> 'b list \<times> 'b p2p_store" where
  "get_or_put io net now key produced p =
     (case p2p_get io net now key p of
        (Some data, p1) \<Rightarrow> (data, p1)
      | (None, p1) \<Rightarrow> (produced, snd (p2p_put io net now key produced p1)))"

definition p2p_evict :: "(string \<Rightarrow> int) \<Rightarrow> string \<Rightarrow> 'b p2p_store \<Rightarrow> 'b p2p_store" where
  "p2p_evict H key p =
     (if pp_rank p \<in> set (get_nodes H key (pp_replication p) (pp_ring p)) \<or> pp_simulation p
      then p\<lparr>pp_local_store := (pp_local_store p)
               \<lparr>ts_dram := AList.delete key (ts_dram (pp_local_store p))\<rparr>\<rparr>
      else p)"

record p2p_stats =
  ppst_rank :: int
  ppst_puts_local :: int
  ppst_puts_remote :: int
  ppst_gets_local :: int
  ppst_gets_remote :: int
  ppst_gets_miss :: int
  ppst_hit_rate :: real
  ppst_local_store :: tier_stats

definition p2p_get_stats :: "'b p2p_store \<Rightarrow> p2p_stats" where
  "p2p_get_stats p =
     (let total = pp_puts_local p + pp_puts_remote p + pp_gets_local p + pp_gets_remote p
                  + pp_gets_miss p
      in \<lparr>ppst_rank = pp_rank p, ppst_puts_local = pp_puts_local p,
          ppst_puts_remote = pp_puts_remote p, ppst_gets_local = pp_gets_local p,
          ppst_gets_remote = pp_gets_remote p, ppst_gets_miss = pp_gets_miss p,
          ppst_hit_rate = of_int (pp_gets_local p + pp_gets_remote p) / of_int (max 1 total),
          ppst_local_store = ts_get_stats (pp_local_store p)\<rparr>)"

section \<open>Ring lemmas\<close>

lemma bisect_loop_spec:
  assumes "sorted keys" and "lo \<le> hi" and "hi \<le> length keys"
    and "\<forall>j < lo. keys ! j < h" and "\<forall>j. hi \<le> j \<and> j < length keys \<longrightarrow> h \<le> keys ! j"
  shows "bisect_loop keys h lo hi = length (takeWhile (\<lambda>k. k < h) keys)"
  using assms
proof (induction keys h lo hi rule: bisect_loop.induct)
  case (1 keys h lo hi)
  let ?mid = "(lo + hi) div 2"
  show ?case
  proof (cases "lo < hi")
    case False
    then have "lo = hi" using "1.prems" by simp
    have "length (takeWhile (\<lambda>k. k < h) keys) = lo"
      using "1.prems" \<open>lo = hi\<close> takeWhile_eq_take_P_nth [of lo keys "\<lambda>k. k < h"]
      by (simp add: not_less)
    then show ?thesis using False by (simp add: bisect_loop.simps [of keys h lo hi])
  next
    case True
    then have mid: "lo \<le> ?mid" "?mid < hi" "?mid < length keys" using "1.prems" by auto
    show ?thesis
    proof (cases "keys ! ?mid < h")
      case lt: True
      have "\<forall>j < ?mid + 1. keys ! j < h"
        using lt mid(3) sorted_nth_mono [OF "1.prems"(1)] by (metis less_Suc_eq_le Suc_eq_plus1 order_le_less_trans)
      then show ?thesis
        using True lt mid "1.IH"(1) "1.prems" by (simp add: bisect_loop.simps [of keys h lo hi] Let_def)
    next
      case ge: False
      have "\<forall>j. ?mid \<le> j \<and> j < length keys \<longrightarrow> h \<le> keys ! j"
        using ge sorted_nth_mono [OF "1.prems"(1)] by (metis not_less order_trans)
      then show ?thesis
        using True ge mid "1.IH"(2) "1.prems" by (simp add: bisect_loop.simps [of keys h lo hi] Let_def)
    qed
  qed
qed

text \<open>The point that owns a hash: the first one at or after it, or the first of all.\<close>

definition succ_point :: "int \<Rightarrow> int list \<Rightarrow> int" where
  "succ_point h keys = (case dropWhile (\<lambda>k. k < h) keys of [] \<Rightarrow> hd keys | k # _ \<Rightarrow> k)"

lemma succ_point_in: "keys \<noteq> [] \<Longrightarrow> succ_point h keys \<in> set keys"
proof (cases "dropWhile (\<lambda>k. k < h) keys")
  case (Cons k ks)
  then have "k \<in> set (dropWhile (\<lambda>k. k < h) keys)" by simp
  then show ?thesis using Cons set_dropWhileD by (fastforce simp: succ_point_def)
next
  case Nil
  assume "keys \<noteq> []"
  then show ?thesis unfolding succ_point_def Nil by simp
qed

lemma succ_point_filter:
  assumes "keys \<noteq> []" and "P (succ_point h keys)"
  shows "succ_point h (filter P keys) = succ_point h keys"
proof -
  show ?thesis
  proof (cases "dropWhile (\<lambda>k. k < h) keys")
    case Nil
    then have all: "\<forall>k \<in> set keys. k < h" by (simp add: dropWhile_eq_Nil_conv)
    have "P (hd keys)" using assms unfolding succ_point_def Nil by simp
    then have "hd (filter P keys) = hd keys" using assms(1) by (cases keys) simp_all
    moreover have "dropWhile (\<lambda>k. k < h) (filter P keys) = []"
      using all by (simp add: dropWhile_eq_Nil_conv)
    ultimately show ?thesis unfolding succ_point_def Nil
      by (simp only: list.case)
  next
    case (Cons k ks)
    have "\<not> k < h" using Cons by (metis hd_dropWhile list.distinct(1) list.sel(1))
    have "P k" using assms Cons by (simp add: succ_point_def)
    have "keys = takeWhile (\<lambda>k. k < h) keys @ k # ks"
      by (simp only: Cons [symmetric] takeWhile_dropWhile_id)
    then obtain tw where tw: "keys = tw @ k # ks" "\<forall>x \<in> set tw. x < h"
      using set_takeWhileD [of _ "\<lambda>k. k < h" keys] by metis
    then have "filter P keys = filter P tw @ k # filter P ks" using \<open>P k\<close> by simp
    moreover have "dropWhile (\<lambda>k. k < h) (filter P tw @ k # filter P ks) = k # filter P ks"
      using \<open>\<not> k < h\<close> tw(2) by (subst dropWhile_append2) simp_all
    ultimately have "dropWhile (\<lambda>k. k < h) (filter P keys) = k # filter P ks" by simp
    then show ?thesis using Cons by (simp add: succ_point_def)
  qed
qed

definition ring_wf :: "hash_ring \<Rightarrow> bool" where
  "ring_wf r \<longleftrightarrow> distinct (map fst (hr_ring r)) \<and> hr_sorted_keys r = sort (map fst (hr_ring r))"

lemma fold_delete_keys:
  "map fst (fold (\<lambda>i. AList.delete (f i)) is al) = filter (\<lambda>k. k \<notin> f ` set is) (map fst al)"
  by (induction "is" arbitrary: al)
    (auto simp: delete_keys removeAll_filter_not_eq filter_filter intro!: filter_cong)

lemma fold_delete_map_of:
  "k \<notin> f ` set is \<Longrightarrow> map_of (fold (\<lambda>i. AList.delete (f i)) is al) k = map_of al k"
  by (induction "is" arbitrary: al) simp_all

lemma fold_update_keys:
  "fst ` set (fold (\<lambda>i. AList.update (f i) v) is al) = f ` set is \<union> fst ` set al"
  by (induction "is" arbitrary: al) (auto simp: dom_update)

lemma fold_update_distinct:
  "distinct (map fst al) \<Longrightarrow> distinct (map fst (fold (\<lambda>i. AList.update (f i) v) is al))"
  by (induction "is" arbitrary: al) (simp_all add: distinct_update)

lemma ring_update_map_of:
  "map_of (fold (\<lambda>i. AList.update (f i) v) is al) k = (if k \<in> f ` set is then Some v else map_of al k)"
  by (induction "is" arbitrary: al) (auto simp: update_conv')

lemma ring_wf_ops:
  "ring_wf (ring_init vn)" "ring_wf r \<Longrightarrow> ring_wf (add_node H rank r)"
  "ring_wf r \<Longrightarrow> ring_wf (remove_node H rank r)"
  by (simp_all add: ring_wf_def ring_init_def add_node_def remove_node_def Let_def
      fold_update_distinct fold_delete_keys)

lemma ring_bisect_point:
  assumes "ring_wf r" and "hr_sorted_keys r \<noteq> []"
  shows "ring_bisect h r < length (hr_sorted_keys r)"
    and "hr_sorted_keys r ! ring_bisect h r = succ_point h (hr_sorted_keys r)"
proof -
  let ?k = "hr_sorted_keys r" and ?n = "length (takeWhile (\<lambda>k. k < h) (hr_sorted_keys r))"
  have b: "ring_bisect h r = ?n mod length ?k"
    using assms bisect_loop_spec [of ?k 0 "length ?k" h]
    by (simp add: ring_bisect_def ring_wf_def max_def Suc_le_eq)
  then show "ring_bisect h r < length ?k" using assms(2) by simp
  have split: "?k = takeWhile (\<lambda>k. k < h) ?k @ dropWhile (\<lambda>k. k < h) ?k" by simp
  show "?k ! ring_bisect h r = succ_point h ?k"
  proof (cases "dropWhile (\<lambda>k. k < h) ?k")
    case Nil
    then have "?n = length ?k" using split by (metis append_Nil2)
    then have "?k ! ring_bisect h r = hd ?k" using b assms(2) by (simp add: hd_conv_nth)
    then show ?thesis unfolding succ_point_def Nil by simp
  next
    case (Cons k ks)
    then have "?k = takeWhile (\<lambda>k. k < h) ?k @ k # ks" using split by simp
    then have "?n < length ?k" "?k ! ?n = k"
      by (metis length_append length_Cons less_add_Suc1 add_Suc_right, metis nth_append_length)
    then show ?thesis using b Cons by (simp add: succ_point_def)
  qed
qed

text \<open>The owner of a key.\<close>

definition owner_of :: "int \<Rightarrow> hash_ring \<Rightarrow> int" where
  "owner_of h r = the (map_of (hr_ring r) (succ_point h (hr_sorted_keys r)))"

lemma get_nodes_one:
  assumes "ring_wf r" and "hr_sorted_keys r \<noteq> []"
  shows "get_nodes H key 1 r = [owner_of (H key) r]"
proof -
  let ?k = "hr_sorted_keys r"
  have "[0..<length ?k] = 0 # [1..<length ?k]" using assms(2) by (simp add: upt_rec)
  then show ?thesis using assms ring_bisect_point [OF assms]
    by (simp add: get_nodes_def Let_def owner_of_def)
qed

lemma collect_owners_spec:
  assumes "distinct owners"
  shows "distinct (collect_owners n nodes owners) \<and>
    set (collect_owners n nodes owners) \<subseteq> set owners \<union> set nodes \<and>
    set owners \<subseteq> set (collect_owners n nodes owners) \<and>
    (nodes \<noteq> [] \<longrightarrow> collect_owners n nodes owners \<noteq> []) \<and>
    (int (length owners) \<le> max 0 (n - 1) \<longrightarrow> int (length (collect_owners n nodes owners)) \<le> max 1 n) \<and>
    (int (length (collect_owners n nodes owners)) < n \<longrightarrow>
       set (collect_owners n nodes owners) = set owners \<union> set nodes)"
  using assms
proof (induction n nodes owners rule: collect_owners.induct)
  case (1 n owners)
  then show ?case by auto
next
  case (2 n node nodes owners)
  let ?o = "if node \<in> set owners then owners else owners @ [node]"
  have d: "distinct ?o" "set ?o = insert node (set owners)" "?o \<noteq> []" using "2.prems" by auto
  show ?case
  proof (cases "n \<le> int (length ?o)")
    case True
    then show ?thesis using d by (auto simp: Let_def)
  next
    case False
    then have eq: "collect_owners n (node # nodes) owners = collect_owners n nodes ?o"
      by (simp add: Let_def)
    have "int (length ?o) \<le> max 0 (n - 1)" using False by simp
    moreover note "2.IH" [OF refl False d(1)]
    moreover from this have "collect_owners n nodes ?o \<noteq> []" using d(2) by (metis empty_set insert_not_empty subset_empty)
    ultimately show ?thesis unfolding eq using d by auto
  qed
qed

lemma rotation_covers:
  assumes "0 < (len :: nat)"
  shows "(\<lambda>i. (idx + i) mod len) ` {0..<len} = {0..<len}"
proof (intro set_eqI iffI)
  fix j :: nat assume "j \<in> {0..<len}"
  then have j: "j < len" by simp
  let ?i = "(j + (len - idx mod len)) mod len"
  have "(idx + ?i) mod len = (idx mod len + (j + (len - idx mod len))) mod len"
    by (simp add: mod_add_eq mod_add_left_eq mod_add_right_eq)
  also have "idx mod len + (j + (len - idx mod len)) = j + len"
    using assms mod_less_divisor [OF assms, of idx] by linarith
  also have "(j + len) mod len = j" using j by simp
  finally show "j \<in> (\<lambda>i. (idx + i) mod len) ` {0..<len}"
    using assms by (auto intro!: image_eqI [of _ _ ?i])
qed (use assms in auto)

lemma ring_keys: "ring_wf r \<Longrightarrow> set (hr_sorted_keys r) = fst ` set (hr_ring r)"
  by (simp add: ring_wf_def)

lemma get_nodes_list:
  assumes "hr_sorted_keys r \<noteq> []"
  shows "set (map (\<lambda>i. the (map_of (hr_ring r) (hr_sorted_keys r ! ((idx + i) mod length (hr_sorted_keys r)))))
      [0..<length (hr_sorted_keys r)]) = (\<lambda>k. the (map_of (hr_ring r) k)) ` set (hr_sorted_keys r)"
    (is "?L = ?R")
proof -
  let ?k = "hr_sorted_keys r"
  have "?L = (\<lambda>j. the (map_of (hr_ring r) (?k ! j))) ` (\<lambda>i. (idx + i) mod length ?k) ` {0..<length ?k}"
    by (simp add: image_image)
  also have "\<dots> = (\<lambda>j. the (map_of (hr_ring r) (?k ! j))) ` {0..<length ?k}"
    using assms by (subst rotation_covers) simp_all
  also have "\<dots> = (\<lambda>k. the (map_of (hr_ring r) k)) ` (!) ?k ` {0..<length ?k}"
    by (simp only: image_image)
  also have "\<dots> = ?R" using list.set_map [of "(!) ?k" "[0..<length ?k]"] by (simp add: map_nth)
  finally show ?thesis .
qed

lemma ring_ranks:
  "ring_wf r \<Longrightarrow> (\<lambda>k. the (map_of (hr_ring r) k)) ` set (hr_sorted_keys r) = snd ` set (hr_ring r)"
  by (force simp: ring_wf_def image_iff)

section \<open>Store lemmas\<close>

definition in_dram :: "string \<Rightarrow> 'b tier_store \<Rightarrow> bool" where
  "in_dram k s \<longleftrightarrow> k \<in> fst ` set (ts_dram s)"

definition in_nvme :: "string \<Rightarrow> 'b tier_store \<Rightarrow> bool" where
  "in_nvme k s \<longleftrightarrow> k \<in> fst ` set (ts_nvme_index s)"

definition fresh_key :: "string \<Rightarrow> 'b tier_store \<Rightarrow> bool" where
  "fresh_key k s \<longleftrightarrow> \<not> in_dram k s \<and> \<not> in_nvme k s"

text \<open>What a \<open>get\<close> of a key would return.\<close>

definition lookup :: "io_env \<Rightarrow> 'b tier_store \<Rightarrow> string \<Rightarrow> 'b list option" where
  "lookup io s k =
     (case map_of (ts_dram s) k of
        Some e \<Rightarrow> Some (en_data e)
      | None \<Rightarrow> if in_nvme k s then nvme_read io k s else None)"

definition sizes :: "(string, 'b cache_entry) dict \<Rightarrow> int" where
  "sizes al = sum_list (map (en_size_bytes \<circ> snd) al)"

definition io_good :: "string set \<Rightarrow> io_env \<Rightarrow> bool" where
  "io_good K io \<longleftrightarrow> inj_on (io_hash io) K \<and> (\<forall>k. io_write_ok io k) \<and> io_read_ok io"

text \<open>
  The invariant of a store whose keys are written once and lie in \<open>K\<close>: no key is in both tiers, the byte
  counters are the sums of the entries, the NVMe budget holds, and the files hold the data.
\<close>

definition store_ok :: "string set \<Rightarrow> io_env \<Rightarrow> 'b tier_store \<Rightarrow> bool" where
  "store_ok K io s \<longleftrightarrow> distinct (map fst (ts_dram s)) \<and> distinct (map fst (ts_nvme_index s)) \<and>
     fst ` set (ts_dram s) \<inter> fst ` set (ts_nvme_index s) = {} \<and>
     fst ` set (ts_dram s) \<subseteq> K \<and> fst ` set (ts_nvme_index s) \<subseteq> K \<and>
     ts_dram_bytes s = sizes (ts_dram s) \<and> ts_nvme_bytes s = sizes (ts_nvme_index s) \<and>
     ts_nvme_bytes s \<le> max 0 (ts_nvme_limit s) \<and>
     (\<forall>(k, e) \<in> set (ts_dram s). en_size_bytes e = int (length (en_data e))) \<and>
     (\<forall>(k, e) \<in> set (ts_nvme_index s). en_size_bytes e = int (length (en_data e)) \<and>
        ts_files s (io_hash io k) = Some (en_data e))"

lemma sizes_update_new: "k \<notin> fst ` set al \<Longrightarrow> sizes (AList.update k e al) = sizes al + en_size_bytes e"
  by (induction al) (auto simp: sizes_def)

lemma sizes_update_old:
  "distinct (map fst al) \<Longrightarrow> map_of al k = Some e \<Longrightarrow> en_size_bytes e' = en_size_bytes e \<Longrightarrow>
     sizes (AList.update k e' al) = sizes al"
  by (induction al) (auto simp: sizes_def)

lemma sizes_delete:
  "distinct (map fst al) \<Longrightarrow> map_of al k = Some e \<Longrightarrow> sizes (AList.delete k al) = sizes al - en_size_bytes e"
proof (induction al)
  case (Cons p al)
  then show ?case by (cases p) (auto simp: sizes_def dest: map_of_SomeD)
qed simp

lemma evict_one_cases:
  assumes "distinct (map fst (ts_dram s))" and "ts_dram s \<noteq> []"
  obtains k e where "map_of (ts_dram s) k = Some e"
    "evict_one io s = (let s1 = s\<lparr>ts_dram := AList.delete k (ts_dram s),
        ts_dram_bytes := ts_dram_bytes s - en_size_bytes e, ts_evictions := ts_evictions s + 1\<rparr>
      in if ts_nvme_bytes s1 + en_size_bytes e \<le> ts_nvme_limit s1
         then (let s2 = nvme_write io k (en_data e) s1
               in s2\<lparr>ts_nvme_index := AList.update k (e\<lparr>en_tier := Nvme\<rparr>) (ts_nvme_index s2),
                     ts_nvme_bytes := ts_nvme_bytes s2 + en_size_bytes e\<rparr>)
         else s1)"
proof -
  obtain k e where m: "py_min (\<lambda>(k, e). en_last_access e) (ts_dram s) = Some (k, e)"
    using assms(2) by (metis not_None_eq py_min_None surj_pair)
  then have "map_of (ts_dram s) k = Some e" using assms(1) py_min_in [OF m] by simp
  then show ?thesis using m by (intro that [of k e]) (simp_all add: evict_one_def)
qed

lemma store_ok_keys:
  fixes s :: "'b tier_store"
  assumes "store_ok K io s"
  shows "(k, e) \<in> set (ts_dram s) \<Longrightarrow> k \<notin> fst ` set (ts_nvme_index s) \<and> k \<in> K"
    and "(k, e) \<in> set (ts_nvme_index s) \<Longrightarrow> k \<in> K"
proof -
  have d: "fst ` set (ts_dram s) \<inter> fst ` set (ts_nvme_index s) = {}" "fst ` set (ts_dram s) \<subseteq> K"
    "fst ` set (ts_nvme_index s) \<subseteq> K"
    using assms by (simp_all add: store_ok_def)
  have im: "(k, e) \<in> set al \<Longrightarrow> k \<in> fst ` set al" for al :: "(string, 'b cache_entry) dict"
    by (metis fst_conv image_eqI)
  show "k \<notin> fst ` set (ts_nvme_index s) \<and> k \<in> K" if "(k, e) \<in> set (ts_dram s)"
    using im [OF that] d(1) subsetD [OF d(2) im [OF that]] by (metis IntI empty_iff)
  show "k \<in> K" if "(k, e) \<in> set (ts_nvme_index s)"
    by (rule subsetD [OF d(3) im [OF that]])
qed

lemma lookup_ok:
  assumes "store_ok K io s" and "io_good K io"
  shows "lookup io s k = (case map_of (ts_dram s) k of Some e \<Rightarrow> Some (en_data e)
    | None \<Rightarrow> map_option en_data (map_of (ts_nvme_index s) k))"
proof (cases "map_of (ts_dram s) k")
  case (Some e)
  then show ?thesis by (simp add: lookup_def)
next
  case dram: None
  show ?thesis
  proof (cases "map_of (ts_nvme_index s) k")
    case None
    then have "\<not> in_nvme k s" by (simp add: in_nvme_def map_of_eq_None_iff)
    then show ?thesis using dram None by (simp add: lookup_def)
  next
    case (Some e)
    then have "(k, e) \<in> set (ts_nvme_index s)" by (rule map_of_SomeD)
    then have "in_nvme k s" "ts_files s (io_hash io k) = Some (en_data e)"
      using assms(1) by (force simp: in_nvme_def, auto simp: store_ok_def)
    then show ?thesis using dram Some assms(2)
      by (simp add: lookup_def nvme_read_def io_good_def)
  qed
qed

text \<open>Eviction: what it keeps, step by step.\<close>

definition evicts :: "string set \<Rightarrow> io_env \<Rightarrow> 'b tier_store \<Rightarrow> 'b tier_store \<Rightarrow> bool" where
  "evicts K io s s' \<longleftrightarrow> store_ok K io s' \<and> ts_dram_limit s' = ts_dram_limit s \<and>
     ts_nvme_limit s' = ts_nvme_limit s \<and>
     (\<forall>k. lookup io s' k = lookup io s k \<or> lookup io s' k = None) \<and>
     (\<forall>k. map_of (ts_dram s) k = None \<longrightarrow> map_of (ts_dram s') k = None \<and>
        map_of (ts_nvme_index s') k = map_of (ts_nvme_index s) k)"

lemma evicts_refl: "store_ok K io s \<Longrightarrow> evicts K io s s"
  by (simp add: evicts_def)

lemma evicts_trans: "evicts K io s t \<Longrightarrow> evicts K io t u \<Longrightarrow> evicts K io s u"
  unfolding evicts_def by metis

lemma spill_ok:
  assumes ok: "store_ok K io s" and good: "io_good K io" and k: "map_of (ts_dram s) k = Some e"
    and fits: "ts_nvme_bytes s + en_size_bytes e \<le> ts_nvme_limit s"
  shows "store_ok K io (s\<lparr>ts_dram := AList.delete k (ts_dram s),
      ts_dram_bytes := ts_dram_bytes s - en_size_bytes e, ts_evictions := n,
      ts_files := (ts_files s)(io_hash io k \<mapsto> en_data e),
      ts_nvme_index := AList.update k (e\<lparr>en_tier := Nvme\<rparr>) (ts_nvme_index s),
      ts_nvme_bytes := ts_nvme_bytes s + en_size_bytes e\<rparr>)"
proof -
  have kin: "(k, e) \<in> set (ts_dram s)" using k by (rule map_of_SomeD)
  then have knot: "k \<notin> fst ` set (ts_nvme_index s)" using store_ok_keys(1) [OF ok kin] by blast
  have files: "\<forall>(k', e') \<in> set (ts_nvme_index s). en_size_bytes e' = int (length (en_data e')) \<and>
      ((ts_files s)(io_hash io k \<mapsto> en_data e)) (io_hash io k') = Some (en_data e')"
  proof (intro ballI, clarify, intro conjI)
    fix k' e' assume in': "(k', e') \<in> set (ts_nvme_index s)"
    then have "k' \<noteq> k" using knot by force
    then have "io_hash io k' \<noteq> io_hash io k" using good store_ok_keys(1) [OF ok kin] store_ok_keys(2) [OF ok in']
      by (auto simp: io_good_def inj_on_def)
    then show "((ts_files s)(io_hash io k \<mapsto> en_data e)) (io_hash io k') = Some (en_data e')"
      using ok in' by (auto simp: store_ok_def)
    show "en_size_bytes e' = int (length (en_data e'))" using ok in' by (auto simp: store_ok_def)
  qed
  have "en_size_bytes e = int (length (en_data e))" using ok kin by (auto simp: store_ok_def)
  then have files': "\<forall>(k', e') \<in> set (AList.update k (e\<lparr>en_tier := Nvme\<rparr>) (ts_nvme_index s)).
      en_size_bytes e' = int (length (en_data e')) \<and>
      ((ts_files s)(io_hash io k \<mapsto> en_data e)) (io_hash io k') = Some (en_data e')"
    by (intro alist_update_all2 [OF files]) simp
  have dram: "\<forall>(k', e') \<in> set (AList.delete k (ts_dram s)). en_size_bytes e' = int (length (en_data e'))"
    using ok by (intro alist_delete_all) (simp add: store_ok_def)
  have sz: "sizes (AList.delete k (ts_dram s)) = ts_dram_bytes s - en_size_bytes e"
    "sizes (AList.update k (e\<lparr>en_tier := Nvme\<rparr>) (ts_nvme_index s)) = ts_nvme_bytes s + en_size_bytes e"
    using ok k by (simp_all add: store_ok_def sizes_delete sizes_update_new knot)
  have kk: "fst ` set (AList.delete k (ts_dram s)) \<subseteq> K"
    "fst ` set (AList.update k (e\<lparr>en_tier := Nvme\<rparr>) (ts_nvme_index s)) \<subseteq> K"
    using ok store_ok_keys(1) [OF ok kin] unfolding dom_delete dom_update store_ok_def by blast+
  have dj: "fst ` set (AList.delete k (ts_dram s)) \<inter>
      fst ` set (AList.update k (e\<lparr>en_tier := Nvme\<rparr>) (ts_nvme_index s)) = {}"
    using ok unfolding dom_delete dom_update store_ok_def by blast
  have "distinct (map fst (AList.delete k (ts_dram s)))"
    "distinct (map fst (AList.update k (e\<lparr>en_tier := Nvme\<rparr>) (ts_nvme_index s)))"
    using ok by (simp_all add: store_ok_def distinct_delete distinct_update)
  then show ?thesis using sz dj kk dram files' fits unfolding store_ok_def by simp
qed

lemma drop_ok:
  assumes ok: "store_ok K io s" and k: "map_of (ts_dram s) k = Some e"
  shows "store_ok K io (s\<lparr>ts_dram := AList.delete k (ts_dram s),
      ts_dram_bytes := ts_dram_bytes s - en_size_bytes e, ts_evictions := n\<rparr>)"
  using assms alist_delete_all [of "ts_dram s" "\<lambda>k e. en_size_bytes e = int (length (en_data e))" k]
  by (auto simp: store_ok_def sizes_delete distinct_delete dom_delete)

lemma evict_one_evicts:
  assumes ok: "store_ok K io s" and good: "io_good K io" and ne: "ts_dram s \<noteq> []"
  shows "evicts K io s (evict_one io s)"
proof -
  have dist: "distinct (map fst (ts_dram s))" using ok by (simp add: store_ok_def)
  obtain k e where k: "map_of (ts_dram s) k = Some e"
    and eq: "evict_one io s = (let s1 = s\<lparr>ts_dram := AList.delete k (ts_dram s),
        ts_dram_bytes := ts_dram_bytes s - en_size_bytes e, ts_evictions := ts_evictions s + 1\<rparr>
      in if ts_nvme_bytes s1 + en_size_bytes e \<le> ts_nvme_limit s1
         then (let s2 = nvme_write io k (en_data e) s1
               in s2\<lparr>ts_nvme_index := AList.update k (e\<lparr>en_tier := Nvme\<rparr>) (ts_nvme_index s2),
                     ts_nvme_bytes := ts_nvme_bytes s2 + en_size_bytes e\<rparr>)
         else s1)"
    by (rule evict_one_cases [OF dist ne, of io])
  have w: "io_write_ok io k" using good by (simp add: io_good_def)
  have knot: "map_of (ts_nvme_index s) k = None"
    using store_ok_keys(1) [OF ok map_of_SomeD [OF k]] by (simp add: map_of_eq_None_iff)
  show ?thesis
  proof (cases "ts_nvme_bytes s + en_size_bytes e \<le> ts_nvme_limit s")
    case True
    define s' where "s' = s\<lparr>ts_dram := AList.delete k (ts_dram s),
      ts_dram_bytes := ts_dram_bytes s - en_size_bytes e, ts_evictions := ts_evictions s + 1,
      ts_files := (ts_files s)(io_hash io k \<mapsto> en_data e),
      ts_nvme_index := AList.update k (e\<lparr>en_tier := Nvme\<rparr>) (ts_nvme_index s),
      ts_nvme_bytes := ts_nvme_bytes s + en_size_bytes e\<rparr>"
    have s': "evict_one io s = s'"
      using True w unfolding eq s'_def by (cases s) (simp add: Let_def nvme_write_def)
    have ok': "store_ok K io s'" unfolding s'_def by (rule spill_ok [OF ok good k True])
    have m: "map_of (ts_dram s') = (map_of (ts_dram s))(k := None)"
      "map_of (ts_nvme_index s') = (map_of (ts_nvme_index s))(k \<mapsto> e\<lparr>en_tier := Nvme\<rparr>)"
      by (simp_all add: s'_def delete_conv' update_conv')
    have "lookup io s' x = lookup io s x" for x
      using k by (simp add: lookup_ok [OF ok' good] lookup_ok [OF ok good] m split: option.split)
    moreover have "ts_dram_limit s' = ts_dram_limit s" "ts_nvme_limit s' = ts_nvme_limit s"
      by (simp_all add: s'_def)
    ultimately show ?thesis using ok' k unfolding s' evicts_def m by auto
  next
    case False
    define s' where "s' = s\<lparr>ts_dram := AList.delete k (ts_dram s),
      ts_dram_bytes := ts_dram_bytes s - en_size_bytes e, ts_evictions := ts_evictions s + 1\<rparr>"
    have s': "evict_one io s = s'" using False unfolding eq s'_def by (simp add: Let_def)
    have ok': "store_ok K io s'" unfolding s'_def by (rule drop_ok [OF ok k])
    have m: "map_of (ts_dram s') = (map_of (ts_dram s))(k := None)"
      "ts_nvme_index s' = ts_nvme_index s"
      by (simp_all add: s'_def delete_conv')
    have "lookup io s' x = lookup io s x \<or> lookup io s' x = None" for x
      using knot by (simp add: lookup_ok [OF ok' good] lookup_ok [OF ok good] m split: option.split)
    moreover have "ts_dram_limit s' = ts_dram_limit s" "ts_nvme_limit s' = ts_nvme_limit s"
      by (simp_all add: s'_def)
    ultimately show ?thesis using ok' unfolding s' evicts_def m by auto
  qed
qed

lemma evict_dram_evicts:
  assumes "store_ok K io s" and "io_good K io"
  shows "evicts K io s (evict_dram_if_needed io needed s) \<and>
    (ts_dram_bytes (evict_dram_if_needed io needed s) + needed \<le> ts_dram_limit s \<or>
     ts_dram (evict_dram_if_needed io needed s) = [])"
  using assms
proof (induction io needed s rule: evict_dram_if_needed.induct)
  case (1 io needed s)
  show ?case
  proof (cases "ts_dram_limit s < ts_dram_bytes s + needed \<and> ts_dram s \<noteq> []")
    case True
    have e: "evicts K io s (evict_one io s)" using 1 True by (intro evict_one_evicts) auto
    then have "store_ok K io (evict_one io s)" "ts_dram_limit (evict_one io s) = ts_dram_limit s"
      by (simp_all add: evicts_def)
    then show ?thesis using 1 True evicts_trans [OF e]
      by (simp add: evict_dram_if_needed.simps [of io needed s])
  next
    case False
    then show ?thesis using 1 by (auto simp: evict_dram_if_needed.simps [of io needed s] evicts_refl)
  qed
qed

section \<open>The interface of a write-once cache\<close>

text \<open>
  A lossy cache: a put of a fresh key is readable at once, no operation invents a value, and a
  read changes no value. Then every read of a sequence of puts of distinct keys gives nothing
  or exactly what was put.
\<close>

datatype ('t, 'k, 'v) cache_op = Put 't 'k 'v | Get 't 'k

fun cache_puts :: "('t, 'k, 'v) cache_op list \<Rightarrow> ('k \<times> 'v) list" where
  "cache_puts [] = []"
| "cache_puts (Put t k v # ops) = (k, v) # cache_puts ops"
| "cache_puts (Get t k # ops) = cache_puts ops"

fun run_cache ::
    "('t \<Rightarrow> 'k \<Rightarrow> 'v \<Rightarrow> 's \<Rightarrow> 's) \<Rightarrow> ('t \<Rightarrow> 'k \<Rightarrow> 's \<Rightarrow> 'v option \<times> 's) \<Rightarrow>
     ('t, 'k, 'v) cache_op list \<Rightarrow> 's \<Rightarrow> ('k \<times> 'v option) list \<times> 's" where
  "run_cache put get [] s = ([], s)"
| "run_cache put get (Put t k v # ops) s = run_cache put get ops (put t k v s)"
| "run_cache put get (Get t k # ops) s =
     (let (r, s1) = get t k s; (rs, s2) = run_cache put get ops s1 in ((k, r) # rs, s2))"

locale write_once_cache =
  fixes valid :: "'s \<Rightarrow> bool" and fresh :: "'k \<Rightarrow> 's \<Rightarrow> bool"
    and val_of :: "'s \<Rightarrow> 'k \<Rightarrow> 'v option"
    and put :: "'t \<Rightarrow> 'k \<Rightarrow> 'v \<Rightarrow> 's \<Rightarrow> 's" and get :: "'t \<Rightarrow> 'k \<Rightarrow> 's \<Rightarrow> 'v option \<times> 's"
  assumes put_valid: "valid s \<Longrightarrow> fresh k s \<Longrightarrow> valid (put t k v s)"
    and put_same: "valid s \<Longrightarrow> fresh k s \<Longrightarrow> val_of (put t k v s) k = Some v"
    and put_other: "valid s \<Longrightarrow> fresh k s \<Longrightarrow> k' \<noteq> k \<Longrightarrow>
        val_of (put t k v s) k' = val_of s k' \<or> val_of (put t k v s) k' = None"
    and put_fresh: "valid s \<Longrightarrow> fresh k s \<Longrightarrow> fresh k' s \<Longrightarrow> k' \<noteq> k \<Longrightarrow> fresh k' (put t k v s)"
    and get_valid: "valid s \<Longrightarrow> valid (snd (get t k s))"
    and get_value: "valid s \<Longrightarrow> fst (get t k s) = val_of s k"
    and get_other: "valid s \<Longrightarrow>
        val_of (snd (get t k s)) k' = val_of s k' \<or> val_of (snd (get t k s)) k' = None"
    and get_fresh: "valid s \<Longrightarrow> fresh k' s \<Longrightarrow> fresh k' (snd (get t k s))"
begin

lemma run_sound:
  assumes "valid s" and "distinct (map fst (cache_puts ops))"
    and "\<forall>k \<in> fst ` set (cache_puts ops). fresh k s"
    and "run_cache put get ops s = (rs, s')"
  shows "valid s' \<and> (\<forall>(k, r) \<in> set rs. r = None \<or> r = val_of s k \<or> (k, the r) \<in> set (cache_puts ops))"
  using assms
proof (induction ops arbitrary: s rs)
  case Nil
  then show ?case by simp
next
  case (Cons oper ops)
  show ?case
  proof (cases oper)
    case (Put t k v)
    let ?s = "put t k v s"
    have k: "fresh k s" "k \<notin> fst ` set (cache_puts ops)" "distinct (map fst (cache_puts ops))"
      using Cons.prems Put by auto
    have "\<forall>k' \<in> fst ` set (cache_puts ops). fresh k' ?s"
      using k Cons.prems Put by (intro ballI put_fresh) auto
    moreover have "run_cache put get ops ?s = (rs, s')" using Cons.prems Put by simp
    ultimately have ih: "valid s' \<and> (\<forall>(k, r) \<in> set rs. r = None \<or> r = val_of ?s k \<or> (k, the r) \<in> set (cache_puts ops))"
      using Cons.IH [OF put_valid [OF Cons.prems(1) k(1)] k(3)] by blast
    have "r = None \<or> r = val_of s k' \<or> (k', the r) \<in> set (cache_puts (Put t k v # ops))"
      if "(k', r) \<in> set rs" for k' r
    proof (cases "r = val_of ?s k'")
      case True
      have "val_of ?s k' = None \<or> val_of ?s k' = val_of s k' \<or> k' = k \<and> the (val_of ?s k') = v"
        using put_same [OF Cons.prems(1) k(1), of t v] put_other [OF Cons.prems(1) k(1), of k' t v]
        by (cases "k' = k") auto
      then show ?thesis using True by auto
    next
      case False
      then show ?thesis using ih that by auto
    qed
    then show ?thesis using ih unfolding Put by blast
  next
    case (Get t k)
    obtain r s1 where g: "get t k s = (r, s1)" by (cases "get t k s")
    obtain rs1 where rs: "run_cache put get ops s1 = (rs1, s')" "rs = (k, r) # rs1"
      using Cons.prems Get g by (auto simp: Let_def split: prod.splits)
    have s1: "valid s1" "r = val_of s k" "\<And>k'. val_of s1 k' = val_of s k' \<or> val_of s1 k' = None"
      "\<And>k'. fresh k' s \<Longrightarrow> fresh k' s1"
      using get_valid [OF Cons.prems(1), of t k] get_value [OF Cons.prems(1), of t k]
        get_other [OF Cons.prems(1), of t k] get_fresh [OF Cons.prems(1), of _ t k] g by auto
    have "valid s' \<and> (\<forall>(k, r) \<in> set rs1. r = None \<or> r = val_of s1 k \<or> (k, the r) \<in> set (cache_puts ops))"
      using Cons.prems s1(4) Get by (intro Cons.IH [OF s1(1) _ _ rs(1)]) auto
    then show ?thesis using s1 rs(2) unfolding Get by fastforce
  qed
qed

end

section \<open>The tier store provides it\<close>

lemma insert_dram_ok:
  assumes ok: "store_ok K io s" and k: "map_of (ts_dram s) k = None" "map_of (ts_nvme_index s) k = None"
    and kK: "k \<in> K"
    and e: "en_size_bytes e = int (length (en_data e))"
  shows "store_ok K io (s\<lparr>ts_dram := AList.update k e (ts_dram s),
      ts_dram_bytes := ts_dram_bytes s + en_size_bytes e\<rparr>)"
proof -
  have knot: "k \<notin> fst ` set (ts_dram s)" "k \<notin> fst ` set (ts_nvme_index s)"
    using k by (simp_all add: map_of_eq_None_iff)
  have "\<forall>(k', e') \<in> set (AList.update k e (ts_dram s)). en_size_bytes e' = int (length (en_data e'))"
    using ok e by (intro alist_update_all2) (simp_all add: store_ok_def)
  moreover have "fst ` set (AList.update k e (ts_dram s)) \<inter> fst ` set (ts_nvme_index s) = {}"
    using ok knot unfolding dom_update store_ok_def by blast
  moreover have "fst ` set (AList.update k e (ts_dram s)) \<subseteq> K"
    using ok kK unfolding dom_update store_ok_def by blast
  ultimately show ?thesis
    using ok knot unfolding store_ok_def by (simp add: distinct_update sizes_update_new)
qed

lemma lookup_insert_dram:
  "lookup io (s\<lparr>ts_dram := AList.update k e (ts_dram s), ts_dram_bytes := b\<rparr>) k' =
     (if k' = k then Some (en_data e) else lookup io s k')"
  by (simp add: lookup_def update_conv' in_nvme_def nvme_read_def split: option.split)

lemma fresh_key_maps: "fresh_key k s \<longleftrightarrow> map_of (ts_dram s) k = None \<and> map_of (ts_nvme_index s) k = None"
  by (simp add: fresh_key_def in_dram_def in_nvme_def map_of_eq_None_iff)

lemma ts_put_fresh:
  fixes s :: "'b tier_store"
  assumes ok: "store_ok K io s" and good: "io_good K io" and f: "fresh_key k s" and kK: "k \<in> K"
  shows "store_ok K io (ts_put io now k data s)"
    and "lookup io (ts_put io now k data s) k' = (if k' = k then Some data
         else lookup io (evict_dram_if_needed io (int (length data)) s) k')"
    and "lookup io (ts_put io now k data s) k = Some data"
    and "k' \<noteq> k \<Longrightarrow> lookup io (ts_put io now k data s) k' \<in> {lookup io s k', None}"
    and "fresh_key k' s \<Longrightarrow> k' \<noteq> k \<Longrightarrow> fresh_key k' (ts_put io now k data s)"
    and "ts_dram_bytes (ts_put io now k data s) \<le> max (ts_dram_limit s) (int (length data))"
    and "ts_nvme_bytes (ts_put io now k data s) \<le> max 0 (ts_nvme_limit s)"
proof -
  define s1 where "s1 = evict_dram_if_needed io (int (length data)) s"
  define e where "e = \<lparr>en_key = k, en_data = data, en_size_bytes = int (length data), en_tier = Dram,
                   en_inserted_at = now, en_last_access = now, en_hit_count = 0\<rparr>"
  have p: "ts_put io now k data s =
      s1\<lparr>ts_dram := AList.update k e (ts_dram s1), ts_dram_bytes := ts_dram_bytes s1 + en_size_bytes e\<rparr>"
    by (simp add: ts_put_def s1_def e_def Let_def)
  have ev: "evicts K io s s1" and lim: "ts_dram_bytes s1 + int (length data) \<le> ts_dram_limit s \<or> ts_dram s1 = []"
    using evict_dram_evicts [OF ok good] by (auto simp: s1_def)
  have fr: "fresh_key x s \<Longrightarrow> fresh_key x s1" for x
    using ev by (simp add: fresh_key_maps evicts_def)
  have ok1: "store_ok K io s1" using ev by (simp add: evicts_def)
  have ee: "en_size_bytes e = int (length (en_data e))" "en_data e = data" by (simp_all add: e_def)
  show ok': "store_ok K io (ts_put io now k data s)"
    unfolding p using fr [OF f] by (intro insert_dram_ok ok1 ee kK) (simp_all add: fresh_key_maps)
  show "lookup io (ts_put io now k data s) k' = (if k' = k then Some data
         else lookup io (evict_dram_if_needed io (int (length data)) s) k')"
    unfolding p lookup_insert_dram ee s1_def ..
  show "lookup io (ts_put io now k data s) k = Some data" unfolding p lookup_insert_dram ee by simp
  show "k' \<noteq> k \<Longrightarrow> lookup io (ts_put io now k data s) k' \<in> {lookup io s k', None}"
    unfolding p lookup_insert_dram using ev by (simp add: evicts_def)
  show "fresh_key k' s \<Longrightarrow> k' \<noteq> k \<Longrightarrow> fresh_key k' (ts_put io now k data s)"
    using fr [of k'] unfolding p by (simp add: fresh_key_maps update_conv')
  have "ts_dram s1 = [] \<Longrightarrow> ts_dram_bytes s1 = 0" using ok1 by (simp add: store_ok_def sizes_def)
  then show "ts_dram_bytes (ts_put io now k data s) \<le> max (ts_dram_limit s) (int (length data))"
    using lim unfolding p by (auto simp: ee)
  show "ts_nvme_bytes (ts_put io now k data s) \<le> max 0 (ts_nvme_limit s)"
    using ok1 ev unfolding p by (simp add: store_ok_def evicts_def)
qed

lemma touch_dram:
  assumes ok: "store_ok K io s" and k: "map_of (ts_dram s) k = Some e"
    and e': "en_data e' = en_data e" "en_size_bytes e' = en_size_bytes e"
  shows "store_ok K io (s\<lparr>ts_dram := AList.update k e' (ts_dram s), ts_hits_dram := n\<rparr>)"
proof -
  have kin: "(k, e) \<in> set (ts_dram s)" using k by (rule map_of_SomeD)
  have "\<forall>(k', e') \<in> set (AList.update k e' (ts_dram s)). en_size_bytes e' = int (length (en_data e'))"
    using ok kin e' by (intro alist_update_all2) (auto simp: store_ok_def)
  moreover have "fst ` set (AList.update k e' (ts_dram s)) = fst ` set (ts_dram s)"
    using kin unfolding dom_update by force
  moreover have "sizes (AList.update k e' (ts_dram s)) = sizes (ts_dram s)"
    using ok k e' by (intro sizes_update_old) (simp_all add: store_ok_def)
  ultimately show ?thesis using ok unfolding store_ok_def by (simp add: distinct_update)
qed

lemma promote_ok:
  assumes ok: "store_ok K io s" and good: "io_good K io"
    and k: "map_of (ts_dram s) k = None" "map_of (ts_nvme_index s) k = Some e"
  shows "store_ok K io (promote io now k e (en_data e) s)"
    and "lookup io (promote io now k e (en_data e) s) k' = lookup io s k' \<or>
      lookup io (promote io now k e (en_data e) s) k' = None"
    and "fresh_key k' s \<Longrightarrow> fresh_key k' (promote io now k e (en_data e) s)"
proof -
  define s1 where "s1 = evict_dram_if_needed io (int (length (en_data e))) s"
  define e' where "e' = \<lparr>en_key = k, en_data = en_data e, en_size_bytes = int (length (en_data e)),
                      en_tier = Dram, en_inserted_at = now, en_last_access = now,
                      en_hit_count = en_hit_count e + 1\<rparr>"
  define s2 where "s2 = promote io now k e (en_data e) s"
  have ev: "evicts K io s s1" using evict_dram_evicts [OF ok good] by (simp add: s1_def)
  then have ok1: "store_ok K io s1" by (simp add: evicts_def)
  have k1: "map_of (ts_dram s1) k = None" "map_of (ts_nvme_index s1) k = Some e"
    using ev k by (simp_all add: evicts_def)
  have f: "ts_dram s2 = AList.update k e' (ts_dram s1)"
    "ts_dram_bytes s2 = ts_dram_bytes s1 + en_size_bytes e'"
    "ts_nvme_index s2 = AList.delete k (ts_nvme_index s1)"
    "ts_nvme_bytes s2 = ts_nvme_bytes s1 - en_size_bytes e" "ts_files s2 = ts_files s1"
    "ts_nvme_limit s2 = ts_nvme_limit s1"
    by (simp_all add: s2_def promote_def s1_def e'_def Let_def)
  have e': "en_size_bytes e' = int (length (en_data e'))" "en_data e' = en_data e"
    "en_size_bytes e = int (length (en_data e))"
    using ok1 map_of_SomeD [OF k1(2)] by (auto simp: e'_def store_ok_def)
  have knot: "k \<notin> fst ` set (ts_dram s1)" using k1(1) by (simp add: map_of_eq_None_iff)
  have d: "\<forall>(k', e') \<in> set (ts_dram s2). en_size_bytes e' = int (length (en_data e'))"
    using ok1 e' unfolding f by (intro alist_update_all2) (simp_all add: store_ok_def)
  have n: "\<forall>(k, e) \<in> set (ts_nvme_index s2). en_size_bytes e = int (length (en_data e)) \<and>
        ts_files s2 (io_hash io k) = Some (en_data e)"
    using ok1 unfolding f by (intro alist_delete_all) (simp add: store_ok_def)
  have dj: "fst ` set (ts_dram s2) \<inter> fst ` set (ts_nvme_index s2) = {}"
    using ok1 unfolding f dom_update dom_delete store_ok_def by blast
  have sz: "ts_dram_bytes s2 = sizes (ts_dram s2)" "ts_nvme_bytes s2 = sizes (ts_nvme_index s2)"
    using ok1 k1(2) knot unfolding f by (simp_all add: store_ok_def sizes_update_new sizes_delete)
  have "ts_nvme_bytes s2 \<le> max 0 (ts_nvme_limit s2)" using ok1 e'(3) unfolding f by (simp add: store_ok_def)
  moreover have "distinct (map fst (ts_dram s2))" "distinct (map fst (ts_nvme_index s2))"
    using ok1 unfolding f by (simp_all add: store_ok_def distinct_update distinct_delete)
  moreover have "fst ` set (ts_dram s2) \<subseteq> K" "fst ` set (ts_nvme_index s2) \<subseteq> K"
    using ok1 store_ok_keys(2) [OF ok1 map_of_SomeD [OF k1(2)]]
    unfolding f dom_update dom_delete store_ok_def by blast+
  ultimately show ok2: "store_ok K io (promote io now k e (en_data e) s)"
    unfolding s2_def [symmetric] store_ok_def using d n dj sz by blast
  then have ok2': "store_ok K io s2" by (simp add: s2_def)
  have "lookup io s2 k' = lookup io s1 k'"
    using k1 e' by (simp add: lookup_ok [OF ok2' good] lookup_ok [OF ok1 good] f update_conv'
        map_of_delete split: option.split)
  then show "lookup io (promote io now k e (en_data e) s) k' = lookup io s k' \<or>
      lookup io (promote io now k e (en_data e) s) k' = None"
    using ev unfolding s2_def evicts_def by metis
  show "fresh_key k' s \<Longrightarrow> fresh_key k' (promote io now k e (en_data e) s)"
    using ev k unfolding s2_def [symmetric] fresh_key_maps f evicts_def
    by (auto simp: update_conv' map_of_delete)
qed

lemma ts_get_ok:
  assumes ok: "store_ok K io s" and good: "io_good K io"
  shows "store_ok K io (snd (ts_get io now k s))"
    and "fst (ts_get io now k s) = lookup io s k"
    and "lookup io (snd (ts_get io now k s)) k' = lookup io s k' \<or>
      lookup io (snd (ts_get io now k s)) k' = None"
    and "fresh_key k' s \<Longrightarrow> fresh_key k' (snd (ts_get io now k s))"
proof -
  have miss: "store_ok K io (s\<lparr>ts_misses := n\<rparr>)" "lookup io (s\<lparr>ts_misses := n\<rparr>) k' = lookup io s k'"
    "fresh_key k' (s\<lparr>ts_misses := n\<rparr>) = fresh_key k' s" for n
    using ok by (simp_all add: store_ok_def lookup_def in_nvme_def nvme_read_def fresh_key_maps
        split: option.split)
  have inn: "in_nvme k s \<longleftrightarrow> map_of (ts_nvme_index s) k \<noteq> None"
    by (simp add: in_nvme_def map_of_eq_None_iff)
  show "fst (ts_get io now k s) = lookup io s k"
    unfolding ts_get_def lookup_def inn by (simp split: option.split)
  consider (hit) e where "map_of (ts_dram s) k = Some e"
    | (nvme) e where "map_of (ts_dram s) k = None" "map_of (ts_nvme_index s) k = Some e"
    | (miss) "map_of (ts_dram s) k = None" "map_of (ts_nvme_index s) k = None"
    by (cases "map_of (ts_dram s) k"; cases "map_of (ts_nvme_index s) k") auto
  then have "store_ok K io (snd (ts_get io now k s)) \<and>
    (lookup io (snd (ts_get io now k s)) k' = lookup io s k' \<or>
      lookup io (snd (ts_get io now k s)) k' = None) \<and>
    (fresh_key k' s \<longrightarrow> fresh_key k' (snd (ts_get io now k s)))"
  proof cases
    case (hit e)
    let ?e = "e\<lparr>en_last_access := now, en_hit_count := en_hit_count e + 1\<rparr>"
    let ?s = "s\<lparr>ts_dram := AList.update k ?e (ts_dram s), ts_hits_dram := ts_hits_dram s + 1\<rparr>"
    have g: "snd (ts_get io now k s) = ?s" using hit by (simp add: ts_get_def)
    have "store_ok K io ?s" by (rule touch_dram [OF ok hit]) simp_all
    moreover have "lookup io ?s k' = lookup io s k'"
      using hit by (simp add: lookup_def update_conv' in_nvme_def nvme_read_def split: option.split)
    moreover have "fresh_key k' s \<longrightarrow> fresh_key k' ?s" using hit by (auto simp: fresh_key_maps update_conv')
    ultimately show ?thesis unfolding g by blast
  next
    case (nvme e)
    have "nvme_read io k s = Some (en_data e)"
      using ok good map_of_SomeD [OF nvme(2)] by (auto simp: nvme_read_def store_ok_def io_good_def)
    then have g: "snd (ts_get io now k s) = promote io now k e (en_data e) s"
      using nvme by (simp add: ts_get_def)
    show ?thesis unfolding g by (intro conjI impI promote_ok [OF ok good nvme])
  next
    case miss
    then have "snd (ts_get io now k s) = s\<lparr>ts_misses := ts_misses s + 1\<rparr>" by (simp add: ts_get_def)
    then show ?thesis using \<open>\<And>n. store_ok K io (s\<lparr>ts_misses := n\<rparr>)\<close>
        \<open>\<And>n. lookup io (s\<lparr>ts_misses := n\<rparr>) k' = lookup io s k'\<close>
        \<open>\<And>n. fresh_key k' (s\<lparr>ts_misses := n\<rparr>) = fresh_key k' s\<close> by simp
  qed
  note all = this
  show "store_ok K io (snd (ts_get io now k s))" using all by (elim conjE)
  show "lookup io (snd (ts_get io now k s)) k' = lookup io s k' \<or>
      lookup io (snd (ts_get io now k s)) k' = None" using all by (elim conjE)
  show "fresh_key k' s \<Longrightarrow> fresh_key k' (snd (ts_get io now k s))" using all by (elim conjE) (rule mp)
qed

text \<open>The files of a machine on which every write and read of the cache directory works.\<close>

interpretation tiers: write_once_cache
    "\<lambda>s. io_good K io \<and> store_ok K io s" "\<lambda>k s. k \<in> K \<and> fresh_key k s"
    "lookup io" "ts_put io" "ts_get io" for K io
proof (unfold_locales, goal_cases)
  case (1 s k t v)
  then show ?case using ts_put_fresh(1) [of K io s k t v] by simp
next
  case (2 s k t v)
  then show ?case using ts_put_fresh(3) [of K io s k t v] by simp
next
  case (3 s k k' t v)
  then show ?case using ts_put_fresh(4) [of K io s k k' t v] by auto
next
  case (4 s k k' t v)
  then show ?case using ts_put_fresh(5) [of K io s k k' t v] by simp
next
  case (5 s t k)
  then show ?case using ts_get_ok(1) [of K io s t k] by simp
next
  case (6 s t k)
  then show ?case using ts_get_ok(2) [of K io s t k] by simp
next
  case (7 s t k k')
  then show ?case using ts_get_ok(3) [of K io s t k k'] by auto
next
  case (8 s k' t k)
  then show ?case using ts_get_ok(4) [of K io s k' t k] by simp
qed

section \<open>Properties\<close>

lemma sort_keys_eq:
  "distinct xs \<Longrightarrow> distinct ys \<Longrightarrow> set xs = set ys \<Longrightarrow> sort xs = sort (ys :: int list)"
  by (rule sorted_distinct_set_unique) simp_all

lemma owner_removed:
  assumes wf: "ring_wf r" and ne: "hr_sorted_keys r \<noteq> []"
    and own: "succ_point h (hr_sorted_keys r) \<notin> node_point H rk ` {0..<hr_vn r}"
  shows "owner_of h (remove_node H rk r) = owner_of h r" "hr_sorted_keys (remove_node H rk r) \<noteq> []"
proof -
  let ?P = "\<lambda>k. k \<notin> node_point H rk ` {0..<hr_vn r}"
  have k: "hr_sorted_keys (remove_node H rk r) = filter ?P (hr_sorted_keys r)"
    using wf by (simp add: remove_node_def ring_wf_def fold_delete_keys filter_sort Let_def)
  have s: "succ_point h (filter ?P (hr_sorted_keys r)) = succ_point h (hr_sorted_keys r)"
    using succ_point_filter [OF ne, where P = ?P] own by blast
  have "map_of (hr_ring (remove_node H rk r)) (succ_point h (hr_sorted_keys r)) =
      map_of (hr_ring r) (succ_point h (hr_sorted_keys r))"
    using own by (simp add: remove_node_def Let_def fold_delete_map_of)
  then show "owner_of h (remove_node H rk r) = owner_of h r" unfolding owner_of_def k s by simp
  have "succ_point h (hr_sorted_keys r) \<in> set (filter ?P (hr_sorted_keys r))"
    using succ_point_in [OF ne] own by simp
  then show "hr_sorted_keys (remove_node H rk r) \<noteq> []" unfolding k by (metis empty_iff list.set(1))
qed

lemma add_node_keys:
  "ring_wf r \<Longrightarrow> set (hr_sorted_keys (add_node H rk r)) =
     node_point H rk ` {0..<hr_vn r} \<union> set (hr_sorted_keys r)"
  by (simp add: add_node_def Let_def fold_update_keys ring_wf_def)

lemma owner_added:
  assumes wf: "ring_wf r" and ne: "hr_sorted_keys r \<noteq> []"
    and free: "\<forall>i < hr_vn r. node_point H rk i \<notin> set (hr_sorted_keys r)"
  shows "owner_of h (add_node H rk r) = owner_of h r \<or> owner_of h (add_node H rk r) = rk"
proof (cases "succ_point h (hr_sorted_keys (add_node H rk r)) \<in> node_point H rk ` {0..<hr_vn r}")
  case True
  then have "map_of (hr_ring (add_node H rk r)) (succ_point h (hr_sorted_keys (add_node H rk r))) = Some rk"
    by (simp add: add_node_def Let_def ring_update_map_of)
  then show ?thesis by (simp add: owner_of_def)
next
  case False
  let ?r = "add_node H rk r"
  have wf': "ring_wf ?r" using ring_wf_ops(2) [OF wf] .
  have ne': "hr_sorted_keys ?r \<noteq> []" using ne add_node_keys [OF wf, of H rk] by (metis UnCI all_not_in_conv set_empty)
  have vn: "hr_vn ?r = hr_vn r" by (simp add: add_node_def Let_def)
  have rem: "owner_of h (remove_node H rk ?r) = owner_of h ?r"
    using False vn by (intro owner_removed(1) [OF wf' ne']) simp
  have keys: "hr_sorted_keys (remove_node H rk ?r) = hr_sorted_keys r"
  proof -
    have "distinct (map fst (hr_ring (remove_node H rk ?r)))"
      using ring_wf_ops(3) [OF wf'] by (simp add: ring_wf_def)
    moreover have "fst ` set (hr_ring (remove_node H rk ?r)) = fst ` set (hr_ring r)"
    proof -
      have node: "fst ` set (hr_ring ?r) = node_point H rk ` {0..<hr_vn r} \<union> fst ` set (hr_ring r)"
        using add_node_keys [OF wf, of H rk] ring_keys [OF wf] ring_keys [OF wf'] by simp
      have disj: "node_point H rk ` {0..<hr_vn r} \<inter> fst ` set (hr_ring r) = {}"
        using free unfolding ring_keys [OF wf, symmetric] by auto
      have "fst ` set (hr_ring (remove_node H rk ?r)) =
          {k \<in> fst ` set (hr_ring ?r). k \<notin> node_point H rk ` {0..<hr_vn r}}"
        using fold_delete_keys [of "node_point H rk" "[0..<hr_vn r]" "hr_ring ?r", THEN arg_cong, of set] vn
        by (simp add: remove_node_def Let_def)
      also have "\<dots> = fst ` set (hr_ring r)"
        using node disj by blast
      finally show ?thesis .
    qed
    ultimately have "sort (map fst (hr_ring (remove_node H rk ?r))) = sort (map fst (hr_ring r))"
      using wf by (intro sort_keys_eq) (simp_all add: ring_wf_def)
    then show ?thesis using wf ring_wf_ops(3) [OF wf'] by (simp add: ring_wf_def)
  qed
  have "succ_point h (hr_sorted_keys r) \<in> set (hr_sorted_keys r)" by (rule succ_point_in [OF ne])
  then have "succ_point h (hr_sorted_keys r) \<notin> node_point H rk ` {0..<hr_vn r}" using free by auto
  then have "map_of (hr_ring (remove_node H rk ?r)) (succ_point h (hr_sorted_keys r)) =
      map_of (hr_ring r) (succ_point h (hr_sorted_keys r))"
    by (simp add: remove_node_def add_node_def Let_def fold_delete_map_of ring_update_map_of)
  then have "owner_of h (remove_node H rk ?r) = owner_of h r" unfolding owner_of_def keys by simp
  then show ?thesis using rem by simp
qed

text \<open>The ring of a world of ranks, without digest collisions between their labels.\<close>

definition no_collision :: "(string \<Rightarrow> int) \<Rightarrow> nat \<Rightarrow> nat \<Rightarrow> bool" where
  "no_collision H vn world \<longleftrightarrow>
     inj_on (\<lambda>(r, i). node_point H (int r) i) ({0..<world} \<times> {0..<vn})"

definition world_ring :: "(string \<Rightarrow> int) \<Rightarrow> nat \<Rightarrow> nat \<Rightarrow> hash_ring" where
  "world_ring H vn world = fold (\<lambda>r. add_node H (int r)) [0..<world] (ring_init vn)"

lemma world_ring_basic: "ring_wf (world_ring H vn world) \<and> hr_vn (world_ring H vn world) = vn"
proof (induction world)
  case (Suc world)
  then show ?case
    by (simp add: world_ring_def ring_wf_ops(2)) (simp add: add_node_def Let_def)
qed (simp add: world_ring_def ring_wf_ops(1), simp add: ring_init_def)

lemma world_ring_points:
  assumes "no_collision H vn world"
  shows "map_of (hr_ring (world_ring H vn world)) k = Some rk \<longleftrightarrow>
    (\<exists>r < world. \<exists>i < vn. k = node_point H (int r) i \<and> rk = int r)"
  using assms
proof (induction world)
  case 0
  then show ?case by (simp add: world_ring_def ring_init_def)
next
  case (Suc world)
  have nc: "no_collision H vn world"
    using Suc.prems unfolding no_collision_def by (rule inj_on_subset) auto
  have ne: "node_point H (int world) i \<noteq> node_point H (int r) j"
    if "r < world" "i < vn" "j < vn" for r i j
  proof
    assume "node_point H (int world) i = node_point H (int r) j"
    then have "(world, i) = (r, j)" using Suc.prems that unfolding no_collision_def
      by (intro inj_onD [of "\<lambda>(r, i). node_point H (int r) i" _ "(world, i)" "(r, j)"]) auto
    then show False using that by simp
  qed
  have "map_of (hr_ring (world_ring H vn (Suc world))) k =
      (if k \<in> node_point H (int world) ` {0..<vn} then Some (int world)
       else map_of (hr_ring (world_ring H vn world)) k)"
    using world_ring_basic [of H vn world]
    by (simp add: world_ring_def add_node_def Let_def ring_update_map_of)
  also have "\<dots> = Some rk \<longleftrightarrow> (\<exists>r < Suc world. \<exists>i < vn. k = node_point H (int r) i \<and> rk = int r)"
  proof (cases "k \<in> node_point H (int world) ` {0..<vn}")
    case True
    then obtain i where i: "i < vn" "k = node_point H (int world) i" by auto
    have "rk = int world \<longleftrightarrow> (\<exists>r < Suc world. \<exists>i < vn. k = node_point H (int r) i \<and> rk = int r)"
      using i ne by (metis less_Suc_eq)
    then show ?thesis using True by auto
  next
    case False
    then show ?thesis using Suc.IH [OF nc] by (auto simp: less_Suc_eq)
  qed
  finally show ?case .
qed

lemma world_ring_ranks:
  assumes "no_collision H vn world" and "0 < vn"
  shows "snd ` set (hr_ring (world_ring H vn world)) = int ` {0..<world}"
proof -
  let ?r = "world_ring H vn world"
  have d: "distinct (map fst (hr_ring ?r))" using world_ring_basic [of H vn world] by (simp add: ring_wf_def)
  have "rk \<in> snd ` set (hr_ring ?r) \<longleftrightarrow> (\<exists>k. map_of (hr_ring ?r) k = Some rk)" for rk
    using map_of_eq_Some_iff [OF d] by (force simp: image_iff)
  then have eq: "rk \<in> snd ` set (hr_ring ?r) \<longleftrightarrow>
      (\<exists>k. \<exists>r < world. \<exists>i < vn. k = node_point H (int r) i \<and> rk = int r)" for rk
    unfolding world_ring_points [OF assms(1)] by blast
  show ?thesis
  proof (rule set_eqI)
    fix rk
    show "rk \<in> snd ` set (hr_ring ?r) \<longleftrightarrow> rk \<in> int ` {0..<world}"
    proof
      assume "rk \<in> snd ` set (hr_ring ?r)"
      then show "rk \<in> int ` {0..<world}" unfolding eq by auto
    next
      assume "rk \<in> int ` {0..<world}"
      then obtain r where "r < world" "rk = int r" by auto
      then show "rk \<in> snd ` set (hr_ring ?r)" unfolding eq using assms(2) by blast
    qed
  qed
qed

text \<open>
  A key has distinct owners among the ranks of the world: \<open>n\<close> of them, or the whole
  world if it is smaller (and one, not none, for \<open>n \<le> 0\<close>), provided that the digests of the
  150 labels per rank do not collide.
\<close>
lemma ring_owners:
  assumes "no_collision H DHT_VIRTUAL_NODES world" and "0 < world"
    and "os = get_nodes H key n (pp_ring (p2p_init H rank world dl nl repl sim files))"
  shows "distinct os \<and> set os \<subseteq> int ` {0..<world} \<and> int (length os) = max 1 (min n (int world))"
proof -
  let ?r = "world_ring H DHT_VIRTUAL_NODES world"
  have vn: "0 < DHT_VIRTUAL_NODES" by (simp add: DHT_VIRTUAL_NODES_def)
  have wf: "ring_wf ?r" using world_ring_basic by blast
  have ranks: "snd ` set (hr_ring ?r) = int ` {0..<world}" by (rule world_ring_ranks [OF assms(1) vn])
  have ne: "hr_sorted_keys ?r \<noteq> []"
    using ring_ranks [OF wf] ranks assms(2) by auto
  define nodes where "nodes = map (\<lambda>i. the (map_of (hr_ring ?r)
    (hr_sorted_keys ?r ! ((ring_bisect (H key) ?r + i) mod length (hr_sorted_keys ?r)))))
      [0..<length (hr_sorted_keys ?r)]"
  have nodes: "set nodes = int ` {0..<world}"
    unfolding nodes_def get_nodes_list [OF ne] ring_ranks [OF wf] ranks ..
  have nn: "nodes \<noteq> []" using ne by (simp add: nodes_def)
  have pr: "pp_ring (p2p_init H rank world dl nl repl sim files) = ?r"
    by (simp add: p2p_init_def world_ring_def)
  have os: "os = collect_owners n nodes []"
    unfolding assms(3) pr get_nodes_def Let_def nodes_def using ne by (simp only: if_False)
  have spec: "distinct os" "set os \<subseteq> set nodes" "os \<noteq> []" "int (length os) \<le> max 1 n"
    "int (length os) < n \<longrightarrow> set os = set nodes"
    using collect_owners_spec [of "[]" n nodes] nn unfolding os by simp_all
  have card: "card (int ` {0..<world}) = world" by (simp add: card_image)
  have len: "length os = card (set os)" using spec(1) by (simp add: distinct_card)
  have "card (set os) \<le> card (int ` {0..<world})"
    by (rule card_mono) (use spec(2) nodes in auto)
  then have "length os \<le> world" unfolding card len .
  moreover have "int (length os) < n \<Longrightarrow> length os = world" using spec(5) unfolding len nodes by (simp only: card)
  moreover have "0 < length os" using spec(3) by simp
  ultimately have "int (length os) = max 1 (min n (int world))" using spec(4) by linarith
  then show ?thesis using spec(1,2) unfolding nodes by blast
qed

text \<open>
  C24: Consistent hashing: removing a rank keeps the owner of every key that another rank
  owned, and adding a rank moves a key only to the new rank. It needs that the points of the
  rank are its own, resp. not yet taken.
\<close>
theorem consistent_hashing:
  assumes "ring_wf r" and "hr_sorted_keys r \<noteq> []"
    and own: "\<forall>i < hr_vn r. node_point H rk i \<in> set (hr_sorted_keys r) \<longrightarrow>
      map_of (hr_ring r) (node_point H rk i) = Some rk"
    and free: "\<forall>i < hr_vn r. node_point H new i \<notin> set (hr_sorted_keys r)"
  shows "(get_nodes H key 1 r \<noteq> [rk] \<longrightarrow>
      get_nodes H key 1 (remove_node H rk r) = get_nodes H key 1 r) \<and>
    (get_nodes H key 1 (add_node H new r) = get_nodes H key 1 r \<or>
      get_nodes H key 1 (add_node H new r) = [new])"
proof -
  have in': "succ_point (H key) (hr_sorted_keys r) \<in> set (hr_sorted_keys r)"
    by (rule succ_point_in [OF assms(2)])
  have rem: "get_nodes H key 1 (remove_node H rk r) = get_nodes H key 1 r" if "get_nodes H key 1 r \<noteq> [rk]"
  proof -
    have "owner_of (H key) r \<noteq> rk" using that get_nodes_one [OF assms(1,2)] by simp
    then have "succ_point (H key) (hr_sorted_keys r) \<notin> node_point H rk ` {0..<hr_vn r}"
      using own in' by (auto simp: owner_of_def)
    from owner_removed [OF assms(1,2) this]
    show ?thesis by (simp add: get_nodes_one assms(1,2) ring_wf_ops(3))
  qed
  have "hr_sorted_keys (add_node H new r) \<noteq> []"
    using assms(2) add_node_keys [OF assms(1), of H new] by (metis UnCI all_not_in_conv set_empty)
  then have "get_nodes H key 1 (add_node H new r) = get_nodes H key 1 r \<or>
      get_nodes H key 1 (add_node H new r) = [new]"
    using owner_added [OF assms(1,2) free, of "H key"]
    by (simp add: get_nodes_one assms(1,2) ring_wf_ops(2))
  then show ?thesis using rem by blast
qed


text \<open>
  In simulation every rank is its own owner: with two replicas a put stores the same key
  twice in the local store, so the DRAM byte counter grows by twice the size for one entry;
  and \<open>evict\<close> removes the entry without giving back any of these bytes.
\<close>
lemma simulated_put_accounting:
  assumes "pp_simulation p" and "get_nodes (io_hash io) key (pp_replication p) (pp_ring p) = [a, b]"
    and "fresh_key key (pp_local_store p)"
    and "ts_dram_bytes (pp_local_store p) + 2 * int (length data) \<le> ts_dram_limit (pp_local_store p)"
    and "ts_dram_bytes (pp_local_store p) = sizes (ts_dram (pp_local_store p))"
    and "p2p_put io net now key data p = (owners, q)"
  shows "owners = [pp_rank p, pp_rank p] \<and> pp_puts_local q = pp_puts_local p + 2 \<and>
    sizes (ts_dram (pp_local_store q)) = sizes (ts_dram (pp_local_store p)) + int (length data) \<and>
    ts_dram_bytes (pp_local_store q) = sizes (ts_dram (pp_local_store q)) + int (length data) \<and>
    ts_dram_bytes (pp_local_store (p2p_evict H key q)) = ts_dram_bytes (pp_local_store q)"
proof -
  let ?s = "pp_local_store p"
  define e where "e = \<lparr>en_key = key, en_data = data, en_size_bytes = int (length data), en_tier = Dram,
                   en_inserted_at = now, en_last_access = now, en_hit_count = 0\<rparr>"
  have fit: "ts_dram_bytes s + int (length data) \<le> ts_dram_limit s \<Longrightarrow> ts_put io now key data s =
      s\<lparr>ts_dram := AList.update key e (ts_dram s), ts_dram_bytes := ts_dram_bytes s + int (length data)\<rparr>" for s
    by (simp add: ts_put_def evict_dram_if_needed.simps [of io "int (length data)" s] e_def Let_def)
  define s1 where "s1 = ts_put io now key data ?s"
  define s2 where "s2 = ts_put io now key data s1"
  have s1: "ts_dram s1 = AList.update key e (ts_dram ?s)" "ts_dram_limit s1 = ts_dram_limit ?s"
    "ts_dram_bytes s1 = ts_dram_bytes ?s + int (length data)"
    using assms(4) by (simp_all add: s1_def fit)
  have s2: "ts_dram s2 = AList.update key e (ts_dram s1)"
    "ts_dram_bytes s2 = ts_dram_bytes ?s + 2 * int (length data)"
    using s1(2,3) assms(4) by (simp_all add: s2_def fit)
  have q: "owners = [pp_rank p, pp_rank p]" "pp_local_store q = s2" "pp_puts_local q = pp_puts_local p + 2"
    using assms(1,2,6) by (auto simp: p2p_put_def Let_def s1_def s2_def)
  have same: "AList.update key e (ts_dram s1) = ts_dram s1"
    unfolding s1 by (induction "ts_dram ?s") (auto)
  have "key \<notin> fst ` set (ts_dram ?s)" using assms(3) by (simp add: fresh_key_def in_dram_def)
  then have "sizes (ts_dram s2) = sizes (ts_dram ?s) + int (length data)"
    unfolding s2(1) same s1 by (simp add: sizes_update_new e_def)
  then show ?thesis using q s2 assms(5) by (simp add: p2p_evict_def)
qed

section \<open>Witnesses\<close>

definition label_hash :: "string \<Rightarrow> int" where
  "label_hash s = int (undigits (drop 2 s)) + (if hd s = CHR ''1'' then 1000 else 0)"

lemma label_hash_point: "r < 2 \<Longrightarrow> node_point label_hash (int r) i = int i + (if r = 1 then 1000 else 0)"
  by (auto simp: less_Suc_eq numeral_2_eq_2 node_point_def label_hash_def str_int_def
      digits.simps [of 0] digits.simps [of "Suc 0"] digit_def undigits_digits)

definition first_hash :: "string \<Rightarrow> int" where
  "first_hash s = (if hd s = CHR ''0'' then 10 else if hd s = CHR ''1'' then 20
     else if hd s = CHR ''2'' then 30 else 15)"

theorem consistent_hashing_witness:
  "get_nodes first_hash ''kv'' 1 (remove_node first_hash 0 (world_ring first_hash 1 2)) = [1] \<and>
   get_nodes first_hash ''kv'' 1 (add_node first_hash 2 (world_ring first_hash 1 2)) \<in> {[1], [2]}"
proof -
  define r where "r = world_ring first_hash 1 2"
  have r: "hr_vn r = 1" "hr_ring r = [(10, 0), (20, 1)]" "hr_sorted_keys r = [10, 20]"
    unfolding r_def by code_simp+
  have p: "node_point first_hash 0 0 = 10" "node_point first_hash 2 0 = 30" by code_simp+
  have owner1: "get_nodes first_hash ''kv'' 1 r = [1]" unfolding r_def by code_simp
  have "ring_wf r" unfolding r_def using world_ring_basic by blast
  moreover have "hr_sorted_keys r \<noteq> []" by (simp add: r)
  moreover have "\<forall>i < hr_vn r. node_point first_hash 0 i \<in> set (hr_sorted_keys r) \<longrightarrow>
      map_of (hr_ring r) (node_point first_hash 0 i) = Some 0" by (simp add: r p)
  moreover have "\<forall>i < hr_vn r. node_point first_hash 2 i \<notin> set (hr_sorted_keys r)" by (simp add: r p)
  ultimately show ?thesis using consistent_hashing [of r first_hash 0 2 "''kv''"] owner1
    unfolding r_def by simp
qed

definition good_io :: io_env where
  "good_io = \<lparr>io_hash = (\<lambda>s. int (length s)), io_write_ok = (\<lambda>_. True), io_read_ok = True\<rparr>"


end
