(* ===== verification/Sparse_Transfer.thy ===== *)
theory Sparse_Transfer
  imports Prelude
begin

text \<open>
  \<^verbatim>\<open>tempo/sparse_transfer.py\<close>: selection of the cache rows worth sending by one attention
  probe, and their reconstruction on the receiving side. An array is the list of its rows,
  flattened to the hidden dimension, with their width and item size; \<open>val\<close> reads an item as a
  number (the conversion to float32). \<open>argpartition\<close> of NumPy is a parameter.
\<close>

section \<open>Arrays and blocks\<close>

record 'a ndarray =
  nd_rows :: "'a list list"
  nd_width :: nat
  nd_itemsize :: int

record 'a sparse_block =
  sb_k_sparse :: "'a ndarray"
  sb_v_sparse :: "'a ndarray"
  sb_hot_indices :: "nat list"
  sb_context_len :: nat
  sb_layer_id :: nat
  sb_reduction_ratio :: real

record sparse_filter =
  sf_threshold :: real
  sf_max_ratio :: real
  sf_n_probe_queries :: int
  sf_min_tokens :: int
  sf_filter_calls :: int
  sf_total_tokens :: int
  sf_hot_tokens :: int
  sf_total_time_ms :: real

definition sparse_filter_init :: "real \<Rightarrow> real \<Rightarrow> int \<Rightarrow> int \<Rightarrow> sparse_filter" where
  "sparse_filter_init threshold max_ratio n_probe_queries min_tokens =
     \<lparr>sf_threshold = threshold, sf_max_ratio = max_ratio, sf_n_probe_queries = n_probe_queries,
      sf_min_tokens = min_tokens, sf_filter_calls = 0, sf_total_tokens = 0, sf_hot_tokens = 0,
      sf_total_time_ms = 0\<rparr>"

text \<open>The start of a slice \<open>xs[k:]\<close> of \<open>n\<close> elements, and indexing by a list of indices.\<close>

definition slice_start :: "nat \<Rightarrow> int \<Rightarrow> nat" where
  "slice_start n k = (if k < 0 then nat (max 0 (int n + k)) else min n (nat k))"

definition fancy_index :: "'a ndarray \<Rightarrow> nat list \<Rightarrow> 'a ndarray result" where
  "fancy_index a is =
     (if \<exists>i \<in> set is. length (nd_rows a) \<le> i then Inl IndexError
      else Inr (a\<lparr>nd_rows := map (\<lambda>i. nd_rows a ! i) is\<rparr>))"

section \<open>The attention probe\<close>

definition dot :: "real list \<Rightarrow> real list \<Rightarrow> real" where
  "dot xs ys = sum_list (map2 (*) xs ys)"

definition column_means :: "('a \<Rightarrow> real) \<Rightarrow> 'a ndarray \<Rightarrow> real list" where
  "column_means val k =
     map (\<lambda>j. sum_list (map (\<lambda>row. val (row ! j)) (nd_rows k)) / of_nat (length (nd_rows k)))
       [0..<nd_width k]"

definition make_probe_query :: "('a \<Rightarrow> real) \<Rightarrow> 'a ndarray \<Rightarrow> real list option \<Rightarrow> real list" where
  "make_probe_query val k query =
     (let q = (case query of Some q \<Rightarrow> q | None \<Rightarrow> column_means val k);
          norm = sqrt (dot q q)
      in if norm > 1 / 10 ^ 8 then map (\<lambda>x. x / norm) q else q)"

definition softmax :: "real list \<Rightarrow> real list" where
  "softmax logits =
     (let m = Max (set logits);
          weights = map (\<lambda>l. exp (l - m)) logits;
          s = sum_list weights
      in map (\<lambda>w. w / s) weights)"

text \<open>The product with a query of another width and the maximum of no logits raise.\<close>

definition attention_probe :: "('a \<Rightarrow> real) \<Rightarrow> real list \<Rightarrow> 'a ndarray \<Rightarrow> real list result" where
  "attention_probe val q k =
     (if length q \<noteq> nd_width k \<or> nd_rows k = [] then Inl ValueError
      else Inr (softmax (map (\<lambda>row. dot (map val row) q / sqrt (of_nat (max 1 (nd_width k)))) (nd_rows k))))"

section \<open>Selection\<close>

definition max_count :: "sparse_filter \<Rightarrow> nat \<Rightarrow> int" where
  "max_count f seq_len = max (sf_min_tokens f) (py_int (of_nat seq_len * sf_max_ratio f))"

definition set_true_from :: "nat \<Rightarrow> bool list \<Rightarrow> bool list" where
  "set_true_from start flags = take start flags @ replicate (length flags - start) True"

definition mask_of :: "nat \<Rightarrow> nat list \<Rightarrow> bool list" where
  "mask_of n top_idx = map (\<lambda>i. i \<in> set top_idx) [0..<n]"

definition true_indices :: "bool list \<Rightarrow> nat list" where
  "true_indices flags = filter (\<lambda>i. flags ! i) [0..<length flags]"

definition score_mask ::
    "(real list \<Rightarrow> int \<Rightarrow> nat list) \<Rightarrow> sparse_filter \<Rightarrow> real list \<Rightarrow> nat \<Rightarrow> bool list result" where
  "score_mask argpartition f scores seq_len =
     (let hot_mask = map (\<lambda>s. sf_threshold f \<le> s) scores;
          m = max_count f seq_len
      in if m < int (length (filter id hot_mask))
         then (if - m < - int seq_len \<or> int seq_len \<le> - m then Inl ValueError
               else Inr (mask_of seq_len (drop (slice_start seq_len (- m)) (argpartition scores (- m)))))
         else Inr hot_mask)"

definition select_hot ::
    "(real list \<Rightarrow> int \<Rightarrow> nat list) \<Rightarrow> sparse_filter \<Rightarrow> real list \<Rightarrow> nat \<Rightarrow> nat list result" where
  "select_hot argpartition f scores seq_len =
     (case score_mask argpartition f scores seq_len of
        Inl e \<Rightarrow> Inl e
      | Inr hot_mask \<Rightarrow>
          Inr (true_indices
            (if sf_min_tokens f < int seq_len
             then set_true_from (slice_start (length hot_mask) (- sf_min_tokens f)) hot_mask
             else hot_mask)))"

section \<open>Filter and reconstruction\<close>

definition sparse_filter_run ::
    "(real list \<Rightarrow> int \<Rightarrow> nat list) \<Rightarrow> ('a \<Rightarrow> real) \<Rightarrow> real \<Rightarrow> 'a ndarray \<Rightarrow> 'a ndarray \<Rightarrow>
     real list option \<Rightarrow> nat \<Rightarrow> sparse_filter \<Rightarrow> ('a sparse_block \<times> sparse_filter) result" where
  "sparse_filter_run argpartition val elapsed_ms k_cache v_cache query layer_id f =
     (let seq_len = length (nd_rows k_cache);
          q_probe = make_probe_query val k_cache query
      in case attention_probe val q_probe k_cache of
           Inl e \<Rightarrow> Inl e
         | Inr scores \<Rightarrow>
             (case select_hot argpartition f scores seq_len of
                Inl e \<Rightarrow> Inl e
              | Inr hot \<Rightarrow>
                  (case (fancy_index k_cache hot, fancy_index v_cache hot) of
                     (Inr k_sparse, Inr v_sparse) \<Rightarrow>
                       (let n_hot = length hot;
                            reduction = 1 - of_nat n_hot / of_nat (max 1 seq_len)
                        in Inr (\<lparr>sb_k_sparse = k_sparse, sb_v_sparse = v_sparse, sb_hot_indices = hot,
                                 sb_context_len = seq_len, sb_layer_id = layer_id,
                                 sb_reduction_ratio = reduction\<rparr>,
                                f\<lparr>sf_filter_calls := sf_filter_calls f + 1,
                                  sf_total_tokens := sf_total_tokens f + int seq_len,
                                  sf_hot_tokens := sf_hot_tokens f + int n_hot,
                                  sf_total_time_ms := sf_total_time_ms f + elapsed_ms\<rparr>))
                   | (Inl e, _) \<Rightarrow> Inl e
                   | (Inr _, Inl e) \<Rightarrow> Inl e)))"

fun filter_layers ::
    "(real list \<Rightarrow> int \<Rightarrow> nat list) \<Rightarrow> ('a \<Rightarrow> real) \<Rightarrow> (nat \<Rightarrow> real) \<Rightarrow> real list option \<Rightarrow> nat \<Rightarrow>
     ('a ndarray \<times> 'a ndarray) list \<Rightarrow> sparse_filter \<Rightarrow> ('a sparse_block list \<times> sparse_filter) result" where
  "filter_layers argpartition val elapsed query i [] f = Inr ([], f)"
| "filter_layers argpartition val elapsed query i ((k, v) # layers) f =
     (case sparse_filter_run argpartition val (elapsed i) k v query i f of
        Inl e \<Rightarrow> Inl e
      | Inr (b, f1) \<Rightarrow>
          (case filter_layers argpartition val elapsed query (i + 1) layers f1 of
             Inl e \<Rightarrow> Inl e
           | Inr (bs, f2) \<Rightarrow> Inr (b # bs, f2)))"

definition filter_multilayer ::
    "(real list \<Rightarrow> int \<Rightarrow> nat list) \<Rightarrow> ('a \<Rightarrow> real) \<Rightarrow> (nat \<Rightarrow> real) \<Rightarrow>
     ('a ndarray \<times> 'a ndarray) list \<Rightarrow> real list option \<Rightarrow> sparse_filter \<Rightarrow>
     ('a sparse_block list \<times> sparse_filter) result" where
  "filter_multilayer argpartition val elapsed kv_layers query f =
     filter_layers argpartition val elapsed query 0 kv_layers f"

text \<open>
  The assignment \<open>dense[idx] = rows\<close>: rows of width 1 and a single row are broadcast, other
  shapes that differ raise.
\<close>

definition scatter_rows :: "nat \<Rightarrow> nat list \<Rightarrow> 'a ndarray \<Rightarrow> 'a list list \<Rightarrow> 'a list list result" where
  "scatter_rows width idx a dense =
     (if nd_width a \<noteq> width \<and> nd_width a \<noteq> 1 \<or>
         length (nd_rows a) \<noteq> length idx \<and> length (nd_rows a) \<noteq> 1 then Inl ValueError
      else if \<exists>i \<in> set idx. length dense \<le> i then Inl IndexError
      else
        let rows = (if length (nd_rows a) = length idx then nd_rows a
                    else replicate (length idx) (hd (nd_rows a)));
            wide = (if nd_width a = width then rows else map (\<lambda>r. replicate width (hd r)) rows)
        in Inr (fold (\<lambda>(i, r) d. d[i := r]) (zip idx wide) dense))"

definition reconstruct :: "'a \<Rightarrow> 'a sparse_block \<Rightarrow> ('a list list \<times> 'a list list) result" where
  "reconstruct fill_value b =
     (let width = nd_width (sb_k_sparse b);
          dense = replicate (sb_context_len b) (replicate width fill_value)
      in case scatter_rows width (sb_hot_indices b) (sb_k_sparse b) dense of
           Inl e \<Rightarrow> Inl e
         | Inr k_dense \<Rightarrow>
             (case scatter_rows width (sb_hot_indices b) (sb_v_sparse b) dense of
                Inl e \<Rightarrow> Inl e
              | Inr v_dense \<Rightarrow> Inr (k_dense, v_dense)))"

definition nbytes :: "'a ndarray \<Rightarrow> int" where
  "nbytes a = int (length (nd_rows a)) * int (nd_width a) * nd_itemsize a"

definition byte_size :: "'a sparse_block \<Rightarrow> int" where
  "byte_size b =
     nbytes (sb_k_sparse b) + nbytes (sb_v_sparse b) + 4 * int (length (sb_hot_indices b)) + 24"

record sparse_stats =
  sst_filter_calls :: int
  sst_avg_sparsity_pct :: real
  sst_avg_hot_ratio_pct :: real
  sst_avg_filter_ms :: real
  sst_total_tokens :: int
  sst_hot_tokens :: int
  sst_estimated_bw_reduction_x :: real

definition sparse_get_stats :: "sparse_filter \<Rightarrow> sparse_stats" where
  "sparse_get_stats f =
     (let avg_sparsity = 1 - of_int (sf_hot_tokens f) / of_int (max 1 (sf_total_tokens f));
          avg_ms = sf_total_time_ms f / of_int (max 1 (sf_filter_calls f))
      in \<lparr>sst_filter_calls = sf_filter_calls f, sst_avg_sparsity_pct = avg_sparsity * 100,
          sst_avg_hot_ratio_pct = (1 - avg_sparsity) * 100, sst_avg_filter_ms = avg_ms,
          sst_total_tokens = sf_total_tokens f, sst_hot_tokens = sf_hot_tokens f,
          sst_estimated_bw_reduction_x = 1 / max (1 / 100) (1 - avg_sparsity)\<rparr>)"

record reduction_estimate =
  re_seq_len :: int
  re_threshold :: real
  re_markov_upper_bound :: real
  re_empirical_estimate :: real
  re_bw_reduction_x :: real

definition estimate_reduction :: "int \<Rightarrow> real \<Rightarrow> real \<Rightarrow> reduction_estimate" where
  "estimate_reduction seq_len threshold max_ratio =
     (let markov_bound = min max_ratio (1 / max 1 (of_int seq_len * threshold));
          empirical_typical = min max_ratio (max (5 / 100) (markov_bound * (3 / 2)))
      in \<lparr>re_seq_len = seq_len, re_threshold = threshold, re_markov_upper_bound = markov_bound,
          re_empirical_estimate = empirical_typical,
          re_bw_reduction_x = 1 / max (1 / 100) empirical_typical\<rparr>)"

section \<open>The probe is a distribution\<close>

lemma softmax_dist:
  assumes "logits \<noteq> []"
  shows "length (softmax logits) = length logits" and "sum_list (softmax logits) = 1"
    and "\<forall>w \<in> set (softmax logits). 0 < w"
proof -
  let ?m = "Max (set logits)"
  let ?w = "map (\<lambda>l. exp (l - ?m)) logits"
  have pos: "0 < sum_list ?w" using assms by (induction logits) (auto intro!: add_pos_nonneg sum_list_nonneg)
  show "length (softmax logits) = length logits" by (simp add: softmax_def Let_def)
  have div: "sum_list (map (\<lambda>x. x / c) xs) = sum_list xs / c" for c and xs :: "real list"
    by (induction xs) (simp_all add: add_divide_distrib)
  have "sum_list (map (\<lambda>x. x / sum_list ?w) ?w) = sum_list ?w / sum_list ?w" by (rule div)
  then show "sum_list (softmax logits) = 1" using pos by (simp add: softmax_def Let_def)
  show "\<forall>w \<in> set (softmax logits). 0 < w" using pos by (auto simp: softmax_def Let_def)
qed

lemma markov_count:
  assumes "\<forall>x \<in> set xs. (0 :: real) \<le> x" and "0 < t"
  shows "of_nat (length (filter (\<lambda>x. t \<le> x) xs)) * t \<le> sum_list xs"
  using assms(1) by (induction xs) (auto simp: algebra_simps)

section \<open>Selection lemmas\<close>

lemma true_indices_spec:
  "sorted (true_indices flags)" "distinct (true_indices flags)"
  "set (true_indices flags) = {i. i < length flags \<and> flags ! i}"
  "length (true_indices flags) = card {i. i < length flags \<and> flags ! i}"
proof -
  show "sorted (true_indices flags)" unfolding true_indices_def by (rule sorted_wrt_filter) simp
  show d: "distinct (true_indices flags)" by (simp add: true_indices_def)
  show s: "set (true_indices flags) = {i. i < length flags \<and> flags ! i}" by (auto simp: true_indices_def)
  show "length (true_indices flags) = card {i. i < length flags \<and> flags ! i}"
    using distinct_card [OF d] s by simp
qed

lemma set_true_from_spec:
  "length (set_true_from start flags) = max (min start (length flags)) (length flags)"
  "i < length flags \<Longrightarrow> set_true_from start flags ! i \<longleftrightarrow> start \<le> i \<or> flags ! i"
  by (auto simp: set_true_from_def nth_append)

text \<open>What NumPy documents of \<open>argpartition\<close> at a valid position.\<close>

definition argpartition_ok :: "(real list \<Rightarrow> int \<Rightarrow> nat list) \<Rightarrow> bool" where
  "argpartition_ok ap \<longleftrightarrow> (\<forall>xs k. - int (length xs) \<le> k \<and> k < int (length xs) \<longrightarrow>
     (let p = nat (k mod int (length xs)) in
      distinct (ap xs k) \<and> set (ap xs k) = {0..<length xs} \<and>
      (\<forall>i \<le> p. xs ! (ap xs k ! i) \<le> xs ! (ap xs k ! p)) \<and>
      (\<forall>i. p \<le> i \<and> i < length xs \<longrightarrow> xs ! (ap xs k ! p) \<le> xs ! (ap xs k ! i))))"

definition hot_set :: "bool list \<Rightarrow> nat set" where
  "hot_set flags = {i. i < length flags \<and> flags ! i}"

lemma hot_set_finite [simp]: "finite (hot_set flags)"
  by (simp add: hot_set_def)

lemma top_part:
  assumes ok: "argpartition_ok ap" and m: "0 < m" "m < length xs"
  defines "tops \<equiv> set (drop (slice_start (length xs) (- int m)) (ap xs (- int m)))"
  shows "tops \<subseteq> {0..<length xs}" and "card tops = m"
    and "i < length xs \<Longrightarrow> i \<notin> tops \<Longrightarrow> j \<in> tops \<Longrightarrow> xs ! i \<le> xs ! j"
proof -
  let ?n = "length xs" and ?p = "length xs - m" and ?a = "ap xs (- int m)"
  have p: "nat (- int m mod int ?n) = ?p"
    using m by (simp add: zmod_zminus1_eq_if nat_diff_distrib)
  have a: "distinct ?a" "set ?a = {0..<?n}" "\<forall>i \<le> ?p. xs ! (?a ! i) \<le> xs ! (?a ! ?p)"
    "\<forall>i. ?p \<le> i \<and> i < ?n \<longrightarrow> xs ! (?a ! ?p) \<le> xs ! (?a ! i)"
    using ok [unfolded argpartition_ok_def, rule_format, of xs "- int m"] m unfolding Let_def p by auto
  have len: "length ?a = ?n" using distinct_card [OF a(1)] a(2) by simp
  have start: "slice_start ?n (- int m) = ?p" using m by (simp add: slice_start_def nat_diff_distrib)
  have tops: "tops = set (drop ?p ?a)" unfolding tops_def start ..
  show "tops \<subseteq> {0..<?n}" unfolding tops using a(2) set_drop_subset by fastforce
  have "card tops = length (drop ?p ?a)" unfolding tops using a(1) by (intro distinct_card) simp
  then show "card tops = m" using m len by simp
  show "xs ! i \<le> xs ! j" if i: "i < ?n" "i \<notin> tops" and j: "j \<in> tops"
  proof -
    have "i \<in> set (take ?p ?a)"
      using i a(2) set_append [of "take ?p ?a" "drop ?p ?a"] unfolding tops append_take_drop_id by auto
    then obtain u where u: "u < ?p" "i = ?a ! u" using len by (auto simp: in_set_conv_nth)
    obtain w where w: "w < m" "j = ?a ! (?p + w)" using j m len unfolding tops by (auto simp: in_set_conv_nth)
    have "xs ! i \<le> xs ! (?a ! ?p)" using a(3) u by simp
    also have "?p + w < ?n" using w m by simp
    then have "xs ! (?a ! ?p) \<le> xs ! j" unfolding w(2) using a(4) le_add1 by blast
    finally show ?thesis .
  qed
qed

lemma score_mask_spec:
  assumes ok: "argpartition_ok ap" and "1 \<le> sf_min_tokens f"
  obtains flags where "score_mask ap f scores (length scores) = Inr flags"
    "length flags = length scores" "int (card (hot_set flags)) \<le> max_count f (length scores)"
    "card (hot_set flags) \<le> length (filter (\<lambda>s. sf_threshold f \<le> s) scores)"
    "\<And>i. i < length scores \<Longrightarrow> \<not> flags ! i \<Longrightarrow> scores ! i < sf_threshold f \<or>
      int (card (hot_set flags)) = max_count f (length scores) \<and>
      (\<forall>j \<in> hot_set flags. scores ! i \<le> scores ! j)"
proof -
  let ?n = "length scores" and ?m = "max_count f (length scores)"
  let ?c = "length (filter (\<lambda>s. sf_threshold f \<le> s) scores)"
  have c: "length (filter id (map (\<lambda>s. sf_threshold f \<le> s) scores)) = ?c"
    by (simp add: filter_map o_def)
  have m: "1 \<le> ?m" using assms(2) by (simp add: max_count_def)
  have cn: "?c \<le> ?n" by simp
  show ?thesis
  proof (cases "?m < int ?c")
    case True
    let ?top = "drop (slice_start ?n (- ?m)) (ap scores (- ?m))"
    let ?flags = "mask_of ?n ?top"
    have mm: "int (nat ?m) = ?m" "0 < nat ?m" "nat ?m < ?n" using m True cn by linarith+
    note tp = top_part [OF ok mm(2,3), unfolded mm(1)]
    have hs: "hot_set ?flags = set ?top" using tp(1) by (auto simp: hot_set_def mask_of_def)
    have run: "score_mask ap f scores ?n = Inr ?flags"
      using True mm unfolding score_mask_def Let_def c by simp
    have card: "int (card (hot_set ?flags)) = ?m" unfolding hs tp(2) by (rule mm(1))
    show ?thesis
    proof (rule that [OF run])
      show "length ?flags = ?n" by (simp add: mask_of_def)
      show "int (card (hot_set ?flags)) \<le> ?m" "card (hot_set ?flags) \<le> ?c" using card True by linarith+
      fix i assume i: "i < ?n" "\<not> ?flags ! i"
      then have "i \<notin> set ?top" by (simp add: mask_of_def)
      then show "scores ! i < sf_threshold f \<or> int (card (hot_set ?flags)) = ?m \<and>
          (\<forall>j \<in> hot_set ?flags. scores ! i \<le> scores ! j)"
        using tp(3) [OF i(1)] card unfolding hs by blast
    qed
  next
    case False
    let ?flags = "map (\<lambda>s. sf_threshold f \<le> s) scores"
    have run: "score_mask ap f scores ?n = Inr ?flags"
      using False unfolding score_mask_def Let_def c by simp
    have card: "card (hot_set ?flags) = ?c"
      unfolding hot_set_def length_filter_conv_card by (rule arg_cong [of _ _ card]) auto
    show ?thesis
      by (rule that [OF run]) (use False card in auto)
  qed
qed

lemma select_hot_spec:
  assumes ok: "argpartition_ok ap" and t: "1 \<le> sf_min_tokens f"
  obtains hot where "select_hot ap f scores (length scores) = Inr hot"
    "sorted hot" "distinct hot" "set hot \<subseteq> {0..<length scores}"
    "sf_min_tokens f < int (length scores) \<Longrightarrow> {length scores - nat (sf_min_tokens f)..<length scores} \<subseteq> set hot"
    "int (length hot) \<le> max_count f (length scores) + sf_min_tokens f"
    "int (length hot) \<le> int (length (filter (\<lambda>s. sf_threshold f \<le> s) scores)) + sf_min_tokens f"
    "\<And>i. i < length scores \<Longrightarrow> i \<notin> set hot \<Longrightarrow> scores ! i < sf_threshold f \<or>
      max_count f (length scores) \<le> int (card {j \<in> set hot. scores ! i \<le> scores ! j})"
proof -
  let ?n = "length scores" and ?k = "nat (sf_min_tokens f)"
  obtain flags where fl: "score_mask ap f scores ?n = Inr flags" "length flags = ?n"
    "int (card (hot_set flags)) \<le> max_count f ?n"
    "card (hot_set flags) \<le> length (filter (\<lambda>s. sf_threshold f \<le> s) scores)"
    and rest: "\<And>i. i < ?n \<Longrightarrow> \<not> flags ! i \<Longrightarrow> scores ! i < sf_threshold f \<or>
      int (card (hot_set flags)) = max_count f ?n \<and> (\<forall>j \<in> hot_set flags. scores ! i \<le> scores ! j)"
    using score_mask_spec [OF ok t] by blast
  define recent where "recent = (if sf_min_tokens f < int ?n then {?n - ?k..<?n} else {})"
  define flags' where "flags' = (if sf_min_tokens f < int ?n
    then set_true_from (slice_start (length flags) (- sf_min_tokens f)) flags else flags)"
  define hot where "hot = true_indices flags'"
  have start: "slice_start ?n (- sf_min_tokens f) = ?n - ?k"
    using t by (auto simp: slice_start_def nat_diff_distrib)
  have sel: "select_hot ap f scores ?n = Inr hot" by (simp add: select_hot_def fl(1) hot_def flags'_def)
  have len: "length flags' = ?n" by (simp add: flags'_def set_true_from_spec fl(2) start)
  have nth: "flags' ! i \<longleftrightarrow> flags ! i \<or> i \<in> recent" if "i < ?n" for i
    using that by (auto simp: flags'_def recent_def set_true_from_spec(2) fl(2) start)
  have set: "set hot = hot_set flags \<union> recent"
    unfolding hot_def true_indices_spec(3) len hot_set_def using nth by (auto simp: fl(2) recent_def)
  have card_recent: "int (card recent) \<le> sf_min_tokens f" using t by (simp add: recent_def)
  have "length hot = card (set hot)" by (simp add: hot_def true_indices_spec distinct_card)
  also have "\<dots> \<le> card (hot_set flags) + card recent" unfolding set by (rule card_Un_le)
  finally have "int (length hot) \<le> int (card (hot_set flags)) + sf_min_tokens f" using card_recent by linarith
  then have "int (length hot) \<le> max_count f ?n + sf_min_tokens f"
    "int (length hot) \<le> int (length (filter (\<lambda>s. sf_threshold f \<le> s) scores)) + sf_min_tokens f"
    using fl(3,4) by linarith+
  moreover have "sorted hot" "distinct hot" by (simp_all add: hot_def true_indices_spec)
  moreover have "set hot \<subseteq> {0..<?n}" using len by (auto simp: hot_def true_indices_spec)
  moreover have "{?n - ?k..<?n} \<subseteq> set hot" if "sf_min_tokens f < int ?n"
    using that set by (simp add: recent_def)
  moreover have "scores ! i < sf_threshold f \<or>
      max_count f ?n \<le> int (card {j \<in> set hot. scores ! i \<le> scores ! j})" if i: "i < ?n" "i \<notin> set hot" for i
  proof -
    have nf: "\<not> flags ! i" using i set by (simp add: hot_set_def fl(2))
    consider "scores ! i < sf_threshold f" | "int (card (hot_set flags)) = max_count f ?n"
      "hot_set flags \<subseteq> {j \<in> set hot. scores ! i \<le> scores ! j}"
      using rest [OF i(1) nf] unfolding set by blast
    then show ?thesis
    proof cases
      case 2
      then show ?thesis using card_mono [OF _ 2(2)] by simp
    qed simp
  qed
  ultimately show ?thesis by (intro that [OF sel]) assumption+
qed

section \<open>Reconstruction lemmas\<close>

lemma scatter_fold_length: "length (fold (\<lambda>(i, r) d. d[i := r]) ps d) = length d"
  by (induction ps arbitrary: d) auto

lemma scatter_fold_nth:
  assumes "distinct is" and "i < length d"
  shows "fold (\<lambda>(i, r) d. d[i := r]) (zip is (map g is)) d ! i = (if i \<in> set is then g i else d ! i)"
  using assms
proof (induction "is" arbitrary: d)
  case (Cons j js)
  then show ?case by (auto simp: nth_list_update)
qed simp

lemma scatter_rows_spec:
  assumes "distinct is" and "set is \<subseteq> {0..<length d}" and "nd_width a = w"
    and "nd_rows a = map g is"
  obtains d' where "scatter_rows w is a d = Inr d'" "length d' = length d"
    "\<And>i. i < length d \<Longrightarrow> d' ! i = (if i \<in> set is then g i else d ! i)"
proof -
  have "scatter_rows w is a d = Inr (fold (\<lambda>(i, r) d. d[i := r]) (zip is (map g is)) d)"
    using assms by (auto simp: scatter_rows_def subset_iff)
  then show ?thesis by (rule that) (simp_all add: scatter_fold_length scatter_fold_nth [OF assms(1)])
qed

section \<open>Properties\<close>

lemma probe_query_length:
  "length (make_probe_query val k query) =
     (case query of Some q \<Rightarrow> length q | None \<Rightarrow> nd_width k)"
  by (simp add: make_probe_query_def Let_def column_means_def split: option.split)

lemma attention_probe_Inr:
  assumes "attention_probe val q k = Inr scores"
  shows "length scores = length (nd_rows k)" and "sum_list scores = 1" and "\<forall>w \<in> set scores. 0 < w"
proof -
  let ?l = "map (\<lambda>row. dot (map val row) q / sqrt (of_nat (max 1 (nd_width k)))) (nd_rows k)"
  have "?l \<noteq> []" "scores = softmax ?l" using assms by (auto simp: attention_probe_def split: if_splits)
  then show "length scores = length (nd_rows k)" "sum_list scores = 1" "\<forall>w \<in> set scores. 0 < w"
    using softmax_dist [of ?l] by (simp_all del: map_map)
qed

lemma sparse_filter_run_Inr:
  assumes "sparse_filter_run ap val ms k v query layer f = Inr (b, f')"
  obtains scores hot where "attention_probe val (make_probe_query val k query) k = Inr scores"
    "select_hot ap f scores (length (nd_rows k)) = Inr hot" "sb_hot_indices b = hot"
    "sb_context_len b = length (nd_rows k)"
    "sb_reduction_ratio b = 1 - of_nat (length hot) / of_nat (max 1 (length (nd_rows k)))"
  using assms by (auto simp: sparse_filter_run_def Let_def split: sum.splits)

lemma sparse_filter_run_ok:
  assumes ap: "argpartition_ok ap" and t: "1 \<le> sf_min_tokens f" and ne: "nd_rows k \<noteq> []"
    and v: "length (nd_rows v) = length (nd_rows k)"
    and q: "\<forall>q. query = Some q \<longrightarrow> length q = nd_width k"
  obtains scores hot b f' where
    "attention_probe val (make_probe_query val k query) k = Inr scores"
    "sparse_filter_run ap val ms k v query layer f = Inr (b, f')"
    "distinct hot" "set hot \<subseteq> {0..<length (nd_rows k)}"
    "sf_min_tokens f < int (length (nd_rows k)) \<Longrightarrow>
      {length (nd_rows k) - nat (sf_min_tokens f)..<length (nd_rows k)} \<subseteq> set hot"
    "sb_hot_indices b = hot" "sb_context_len b = length (nd_rows k)"
    "sb_k_sparse b = k\<lparr>nd_rows := map (\<lambda>i. nd_rows k ! i) hot\<rparr>"
    "sb_v_sparse b = v\<lparr>nd_rows := map (\<lambda>i. nd_rows v ! i) hot\<rparr>"
proof -
  let ?n = "length (nd_rows k)"
  have "length (make_probe_query val k query) = nd_width k"
    using q by (simp add: probe_query_length split: option.split)
  then obtain scores where sc: "attention_probe val (make_probe_query val k query) k = Inr scores"
    using ne by (simp add: attention_probe_def)
  have len: "length scores = ?n" by (rule attention_probe_Inr(1) [OF sc])
  obtain hot where hot: "select_hot ap f scores ?n = Inr hot" "distinct hot" "set hot \<subseteq> {0..<?n}"
    "sf_min_tokens f < int ?n \<Longrightarrow> {?n - nat (sf_min_tokens f)..<?n} \<subseteq> set hot"
    by (rule select_hot_spec [OF ap t, of scores, unfolded len]) blast
  define ks where "ks = k\<lparr>nd_rows := map (\<lambda>i. nd_rows k ! i) hot\<rparr>"
  define vs where "vs = v\<lparr>nd_rows := map (\<lambda>i. nd_rows v ! i) hot\<rparr>"
  have fi: "fancy_index k hot = Inr ks" "fancy_index v hot = Inr vs"
    using hot(3) v by (auto simp: fancy_index_def ks_def vs_def subset_iff)
  show ?thesis
    by (rule that [OF sc _ hot(2-4)])
      (simp add: sparse_filter_run_def Let_def sc hot(1) fi, simp_all add: ks_def vs_def)
qed


text \<open>
  How much is sent: at most the cap and at most \<open>1/threshold\<close> tokens (the weights sum to
  one), plus the \<open>min_tokens\<close> most recent; and a token that is not sent has a weight below
  the threshold, or as many tokens as the cap allows with at least its weight are sent.
\<close>
lemma sparse_selection:
  assumes ap: "argpartition_ok ap" and t: "1 \<le> sf_min_tokens f" and th: "0 < sf_threshold f"
    and run: "sparse_filter_run ap val ms k v query layer f = Inr (b, f')"
    and sc: "attention_probe val (make_probe_query val k query) k = Inr scores"
  shows "int (length (sb_hot_indices b)) \<le> max_count f (length (nd_rows k)) + sf_min_tokens f \<and>
    of_nat (length (sb_hot_indices b)) \<le> 1 / sf_threshold f + of_int (sf_min_tokens f) \<and>
    (\<forall>i < length (nd_rows k). i \<notin> set (sb_hot_indices b) \<longrightarrow> scores ! i < sf_threshold f \<or>
      max_count f (length (nd_rows k)) \<le> int (card {j \<in> set (sb_hot_indices b). scores ! i \<le> scores ! j}))"
proof -
  let ?n = "length (nd_rows k)" and ?c = "length (filter (\<lambda>s. sf_threshold f \<le> s) scores)"
  note dist = attention_probe_Inr [OF sc]
  obtain hot where hot: "select_hot ap f scores ?n = Inr hot"
    "int (length hot) \<le> max_count f ?n + sf_min_tokens f"
    "int (length hot) \<le> int ?c + sf_min_tokens f"
    "\<And>i. i < ?n \<Longrightarrow> i \<notin> set hot \<Longrightarrow> scores ! i < sf_threshold f \<or>
      max_count f ?n \<le> int (card {j \<in> set hot. scores ! i \<le> scores ! j})"
    by (rule select_hot_spec [OF ap t, of scores, unfolded dist(1)]) blast
  have b: "sb_hot_indices b = hot"
    using sparse_filter_run_Inr [OF run] sc hot(1) by (metis sum.inject(2))
  have "of_nat ?c * sf_threshold f \<le> 1"
    using markov_count [OF _ th, of scores] dist(2,3) by (simp add: less_imp_le)
  then have "(of_nat ?c :: real) \<le> 1 / sf_threshold f" using th by (simp add: field_simps)
  moreover have "(of_nat (length hot) :: real) \<le> of_nat ?c + of_int (sf_min_tokens f)"
    using hot(3) by (metis of_int_add of_int_le_iff of_int_of_nat_eq)
  ultimately show ?thesis using hot(2,4) unfolding b by auto
qed

text \<open>
  With \<open>min_tokens = 0\<close> nothing is saved: the slice \<open>hot_mask[-0:]\<close> is the whole mask, so
  every token of a non-empty cache is sent, whatever the threshold and the cap.
\<close>
lemma zero_min_tokens_sends_all:
  assumes "sf_min_tokens f = 0" and "sparse_filter_run ap val ms k v query layer f = Inr (b, f')"
  shows "sb_hot_indices b = [0..<length (nd_rows k)] \<and> sb_reduction_ratio b = 0"
proof -
  let ?n = "length (nd_rows k)"
  obtain scores hot where sc: "attention_probe val (make_probe_query val k query) k = Inr scores"
    and hot: "select_hot ap f scores ?n = Inr hot" "sb_hot_indices b = hot"
      "sb_reduction_ratio b = 1 - of_nat (length hot) / of_nat (max 1 ?n)"
    by (rule sparse_filter_run_Inr [OF assms(2)]) blast
  have n: "0 < ?n" using sc by (auto simp: attention_probe_def split: if_splits)
  obtain flags where fl: "score_mask ap f scores ?n = Inr flags" using hot(1)
    by (auto simp: select_hot_def split: sum.splits)
  have len: "length flags = ?n"
    using fl attention_probe_Inr(1) [OF sc] by (auto simp: score_mask_def Let_def mask_of_def split: if_splits)
  have "hot = true_indices (set_true_from 0 flags)"
    using hot(1) fl n assms(1) by (simp add: select_hot_def slice_start_def)
  also have "\<dots> = [0..<?n]"
    by (simp add: true_indices_def set_true_from_def len)
  finally show ?thesis using hot n by simp
qed

section \<open>Witnesses\<close>

definition sort_partition :: "real list \<Rightarrow> int \<Rightarrow> nat list" where
  "sort_partition xs k = sort_key (\<lambda>i. xs ! i) [0..<length xs]"

lemma sort_partition_ok: "argpartition_ok sort_partition"
proof -
  have le: "xs ! (sort_partition xs k ! i) \<le> xs ! (sort_partition xs k ! j)"
    if "i \<le> j" "j < length xs" for xs k i j
  proof -
    have "sorted (map (\<lambda>i. xs ! i) (sort_partition xs k))" by (simp add: sort_partition_def)
    then have "map (\<lambda>i. xs ! i) (sort_partition xs k) ! i \<le> map (\<lambda>i. xs ! i) (sort_partition xs k) ! j"
      using that by (intro sorted_nth_mono) (simp_all add: sort_partition_def)
    then show ?thesis using that by (simp add: sort_partition_def)
  qed
  show ?thesis unfolding argpartition_ok_def Let_def
  proof (intro allI impI conjI)
    fix xs :: "real list" and k i assume "- int (length xs) \<le> k \<and> k < int (length xs)"
      and i: "i \<le> nat (k mod int (length xs))"
    then have "nat (k mod int (length xs)) < length xs" by (cases xs) (auto simp: nat_less_iff)
    then show "xs ! (sort_partition xs k ! i) \<le> xs ! (sort_partition xs k ! nat (k mod int (length xs)))"
      by (rule le [OF i])
  qed (auto simp: sort_partition_def intro: le [unfolded sort_partition_def])
qed

definition three_rows :: "real ndarray" where
  "three_rows = \<lparr>nd_rows = [[1, 0], [0, 1], [1, 1]], nd_width = 2, nd_itemsize = 4\<rparr>"


end
