(* ===== verification/Nano_Overlap.thy ===== *)
theory Nano_Overlap
  imports Prelude
begin

text \<open>
  \<^verbatim>\<open>tempo/nano_overlap.py\<close>: per-layer timings, the CPU worker queue, the CUDA transfers whose
  timing a thread records later, and the metrics of a step. Threads are explicit: the worker
  takes an item and finishes it in two steps, and the recording of a CUDA transfer is a step of
  its own, which can come after the next \<open>begin_step\<close>. The clock is an argument of each step.
\<close>

type_synonym bytes = "8 word list"

record layer_timing =
  lt_layer_id :: nat
  lt_compute_start :: real
  lt_compute_end :: real
  lt_io_start :: real
  lt_io_end :: real
  lt_io_bytes :: int
  lt_bubble_ms :: real
  lt_overlap_ms :: real

record step_metrics =
  sm_step :: int
  sm_n_layers :: nat
  sm_total_compute_ms :: real
  sm_total_io_ms :: real
  sm_total_bubble_ms :: real
  sm_total_overlap_ms :: real
  sm_avg_bubble_ms :: real
  sm_pipeline_eff :: real
  sm_io_bytes_total :: int
  sm_io_throughput_gbs :: real
  sm_cuda_streams_used :: bool

record no_ewma =
  ne_a :: real
  ne_val :: real
  ne_var :: real

definition no_ewma_update :: "real \<Rightarrow> no_ewma \<Rightarrow> no_ewma" where
  "no_ewma_update x e =
     (let d = x - ne_val e
      in e\<lparr>ne_val := ne_val e + ne_a e * d,
           ne_var := (1 - ne_a e) * (ne_var e + ne_a e * d * d)\<rparr>)"

definition no_ewma_std :: "no_ewma \<Rightarrow> real" where
  "no_ewma_std e = sqrt (ne_var e)"

section \<open>Pinned buffers\<close>

text \<open>The pool is the list of the sizes of its buffers; a failed allocation leaves it empty.\<close>

definition pinned_pool_init :: "bool \<Rightarrow> bool \<Rightarrow> nat \<Rightarrow> nat \<Rightarrow> nat list" where
  "pinned_pool_init cuda alloc_ok n_layers chunk_elems =
     (if cuda \<and> alloc_ok then replicate n_layers chunk_elems else [])"

definition pinned_ready :: "nat list \<Rightarrow> bool" where
  "pinned_ready pool \<longleftrightarrow> pool \<noteq> []"

definition pinned_get :: "nat \<Rightarrow> nat list \<Rightarrow> nat option" where
  "pinned_get layer_id pool = (if pool = [] then None else Some (pool ! (layer_id mod length pool)))"

definition pinned_resize_if_needed :: "nat \<Rightarrow> nat list \<Rightarrow> nat list" where
  "pinned_resize_if_needed required_elems pool =
     (if pool = [] then []
      else if hd pool < required_elems then replicate (length pool) required_elems else pool)"

section \<open>Controller\<close>

text \<open>A tensor on the device: elements and element size. \<open>on_layer_compute_end\<close> may be given other objects.\<close>

datatype kv_tensor = Gpu_Tensor nat nat | Not_A_Tensor

record nano =
  no_n_layers :: nat
  no_chunk_bytes :: nat
  no_use_cuda :: bool
  no_io_callback :: bool
  no_pinned_pool :: "nat list"
  no_step :: int
  no_layer_timings :: "layer_timing list"
  no_io_events :: "nat list"
  no_pending_cuda :: "(nat \<times> real option) list"
  no_cpu_queue :: "(nat \<times> bytes) list"
  no_worker :: "(nat \<times> bytes \<times> real) option"
  no_cpu_stop :: bool
  no_compute_ewma :: no_ewma
  no_io_ewma :: no_ewma
  no_steps_done :: int
  no_history :: "step_metrics list"
  no_callbacks :: "(nat \<times> bytes option) list"

definition nano_init :: "nat \<Rightarrow> nat \<Rightarrow> bool \<Rightarrow> bool \<Rightarrow> bool \<Rightarrow> bool \<Rightarrow> nano" where
  "nano_init n_layers chunk_bytes use_cuda io_callback preallocate_pinned alloc_ok =
     \<lparr>no_n_layers = n_layers, no_chunk_bytes = chunk_bytes, no_use_cuda = use_cuda,
      no_io_callback = io_callback,
      no_pinned_pool = (if use_cuda \<and> preallocate_pinned
        then pinned_pool_init True alloc_ok n_layers (max 1 (chunk_bytes div 2)) else []),
      no_step = -1, no_layer_timings = [], no_io_events = [],
      no_pending_cuda = [], no_cpu_queue = [], no_worker = None, no_cpu_stop = False,
      no_compute_ewma = \<lparr>ne_a = 15 / 100, ne_val = 35 / 10, ne_var = 0\<rparr>,
      no_io_ewma = \<lparr>ne_a = 15 / 100, ne_val = 1, ne_var = 0\<rparr>,
      no_steps_done = 0, no_history = [], no_callbacks = []\<rparr>"

definition new_timing :: "nat \<Rightarrow> layer_timing" where
  "new_timing i = \<lparr>lt_layer_id = i, lt_compute_start = 0, lt_compute_end = 0, lt_io_start = 0,
                   lt_io_end = 0, lt_io_bytes = 0, lt_bubble_ms = 0, lt_overlap_ms = 0\<rparr>"

text \<open>
  New timing objects; a transfer that is still pending keeps its old one, of which only the
  start of the transfer matters from now on.
\<close>

definition nano_begin_step :: "int \<Rightarrow> nano \<Rightarrow> nano" where
  "nano_begin_step step s =
     s\<lparr>no_step := step,
       no_pending_cuda := map (\<lambda>(layer, old). (layer, case old of
           None \<Rightarrow> Some (lt_io_start (no_layer_timings s ! layer)) | Some t \<Rightarrow> Some t))
         (no_pending_cuda s),
       no_layer_timings := map new_timing [0..<no_n_layers s], no_io_events := []\<rparr>"

definition nano_compute_start :: "int \<Rightarrow> real \<Rightarrow> nano \<Rightarrow> nano result" where
  "nano_compute_start layer_id now s =
     (if 0 \<le> layer_id \<and> layer_id < int (no_n_layers s)
      then (if length (no_layer_timings s) \<le> nat layer_id then Inl IndexError
            else Inr (s\<lparr>no_layer_timings := (no_layer_timings s)[nat layer_id :=
                   (no_layer_timings s ! nat layer_id)\<lparr>lt_compute_start := now\<rparr>]\<rparr>))
      else Inr s)"

definition compute_ms :: "layer_timing \<Rightarrow> real" where
  "compute_ms lt = (lt_compute_end lt - lt_compute_start lt) * 1000"

definition enqueue_cuda_io :: "nat \<Rightarrow> kv_tensor \<Rightarrow> real \<Rightarrow> nano \<Rightarrow> nano result" where
  "enqueue_cuda_io layer_id kv io_start s =
     (case kv of
        Not_A_Tensor \<Rightarrow> Inl AttributeError
      | Gpu_Tensor numel element_size \<Rightarrow>
          Inr (s\<lparr>no_layer_timings := (no_layer_timings s)[layer_id :=
                   (no_layer_timings s ! layer_id)
                     \<lparr>lt_io_start := io_start, lt_io_bytes := int (numel * element_size)\<rparr>],
                 no_pinned_pool := pinned_resize_if_needed numel (no_pinned_pool s),
                 no_io_events := List.insert layer_id (no_io_events s),
                 no_pending_cuda := no_pending_cuda s @ [(layer_id, None)]\<rparr>))"

definition nano_compute_end ::
    "int \<Rightarrow> kv_tensor option \<Rightarrow> bytes option \<Rightarrow> real \<Rightarrow> real \<Rightarrow> nano \<Rightarrow> nano result" where
  "nano_compute_end layer kv_tensor kv_data t_compute_end t_io s =
     (if layer < 0 \<or> int (no_n_layers s) \<le> layer then Inr s
      else if length (no_layer_timings s) \<le> nat layer then Inl IndexError
      else
        let lt = (no_layer_timings s ! nat layer)\<lparr>lt_compute_end := t_compute_end\<rparr>;
            s1 = s\<lparr>no_layer_timings := (no_layer_timings s)[nat layer := lt],
                   no_compute_ewma := no_ewma_update (compute_ms lt) (no_compute_ewma s)\<rparr>
        in case (no_use_cuda s, kv_tensor) of
             (True, Some kv) \<Rightarrow> enqueue_cuda_io (nat layer) kv t_io s1
           | _ \<Rightarrow>
               (let given = (case kv_data of Some (b # bs) \<Rightarrow> Some (b # bs) | _ \<Rightarrow> None);
                    data = (case given of Some d \<Rightarrow> d | None \<Rightarrow> replicate (min (no_chunk_bytes s) 512) 0);
                    n_bytes = (case given of Some d \<Rightarrow> int (length d) | None \<Rightarrow> int (no_chunk_bytes s))
                in Inr (s1\<lparr>no_layer_timings := (no_layer_timings s1)[nat layer := lt\<lparr>lt_io_bytes := n_bytes\<rparr>],
                           no_cpu_queue := no_cpu_queue s1 @ [(nat layer, data)]\<rparr>)))"

text \<open>
  The worker thread, which exists without CUDA: take the oldest item, then, after the simulated
  transfer and the callback, record its timing in the \<^emph>\<open>current\<close> list of timings.
\<close>

definition worker_take :: "real \<Rightarrow> nano \<Rightarrow> nano" where
  "worker_take now s =
     (case (no_use_cuda s \<or> no_cpu_stop s, no_worker s, no_cpu_queue s) of
        (False, None, (layer, data) # rest) \<Rightarrow>
          s\<lparr>no_cpu_queue := rest, no_worker := Some (layer, data, now)\<rparr>
      | _ \<Rightarrow> s)"

definition record_io :: "real \<Rightarrow> real \<Rightarrow> real \<Rightarrow> layer_timing \<Rightarrow> layer_timing" where
  "record_io scale io_start io_end lt =
     (let io_ms = (io_end - io_start) * 1000; c_ms = compute_ms lt
      in lt\<lparr>lt_io_start := io_start, lt_io_end := io_end, lt_bubble_ms := max 0 (io_ms - c_ms),
            lt_overlap_ms := min io_ms c_ms * scale\<rparr>)"

definition worker_finish :: "real \<Rightarrow> nano \<Rightarrow> nano" where
  "worker_finish now s =
     (case no_worker s of
        None \<Rightarrow> s
      | Some (layer, data, io_start) \<Rightarrow>
          s\<lparr>no_worker := None,
            no_callbacks := (if no_io_callback s then no_callbacks s @ [(layer, Some data)] else no_callbacks s),
            no_io_ewma := no_ewma_update ((now - io_start) * 1000) (no_io_ewma s),
            no_layer_timings := (if layer < length (no_layer_timings s)
              then (no_layer_timings s)[layer := record_io 1 io_start now (no_layer_timings s ! layer)]
              else no_layer_timings s)\<rparr>)"

text \<open>
  The recording of the \<open>i\<close>-th pending CUDA transfer. After a new \<open>begin_step\<close> only the
  estimate changes. With a callback the overlap is scaled by 1000.
\<close>

definition cuda_done :: "nat \<Rightarrow> real \<Rightarrow> nano \<Rightarrow> nano" where
  "cuda_done i now s =
     (if i < length (no_pending_cuda s)
      then (let (layer, old) = no_pending_cuda s ! i;
                io_start = (case old of
                  None \<Rightarrow> lt_io_start (no_layer_timings s ! layer) | Some t \<Rightarrow> t)
            in s\<lparr>no_pending_cuda := take i (no_pending_cuda s) @ drop (Suc i) (no_pending_cuda s),
                 no_io_ewma := no_ewma_update ((now - io_start) * 1000) (no_io_ewma s),
                 no_callbacks := (if no_io_callback s then no_callbacks s @ [(layer, None)] else no_callbacks s),
                 no_layer_timings := (if old = None
                   then (no_layer_timings s)[layer :=
                     record_io (if no_io_callback s then 1000 else 1) io_start now (no_layer_timings s ! layer)]
                   else no_layer_timings s)\<rparr>)
      else s)"

section \<open>Metrics\<close>

definition compute_step_metrics :: "nano \<Rightarrow> step_metrics" where
  "compute_step_metrics s =
     (let lts = filter (\<lambda>lt. 0 < lt_compute_end lt) (no_layer_timings s) in
      if lts = []
      then \<lparr>sm_step = no_step s, sm_n_layers = no_n_layers s, sm_total_compute_ms = 0,
            sm_total_io_ms = 0, sm_total_bubble_ms = 0, sm_total_overlap_ms = 0,
            sm_avg_bubble_ms = 0, sm_pipeline_eff = 0, sm_io_bytes_total = 0,
            sm_io_throughput_gbs = 0, sm_cuda_streams_used = no_use_cuda s\<rparr>
      else
        let total_c = sum_list (map compute_ms lts);
            finished = filter (\<lambda>lt. 0 < lt_io_end lt) lts;
            total_io = sum_list (map (\<lambda>lt. (lt_io_end lt - lt_io_start lt) * 1000) finished);
            total_bubble = sum_list (map lt_bubble_ms lts);
            total_overlap = sum_list (map lt_overlap_ms lts);
            total_bytes = sum_list (map lt_io_bytes lts);
            elapsed_s = sum_list (map (\<lambda>lt. lt_io_end lt - lt_io_start lt) finished)
        in \<lparr>sm_step = no_step s, sm_n_layers = length lts, sm_total_compute_ms = total_c,
            sm_total_io_ms = total_io, sm_total_bubble_ms = total_bubble,
            sm_total_overlap_ms = total_overlap,
            sm_avg_bubble_ms = total_bubble / of_nat (max 1 (length lts)),
            sm_pipeline_eff = total_overlap / max (1 / 1000) (total_c + total_bubble),
            sm_io_bytes_total = total_bytes,
            sm_io_throughput_gbs = of_int total_bytes / max (1 / 10 ^ 9) elapsed_s / 1024 ^ 3,
            sm_cuda_streams_used = no_use_cuda s\<rparr>)"

text \<open>
  The end of a step, when it stops waiting: with CUDA at once, otherwise when the queue is seen
  empty or after two seconds. An item the worker still holds is not waited for.
\<close>

definition end_step_returns :: "bool \<Rightarrow> nano \<Rightarrow> bool" where
  "end_step_returns timed_out s \<longleftrightarrow> no_use_cuda s \<or> timed_out \<or> no_cpu_queue s = []"

definition nano_end_step :: "nano \<Rightarrow> step_metrics \<times> nano" where
  "nano_end_step s =
     (let metrics = compute_step_metrics s
      in (metrics, s\<lparr>no_history := deque_append 100 metrics (no_history s),
                     no_steps_done := no_steps_done s + 1\<rparr>))"

definition get_predicted_io_window_ms :: "nano \<Rightarrow> real" where
  "get_predicted_io_window_ms s = max 0 (ne_val (no_compute_ewma s) - 5 / 10)"

record nano_stats =
  nos_steps_done :: int
  nos_averages :: "(real \<times> real \<times> real \<times> real \<times> nat) option"
  nos_cuda_streams :: bool
  nos_pinned_pool_ready :: bool

text \<open>The averages over the last 20 steps are present once there is a step.\<close>

definition nano_get_stats :: "nano \<Rightarrow> nano_stats" where
  "nano_get_stats s =
     \<lparr>nos_steps_done = no_steps_done s,
      nos_averages =
        (if no_history s = [] then None
         else let recent = drop (length (no_history s) - 20) (no_history s);
                  n = of_nat (length recent)
              in Some (sum_list (map sm_pipeline_eff recent) / n,
                       sum_list (map sm_avg_bubble_ms recent) / n,
                       ne_val (no_compute_ewma s), ne_val (no_io_ewma s),
                       length (filter (\<lambda>m. sm_total_bubble_ms m < 5 / 10) recent))),
      nos_cuda_streams = no_use_cuda s, nos_pinned_pool_ready = pinned_ready (no_pinned_pool s)\<rparr>"

definition nano_shutdown :: "nano \<Rightarrow> nano" where
  "nano_shutdown s = s\<lparr>no_cpu_stop := True\<rparr>"

section \<open>Interleavings\<close>

text \<open>
  The steps of the training loop and of the threads, in any order. \<open>enq\<close> collects what
  \<open>on_layer_compute_end\<close> has put on the queue.
\<close>

inductive nano_step :: "nano \<times> (nat \<times> bytes) list \<Rightarrow> nano \<times> (nat \<times> bytes) list \<Rightarrow> bool" where
  Begin: "nano_step (s, enq) (nano_begin_step k s, enq)"
| Start: "nano_compute_start l t s = Inr s' \<Longrightarrow> nano_step (s, enq) (s', enq)"
| Finish: "nano_compute_end l kv d t1 t2 s = Inr s' \<Longrightarrow>
    nano_step (s, enq) (s', enq @ drop (length (no_cpu_queue s)) (no_cpu_queue s'))"
| Take: "nano_step (s, enq) (worker_take t s, enq)"
| Store: "nano_step (s, enq) (worker_finish t s, enq)"
| Cuda: "nano_step (s, enq) (cuda_done i t s, enq)"
| End: "end_step_returns b s \<Longrightarrow> nano_step (s, enq) (snd (nano_end_step s), enq)"

inductive_cases nano_stepE: "nano_step (s, enq) (s', enq')"

inductive nano_reach :: "nano \<Rightarrow> nano \<times> (nat \<times> bytes) list \<Rightarrow> bool" for s0 where
  Init: "nano_reach s0 (s0, [])"
| Step: "nano_reach s0 st \<Longrightarrow> nano_step st st' \<Longrightarrow> nano_reach s0 st'"

lemma nano_compute_end_Inr:
  assumes "nano_compute_end l kv d t1 t2 s = Inr s'"
  obtains "no_cpu_queue s' = no_cpu_queue s" "no_worker s' = no_worker s" "no_callbacks s' = no_callbacks s"
      "no_use_cuda s' = no_use_cuda s" "no_io_callback s' = no_io_callback s"
    | item where "no_cpu_queue s' = no_cpu_queue s @ [item]" "no_worker s' = no_worker s"
      "no_callbacks s' = no_callbacks s" "no_use_cuda s' = no_use_cuda s" "no_io_callback s' = no_io_callback s"
  using assms
  by (auto simp: nano_compute_end_def Let_def enqueue_cuda_io_def
      split: if_splits option.splits list.splits bool.splits kv_tensor.splits)

abbreviation as_sent :: "(nat \<times> bytes) list \<Rightarrow> (nat \<times> bytes option) list" where
  "as_sent \<equiv> map (\<lambda>(l, d). (l, Some d))"

definition in_worker :: "nano \<Rightarrow> (nat \<times> bytes) list" where
  "in_worker s = (case no_worker s of None \<Rightarrow> [] | Some (l, d, t) \<Rightarrow> [(l, d)])"

definition nano_ok :: "bool \<Rightarrow> nano \<times> (nat \<times> bytes) list \<Rightarrow> bool" where
  "nano_ok cuda st \<longleftrightarrow> (case st of (s, enq) \<Rightarrow>
     no_use_cuda s = cuda \<and> no_io_callback s \<and>
     (if cuda then no_cpu_queue s = enq \<and> no_worker s = None
      else no_pending_cuda s = [] \<and>
        as_sent enq = no_callbacks s @ as_sent (in_worker s) @ as_sent (no_cpu_queue s)))"

lemma nano_ok_take: "nano_ok cuda (s, enq) \<Longrightarrow> nano_ok cuda (worker_take t s, enq)"
  by (cases cuda; cases "no_cpu_stop s"; cases "no_worker s"; cases "no_cpu_queue s")
    (auto simp: nano_ok_def worker_take_def in_worker_def)

lemma nano_ok_finish: "nano_ok cuda (s, enq) \<Longrightarrow> nano_ok cuda (worker_finish t s, enq)"
  by (cases cuda; cases "no_worker s") (auto simp: nano_ok_def worker_finish_def in_worker_def)

lemma nano_ok_cuda: "nano_ok cuda (s, enq) \<Longrightarrow> nano_ok cuda (cuda_done i t s, enq)"
  by (cases cuda) (auto simp: nano_ok_def cuda_done_def in_worker_def Let_def split: prod.split)

lemma nano_ok_compute_end:
  assumes "nano_ok cuda (s, enq)" and "nano_compute_end l kv d t1 t2 s = Inr s'"
  shows "nano_ok cuda (s', enq @ drop (length (no_cpu_queue s)) (no_cpu_queue s'))"
proof -
  have p: "\<not> no_use_cuda s \<Longrightarrow> no_pending_cuda s' = no_pending_cuda s"
    using assms(2) by (auto simp: nano_compute_end_def Let_def split: if_splits option.splits list.splits)
  show ?thesis
    using assms(2) by (rule nano_compute_end_Inr)
      (use assms(1) p in \<open>auto simp: nano_ok_def in_worker_def split: if_splits\<close>)
qed

lemma nano_ok_step: "nano_step st st' \<Longrightarrow> nano_ok cuda st \<Longrightarrow> nano_ok cuda st'"
proof (induction rule: nano_step.induct)
  case (Finish l kv d t1 t2 s s' enq)
  then show ?case by (intro nano_ok_compute_end)
next
  case (Start l t s s' enq)
  then show ?case
    by (auto simp: nano_ok_def nano_compute_start_def in_worker_def split: if_splits)
qed (auto simp: nano_ok_take nano_ok_finish nano_ok_cuda,
    auto simp: nano_ok_def nano_begin_step_def nano_end_step_def in_worker_def Let_def)

lemma nano_reach_ok: "nano_reach (nano_init n c cuda True pre ok) st \<Longrightarrow> nano_ok cuda st"
  by (induction rule: nano_reach.induct)
    (auto simp: nano_ok_step, simp add: nano_ok_def nano_init_def in_worker_def)

section \<open>Properties\<close>

text \<open>
  C30: Delivery, in every interleaving of the loop and the worker: without CUDA the chunks given
  to the callback, the one in the worker's hands and the queue are, in this order, exactly the
  chunks enqueued, so none is lost, repeated or reordered, and when a step ends without a
  timeout at most one is undelivered. With CUDA there is no worker: a chunk that is not a
  tensor stays in the queue for ever.
\<close>
theorem nano_fifo:
  assumes "nano_reach (nano_init n c cuda True pre ok) (s, enq)"
  shows "(if cuda then no_cpu_queue s = enq
     else as_sent enq = no_callbacks s @ as_sent (in_worker s) @ as_sent (no_cpu_queue s) \<and>
       (end_step_returns False s \<longrightarrow> length enq \<le> length (no_callbacks s) + 1))"
proof -
  have ok: "nano_ok cuda (s, enq)" by (rule nano_reach_ok [OF assms])
  show ?thesis
  proof (cases cuda)
    case True
    then show ?thesis using ok by (simp add: nano_ok_def)
  next
    case False
    then have eq: "as_sent enq = no_callbacks s @ as_sent (in_worker s) @ as_sent (no_cpu_queue s)"
      and "\<not> no_use_cuda s" using ok by (simp_all add: nano_ok_def)
    have "length (in_worker s) \<le> 1" by (simp add: in_worker_def split: option.split)
    moreover have "length enq = length (no_callbacks s) + length (in_worker s) + length (no_cpu_queue s)"
      using arg_cong [OF eq, of length] by simp
    ultimately show ?thesis using eq False \<open>\<not> no_use_cuda s\<close> by (auto simp: end_step_returns_def)
  qed
qed

text \<open>A timing recorded once, after its layer's compute, with the overlap scaled by \<open>k\<close>.\<close>

definition timing_clean :: "real \<Rightarrow> layer_timing \<Rightarrow> bool" where
  "timing_clean k lt \<longleftrightarrow> (0 < lt_compute_end lt \<longrightarrow> 0 \<le> compute_ms lt \<and>
     0 < lt_io_end lt \<and> lt_io_start lt \<le> lt_io_end lt \<and>
     lt_bubble_ms lt = max 0 ((lt_io_end lt - lt_io_start lt) * 1000 - compute_ms lt) \<and>
     lt_overlap_ms lt = min ((lt_io_end lt - lt_io_start lt) * 1000) (compute_ms lt) * k)"

lemma record_io_clean:
  "0 < lt_compute_end lt \<Longrightarrow> lt_compute_start lt \<le> lt_compute_end lt \<Longrightarrow> 0 < io_end \<Longrightarrow>
   io_start \<le> io_end \<Longrightarrow> timing_clean k (record_io k io_start io_end lt)"
  by (simp add: timing_clean_def record_io_def compute_ms_def Let_def)

lemma clean_sums:
  assumes "\<forall>lt \<in> set lts. timing_clean k lt \<and> 0 < lt_compute_end lt" and "0 \<le> k"
  shows "sum_list (map lt_overlap_ms lts) + k * sum_list (map lt_bubble_ms lts) =
      k * sum_list (map (\<lambda>lt. (lt_io_end lt - lt_io_start lt) * 1000) lts)"
    and "sum_list (map lt_overlap_ms lts) \<le> k * sum_list (map compute_ms lts)"
    and "0 \<le> sum_list (map lt_overlap_ms lts)" and "0 \<le> sum_list (map lt_bubble_ms lts)"
    and "0 \<le> sum_list (map compute_ms lts)"
proof -
  have one: "lt_overlap_ms lt + k * lt_bubble_ms lt = k * ((lt_io_end lt - lt_io_start lt) * 1000) \<and>
      lt_overlap_ms lt \<le> k * compute_ms lt \<and> 0 \<le> lt_overlap_ms lt \<and> 0 \<le> lt_bubble_ms lt \<and> 0 \<le> compute_ms lt"
    if "lt \<in> set lts" for lt
  proof -
    let ?io = "(lt_io_end lt - lt_io_start lt) * 1000" and ?c = "compute_ms lt"
    have c: "0 \<le> ?c" "0 \<le> ?io" "lt_bubble_ms lt = max 0 (?io - ?c)" "lt_overlap_ms lt = min ?io ?c * k"
      using assms(1) that by (auto simp: timing_clean_def)
    show ?thesis using c assms(2) by (auto simp: min_def max_def algebra_simps mult_left_mono)
  qed
  show "sum_list (map lt_overlap_ms lts) + k * sum_list (map lt_bubble_ms lts) =
      k * sum_list (map (\<lambda>lt. (lt_io_end lt - lt_io_start lt) * 1000) lts)"
    using one by (induction lts) (auto simp: algebra_simps)
  show "sum_list (map lt_overlap_ms lts) \<le> k * sum_list (map compute_ms lts)"
    using one by (induction lts) (auto simp: algebra_simps intro: add_mono)
  show "0 \<le> sum_list (map lt_overlap_ms lts)" "0 \<le> sum_list (map lt_bubble_ms lts)"
    "0 \<le> sum_list (map compute_ms lts)"
    using one by (auto intro!: sum_list_nonneg)
qed

text \<open>
  The metrics of a step whose layers were all computed and recorded: scaled by \<open>k\<close>, the
  transfer time is exactly what overlapped with compute plus the bubbles, and the efficiency
  lies between 0 and \<open>k\<close>. The scale is 1, except with CUDA and a callback, where it is 1000.
\<close>
lemma nano_efficiency:
  assumes "\<forall>lt \<in> set (no_layer_timings s). timing_clean k lt" and "0 \<le> k"
    and "\<exists>lt \<in> set (no_layer_timings s). 0 < lt_compute_end lt"
  shows "sm_total_overlap_ms (compute_step_metrics s) + k * sm_total_bubble_ms (compute_step_metrics s) =
      k * sm_total_io_ms (compute_step_metrics s) \<and>
    0 \<le> sm_pipeline_eff (compute_step_metrics s) \<and> sm_pipeline_eff (compute_step_metrics s) \<le> k"
proof -
  let ?lts = "filter (\<lambda>lt. 0 < lt_compute_end lt) (no_layer_timings s)"
  have ne: "?lts \<noteq> []" using assms(3) by (auto simp: filter_empty_conv)
  have cl: "\<forall>lt \<in> set ?lts. timing_clean k lt \<and> 0 < lt_compute_end lt" using assms(1) by simp
  then have "filter (\<lambda>lt. 0 < lt_io_end lt) ?lts = ?lts" by (intro filter_True) (auto simp: timing_clean_def)
  moreover define m where "m = compute_step_metrics s"
  ultimately have m: "sm_total_overlap_ms m = sum_list (map lt_overlap_ms ?lts)"
    "sm_total_bubble_ms m = sum_list (map lt_bubble_ms ?lts)"
    "sm_total_io_ms m = sum_list (map (\<lambda>lt. (lt_io_end lt - lt_io_start lt) * 1000) ?lts)"
    "sm_pipeline_eff m = sum_list (map lt_overlap_ms ?lts) /
       max (1 / 1000) (sum_list (map compute_ms ?lts) + sum_list (map lt_bubble_ms ?lts))"
    using ne by (simp_all add: compute_step_metrics_def Let_def)
  note sums = clean_sums [OF cl assms(2)]
  let ?den = "max (1 / 1000) (sum_list (map compute_ms ?lts) + sum_list (map lt_bubble_ms ?lts))"
  have "sum_list (map lt_overlap_ms ?lts) \<le> k * ?den"
    using sums(2,4,5) assms(2) by (smt (verit) mult_left_mono max.cobounded2)
  then have "sm_pipeline_eff m \<le> k" unfolding m by (subst pos_divide_le_eq) auto
  moreover have "0 \<le> sm_pipeline_eff m" unfolding m using sums(3) by (intro divide_nonneg_nonneg) auto
  ultimately show ?thesis using sums(1) m unfolding m_def [symmetric] by simp
qed

text \<open>
  A chunk of the previous step that the worker finishes after the next step has begun a layer
  is recorded on the new timing of that layer, with a negative overlap.
\<close>
lemma late_record_negative:
  assumes "no_worker s = Some (l, d, t)" and "l < length (no_layer_timings s)"
    and "lt_compute_end (no_layer_timings s ! l) = 0" and "0 < lt_compute_start (no_layer_timings s ! l)"
  shows "lt_overlap_ms (no_layer_timings (worker_finish now s) ! l) < 0"
  using assms by (simp add: worker_finish_def record_io_def compute_ms_def Let_def min_less_iff_disj)

section \<open>Witnesses\<close>

theorem nano_fifo_witness:
  "\<exists>s. nano_reach (nano_init 2 8 False True False False) (s, [(0, [1, 2])]) \<and> no_cpu_queue s = [(0, [1, 2])]"
proof -
  let ?s0 = "nano_init 2 8 False True False False"
  define s1 where "s1 = nano_begin_step 0 ?s0"
  have s1: "no_layer_timings s1 = map new_timing [0..<2]" "no_n_layers s1 = 2" "\<not> no_use_cuda s1"
    "no_cpu_queue s1 = []" "no_worker s1 = None"
    by (simp_all add: s1_def nano_begin_step_def nano_init_def)
  obtain s2 where e: "nano_compute_end 0 None (Some [1, 2]) 1 2 s1 = Inr s2" and s2: "no_cpu_queue s2 = [(0, [1, 2])]"
    by (simp add: nano_compute_end_def s1 Let_def)
  have "nano_reach ?s0 (s1, [])" unfolding s1_def by (rule nano_reach.Step [OF nano_reach.Init nano_step.Begin])
  from nano_reach.Step [OF this nano_step.Finish [OF e]]
  have r: "nano_reach ?s0 (s2, [(0, [1, 2])])" by (simp add: s1 s2)
  from nano_fifo [OF r] have "as_sent [(0, [1, 2])] = no_callbacks s2 @ as_sent (in_worker s2) @ as_sent (no_cpu_queue s2)"
    by simp
  then show ?thesis using r s2 by blast
qed

end
