(* ===== verification/Nexus.thy ===== *)
theory Nexus
  imports Prelude
begin

text \<open>
  \<^verbatim>\<open>tempo/nexus_coordinator.py\<close>: the staggered checkpoint windows, computed on every
  rank from the gossiped NIC loads, the estimate of the flush time, and the per-layer gates.
  The collective is a parameter: the reduced vector, or \<open>None\<close> when there is no process
  group or the call raised. A CUDA event is its recorded flag; a stream that waits for an
  event that was not recorded does not wait.
\<close>

section \<open>State\<close>

definition MIN_WINDOW_MS :: real where "MIN_WINDOW_MS = 50"
definition MAX_WINDOW_MS :: real where "MAX_WINDOW_MS = 2000"
definition EMA_ALPHA :: real where "EMA_ALPHA = 25 / 100"
definition LAYER_GATE_TIMEOUT_S :: real where "LAYER_GATE_TIMEOUT_S = 5"

record checkpoint_window =
  cw_rank :: int
  cw_step :: int
  cw_delay_seconds :: real
  cw_window_ms :: real
  cw_my_load_gbps :: real
  cw_peer_loads :: "real list"
  cw_position :: nat

record layer_gate =
  lg_layer_id :: nat
  lg_cpu_gate :: bool
  lg_cuda_event :: "bool option"

record nexus =
  nx_rank :: int
  nx_world_size :: nat
  nx_n_layers :: nat
  nx_window_ms_ema :: real
  nx_overlap_frac :: real
  nx_has_monitor :: bool
  nx_layer_gates :: "layer_gate list"
  nx_flush_times :: "real list"
  nx_gossip :: "real list"

section \<open>Layer gates\<close>

definition layer_gate_init :: "bool \<Rightarrow> nat \<Rightarrow> bool \<Rightarrow> layer_gate" where
  "layer_gate_init cuda_available layer_id use_cuda =
     \<lparr>lg_layer_id = layer_id, lg_cpu_gate = False,
      lg_cuda_event = (if use_cuda \<and> cuda_available then Some False else None)\<rparr>"

definition gate_record :: "layer_gate \<Rightarrow> layer_gate" where
  "gate_record g = g\<lparr>lg_cuda_event := map_option (\<lambda>_. True) (lg_cuda_event g), lg_cpu_gate := True\<rparr>"

text \<open>
  How \<open>wait\<close> ends. \<open>fired_in_time\<close> says whether the CPU gate fires before the timeout
  when it is not set yet.
\<close>

datatype gate_wait = Ordered_After_Layer | Not_Ordered | Timed_Out

definition gate_wait_result :: "bool \<Rightarrow> bool \<Rightarrow> layer_gate \<Rightarrow> gate_wait" where
  "gate_wait_result has_stream fired_in_time g =
     (case lg_cuda_event g of
        Some recorded \<Rightarrow>
          if has_stream then (if recorded then Ordered_After_Layer else Not_Ordered)
          else if lg_cpu_gate g \<or> fired_in_time then Ordered_After_Layer else Timed_Out
      | None \<Rightarrow> if lg_cpu_gate g \<or> fired_in_time then Ordered_After_Layer else Timed_Out)"

definition gate_reset :: "layer_gate \<Rightarrow> layer_gate" where
  "gate_reset g = g\<lparr>lg_cpu_gate := False, lg_cuda_event := map_option (\<lambda>_. False) (lg_cuda_event g)\<rparr>"

section \<open>Coordinator\<close>

definition nexus_init ::
    "bool \<Rightarrow> int \<Rightarrow> nat \<Rightarrow> nat \<Rightarrow> real \<Rightarrow> real \<Rightarrow> bool \<Rightarrow> bool \<Rightarrow> nexus" where
  "nexus_init cuda_available rank world_size n_layers base_window_ms overlap_fraction has_monitor
      use_cuda_gates =
     \<lparr>nx_rank = rank, nx_world_size = world_size, nx_n_layers = n_layers,
      nx_window_ms_ema = base_window_ms, nx_overlap_frac = overlap_fraction,
      nx_has_monitor = has_monitor,
      nx_layer_gates = map (\<lambda>i. layer_gate_init cuda_available i use_cuda_gates) [0..<n_layers],
      nx_flush_times = [], nx_gossip = replicate world_size 0\<rparr>"

text \<open>\<open>NetworkMonitor\<close> has no method \<open>current_gbps\<close>: reading the load from it raises.\<close>

definition own_load :: "real option \<Rightarrow> nexus \<Rightarrow> real result" where
  "own_load my_bw_gbps n =
     (case my_bw_gbps of
        Some bw \<Rightarrow> Inr bw
      | None \<Rightarrow> if nx_has_monitor n then Inl AttributeError else Inr 0)"

definition gossip_vector :: "real \<Rightarrow> nexus \<Rightarrow> real list result" where
  "gossip_vector bw n =
     (case py_index (nx_world_size n) (nx_rank n) of
        None \<Rightarrow> Inl IndexError
      | Some i \<Rightarrow> Inr ((replicate (nx_world_size n) 0)[i := bw]))"

definition sorted_ranks :: "nat \<Rightarrow> real list \<Rightarrow> int list" where
  "sorted_ranks world_size peer_loads =
     map int (sort_key (\<lambda>r. peer_loads ! r) [0..<world_size])"

definition compute_window ::
    "int \<Rightarrow> real option \<Rightarrow> real list option \<Rightarrow> nexus \<Rightarrow> (checkpoint_window \<times> nexus) result" where
  "compute_window step my_bw_gbps reduced n =
     (case own_load my_bw_gbps n of
        Inl e \<Rightarrow> Inl e
      | Inr bw \<Rightarrow>
          (case gossip_vector bw n of
             Inl e \<Rightarrow> Inl e
           | Inr own \<Rightarrow>
               (let peer_loads = (case reduced of Some v \<Rightarrow> v | None \<Rightarrow> own) in
                case list_index (sorted_ranks (nx_world_size n) peer_loads) (nx_rank n) of
                  Inl e \<Rightarrow> Inl e
                | Inr position \<Rightarrow>
                    (let window_ms = nx_window_ms_ema n;
                         slot_ms = window_ms * (1 - nx_overlap_frac n);
                         delay_ms = of_nat position * slot_ms
                     in Inr (\<lparr>cw_rank = nx_rank n, cw_step = step, cw_delay_seconds = delay_ms / 1000,
                              cw_window_ms = window_ms, cw_my_load_gbps = bw,
                              cw_peer_loads = peer_loads, cw_position = position\<rparr>,
                             n\<lparr>nx_gossip := peer_loads\<rparr>)))))"

text \<open>The result and the seconds slept.\<close>

definition wait_for_window ::
    "int \<Rightarrow> real option \<Rightarrow> real list option \<Rightarrow> nexus \<Rightarrow> (checkpoint_window \<times> real \<times> nexus) result" where
  "wait_for_window step my_bw_gbps reduced n =
     (case compute_window step my_bw_gbps reduced n of
        Inl e \<Rightarrow> Inl e
      | Inr (win, n') \<Rightarrow>
          Inr (win, if 0 < cw_delay_seconds win then cw_delay_seconds win else 0, n'))"

definition window_ema_update :: "real \<Rightarrow> real \<Rightarrow> real" where
  "window_ema_update x e = EMA_ALPHA * x + (1 - EMA_ALPHA) * e"

definition record_flush_time :: "real \<Rightarrow> nexus \<Rightarrow> nexus" where
  "record_flush_time elapsed_seconds n =
     (let elapsed_ms = elapsed_seconds * 1000;
          clamped = max MIN_WINDOW_MS (min MAX_WINDOW_MS elapsed_ms)
      in n\<lparr>nx_window_ms_ema := window_ema_update clamped (nx_window_ms_ema n),
           nx_flush_times := nx_flush_times n @ [elapsed_ms]\<rparr>)"

definition begin_step :: "int \<Rightarrow> nexus \<Rightarrow> nexus" where
  "begin_step step n = n\<lparr>nx_layer_gates := map gate_reset (nx_layer_gates n)\<rparr>"

definition on_layer_ar_done :: "int \<Rightarrow> nexus \<Rightarrow> nexus result" where
  "on_layer_ar_done layer_id n =
     (if int (nx_n_layers n) \<le> layer_id then Inr n
      else case py_index (length (nx_layer_gates n)) layer_id of
             None \<Rightarrow> Inl IndexError
           | Some i \<Rightarrow>
               Inr (n\<lparr>nx_layer_gates := (nx_layer_gates n)[i := gate_record (nx_layer_gates n ! i)]\<rparr>))"

text \<open>\<open>None\<close>: the layer does not exist and the call returns at once.\<close>

definition wait_layer_gate :: "int \<Rightarrow> bool \<Rightarrow> bool \<Rightarrow> nexus \<Rightarrow> gate_wait option result" where
  "wait_layer_gate layer_id has_stream fired_in_time n =
     (if int (nx_n_layers n) \<le> layer_id then Inr None
      else case py_index (length (nx_layer_gates n)) layer_id of
             None \<Rightarrow> Inl IndexError
           | Some i \<Rightarrow> Inr (Some (gate_wait_result has_stream fired_in_time (nx_layer_gates n ! i))))"

definition get_layer_gate :: "int \<Rightarrow> nexus \<Rightarrow> layer_gate result" where
  "get_layer_gate layer_id n =
     (case py_index (length (nx_layer_gates n)) layer_id of
        None \<Rightarrow> Inl IndexError
      | Some i \<Rightarrow> Inr (nx_layer_gates n ! i))"

record nexus_stats =
  ns_rank :: int
  ns_world_size :: nat
  ns_n_layers :: nat
  ns_window_ms_ema :: real
  ns_n_checkpoints :: nat
  ns_flush_ms_mean :: "real option"
  ns_flush_ms_max :: "real option"

definition nexus_get_stats :: "nexus \<Rightarrow> nexus_stats" where
  "nexus_get_stats n =
     (let times = nx_flush_times n; k = length times in
      \<lparr>ns_rank = nx_rank n, ns_world_size = nx_world_size n, ns_n_layers = nx_n_layers n,
       ns_window_ms_ema = py_round 2 (nx_window_ms_ema n), ns_n_checkpoints = k,
       ns_flush_ms_mean = (if k \<noteq> 0 then Some (py_round 2 (sum_list times / of_nat k)) else None),
       ns_flush_ms_max = (if k \<noteq> 0 then Some (py_round 2 (Max (set times))) else None)\<rparr>)"

section \<open>The collective\<close>

text \<open>
  \<open>all_reduce\<close> with \<open>MAX\<close> over the vectors the ranks contribute.
\<close>

definition all_reduce_max :: "real list list \<Rightarrow> real list" where
  "all_reduce_max vs = map (\<lambda>i. Max (set (map (\<lambda>v. v ! i) vs))) [0..<length (hd vs)]"

text \<open>Each rank writes its slot only; with non-negative loads the maximum is the load vector.\<close>

lemma all_reduce_gossip:
  assumes "length loads = k" and "0 < k" and "\<forall>x \<in> set loads. 0 \<le> x"
  shows "all_reduce_max (map (\<lambda>r. (replicate k 0)[r := loads ! r]) [0..<k]) = loads"
proof (rule nth_equalityI)
  let ?vs = "map (\<lambda>r. (replicate k 0)[r := loads ! r]) [0..<k]"
  have hd: "length (hd ?vs) = k" using assms(2) by (simp add: hd_map)
  show "length (all_reduce_max ?vs) = length loads" using assms hd by (simp add: all_reduce_max_def)
  fix i assume "i < length (all_reduce_max ?vs)"
  then have i: "i < k" using hd by (simp add: all_reduce_max_def)
  have "Max (set (map (\<lambda>v. v ! i) ?vs)) = loads ! i"
  proof (rule Max_eqI)
    show "loads ! i \<in> set (map (\<lambda>v. v ! i) ?vs)"
      using i by (auto simp: image_iff intro!: bexI [of _ i])
    fix y assume "y \<in> set (map (\<lambda>v. v ! i) ?vs)"
    then obtain r where "r < k" and y: "y = (replicate k 0)[r := loads ! r] ! i" by auto
    moreover have "0 \<le> loads ! i" using assms i by simp
    ultimately show "y \<le> loads ! i" using i by (cases "r = i") auto
  qed simp
  then show "all_reduce_max ?vs ! i = loads ! i" using i hd by (simp add: all_reduce_max_def)
qed

section \<open>Positions\<close>

lemma sorted_ranks_simps:
  "distinct (sorted_ranks k loads)" "length (sorted_ranks k loads) = k"
  "set (sorted_ranks k loads) = int ` {0..<k}"
  by (simp_all add: sorted_ranks_def distinct_map)

lemma sorted_ranks_mono:
  assumes "p \<le> q" and "q < k"
  shows "loads ! nat (sorted_ranks k loads ! p) \<le> loads ! nat (sorted_ranks k loads ! q)"
proof -
  let ?rs = "sort_key (\<lambda>r. loads ! r) [0..<k]"
  have "sorted (map (\<lambda>r. loads ! r) ?rs)" by (rule sorted_sort_key)
  then have "map (\<lambda>r. loads ! r) ?rs ! p \<le> map (\<lambda>r. loads ! r) ?rs ! q"
    using assms by (intro sorted_nth_mono) simp_all
  then show ?thesis using assms by (simp add: sorted_ranks_def)
qed

lemma position_of:
  "list_index (sorted_ranks k loads) r = Inr p \<Longrightarrow> p < k \<and> sorted_ranks k loads ! p = r"
  using list_index_Inr [of "sorted_ranks k loads" r p] by (simp add: sorted_ranks_simps)

lemma position_exists: "0 \<le> r \<Longrightarrow> r < int k \<Longrightarrow> \<exists>p. list_index (sorted_ranks k loads) r = Inr p"
  by (auto simp: list_index_def sorted_ranks_simps image_iff intro!: bexI [of _ "nat r"])

lemma position_load_order:
  assumes "list_index (sorted_ranks k loads) r = Inr p" and "list_index (sorted_ranks k loads) r' = Inr p'"
    and "loads ! nat r < loads ! nat r'"
  shows "p < p'"
proof (rule ccontr)
  assume "\<not> p < p'"
  then have "loads ! nat (sorted_ranks k loads ! p') \<le> loads ! nat (sorted_ranks k loads ! p)"
    using position_of [OF assms(1)] by (intro sorted_ranks_mono) auto
  then show False using position_of [OF assms(1)] position_of [OF assms(2)] assms(3) by simp
qed

lemma position_own_vector:
  assumes "0 < bw" and "i < k"
    and "list_index (sorted_ranks k ((replicate k 0)[i := bw])) (int i) = Inr p"
  shows "p = k - 1"
proof (rule ccontr)
  let ?v = "(replicate k 0)[i := bw]" and ?rs = "sorted_ranks k ((replicate k 0)[i := bw])"
  note pos = position_of [OF assms(3)]
  assume "p \<noteq> k - 1"
  then have lt: "p < k - 1" "k - 1 < k" using pos by auto
  then have "?v ! nat (?rs ! p) \<le> ?v ! nat (?rs ! (k - 1))" by (intro sorted_ranks_mono) auto
  then have "bw \<le> ?v ! nat (?rs ! (k - 1))" using pos assms(2) by simp
  have "?rs ! (k - 1) \<in> int ` {0..<k}"
    using lt sorted_ranks_simps(3) [of k ?v] sorted_ranks_simps(2) [of k ?v] by (metis nth_mem)
  have "?rs ! (k - 1) = int i"
  proof -
    obtain x where x: "?rs ! (k - 1) = int x" "x < k" using \<open>?rs ! (k - 1) \<in> int ` {0..<k}\<close> by auto
    have "bw \<le> ?v ! x" using \<open>bw \<le> ?v ! nat (?rs ! (k - 1))\<close> x(1) by simp
    then have "x = i" using assms(1) x(2) by (cases "x = i") auto
    then show ?thesis using x(1) by simp
  qed
  then have "?rs ! p = ?rs ! (k - 1)" using pos by simp
  then show False
    using lt pos sorted_ranks_simps(1,2) [of k ?v] by (simp add: nth_eq_iff_index_eq)
qed

lemma compute_window_Inr:
  assumes "compute_window step bw reduced n = Inr (w, n')"
  shows "cw_delay_seconds w * 1000
      = of_nat (cw_position w) * (nx_window_ms_ema n * (1 - nx_overlap_frac n))"
    and "cw_window_ms w = nx_window_ms_ema n"
    and "list_index (sorted_ranks (nx_world_size n) (cw_peer_loads w)) (nx_rank n) = Inr (cw_position w)"
    and "cw_peer_loads w = (case reduced of Some v \<Rightarrow> v | None \<Rightarrow>
      (replicate (nx_world_size n) 0)[the (py_index (nx_world_size n) (nx_rank n)) := cw_my_load_gbps w])"
    and "own_load bw n = Inr (cw_my_load_gbps w)"
    and "py_index (nx_world_size n) (nx_rank n) \<noteq> None"
  using assms
  by (auto simp: compute_window_def gossip_vector_def Let_def split: sum.splits option.splits)

lemma compute_window_total:
  assumes "0 \<le> nx_rank n" and "nx_rank n < int (nx_world_size n)" and "own_load bw n = Inr x"
  shows "\<exists>w n'. compute_window step bw reduced n = Inr (w, n')"
proof -
  have "\<exists>g. gossip_vector x n = Inr g" using assms(1,2) by (simp add: gossip_vector_def py_index_def)
  then show ?thesis using assms position_exists [OF assms(1,2)]
    by (auto simp: compute_window_def Let_def split: option.splits)
      (metis (no_types, lifting) sum.case(2))+
qed

lemma nexus_init_window:
  "0 \<le> r \<Longrightarrow> r < int ws \<Longrightarrow>
     \<exists>w n'. compute_window step (Some b) red (nexus_init c r ws k base f mon u) = Inr (w, n')"
  by (rule compute_window_total) (simp_all add: nexus_init_def own_load_def)

section \<open>The estimate\<close>

interpretation window_ema: ema_filter window_ema_update EMA_ALPHA
  by unfold_locales (simp_all add: window_ema_update_def EMA_ALPHA_def)

lemma record_flush_ema:
  "nx_window_ms_ema (fold record_flush_time es n) =
     fold window_ema_update (map (\<lambda>e. max MIN_WINDOW_MS (min MAX_WINDOW_MS (e * 1000))) es)
       (nx_window_ms_ema n)"
  by (induction es arbitrary: n) (simp_all add: record_flush_time_def Let_def)

lemma record_flush_range:
  "min MIN_WINDOW_MS (nx_window_ms_ema n) \<le> nx_window_ms_ema (fold record_flush_time es n) \<and>
   nx_window_ms_ema (fold record_flush_time es n) \<le> max MAX_WINDOW_MS (nx_window_ms_ema n)"
  unfolding record_flush_ema
  by (rule window_ema.fold_upd_range)
    (auto simp: MIN_WINDOW_MS_def MAX_WINDOW_MS_def min_def max_def)

section \<open>Gates\<close>

datatype gate_op = Begin_Step int | Layer_Done int

fun gate_exec :: "gate_op \<Rightarrow> nexus \<Rightarrow> nexus" where
  "gate_exec (Begin_Step step) n = begin_step step n"
| "gate_exec (Layer_Done l) n = (case on_layer_ar_done l n of Inl e \<Rightarrow> n | Inr n' \<Rightarrow> n')"

text \<open>Whether layer \<open>i\<close> completed since the last start of a step.\<close>

fun layer_done :: "nat \<Rightarrow> nat \<Rightarrow> bool \<Rightarrow> gate_op list \<Rightarrow> bool" where
  "layer_done k i d [] = d"
| "layer_done k i d (Begin_Step step # ops) = layer_done k i False ops"
| "layer_done k i d (Layer_Done l # ops) =
     layer_done k i (d \<or> l < int k \<and> py_index k l = Some i) ops"

definition gate_synced :: "layer_gate \<Rightarrow> bool" where
  "gate_synced g \<longleftrightarrow> (case lg_cuda_event g of None \<Rightarrow> True | Some r \<Rightarrow> r = lg_cpu_gate g)"

lemma gate_synced_ops: "gate_synced (gate_record g)" "gate_synced (gate_reset g)"
  by (auto simp: gate_synced_def gate_record_def gate_reset_def split: option.splits)

definition gates_ok :: "nexus \<Rightarrow> bool" where
  "gates_ok n \<longleftrightarrow> length (nx_layer_gates n) = nx_n_layers n \<and>
     (\<forall>g \<in> set (nx_layer_gates n). gate_synced g)"

lemma gates_ok_init: "gates_ok (nexus_init cuda r ws k b f mon use)"
  by (simp add: gates_ok_def nexus_init_def layer_gate_init_def gate_synced_def)

lemma gate_exec_frame:
  "nx_n_layers (gate_exec op n) = nx_n_layers n \<and>
   length (nx_layer_gates (gate_exec op n)) = length (nx_layer_gates n)"
  by (cases op) (auto simp: begin_step_def on_layer_ar_done_def split: option.splits)

lemma gates_ok_exec: "gates_ok n \<Longrightarrow> gates_ok (gate_exec op n)"
proof (cases op)
  case (Begin_Step step)
  then show "gates_ok n \<Longrightarrow> ?thesis"
    by (simp add: gates_ok_def begin_step_def gate_synced_ops)
next
  case (Layer_Done l)
  assume ok: "gates_ok n"
  then have "\<forall>g \<in> set ((nx_layer_gates n)[i := gate_record (nx_layer_gates n ! i)]). gate_synced g" for i
    by (intro list_update_all gate_synced_ops) (simp add: gates_ok_def)
  then show ?thesis using ok Layer_Done
    by (auto simp: gates_ok_def on_layer_ar_done_def split: option.splits)
qed

lemma gate_exec_cpu:
  assumes "gates_ok n" and "i < nx_n_layers n"
  shows "lg_cpu_gate (nx_layer_gates (gate_exec op n) ! i) = layer_done (nx_n_layers n) i
    (lg_cpu_gate (nx_layer_gates n ! i)) [op]"
proof (cases op)
  case (Begin_Step step)
  then show ?thesis using assms by (simp add: begin_step_def gate_reset_def gates_ok_def)
next
  case (Layer_Done l)
  have len: "length (nx_layer_gates n) = nx_n_layers n" using assms(1) by (simp add: gates_ok_def)
  show ?thesis
  proof (cases "py_index (nx_n_layers n) l")
    case None
    then show ?thesis using Layer_Done len by (simp add: on_layer_ar_done_def)
  next
    case (Some j)
    then have "j < nx_n_layers n" by (rule py_index_less)
    then show ?thesis using Layer_Done len Some assms(2)
      by (simp add: on_layer_ar_done_def gate_record_def nth_list_update)
  qed
qed

lemma layer_done_Cons: "layer_done k i d (op # ops) = layer_done k i (layer_done k i d [op]) ops"
  by (cases op) simp_all

lemma gates_fold:
  "gates_ok n \<Longrightarrow> i < nx_n_layers n \<Longrightarrow>
     gates_ok (fold gate_exec ops n) \<and> nx_n_layers (fold gate_exec ops n) = nx_n_layers n \<and>
     lg_cpu_gate (nx_layer_gates (fold gate_exec ops n) ! i)
       = layer_done (nx_n_layers n) i (lg_cpu_gate (nx_layer_gates n ! i)) ops"
proof (induction ops arbitrary: n)
  case Nil
  then show ?case by simp
next
  case (Cons op ops)
  have "gates_ok (gate_exec op n)" "nx_n_layers (gate_exec op n) = nx_n_layers n"
    using Cons.prems gates_ok_exec gate_exec_frame by blast+
  with Cons show ?case
    by (simp add: gate_exec_cpu layer_done_Cons [of _ _ _ op ops])
qed

lemma gate_exec_event:
  assumes "i < length (nx_layer_gates n)"
  shows "lg_cuda_event (nx_layer_gates (gate_exec op n) ! i) = None
    \<longleftrightarrow> lg_cuda_event (nx_layer_gates n ! i) = None"
proof (cases op)
  case (Begin_Step step)
  then show ?thesis using assms by (simp add: begin_step_def gate_reset_def)
next
  case (Layer_Done l)
  show ?thesis
  proof (cases "py_index (length (nx_layer_gates n)) l")
    case None
    then show ?thesis using Layer_Done by (simp add: on_layer_ar_done_def)
  next
    case (Some j)
    then have "j < length (nx_layer_gates n)" by (rule py_index_less)
    then show ?thesis using Layer_Done Some assms
      by (simp add: on_layer_ar_done_def gate_record_def nth_list_update)
  qed
qed

lemma gate_fold_event:
  "i < length (nx_layer_gates n) \<Longrightarrow>
     lg_cuda_event (nx_layer_gates (fold gate_exec ops n) ! i) = None
       \<longleftrightarrow> lg_cuda_event (nx_layer_gates n ! i) = None"
  by (induction ops arbitrary: n) (simp_all add: gate_exec_event gate_exec_frame)

section \<open>Properties\<close>



text \<open>
  The local fallback. When the collective fails (or there is no process group), a rank with
  a positive load sees zeros for all others and takes the last position: all ranks of a group
  get the same delay and flush together, which is what the protocol is there to prevent.
\<close>

lemma fallback_collision:
  assumes "compute_window step (Some bw) None n = Inr (w, n')" and "0 < bw" and "0 \<le> nx_rank n"
  shows "cw_position w = nx_world_size n - 1 \<and>
    cw_delay_seconds w * 1000
      = of_nat (nx_world_size n - 1) * (nx_window_ms_ema n * (1 - nx_overlap_frac n))"
proof -
  note W = compute_window_Inr [OF assms(1)]
  have i: "py_index (nx_world_size n) (nx_rank n) = Some (nat (nx_rank n))"
    "nat (nx_rank n) < nx_world_size n"
    using W(6) assms(3) by (auto simp: py_index_def split: if_splits)
  have "cw_my_load_gbps w = bw" using W(5) by (simp add: own_load_def)
  then have "list_index (sorted_ranks (nx_world_size n)
      ((replicate (nx_world_size n) 0)[nat (nx_rank n) := bw])) (int (nat (nx_rank n))) = Inr (cw_position w)"
    using W(3,4) i(1) assms(3) by simp
  from position_own_vector [OF assms(2) i(2) this] W(1) show ?thesis by simp
qed



text \<open>
  The flush-time estimate: whatever flush times are recorded, it stays between 50 ms and
  2 s once the configured base window is, and in general between the base and these clamps;
  it is 3/4 of the old estimate plus 1/4 of the clamped new time, and every record counts.
\<close>

lemma window_estimate_bounds:
  "min MIN_WINDOW_MS (nx_window_ms_ema n) \<le> nx_window_ms_ema (fold record_flush_time es n) \<and>
   nx_window_ms_ema (fold record_flush_time es n) \<le> max MAX_WINDOW_MS (nx_window_ms_ema n) \<and>
   ns_n_checkpoints (nexus_get_stats (fold record_flush_time es n)) = length (nx_flush_times n) + length es"
proof -
  have "length (nx_flush_times (fold record_flush_time es n)) = length (nx_flush_times n) + length es"
    by (induction es arbitrary: n) (simp_all add: record_flush_time_def Let_def)
  then show ?thesis using record_flush_range [of n es] by (simp add: nexus_get_stats_def Let_def)
qed

end
