(* ===== verification/NVLink_Router.thy ===== *)
theory NVLink_Router
  imports Prelude
begin

text \<open>
  \<^verbatim>\<open>tempo/nvlink_router.py\<close>: smoothed utilisation per NIC, choice of the GPU whose NIC
  carries a flush, relay accounting and the estimates. Parameters: what reading the byte
  counter of a NIC gives (\<open>None\<close> if it fails), the clock of each reading, and whether PyTorch
  is available; the copy itself is PyTorch's.
\<close>

definition NV_LINK_BPS :: real where "NV_LINK_BPS = 200 * 10 ^ 9 / 8"
definition NVLINK_PAIR_BPS :: real where "NVLINK_PAIR_BPS = 150 * 10 ^ 9"
definition NV_EMA_ALPHA :: real where "NV_EMA_ALPHA = 3 / 10"

record nic_stats =
  ns_name :: string
  ns_gpu_idx :: int
  ns_ema_tx_bps :: real
  ns_ema_rx_bps :: real
  ns_prev_tx :: int
  ns_prev_rx :: int
  ns_last_poll_ts :: real

definition util_fraction :: "nic_stats \<Rightarrow> real" where
  "util_fraction s = min 1 (ns_ema_tx_bps s / NV_LINK_BPS)"

definition nic_is_idle :: "nic_stats \<Rightarrow> bool" where
  "nic_is_idle s \<longleftrightarrow> ns_ema_tx_bps s < NV_LINK_BPS * (10 / 100)"

record nvlink_router =
  nv_n_gpus :: int
  nv_saturation_threshold :: real
  nv_poll_interval_s :: real
  nv_nic_names :: "string list"
  nv_nic_stats :: "(string, nic_stats) dict"
  nv_gpu_to_nic :: "(int, string) dict"
  nv_nic_to_gpu :: "(string, int) dict"
  nv_torch_ok :: bool
  nv_polling :: bool
  nv_relays_done :: int
  nv_bytes_relayed :: int
  nv_reroutes :: int

definition nvlink_init ::
    "nat \<Rightarrow> string list option \<Rightarrow> real \<Rightarrow> real \<Rightarrow> bool \<Rightarrow> nvlink_router" where
  "nvlink_init n_gpus nic_names0 saturation_threshold poll_interval_s torch_available =
     (let nic_names = (case nic_names0 of
            None \<Rightarrow> map (\<lambda>i. ''hsn'' @ digits i) [0..<n_gpus] | Some ns \<Rightarrow> ns);
          numbered = zip nic_names (map int [0..<length nic_names])
      in \<lparr>nv_n_gpus = int n_gpus, nv_saturation_threshold = saturation_threshold,
          nv_poll_interval_s = poll_interval_s, nv_nic_names = nic_names,
          nv_nic_stats = fold (\<lambda>(name, i). AList.update name
              \<lparr>ns_name = name, ns_gpu_idx = i, ns_ema_tx_bps = 0, ns_ema_rx_bps = 0,
               ns_prev_tx = 0, ns_prev_rx = 0, ns_last_poll_ts = 0\<rparr>) numbered [],
          nv_gpu_to_nic = map (\<lambda>(name, i). (i, name)) numbered,
          nv_nic_to_gpu = fold (\<lambda>(name, i). AList.update name i) numbered [],
          nv_torch_ok = torch_available, nv_polling = False,
          nv_relays_done = 0, nv_bytes_relayed = 0, nv_reroutes = 0\<rparr>)"

section \<open>Polling\<close>

definition nv_ema_update :: "real \<Rightarrow> real \<Rightarrow> real" where
  "nv_ema_update x ema = NV_EMA_ALPHA * x + (1 - NV_EMA_ALPHA) * ema"

definition read_nic :: "int option \<Rightarrow> real \<Rightarrow> nic_stats \<Rightarrow> nic_stats" where
  "read_nic tx now s =
     (case tx of
        None \<Rightarrow> s
      | Some tx_bytes \<Rightarrow>
          (let dt = max (1 / 10 ^ 6) (now - ns_last_poll_ts s);
               delta_bytes = max 0 (tx_bytes - ns_prev_tx s);
               s1 = (if 0 < ns_last_poll_ts s
                     then s\<lparr>ns_ema_tx_bps := nv_ema_update (of_int delta_bytes / dt) (ns_ema_tx_bps s)\<rparr>
                     else s)
           in s1\<lparr>ns_prev_tx := tx_bytes, ns_last_poll_ts := now\<rparr>))"

text \<open>One pass over the NICs: the counter and the clock of each.\<close>

definition nv_poll :: "(string \<Rightarrow> int option) \<Rightarrow> (string \<Rightarrow> real) \<Rightarrow> nvlink_router \<Rightarrow> nvlink_router" where
  "nv_poll sysfs clock r =
     r\<lparr>nv_nic_stats := map (\<lambda>(n, s). (n, read_nic (sysfs (ns_name s)) (clock (ns_name s)) s)) (nv_nic_stats r)\<rparr>"

definition nv_start :: "(string \<Rightarrow> int option) \<Rightarrow> (string \<Rightarrow> real) \<Rightarrow> nvlink_router \<Rightarrow> nvlink_router" where
  "nv_start sysfs clock r = (nv_poll sysfs clock r)\<lparr>nv_polling := True\<rparr>"

definition nv_stop :: "nvlink_router \<Rightarrow> nvlink_router" where
  "nv_stop r = r\<lparr>nv_polling := False\<rparr>"

section \<open>Routing\<close>

definition first_ranked :: "('a \<Rightarrow> 'k::linorder) \<Rightarrow> 'a list \<Rightarrow> 'a option" where
  "first_ranked key xs = (case sort_key key xs of [] \<Rightarrow> None | x # _ \<Rightarrow> Some x)"

definition nic_of_gpu :: "int \<Rightarrow> nvlink_router \<Rightarrow> nic_stats option" where
  "nic_of_gpu gpu r =
     (case map_of (nv_gpu_to_nic r) gpu of
        None \<Rightarrow> None | Some name \<Rightarrow> map_of (nv_nic_stats r) name)"

definition select_egress_gpu :: "int \<Rightarrow> nvlink_router \<Rightarrow> int \<times> nvlink_router" where
  "select_egress_gpu primary_gpu r =
     (case nic_of_gpu primary_gpu r of
        None \<Rightarrow> (primary_gpu, r)
      | Some primary \<Rightarrow>
          (let primary_util = util_fraction primary in
           if primary_util \<le> nv_saturation_threshold r then (primary_gpu, r)
           else case first_ranked ns_ema_tx_bps (map snd (nv_nic_stats r)) of
                  None \<Rightarrow> (primary_gpu, r)
                | Some best \<Rightarrow>
                    if util_fraction best < primary_util - 5 / 100
                    then (ns_gpu_idx best, r\<lparr>nv_reroutes := nv_reroutes r + 1\<rparr>)
                    else (primary_gpu, r)))"

definition need_nvlink_relay :: "int \<Rightarrow> int \<Rightarrow> bool" where
  "need_nvlink_relay src_gpu egress_gpu \<longleftrightarrow> src_gpu \<noteq> egress_gpu"

text \<open>The tensor: its device, number of elements and element size.\<close>

record tensor_info =
  ti_device :: int
  ti_numel :: int
  ti_element_size :: int

definition nvlink_transfer :: "tensor_info \<Rightarrow> int \<Rightarrow> int \<Rightarrow> nvlink_router \<Rightarrow> tensor_info \<times> nvlink_router" where
  "nvlink_transfer t src_gpu dst_gpu r =
     (if \<not> nv_torch_ok r then (t, r)
      else (t\<lparr>ti_device := dst_gpu\<rparr>,
            r\<lparr>nv_relays_done := nv_relays_done r + 1,
              nv_bytes_relayed := nv_bytes_relayed r + ti_numel t * ti_element_size t\<rparr>))"

definition record_flush_bytes :: "int \<Rightarrow> int \<Rightarrow> nvlink_router \<Rightarrow> nvlink_router" where
  "record_flush_bytes gpu_idx n_bytes r =
     (case map_of (nv_gpu_to_nic r) gpu_idx of
        None \<Rightarrow> r
      | Some name \<Rightarrow>
          (case map_of (nv_nic_stats r) name of
             None \<Rightarrow> r
           | Some s \<Rightarrow>
               (let estimated_bps = of_int n_bytes / max (nv_poll_interval_s r) (1 / 10 ^ 6)
                in r\<lparr>nv_nic_stats := AList.update name
                       (s\<lparr>ns_ema_tx_bps := nv_ema_update estimated_bps (ns_ema_tx_bps s)\<rparr>)
                       (nv_nic_stats r)\<rparr>)))"

definition get_nic_util :: "int \<Rightarrow> nvlink_router \<Rightarrow> real" where
  "get_nic_util gpu_idx r = (case nic_of_gpu gpu_idx r of None \<Rightarrow> 0 | Some s \<Rightarrow> util_fraction s)"

definition get_all_utils :: "nvlink_router \<Rightarrow> (int, real) dict" where
  "get_all_utils r =
     fold (\<lambda>(n, s). AList.update (ns_gpu_idx s) (util_fraction s)) (nv_nic_stats r) []"

definition count_saturated_nics :: "nvlink_router \<Rightarrow> int" where
  "count_saturated_nics r =
     int (length (filter (\<lambda>(n, s). nv_saturation_threshold r < util_fraction s) (nv_nic_stats r)))"

definition all_saturated :: "nvlink_router \<Rightarrow> bool" where
  "all_saturated r \<longleftrightarrow> nv_n_gpus r \<le> count_saturated_nics r"

definition estimate_relay_overhead_ms :: "int \<Rightarrow> int \<Rightarrow> int \<Rightarrow> real" where
  "estimate_relay_overhead_ms n_bytes src_gpu dst_gpu =
     (if src_gpu = dst_gpu then 0 else of_int n_bytes / NVLINK_PAIR_BPS * 1000)"

text \<open>\<open>min\<close> over the utilisations; there is a NIC, or the primary has utilisation 0.\<close>

definition estimate_reroute_gain_ms :: "int \<Rightarrow> int \<Rightarrow> nvlink_router \<Rightarrow> (real \<times> nvlink_router) result" where
  "estimate_reroute_gain_ms n_bytes primary_gpu r =
     (let primary_util = get_nic_util primary_gpu r in
      if primary_util \<le> nv_saturation_threshold r then Inr (0, r)
      else
        let available_bps = NV_LINK_BPS * max (1 / 100) (1 - primary_util);
            wait_ms = of_int n_bytes / available_bps * 1000
        in case py_min id (map (util_fraction \<circ> snd) (nv_nic_stats r)) of
             None \<Rightarrow> Inl ValueError
           | Some best_util \<Rightarrow>
               (let egress_avail = NV_LINK_BPS * max (1 / 100) (1 - best_util);
                    flush_ms = of_int n_bytes / egress_avail * 1000;
                    (egress_gpu, r1) = select_egress_gpu primary_gpu r;
                    relay_overhead = estimate_relay_overhead_ms n_bytes primary_gpu egress_gpu
                in Inr (wait_ms - (flush_ms + relay_overhead), r1)))"

record nic_util_stats =
  nu_gpu_idx :: int
  nu_ema_tx_gbps :: real
  nu_util_pct :: real
  nu_is_idle :: bool

record nvlink_stats =
  nvs_relays_done :: int
  nvs_bytes_relayed :: int
  nvs_reroutes :: int
  nvs_saturated_nics :: int
  nvs_all_saturated :: bool
  nvs_nic_utils :: "(string, nic_util_stats) dict"

definition nvlink_get_stats :: "nvlink_router \<Rightarrow> nvlink_stats" where
  "nvlink_get_stats r =
     \<lparr>nvs_relays_done = nv_relays_done r, nvs_bytes_relayed = nv_bytes_relayed r,
      nvs_reroutes = nv_reroutes r, nvs_saturated_nics = count_saturated_nics r,
      nvs_all_saturated = all_saturated r,
      nvs_nic_utils = map (\<lambda>(n, s). (ns_name s,
         \<lparr>nu_gpu_idx = ns_gpu_idx s, nu_ema_tx_gbps = ns_ema_tx_bps s / 10 ^ 9,
          nu_util_pct = util_fraction s * 100, nu_is_idle = nic_is_idle s\<rparr>)) (nv_nic_stats r)\<rparr>"

section \<open>Interfaces provided\<close>

interpretation nv_ema: ema_filter nv_ema_update NV_EMA_ALPHA
  by unfold_locales (simp_all add: nv_ema_update_def NV_EMA_ALPHA_def)

lemma first_ranked_Some: "xs \<noteq> [] \<Longrightarrow> \<exists>x. first_ranked key xs = Some x"
proof (cases "sort_key key xs")
  case Nil
  assume "xs \<noteq> []"
  then show ?thesis using length_sort [of key xs] unfolding Nil by simp
qed (simp add: first_ranked_def)

lemma first_ranked_least:
  assumes "first_ranked key xs = Some x"
  shows "x \<in> set xs \<and> (\<forall>y \<in> set xs. key x \<le> key y)"
proof -
  obtain ys where s: "sort_key key xs = x # ys"
    using assms by (auto simp: first_ranked_def split: list.splits)
  have "sorted (map key (x # ys))" unfolding s [symmetric] by simp
  moreover have "set xs = set (x # ys)" unfolding s [symmetric] by simp
  ultimately show ?thesis by auto
qed

interpretation ranked: least_pick "first_ranked key" key
  by unfold_locales (rule first_ranked_Some, assumption, rule first_ranked_least)

section \<open>Invariant\<close>

definition nv_ok :: "nvlink_router \<Rightarrow> bool" where
  "nv_ok r \<longleftrightarrow> distinct (map fst (nv_nic_stats r)) \<and>
     (\<forall>(n, s) \<in> set (nv_nic_stats r). ns_name s = n \<and> 0 \<le> ns_ema_tx_bps s \<and>
        map_of (nv_gpu_to_nic r) (ns_gpu_idx s) = Some n) \<and>
     (\<forall>g n. map_of (nv_gpu_to_nic r) g = Some n \<longrightarrow> n \<in> fst ` set (nv_nic_stats r))"

lemma fold_update_numbered:
  "distinct (map fst al) \<Longrightarrow> distinct (map fst (fold (\<lambda>(n, i). AList.update n (f n i)) ps al))"
  "fst ` set (fold (\<lambda>(n, i). AList.update n (f n i)) ps al) = fst ` set ps \<union> fst ` set al"
  "\<forall>(n, s) \<in> set al. P n s \<Longrightarrow> \<forall>(n, i) \<in> set ps. P n (f n i) \<Longrightarrow>
     \<forall>(n, s) \<in> set (fold (\<lambda>(n, i). AList.update n (f n i)) ps al). P n s"
proof (induction ps arbitrary: al)
  case (Cons p ps)
  obtain n i where p: "p = (n, i)" by (cases p)
  {
    case 1
    then show ?case using Cons.IH(1) by (simp add: p distinct_update)
  next
    case 2
    show ?case by (simp add: p Cons.IH(2) dom_update)
  next
    case 3
    have "\<forall>(n, s) \<in> set (AList.update n (f n i) al). P n s"
      using 3 by (intro alist_update_all2) (auto simp: p)
    then show ?case using 3 Cons.IH(3) by (simp add: p)
  }
qed simp_all

lemma nv_ok_init: "nv_ok (nvlink_init n names thr poll torch)"
proof -
  define nn where "nn = (case names of None \<Rightarrow> map (\<lambda>i. ''hsn'' @ digits i) [0..<n] | Some ns \<Rightarrow> ns)"
  define num where "num = zip nn (map int [0..<length nn])"
  define f where "f = (\<lambda>name i. \<lparr>ns_name = name, ns_gpu_idx = i, ns_ema_tx_bps = 0, ns_ema_rx_bps = 0,
               ns_prev_tx = 0, ns_prev_rx = 0, ns_last_poll_ts = 0\<rparr>)"
  let ?r = "nvlink_init n names thr poll torch"
  have r: "nv_nic_stats ?r = fold (\<lambda>(n, i). AList.update n (f n i)) num []"
    "nv_gpu_to_nic ?r = map (\<lambda>(name, i). (i, name)) num"
    by (simp_all add: nvlink_init_def nn_def num_def f_def Let_def)
  have "map fst (nv_gpu_to_nic ?r) = map int [0..<length nn]"
    by (simp add: r num_def comp_def case_prod_unfold map_snd_zip)
  then have d: "distinct (map fst (nv_gpu_to_nic ?r))" by (simp add: distinct_map)
  have "map_of (nv_gpu_to_nic ?r) i = Some name" if "(name, i) \<in> set num" for name i
    using that by (intro map_of_is_SomeI [OF d]) (force simp: r)
  then have "\<forall>(n, s) \<in> set (nv_nic_stats ?r). ns_name s = n \<and> 0 \<le> ns_ema_tx_bps s \<and>
        map_of (nv_gpu_to_nic ?r) (ns_gpu_idx s) = Some n"
    unfolding r(1) by (intro fold_update_numbered(3)) (auto simp: f_def)
  moreover have "name \<in> fst ` set (nv_nic_stats ?r)" if "map_of (nv_gpu_to_nic ?r) g = Some name" for g name
    using map_of_SomeD [OF that] unfolding r fold_update_numbered(2) by force
  ultimately show ?thesis unfolding nv_ok_def r(1) by (simp add: fold_update_numbered(1))
qed

lemma read_nic_frame:
  "ns_name (read_nic tx now s) = ns_name s" "ns_gpu_idx (read_nic tx now s) = ns_gpu_idx s"
  "0 \<le> ns_ema_tx_bps s \<Longrightarrow> 0 \<le> ns_ema_tx_bps (read_nic tx now s)"
  by (auto simp: read_nic_def Let_def intro!: nv_ema.upd_nonneg split: option.split)

lemma nv_ok_poll: "nv_ok r \<Longrightarrow> nv_ok (nv_poll sysfs clock r)"
proof -
  assume ok: "nv_ok r"
  have m: "map fst (nv_nic_stats (nv_poll sysfs clock r)) = map fst (nv_nic_stats r)"
    by (simp add: nv_poll_def comp_def case_prod_unfold)
  then have im: "fst ` set (nv_nic_stats (nv_poll sysfs clock r)) = fst ` set (nv_nic_stats r)"
    by (metis set_map)
  show ?thesis using ok unfolding nv_ok_def m im
    by (auto simp: nv_poll_def read_nic_frame)
qed

lemma nv_ok_flush: "nv_ok r \<Longrightarrow> 0 \<le> n \<Longrightarrow> nv_ok (record_flush_bytes g n r)"
proof -
  assume ok: "nv_ok r" and n: "0 \<le> n"
  show ?thesis
  proof (cases "nic_of_gpu g r")
    case None
    then have "record_flush_bytes g n r = r"
      by (auto simp: record_flush_bytes_def nic_of_gpu_def split: option.splits)
    then show ?thesis using ok by simp
  next
    case (Some s)
    then obtain name where name: "map_of (nv_gpu_to_nic r) g = Some name" "map_of (nv_nic_stats r) name = Some s"
      by (auto simp: nic_of_gpu_def split: option.splits)
    define x where "x = of_int n / max (nv_poll_interval_s r) (1 / 10 ^ 6)"
    define s' where "s' = s\<lparr>ns_ema_tx_bps := nv_ema_update x (ns_ema_tx_bps s)\<rparr>"
    have r: "record_flush_bytes g n r = r\<lparr>nv_nic_stats := AList.update name s' (nv_nic_stats r)\<rparr>"
      by (simp add: record_flush_bytes_def name x_def s'_def Let_def)
    have x: "0 \<le> x" using n by (simp add: x_def)
    have s: "ns_name s = name" "0 \<le> ns_ema_tx_bps s" "map_of (nv_gpu_to_nic r) (ns_gpu_idx s) = Some name"
      using ok map_of_SomeD [OF name(2)] by (auto simp: nv_ok_def)
    have "\<forall>(n, s) \<in> set (AList.update name s' (nv_nic_stats r)). ns_name s = n \<and> 0 \<le> ns_ema_tx_bps s \<and>
        map_of (nv_gpu_to_nic r) (ns_gpu_idx s) = Some n"
      using ok s nv_ema.upd_nonneg [OF x s(2)] by (intro alist_update_all2) (auto simp: nv_ok_def s'_def)
    then show ?thesis using ok unfolding r nv_ok_def by (simp add: distinct_update dom_update)
  qed
qed

lemma select_frame: "nv_nic_stats (snd (select_egress_gpu g r)) = nv_nic_stats r"
  "nv_gpu_to_nic (snd (select_egress_gpu g r)) = nv_gpu_to_nic r"
  by (auto simp: select_egress_gpu_def Let_def split: option.split)

lemma nv_ok_cong: "nv_ok r \<Longrightarrow> nv_nic_stats r' = nv_nic_stats r \<Longrightarrow> nv_gpu_to_nic r' = nv_gpu_to_nic r \<Longrightarrow> nv_ok r'"
  by (simp add: nv_ok_def)

datatype nv_op =
    Nv_Poll "string \<Rightarrow> int option" "string \<Rightarrow> real"
  | Nv_Flush int nat
  | Nv_Select int
  | Nv_Transfer tensor_info int int
  | Nv_Stop

fun nv_exec :: "nv_op \<Rightarrow> nvlink_router \<Rightarrow> nvlink_router" where
  "nv_exec (Nv_Poll sysfs clock) r = nv_poll sysfs clock r"
| "nv_exec (Nv_Flush g n) r = record_flush_bytes g (int n) r"
| "nv_exec (Nv_Select g) r = snd (select_egress_gpu g r)"
| "nv_exec (Nv_Transfer t a b) r = snd (nvlink_transfer t a b r)"
| "nv_exec Nv_Stop r = nv_stop r"

lemma nv_ok_fold: "nv_ok r \<Longrightarrow> nv_ok (fold nv_exec ops r)"
proof (induction ops arbitrary: r)
  case (Cons oper ops)
  have "nv_ok (nv_exec oper r)"
    using Cons.prems
    by (cases oper) (auto simp: nv_ok_poll nv_ok_flush select_frame nvlink_transfer_def nv_stop_def
        intro: nv_ok_cong)
  then show ?case using Cons.IH by simp
qed simp

lemma nic_of_gpu_Some:
  assumes "nv_ok r" and "map_of (nv_gpu_to_nic r) g = Some n"
  obtains s where "nic_of_gpu g r = Some s" "(n, s) \<in> set (nv_nic_stats r)"
proof -
  have "n \<in> fst ` set (nv_nic_stats r)" using assms by (simp add: nv_ok_def)
  then obtain s where "(n, s) \<in> set (nv_nic_stats r)" by auto
  moreover from this have "map_of (nv_nic_stats r) n = Some s" using assms(1) by (simp add: nv_ok_def)
  ultimately show ?thesis using that assms(2) by (simp add: nic_of_gpu_def)
qed

lemma util_fraction_mono: "ns_ema_tx_bps s \<le> ns_ema_tx_bps t \<Longrightarrow> util_fraction s \<le> util_fraction t"
  by (auto simp: util_fraction_def NV_LINK_BPS_def min_def divide_simps)

text \<open>The NIC the router would move to is the least used one, and its GPU reports its utilisation.\<close>

lemma least_loaded:
  assumes ok: "nv_ok r" and q: "(nq, sq) \<in> set (nv_nic_stats r)"
  shows "\<exists>best. first_ranked ns_ema_tx_bps (map snd (nv_nic_stats r)) = Some best \<and>
    util_fraction best \<le> util_fraction sq \<and> get_nic_util (ns_gpu_idx best) r = util_fraction best"
proof -
  have "map snd (nv_nic_stats r) \<noteq> []" using q by auto
  from first_ranked_Some [OF this] obtain best
    where best: "first_ranked ns_ema_tx_bps (map snd (nv_nic_stats r)) = Some best" ..
  have least: "best \<in> snd ` set (nv_nic_stats r)"
    "\<forall>s \<in> snd ` set (nv_nic_stats r). ns_ema_tx_bps best \<le> ns_ema_tx_bps s"
    using first_ranked_least [OF best] by simp_all
  obtain nb where nb: "(nb, best) \<in> set (nv_nic_stats r)" using least(1) by force
  have "sq \<in> snd ` set (nv_nic_stats r)" using q by force
  then have "ns_ema_tx_bps best \<le> ns_ema_tx_bps sq" using least(2) by blast
  then have "util_fraction best \<le> util_fraction sq" by (rule util_fraction_mono)
  moreover have "map_of (nv_gpu_to_nic r) (ns_gpu_idx best) = Some nb" "map_of (nv_nic_stats r) nb = Some best"
    using ok nb by (auto simp: nv_ok_def)
  then have "get_nic_util (ns_gpu_idx best) r = util_fraction best"
    by (simp add: get_nic_util_def nic_of_gpu_def)
  ultimately show ?thesis using best by blast
qed

text \<open>
  C29: On every reachable router utilisations are in [0,1]; a flush leaves its own GPU only if
  that NIC is above the threshold, and then goes to a NIC with the least utilisation of all,
  at least 5 points below; it stays if the NIC is unknown, not saturated or not beaten by 5
  points. (The chosen NIC may itself be above the threshold.)
\<close>
theorem nvlink_egress:
  assumes "r = fold nv_exec ops (nvlink_init n names thr poll torch)"
    and "select_egress_gpu p r = (g, r')" and "q \<in> dom (map_of (nv_gpu_to_nic r))"
  shows "0 \<le> get_nic_util q r \<and> get_nic_util q r \<le> 1 \<and>
    (if g = p then p \<notin> dom (map_of (nv_gpu_to_nic r)) \<or> get_nic_util p r \<le> nv_saturation_threshold r \<or>
       get_nic_util p r - 5 / 100 \<le> get_nic_util q r
     else nv_saturation_threshold r < get_nic_util p r \<and> get_nic_util g r < get_nic_util p r - 5 / 100 \<and>
       get_nic_util g r \<le> get_nic_util q r \<and> nv_reroutes r' = nv_reroutes r + 1)"
proof -
  have ok: "nv_ok r" unfolding assms(1) by (rule nv_ok_fold [OF nv_ok_init])
  obtain nq sq where q: "nic_of_gpu q r = Some sq" "(nq, sq) \<in> set (nv_nic_stats r)"
    using assms(3) nic_of_gpu_Some [OF ok] by (metis domD)
  have uq: "get_nic_util q r = util_fraction sq" by (simp add: get_nic_util_def q(1))
  have "0 \<le> ns_ema_tx_bps sq" using ok q(2) by (auto simp: nv_ok_def)
  then have range: "0 \<le> get_nic_util q r \<and> get_nic_util q r \<le> 1"
    by (simp add: uq util_fraction_def NV_LINK_BPS_def)
  show ?thesis
  proof (cases "nic_of_gpu p r")
    case None
    then have "g = p" using assms(2) by (simp add: select_egress_gpu_def)
    moreover have "p \<notin> dom (map_of (nv_gpu_to_nic r))"
      using None nic_of_gpu_Some [OF ok] by (metis domD option.distinct(1))
    ultimately show ?thesis using range by simp
  next
    case (Some sp)
    then have up: "get_nic_util p r = util_fraction sp" by (simp add: get_nic_util_def)
    obtain best where best: "first_ranked ns_ema_tx_bps (map snd (nv_nic_stats r)) = Some best"
      and least: "util_fraction best \<le> util_fraction sq"
      and ub: "get_nic_util (ns_gpu_idx best) r = util_fraction best"
      using least_loaded [OF ok q(2)] by blast
    consider "g = p" "util_fraction sp \<le> nv_saturation_threshold r"
      | "g = p" "util_fraction sp - 5 / 100 \<le> util_fraction best"
      | "g = ns_gpu_idx best" "nv_saturation_threshold r < util_fraction sp"
        "util_fraction best < util_fraction sp - 5 / 100" "nv_reroutes r' = nv_reroutes r + 1"
      using assms(2) Some best by (auto simp: select_egress_gpu_def Let_def split: if_splits)
    then show ?thesis
    proof cases
      case 3
      then have "g \<noteq> p" using ub up by auto
      then show ?thesis using 3 range least ub up uq by simp
    qed (use range least up uq in auto)
  qed
qed

theorem nvlink_egress_witness:
  "let r = record_flush_bytes 0 (10 ^ 12) (nvlink_init 2 None (8 / 10) 1 True)
   in fst (select_egress_gpu 0 r) \<noteq> 0 \<and> get_nic_util 0 r = 1 \<and> get_nic_util 1 r = 0"
proof -
  define r0 where "r0 = nvlink_init 2 None (8 / 10) 1 True"
  define r where "r = fold nv_exec [Nv_Flush 0 (10 ^ 12)] r0"
  have r0: "nv_gpu_to_nic r0 = [(0, ''hsn0''), (1, ''hsn1'')]"
    "map_of (nv_nic_stats r0) ''hsn0'' = Some \<lparr>ns_name = ''hsn0'', ns_gpu_idx = 0, ns_ema_tx_bps = 0,
       ns_ema_rx_bps = 0, ns_prev_tx = 0, ns_prev_rx = 0, ns_last_poll_ts = 0\<rparr>"
    "map_of (nv_nic_stats r0) ''hsn1'' = Some \<lparr>ns_name = ''hsn1'', ns_gpu_idx = 1, ns_ema_tx_bps = 0,
       ns_ema_rx_bps = 0, ns_prev_tx = 0, ns_prev_rx = 0, ns_last_poll_ts = 0\<rparr>"
    "nv_saturation_threshold r0 = 8 / 10" "nv_poll_interval_s r0 = 1"
    by (simp_all add: r0_def nvlink_init_def Let_def digits.simps [of 0] digits.simps [of "Suc 0"] digit_def numeral_2_eq_2)
  have r: "nv_gpu_to_nic r = nv_gpu_to_nic r0" "nv_saturation_threshold r = 8 / 10"
    "get_nic_util 0 r = 1" "get_nic_util 1 r = 0"
    by (simp_all add: r_def record_flush_bytes_def r0 get_nic_util_def nic_of_gpu_def update_conv'
        util_fraction_def NV_LINK_BPS_def nv_ema_update_def NV_EMA_ALPHA_def)
  obtain g r' where g: "select_egress_gpu 0 r = (g, r')" by (rule prod.exhaust)
  have dom: "1 \<in> dom (map_of (nv_gpu_to_nic r))" by (simp add: r r0)
  have "g \<noteq> 0"
    using nvlink_egress [OF r_def [unfolded r0_def] g dom] r r0 by auto
  then show ?thesis using g r(3,4) by (simp add: r_def r0_def Let_def)
qed

end
