(* ===== verification/GPU_Driven.thy ===== *)
theory GPU_Driven
  imports Prelude
begin

unbundle bit_operations_syntax

text \<open>
  \<^verbatim>\<open>tempo/gpu_driven.py\<close>: the registry of transfer descriptors, the doorbell token, the
  trigger paths, the completion loop and the pool of one endpoint per NIC. The calls into
  libfabric and the CUDA runtime are parameters: whether the libraries were loaded and what
  each call returned or raised. The clock is an argument of the operations that read it.
\<close>

definition FI_TC_UNSPECIFIED :: int where "FI_TC_UNSPECIFIED = 0"
definition FI_TC_BEST_EFFORT :: int where "FI_TC_BEST_EFFORT = 1"
definition FI_TC_STORAGE :: int where "FI_TC_STORAGE = 2"
definition FI_TC_BULK :: int where "FI_TC_BULK = 4"
definition FI_TC_LOW_LATENCY :: int where "FI_TC_LOW_LATENCY = 6"

record descriptor =
  td_handle_id :: int
  td_src_ptr :: int
  td_dest_addr :: int
  td_length :: int
  td_tc :: int
  td_in_flight :: bool
  td_done :: bool
  td_t_triggered :: real
  td_t_complete :: real

record gpu_counters =
  gc_doorbell_triggers :: int
  gc_cpu_fallback_sends :: int
  gc_completions :: int
  gc_bytes_sent :: int
  gc_avg_latency_us :: real

text \<open>Libraries found when the module is loaded.\<close>

record gpu_libs =
  lb_fabric :: bool
  lb_cudart :: bool
  lb_cxi_devices :: bool

definition cxi_doorbell_avail :: "gpu_libs \<Rightarrow> bool" where
  "cxi_doorbell_avail l \<longleftrightarrow> lb_fabric l \<and> lb_cxi_devices l"

record endpoint =
  ep_nic_idx :: int
  ep_gpu_idx :: int
  ep_default_tc :: int
  ep_use_doorbell :: bool
  ep_staging_buf_mb :: int
  ep_fi_info :: "int option"
  ep_fabric :: "int option"
  ep_domain :: "int option"
  ep_ep :: "int option"
  ep_cq :: "int option"
  ep_av :: "int option"
  ep_doorbell_host_ptr :: "int option"
  ep_doorbell_gpu_ptr :: "int option"
  ep_staging_buf_host :: "int option"
  ep_slot_size :: int
  ep_free_slots :: "int list"
  ep_descriptors :: "(int, descriptor) dict"
  ep_next_handle :: int
  ep_opened :: bool
  ep_stats :: gpu_counters

definition endpoint_init :: "gpu_libs \<Rightarrow> int \<Rightarrow> int \<Rightarrow> int \<Rightarrow> bool \<Rightarrow> int \<Rightarrow> endpoint" where
  "endpoint_init libs nic_idx gpu_idx tc enable_gpu_doorbell staging_buf_mb =
     \<lparr>ep_nic_idx = nic_idx, ep_gpu_idx = gpu_idx, ep_default_tc = tc,
      ep_use_doorbell = (enable_gpu_doorbell \<and> cxi_doorbell_avail libs),
      ep_staging_buf_mb = staging_buf_mb, ep_fi_info = None, ep_fabric = None, ep_domain = None,
      ep_ep = None, ep_cq = None, ep_av = None, ep_doorbell_host_ptr = None,
      ep_doorbell_gpu_ptr = None, ep_staging_buf_host = None,
      ep_slot_size = (staging_buf_mb * 1024 * 1024) div 16, ep_free_slots = map int [0..<16],
      ep_descriptors = [], ep_next_handle = 0, ep_opened = False,
      ep_stats = \<lparr>gc_doorbell_triggers = 0, gc_cpu_fallback_sends = 0, gc_completions = 0,
                  gc_bytes_sent = 0, gc_avg_latency_us = 0\<rparr>\<rparr>"

section \<open>Opening and closing\<close>

text \<open>
  What each setup call gives: a value, or the exception that ends the setup. The pointers a
  call stores are never \<open>None\<close>, even when null.
\<close>

record setup_env =
  su_getinfo :: "(int \<times> int) result"
  su_fabric :: "int result"
  su_domain :: "int result"
  su_cq :: "int result"
  su_av :: "int result"
  su_endpoint :: "int result"
  su_bind_enable :: "unit result"
  su_domain_ops :: "(int \<times> int) result"
  su_get_doorbell :: "(int \<times> int) result"
  su_host_register :: "int result"
  su_device_ptr :: "(int \<times> int option) result"
  su_host_alloc :: "(int \<times> int) result"

text \<open>A sequence of statements stops at the first exception, with the state it has reached.\<close>

definition then_do :: "endpoint \<times> py_error option \<Rightarrow> 'a result \<Rightarrow>
    ('a \<Rightarrow> endpoint \<Rightarrow> endpoint \<times> py_error option) \<Rightarrow> endpoint \<times> py_error option" where
  "then_do st r f =
     (case st of
        (e, Some err) \<Rightarrow> (e, Some err)
      | (e, None) \<Rightarrow> (case r of Inl err \<Rightarrow> (e, Some err) | Inr x \<Rightarrow> f x e))"

definition open_libfabric :: "setup_env \<Rightarrow> endpoint \<Rightarrow> endpoint \<times> py_error option" where
  "open_libfabric su e0 =
     (let s1 = then_do (e0, None) (su_getinfo su)
            (\<lambda>(ret, info) e. if ret \<noteq> 0 then (e, Some RuntimeError) else (e\<lparr>ep_fi_info := Some info\<rparr>, None));
          s2 = then_do s1 (su_fabric su) (\<lambda>p e. (e\<lparr>ep_fabric := Some p\<rparr>, None));
          s3 = then_do s2 (su_domain su) (\<lambda>p e. (e\<lparr>ep_domain := Some p\<rparr>, None));
          s4 = then_do s3 (su_cq su) (\<lambda>p e. (e\<lparr>ep_cq := Some p\<rparr>, None));
          s5 = then_do s4 (su_av su) (\<lambda>p e. (e\<lparr>ep_av := Some p\<rparr>, None));
          s6 = then_do s5 (su_endpoint su) (\<lambda>p e. (e\<lparr>ep_ep := Some p\<rparr>, None))
      in then_do s6 (su_bind_enable su) (\<lambda>_ e. (e, None)))"

definition map_doorbell :: "gpu_libs \<Rightarrow> setup_env \<Rightarrow> endpoint \<Rightarrow> endpoint \<times> py_error option" where
  "map_doorbell libs su e0 =
     (if \<not> lb_fabric libs \<or> \<not> lb_cudart libs then (e0, None)
      else then_do (e0, None) (su_domain_ops su) (\<lambda>(ret, ops) e.
        if ret \<noteq> 0 \<or> ops = 0 then (e, None)
        else then_do (e, None) (su_get_doorbell su) (\<lambda>(ret, host) e.
          if ret \<noteq> 0 \<or> host = 0 then (e, None)
          else then_do (e\<lparr>ep_doorbell_host_ptr := Some host\<rparr>, None) (su_host_register su) (\<lambda>ret e.
            if ret \<noteq> 0 then (e, None)
            else then_do (e, None) (su_device_ptr su) (\<lambda>(ret, dev) e.
              if ret \<noteq> 0 then (e, None) else (e\<lparr>ep_doorbell_gpu_ptr := dev\<rparr>, None))))))"

definition alloc_staging_buf :: "gpu_libs \<Rightarrow> setup_env \<Rightarrow> endpoint \<Rightarrow> endpoint \<times> py_error option" where
  "alloc_staging_buf libs su e0 =
     (if \<not> lb_cudart libs then (e0, None)
      else then_do (e0, None) (su_host_alloc su)
        (\<lambda>(ret, p) e. if ret \<noteq> 0 then (e, None) else (e\<lparr>ep_staging_buf_host := Some p\<rparr>, None)))"

definition ep_open :: "gpu_libs \<Rightarrow> setup_env \<Rightarrow> endpoint \<Rightarrow> endpoint" where
  "ep_open libs su e =
     (if ep_opened e then e
      else if \<not> lb_fabric libs then e\<lparr>ep_opened := True\<rparr>
      else
        let s1 = open_libfabric su e;
            s2 = (case s1 of
                    (e1, Some err) \<Rightarrow> s1
                  | (e1, None) \<Rightarrow> if ep_use_doorbell e1 then map_doorbell libs su e1 else s1);
            s3 = (case s2 of (e2, Some err) \<Rightarrow> s2 | (e2, None) \<Rightarrow> alloc_staging_buf libs su e2)
        in case s3 of
             (e3, None) \<Rightarrow> e3\<lparr>ep_opened := True\<rparr>
           | (e3, Some err) \<Rightarrow> e3\<lparr>ep_use_doorbell := False, ep_opened := True\<rparr>)"

definition free_staging_buf :: "gpu_libs \<Rightarrow> endpoint \<Rightarrow> endpoint" where
  "free_staging_buf libs e =
     (if \<not> lb_cudart libs \<or> ep_staging_buf_host e = None then e else e\<lparr>ep_staging_buf_host := None\<rparr>)"

text \<open>Closing frees the handles but keeps them in the object.\<close>

definition ep_close :: "gpu_libs \<Rightarrow> endpoint \<Rightarrow> endpoint" where
  "ep_close libs e =
     (if \<not> ep_opened e then e else (free_staging_buf libs e)\<lparr>ep_opened := False\<rparr>)"

section \<open>Transfers\<close>

definition gpu_register_transfer ::
    "int \<Rightarrow> int \<Rightarrow> int \<Rightarrow> int option \<Rightarrow> endpoint \<Rightarrow> int \<times> endpoint" where
  "gpu_register_transfer src_gpu_ptr dest_fi_addr len tc e =
     (let hid = ep_next_handle e;
          desc = \<lparr>td_handle_id = hid, td_src_ptr = src_gpu_ptr, td_dest_addr = dest_fi_addr,
                  td_length = len,
                  td_tc = (case tc of Some t \<Rightarrow> t | None \<Rightarrow> ep_default_tc e),
                  td_in_flight = False, td_done = False, td_t_triggered = 0, td_t_complete = 0\<rparr>
      in (hid, e\<lparr>ep_next_handle := hid + 1,
                 ep_descriptors := AList.update hid desc (ep_descriptors e)\<rparr>))"

definition doorbell_token :: "descriptor \<Rightarrow> int" where
  "doorbell_token d =
     (push_bit 48 (td_handle_id d AND 65535) OR push_bit 44 (td_tc d AND 7))
     OR (td_length d AND 4294967295)"

text \<open>The calls an operation makes into the libraries.\<close>

datatype lib_call =
    Doorbell_Write int
  | Fi_Inject int int int
  | Fi_Send int int int int
  | No_Call

record trigger_env =
  tg_now :: real
  tg_memcpy_ret :: int

definition doorbell_trigger ::
    "gpu_libs \<Rightarrow> trigger_env \<Rightarrow> descriptor \<Rightarrow> endpoint \<Rightarrow> bool \<times> lib_call \<times> endpoint" where
  "doorbell_trigger libs tg desc e =
     (if \<not> lb_cudart libs then (False, No_Call, e)
      else if tg_memcpy_ret tg \<noteq> 0 then (False, Doorbell_Write (doorbell_token desc), e)
      else (True, Doorbell_Write (doorbell_token desc),
            e\<lparr>ep_descriptors := AList.update (td_handle_id desc)
                 (desc\<lparr>td_in_flight := True, td_t_triggered := tg_now tg\<rparr>) (ep_descriptors e),
              ep_stats := (ep_stats e)
                 \<lparr>gc_doorbell_triggers := gc_doorbell_triggers (ep_stats e) + 1\<rparr>\<rparr>))"

definition INJECT_THRESHOLD :: int where "INJECT_THRESHOLD = 4096"

definition trigger_from_cpu ::
    "gpu_libs \<Rightarrow> trigger_env \<Rightarrow> int \<Rightarrow> endpoint \<Rightarrow> lib_call \<times> endpoint" where
  "trigger_from_cpu libs tg handle_id e =
     (case map_of (ep_descriptors e) handle_id of
        None \<Rightarrow> (No_Call, e)
      | Some desc \<Rightarrow>
          if \<not> lb_fabric libs \<or> ep_ep e = None
          then (No_Call, e\<lparr>ep_descriptors :=
                  AList.update handle_id (desc\<lparr>td_done := True\<rparr>) (ep_descriptors e)\<rparr>)
          else
            (if td_length desc \<le> INJECT_THRESHOLD
             then Fi_Inject (td_src_ptr desc) (td_length desc) (td_dest_addr desc)
             else Fi_Send (td_src_ptr desc) (td_length desc) (td_dest_addr desc) handle_id,
             e\<lparr>ep_descriptors := AList.update handle_id
                  (desc\<lparr>td_t_triggered := tg_now tg, td_in_flight := True\<rparr>) (ep_descriptors e),
               ep_stats := (ep_stats e)
                  \<lparr>gc_cpu_fallback_sends := gc_cpu_fallback_sends (ep_stats e) + 1\<rparr>\<rparr>))"

definition trigger_from_gpu ::
    "gpu_libs \<Rightarrow> trigger_env \<Rightarrow> int \<Rightarrow> endpoint \<Rightarrow> bool \<times> lib_call \<times> endpoint" where
  "trigger_from_gpu libs tg handle_id e =
     (case map_of (ep_descriptors e) handle_id of
        None \<Rightarrow> (False, No_Call, e)
      | Some desc \<Rightarrow>
          if ep_doorbell_gpu_ptr e \<noteq> None \<and> lb_cudart libs
          then doorbell_trigger libs tg desc e
          else (False, trigger_from_cpu libs tg handle_id e))"

text \<open>
  One turn of the polling loop: the clock at its head, what \<open>fi_cq_read\<close> returns, and the clock
  when a completion is recorded. The loop over such turns gives \<open>None\<close> if they end before it does.
\<close>

record cq_poll =
  cq_clock :: real
  cq_ret :: int
  cq_done_clock :: real

definition record_completion :: "int \<Rightarrow> descriptor \<Rightarrow> real \<Rightarrow> endpoint \<Rightarrow> endpoint" where
  "record_completion handle_id desc t_complete e =
     (let lat_us = (t_complete - td_t_triggered desc) * 1000000;
          n = gc_completions (ep_stats e) + 1;
          old = gc_avg_latency_us (ep_stats e)
      in e\<lparr>ep_descriptors := AList.update handle_id
             (desc\<lparr>td_done := True, td_t_complete := t_complete\<rparr>) (ep_descriptors e),
           ep_stats := (ep_stats e)
             \<lparr>gc_avg_latency_us := old + (lat_us - old) / of_int n, gc_completions := n,
              gc_bytes_sent := gc_bytes_sent (ep_stats e) + td_length desc\<rparr>\<rparr>)"

fun cq_loop ::
    "real \<Rightarrow> int \<Rightarrow> descriptor \<Rightarrow> cq_poll list \<Rightarrow> endpoint \<Rightarrow> (bool \<times> endpoint) option" where
  "cq_loop deadline handle_id desc [] e = None"
| "cq_loop deadline handle_id desc (p # ps) e =
     (if cq_clock p < deadline
      then (if 0 < cq_ret p then Some (True, record_completion handle_id desc (cq_done_clock p) e)
            else if cq_ret p = -11 then cq_loop deadline handle_id desc ps e
            else Some (False, e))
      else Some (False, e))"

definition wait_completion ::
    "gpu_libs \<Rightarrow> real \<Rightarrow> real \<Rightarrow> int \<Rightarrow> cq_poll list \<Rightarrow> endpoint \<Rightarrow> (bool \<times> endpoint) option" where
  "wait_completion libs now timeout_s handle_id polls e =
     (case map_of (ep_descriptors e) handle_id of
        None \<Rightarrow> Some (False, e)
      | Some desc \<Rightarrow>
          if td_done desc then Some (True, e)
          else if \<not> lb_fabric libs \<or> ep_cq e = None
          then Some (True, e\<lparr>ep_descriptors :=
                 AList.update handle_id (desc\<lparr>td_done := True\<rparr>) (ep_descriptors e)\<rparr>)
          else cq_loop (now + timeout_s) handle_id desc polls e)"

definition gpu_deregister :: "int \<Rightarrow> endpoint \<Rightarrow> endpoint" where
  "gpu_deregister handle_id e = e\<lparr>ep_descriptors := AList.delete handle_id (ep_descriptors e)\<rparr>"

record endpoint_stats =
  es_counters :: gpu_counters
  es_pending_descriptors :: nat
  es_doorbell_available :: bool
  es_nic_idx :: int
  es_gpu_idx :: int

definition gpu_get_stats :: "endpoint \<Rightarrow> endpoint_stats" where
  "gpu_get_stats e =
     \<lparr>es_counters = ep_stats e,
      es_pending_descriptors = length (filter (\<lambda>(h, d). \<not> td_done d) (ep_descriptors e)),
      es_doorbell_available = (ep_doorbell_gpu_ptr e \<noteq> None),
      es_nic_idx = ep_nic_idx e, es_gpu_idx = ep_gpu_idx e\<rparr>"

section \<open>Pool\<close>

record gpu_pool =
  gp_n_nics :: int
  gp_gpu_per_nic :: "int list"
  gp_endpoints :: "(int, endpoint) dict"

text \<open>The names of \<open>/sys/class/net\<close>, or \<open>None\<close> if it does not exist; \<open>re.match\<close> is anchored at the start.\<close>

definition is_hsn :: "string \<Rightarrow> bool" where
  "is_hsn s \<longleftrightarrow> take 3 s = ''hsn'' \<and> (case drop 3 s of [] \<Rightarrow> False | c # _ \<Rightarrow> c \<in> set ''0123456789'')"

definition detect_n_nics :: "string list option \<Rightarrow> int" where
  "detect_n_nics names =
     (case names of None \<Rightarrow> 1 | Some ns \<Rightarrow> max 1 (int (length (filter is_hsn ns))))"

definition gpu_pool_init ::
    "gpu_libs \<Rightarrow> string list option \<Rightarrow> int \<Rightarrow> int list option \<Rightarrow> int \<Rightarrow> bool \<Rightarrow> int \<Rightarrow> gpu_pool result" where
  "gpu_pool_init libs names n_nics0 gpu_per_nic0 default_tc enable_gpu_doorbell staging_buf_mb =
     (let n_nics = (if n_nics0 = 0 then detect_n_nics names else n_nics0);
          gpu_per_nic = (case gpu_per_nic0 of None \<Rightarrow> map int [0..<nat n_nics] | Some g \<Rightarrow> g)
      in if gpu_per_nic = [] \<and> 0 < n_nics then Inl ZeroDivisionError
         else Inr \<lparr>gp_n_nics = n_nics, gp_gpu_per_nic = gpu_per_nic,
                   gp_endpoints = map (\<lambda>i. (int i,
                     endpoint_init libs (int i) (gpu_per_nic ! (i mod length gpu_per_nic)) default_tc
                       enable_gpu_doorbell (staging_buf_mb div max 1 n_nics))) [0..<nat n_nics]\<rparr>)"

definition on_endpoint :: "int \<Rightarrow> (endpoint \<Rightarrow> 'a \<times> endpoint) \<Rightarrow> 'a \<Rightarrow> gpu_pool \<Rightarrow> 'a \<times> gpu_pool" where
  "on_endpoint nic_idx f dflt p =
     (case map_of (gp_endpoints p) nic_idx of
        None \<Rightarrow> (dflt, p)
      | Some e \<Rightarrow> (let (x, e') = f e
                   in (x, p\<lparr>gp_endpoints := AList.update nic_idx e' (gp_endpoints p)\<rparr>)))"

definition pool_open_all :: "gpu_libs \<Rightarrow> (int \<Rightarrow> setup_env) \<Rightarrow> gpu_pool \<Rightarrow> gpu_pool" where
  "pool_open_all libs su p =
     p\<lparr>gp_endpoints := map (\<lambda>(i, e). (i, ep_open libs (su i) e)) (gp_endpoints p)\<rparr>"

definition pool_close_all :: "gpu_libs \<Rightarrow> gpu_pool \<Rightarrow> gpu_pool" where
  "pool_close_all libs p = p\<lparr>gp_endpoints := map (\<lambda>(i, e). (i, ep_close libs e)) (gp_endpoints p)\<rparr>"

definition pool_get_endpoint :: "int \<Rightarrow> gpu_pool \<Rightarrow> endpoint option" where
  "pool_get_endpoint nic_idx p = map_of (gp_endpoints p) nic_idx"

definition pool_register_transfer ::
    "int \<Rightarrow> int \<Rightarrow> int \<Rightarrow> int \<Rightarrow> int option \<Rightarrow> gpu_pool \<Rightarrow> int option \<times> gpu_pool" where
  "pool_register_transfer nic_idx src dest len tc p =
     on_endpoint nic_idx (\<lambda>e. let (h, e') = gpu_register_transfer src dest len tc e in (Some h, e')) None p"

definition pool_trigger ::
    "gpu_libs \<Rightarrow> trigger_env \<Rightarrow> int \<Rightarrow> int \<Rightarrow> gpu_pool \<Rightarrow> (bool \<times> lib_call) \<times> gpu_pool" where
  "pool_trigger libs tg nic_idx handle_id p =
     on_endpoint nic_idx
       (\<lambda>e. let (r, c, e') = trigger_from_gpu libs tg handle_id e in ((r, c), e')) (False, No_Call) p"

definition pool_wait_completion ::
    "gpu_libs \<Rightarrow> real \<Rightarrow> real \<Rightarrow> int \<Rightarrow> int \<Rightarrow> cq_poll list \<Rightarrow> gpu_pool \<Rightarrow> bool option \<times> gpu_pool" where
  "pool_wait_completion libs now timeout_s nic_idx handle_id polls p =
     on_endpoint nic_idx
       (\<lambda>e. case wait_completion libs now timeout_s handle_id polls e of
              None \<Rightarrow> (None, e) | Some (r, e') \<Rightarrow> (Some r, e')) (Some False) p"

definition pool_deregister :: "int \<Rightarrow> int \<Rightarrow> gpu_pool \<Rightarrow> gpu_pool" where
  "pool_deregister nic_idx handle_id p =
     snd (on_endpoint nic_idx (\<lambda>e. ((), gpu_deregister handle_id e)) () p)"

definition pool_get_stats :: "gpu_pool \<Rightarrow> (string \<times> endpoint_stats) list" where
  "pool_get_stats p = map (\<lambda>(i, e). (''nic'' @ str_int i, gpu_get_stats e)) (gp_endpoints p)"

section \<open>Token lemmas\<close>

lemma mask_fields: "x AND 65535 = take_bit 16 x" "x AND 7 = take_bit 3 x" "x AND 4294967295 = take_bit 32 x"
  for x :: int
  by (simp_all add: take_bit_eq_mask mask_eq_exp_minus_1)

lemma bit_take_bit3: "bit (take_bit 3 (x :: int)) n \<longleftrightarrow> n < 3 \<and> bit x n"
  by (simp add: bit_take_bit_iff)

lemma doorbell_token_bits:
  "bit (doorbell_token d) n \<longleftrightarrow>
     (48 \<le> n \<and> n < 64 \<and> bit (td_handle_id d) (n - 48)) \<or>
     (44 \<le> n \<and> n < 47 \<and> bit (td_tc d) (n - 44)) \<or>
     (n < 32 \<and> bit (td_length d) n)"
  unfolding doorbell_token_def mask_fields
  by (auto simp: bit_or_iff bit_push_bit_iff bit_take_bit_iff)

text \<open>
  The doorbell token is a 64-bit value made of three fields that do not overlap: the handle
  modulo \<open>2^16\<close>, the traffic class modulo 8 in bits 44 to 46 and the length modulo \<open>2^32\<close>;
  read as documented (class in bits 32 to 47) the class comes out times 4096. Two descriptors
  have the same token exactly if they agree on the three fields.
\<close>
lemma doorbell_token_fields:
  "0 \<le> doorbell_token d \<and> doorbell_token d < 2 ^ 64 \<and>
   drop_bit 48 (doorbell_token d) = td_handle_id d mod 2 ^ 16 \<and>
   take_bit 3 (drop_bit 44 (doorbell_token d)) = td_tc d mod 2 ^ 3 \<and>
   take_bit 32 (doorbell_token d) = td_length d mod 2 ^ 32 \<and>
   take_bit 16 (drop_bit 32 (doorbell_token d)) = 4096 * (td_tc d mod 2 ^ 3) \<and>
   (doorbell_token d = doorbell_token d' \<longleftrightarrow>
      td_handle_id d mod 2 ^ 16 = td_handle_id d' mod 2 ^ 16 \<and>
      td_tc d mod 2 ^ 3 = td_tc d' mod 2 ^ 3 \<and> td_length d mod 2 ^ 32 = td_length d' mod 2 ^ 32)"
proof -
  note mods = take_bit_eq_mod [symmetric]
  have nonneg: "0 \<le> doorbell_token d" by (simp add: doorbell_token_def mask_fields)
  have "take_bit 64 (doorbell_token d) = doorbell_token d"
    by (rule bit_eqI) (auto simp: bit_take_bit_iff doorbell_token_bits)
  then have less: "doorbell_token d < 2 ^ 64" by (metis take_bit_int_less_exp)
  have f1: "drop_bit 48 (doorbell_token d) = td_handle_id d mod 2 ^ 16" for d
    unfolding mods by (rule bit_eqI) (auto simp: bit_take_bit_iff bit_drop_bit_eq doorbell_token_bits)
  have f2: "take_bit 3 (drop_bit 44 (doorbell_token d)) = td_tc d mod 2 ^ 3" for d
    unfolding mods by (rule bit_eqI) (auto simp: bit_take_bit_iff bit_drop_bit_eq doorbell_token_bits)
  have f3: "take_bit 32 (doorbell_token d) = td_length d mod 2 ^ 32" for d
    unfolding mods by (rule bit_eqI) (auto simp: bit_take_bit_iff doorbell_token_bits)
  have "take_bit 16 (drop_bit 32 (doorbell_token d)) = push_bit 12 (take_bit 3 (td_tc d))"
    by (rule bit_eqI) (auto simp: bit_take_bit_iff bit_drop_bit_eq bit_push_bit_iff doorbell_token_bits)
  then have f4: "take_bit 16 (drop_bit 32 (doorbell_token d)) = 4096 * (td_tc d mod 2 ^ 3)"
    by (simp add: push_bit_eq_mult take_bit_eq_mod)
  have tok: "doorbell_token d = (push_bit 48 (td_handle_id d mod 2 ^ 16) OR push_bit 44 (td_tc d mod 2 ^ 3))
      OR td_length d mod 2 ^ 32" for d
    unfolding doorbell_token_def mask_fields mods ..
  have "doorbell_token d = doorbell_token d' \<longleftrightarrow>
      td_handle_id d mod 2 ^ 16 = td_handle_id d' mod 2 ^ 16 \<and>
      td_tc d mod 2 ^ 3 = td_tc d' mod 2 ^ 3 \<and> td_length d mod 2 ^ 32 = td_length d' mod 2 ^ 32"
    using f1 f2 f3 tok by metis
  then show ?thesis using nonneg less f1 f2 f3 f4 by blast
qed

section \<open>The registry\<close>

datatype gpu_op =
    G_Open setup_env
  | G_Close
  | G_Register int int int "int option"
  | G_Trigger trigger_env int
  | G_Trigger_Cpu trigger_env int
  | G_Wait real real int "cq_poll list"
  | G_Deregister int

fun gpu_exec :: "gpu_libs \<Rightarrow> gpu_op \<Rightarrow> endpoint \<Rightarrow> endpoint" where
  "gpu_exec libs (G_Open su) e = ep_open libs su e"
| "gpu_exec libs G_Close e = ep_close libs e"
| "gpu_exec libs (G_Register src dest n tc) e = snd (gpu_register_transfer src dest n tc e)"
| "gpu_exec libs (G_Trigger tg h) e = snd (snd (trigger_from_gpu libs tg h e))"
| "gpu_exec libs (G_Trigger_Cpu tg h) e = snd (trigger_from_cpu libs tg h e)"
| "gpu_exec libs (G_Wait now timeout h polls) e =
     (case wait_completion libs now timeout h polls e of None \<Rightarrow> e | Some (r, e') \<Rightarrow> e')"
| "gpu_exec libs (G_Deregister h) e = gpu_deregister h e"

definition gpu_ok :: "endpoint \<Rightarrow> bool" where
  "gpu_ok e \<longleftrightarrow> distinct (map fst (ep_descriptors e)) \<and>
     (\<forall>(h, d) \<in> set (ep_descriptors e). td_handle_id d = h \<and> 0 \<le> h \<and> h < ep_next_handle e) \<and>
     0 \<le> ep_next_handle e \<and> 0 \<le> gc_completions (ep_stats e)"

text \<open>Setup touches neither the registry nor the counters.\<close>

definition same_registry :: "endpoint \<Rightarrow> endpoint \<Rightarrow> bool" where
  "same_registry e e' \<longleftrightarrow> ep_descriptors e' = ep_descriptors e \<and>
     ep_next_handle e' = ep_next_handle e \<and> ep_stats e' = ep_stats e"

lemma then_do_same:
  assumes "same_registry e (fst st)" and "\<And>x e1. same_registry e e1 \<Longrightarrow> same_registry e (fst (f x e1))"
  shows "same_registry e (fst (then_do st r f))"
  using assms by (auto simp: then_do_def split: prod.splits option.splits sum.splits)

lemma same_registry_refl: "same_registry e e"
  by (simp add: same_registry_def)

lemma ep_open_same: "same_registry e (ep_open libs su e)"
proof -
  have 1: "same_registry e (fst (open_libfabric su e))" for e
    unfolding open_libfabric_def Let_def
    by (intro then_do_same) (auto simp: same_registry_def split: prod.splits)
  have 2: "same_registry e e1 \<Longrightarrow> same_registry e (fst (map_doorbell libs su e1))" for e e1
    unfolding map_doorbell_def by (auto simp: then_do_def same_registry_def split: sum.splits prod.splits)
  have 3: "same_registry e e1 \<Longrightarrow> same_registry e (fst (alloc_staging_buf libs su e1))" for e e1
    unfolding alloc_staging_buf_def by (auto simp: then_do_def same_registry_def split: sum.splits prod.splits)
  have "same_registry e (fst (case open_libfabric su e of (e1, Some err) \<Rightarrow> open_libfabric su e
      | (e1, None) \<Rightarrow> if ep_use_doorbell e1 then map_doorbell libs su e1 else open_libfabric su e))"
    using 1 [of e] 2 by (auto split: prod.splits option.splits)
  then have "same_registry e (fst (case (case open_libfabric su e of (e1, Some err) \<Rightarrow> open_libfabric su e
      | (e1, None) \<Rightarrow> if ep_use_doorbell e1 then map_doorbell libs su e1 else open_libfabric su e) of
      (e2, Some err) \<Rightarrow> (case open_libfabric su e of (e1, Some err) \<Rightarrow> open_libfabric su e
      | (e1, None) \<Rightarrow> if ep_use_doorbell e1 then map_doorbell libs su e1 else open_libfabric su e)
      | (e2, None) \<Rightarrow> alloc_staging_buf libs su e2))"
    using 3 by (auto split: prod.splits option.splits)
  then show ?thesis unfolding ep_open_def Let_def
    by (auto simp: same_registry_def split: prod.splits option.splits)
qed

lemma gpu_ok_same: "gpu_ok e \<Longrightarrow> same_registry e e' \<Longrightarrow> gpu_ok e'"
  by (simp add: gpu_ok_def same_registry_def)

lemma gpu_ok_lookup: "gpu_ok e \<Longrightarrow> map_of (ep_descriptors e) h = Some d \<Longrightarrow>
    td_handle_id d = h \<and> 0 \<le> h \<and> h < ep_next_handle e"
  using map_of_SomeD by (fastforce simp: gpu_ok_def)

lemma gpu_ok_update:
  assumes ok: "gpu_ok e" and d: "map_of (ep_descriptors e) h = Some d" and d': "td_handle_id d' = td_handle_id d"
    and e': "ep_descriptors e' = AList.update h d' (ep_descriptors e)"
      "ep_next_handle e' = ep_next_handle e" "0 \<le> gc_completions (ep_stats e')"
  shows "gpu_ok e'"
proof -
  have "\<forall>(h, d) \<in> set (AList.update h d' (ep_descriptors e)).
      td_handle_id d = h \<and> 0 \<le> h \<and> h < ep_next_handle e"
    using ok d' gpu_ok_lookup [OF ok d] by (intro alist_update_all2) (simp_all add: gpu_ok_def)
  then show ?thesis using ok e' by (simp add: gpu_ok_def distinct_update)
qed

lemma gpu_ok_cpu: "gpu_ok e \<Longrightarrow> gpu_ok (snd (trigger_from_cpu libs tg h e))"
proof (cases "map_of (ep_descriptors e) h")
  case (Some d)
  assume ok: "gpu_ok e"
  show ?thesis
    by (rule gpu_ok_update [OF ok Some, of "if \<not> lb_fabric libs \<or> ep_ep e = None then d\<lparr>td_done := True\<rparr>
          else d\<lparr>td_t_triggered := tg_now tg, td_in_flight := True\<rparr>"])
      (use ok in \<open>simp_all add: trigger_from_cpu_def Some gpu_ok_def\<close>)
qed (simp add: trigger_from_cpu_def)

lemma gpu_ok_trigger: "gpu_ok e \<Longrightarrow> gpu_ok (snd (snd (trigger_from_gpu libs tg h e)))"
proof (cases "map_of (ep_descriptors e) h")
  case (Some d)
  assume ok: "gpu_ok e"
  have h: "td_handle_id d = h" using gpu_ok_lookup [OF ok Some] by simp
  show ?thesis
  proof (cases "ep_doorbell_gpu_ptr e \<noteq> None \<and> lb_cudart libs \<and> tg_memcpy_ret tg = 0")
    case True
    show ?thesis
      by (rule gpu_ok_update [OF ok Some, of "d\<lparr>td_in_flight := True, td_t_triggered := tg_now tg\<rparr>"])
        (use ok True in \<open>simp_all add: trigger_from_gpu_def doorbell_trigger_def Some h gpu_ok_def\<close>)
  next
    case False
    then show ?thesis using ok gpu_ok_cpu [OF ok]
      by (auto simp: trigger_from_gpu_def doorbell_trigger_def Some)
  qed
qed (simp add: trigger_from_gpu_def)

text \<open>The turn that ends the loop.\<close>

lemma cq_loop_result:
  "cq_loop deadline h d polls e =
     (case dropWhile (\<lambda>p. cq_clock p < deadline \<and> cq_ret p = - 11) polls of
        [] \<Rightarrow> None
      | p # _ \<Rightarrow> Some (if cq_clock p < deadline \<and> 0 < cq_ret p
                      then (True, record_completion h d (cq_done_clock p) e) else (False, e)))"
  by (induction polls) auto

lemma record_completion_simps [simp]:
  "ep_descriptors (record_completion h d t e) =
     AList.update h (d\<lparr>td_done := True, td_t_complete := t\<rparr>) (ep_descriptors e)"
  "ep_next_handle (record_completion h d t e) = ep_next_handle e"
  "gc_completions (ep_stats (record_completion h d t e)) = gc_completions (ep_stats e) + 1"
  "gc_bytes_sent (ep_stats (record_completion h d t e)) = gc_bytes_sent (ep_stats e) + td_length d"
  by (simp_all add: record_completion_def Let_def)

lemma record_completion_mean:
  "0 \<le> gc_completions (ep_stats e) \<Longrightarrow>
   gc_avg_latency_us (ep_stats (record_completion h d t e)) * of_int (gc_completions (ep_stats e) + 1) =
   gc_avg_latency_us (ep_stats e) * of_int (gc_completions (ep_stats e)) + (t - td_t_triggered d) * 1000000"
  by (simp add: record_completion_def Let_def field_simps)

lemma cq_loop_cases:
  "cq_loop deadline h d polls e = Some (r, e') \<Longrightarrow> e' = e \<or> (\<exists>t. e' = record_completion h d t e)"
  by (induction polls) (auto split: if_splits)

lemma gpu_ok_wait:
  assumes ok: "gpu_ok e" and w: "wait_completion libs now timeout h polls e = Some (r, e')"
  shows "gpu_ok e'"
proof (cases "map_of (ep_descriptors e) h")
  case None
  then show ?thesis using ok w by (simp add: wait_completion_def)
next
  case (Some d)
  have upd: "gpu_ok e'" if "ep_descriptors e' = AList.update h d' (ep_descriptors e)"
    "td_handle_id d' = td_handle_id d" "ep_next_handle e' = ep_next_handle e"
    "gc_completions (ep_stats e) \<le> gc_completions (ep_stats e')" for d' e'
    using ok that by (intro gpu_ok_update [OF ok Some, of d']) (simp_all add: gpu_ok_def)
  consider "td_done d" | "\<not> td_done d" "\<not> lb_fabric libs \<or> ep_cq e = None"
    | "\<not> td_done d" "lb_fabric libs" "ep_cq e \<noteq> None" by blast
  then show ?thesis
  proof cases
    case 1
    then show ?thesis using ok w Some by (simp add: wait_completion_def)
  next
    case 2
    then have "e' = e\<lparr>ep_descriptors := AList.update h (d\<lparr>td_done := True\<rparr>) (ep_descriptors e)\<rparr>"
      using w Some by (simp add: wait_completion_def)
    then show ?thesis by (intro upd [of e' "d\<lparr>td_done := True\<rparr>"]) simp_all
  next
    case 3
    then have "cq_loop (now + timeout) h d polls e = Some (r, e')"
      using w Some by (simp add: wait_completion_def del: not_None_eq)
    from cq_loop_cases [OF this] show ?thesis
    proof
      assume "\<exists>t. e' = record_completion h d t e"
      then obtain t where e': "e' = record_completion h d t e" ..
      show ?thesis by (rule upd [of e' "d\<lparr>td_done := True, td_t_complete := t\<rparr>"]) (simp_all add: e')
    qed (simp add: ok)
  qed
qed

lemma gpu_ok_register:
  assumes ok: "gpu_ok e"
  shows "gpu_ok (snd (gpu_register_transfer src dest n tc e))"
    and "map_of (ep_descriptors e) (fst (gpu_register_transfer src dest n tc e)) = None"
proof -
  define d where "d = \<lparr>td_handle_id = ep_next_handle e, td_src_ptr = src, td_dest_addr = dest,
                  td_length = n, td_tc = (case tc of Some t \<Rightarrow> t | None \<Rightarrow> ep_default_tc e),
                  td_in_flight = False, td_done = False, td_t_triggered = 0, td_t_complete = 0\<rparr>"
  have r: "gpu_register_transfer src dest n tc e = (ep_next_handle e,
      e\<lparr>ep_next_handle := ep_next_handle e + 1,
        ep_descriptors := AList.update (ep_next_handle e) d (ep_descriptors e)\<rparr>)"
    by (simp add: gpu_register_transfer_def d_def Let_def)
  have "\<forall>(h, d) \<in> set (ep_descriptors e). td_handle_id d = h \<and> 0 \<le> h \<and> h < ep_next_handle e + 1"
    using ok by (fastforce simp: gpu_ok_def)
  then have "\<forall>(h, d) \<in> set (AList.update (ep_next_handle e) d (ep_descriptors e)).
      td_handle_id d = h \<and> 0 \<le> h \<and> h < ep_next_handle e + 1"
    using ok by (intro alist_update_all2) (simp_all add: gpu_ok_def d_def)
  then show "gpu_ok (snd (gpu_register_transfer src dest n tc e))"
    unfolding r using ok by (simp add: gpu_ok_def distinct_update)
  show "map_of (ep_descriptors e) (fst (gpu_register_transfer src dest n tc e)) = None"
    unfolding r using gpu_ok_lookup [OF ok, of "ep_next_handle e"]
    by (cases "map_of (ep_descriptors e) (ep_next_handle e)") auto
qed

lemma gpu_ok_exec: "gpu_ok e \<Longrightarrow> gpu_ok (gpu_exec libs oper e)"
proof (cases oper)
  case (G_Wait now timeout h polls)
  assume "gpu_ok e"
  then show ?thesis using G_Wait gpu_ok_wait by (auto split: option.split)
next
  case (G_Close)
  assume "gpu_ok e"
  then show ?thesis using G_Close by (simp add: ep_close_def free_staging_buf_def gpu_ok_def)
next
  case (G_Deregister h)
  assume "gpu_ok e"
  then show ?thesis using G_Deregister
    using alist_delete_all [of "ep_descriptors e"
        "\<lambda>k d. td_handle_id d = k \<and> 0 \<le> k \<and> k < ep_next_handle e" h]
    by (simp add: gpu_deregister_def gpu_ok_def distinct_delete)
qed (auto simp: gpu_ok_register gpu_ok_trigger gpu_ok_cpu intro: gpu_ok_same [OF _ ep_open_same])

lemma gpu_ok_fold: "gpu_ok e \<Longrightarrow> gpu_ok (fold (gpu_exec libs) ops e)"
  by (induction ops arbitrary: e) (simp_all add: gpu_ok_exec)

lemma gpu_ok_init: "gpu_ok (endpoint_init libs nic gpu tc db mb)"
  by (simp add: gpu_ok_def endpoint_init_def)

section \<open>Properties of the endpoint\<close>

text \<open>
  C27: Whatever operations ran on a new endpoint, every descriptor is stored under its own
  handle and below the next one, so a registration never reuses or overwrites a handle, stores
  exactly its arguments (with the endpoint's class as the default), and leaves the others alone.
\<close>
theorem gpu_registry:
  assumes "e = fold (gpu_exec libs) ops (endpoint_init libs nic gpu tc0 db mb)"
    and "gpu_register_transfer src dest n tc e = (h, e')"
  shows "gpu_ok e' \<and> h \<notin> dom (map_of (ep_descriptors e)) \<and> 0 \<le> h \<and>
    (\<exists>d. map_of (ep_descriptors e') h = Some d \<and> td_src_ptr d = src \<and> td_dest_addr d = dest \<and>
         td_length d = n \<and> td_tc d = (case tc of Some t \<Rightarrow> t | None \<Rightarrow> ep_default_tc e) \<and> \<not> td_done d) \<and>
    (\<forall>h' d'. h' \<noteq> h \<longrightarrow> map_of (ep_descriptors e') h' = map_of (ep_descriptors e) h')"
proof -
  have ok: "gpu_ok e" unfolding assms(1) by (rule gpu_ok_fold [OF gpu_ok_init])
  have r: "h = ep_next_handle e" "map_of (ep_descriptors e') = (map_of (ep_descriptors e))(h \<mapsto>
      \<lparr>td_handle_id = h, td_src_ptr = src, td_dest_addr = dest, td_length = n,
       td_tc = (case tc of Some t \<Rightarrow> t | None \<Rightarrow> ep_default_tc e), td_in_flight = False,
       td_done = False, td_t_triggered = 0, td_t_complete = 0\<rparr>)"
    using assms(2) by (auto simp: gpu_register_transfer_def Let_def update_conv')
  show ?thesis
    using gpu_ok_register [OF ok, of src dest n tc] assms(2) r ok by (auto simp: gpu_ok_def)
qed

text \<open>
  C28: Waiting for a pending transfer ends when the clock reaches the deadline; it succeeds
  exactly if the first answer that is not "try again" is a completion before the deadline, then
  updates the running mean and the totals and marks the handle, and changes nothing otherwise.
  The answer does not depend on the handle: the next completion of any transfer ends every wait.
\<close>
theorem gpu_wait_correct:
  assumes "map_of (ep_descriptors e) h = Some d" and "\<not> td_done d" and "lb_fabric libs"
    and "ep_cq e \<noteq> None" and "0 \<le> gc_completions (ep_stats e)"
    and "p \<in> set polls" and "now + timeout \<le> cq_clock p"
  defines "first \<equiv> hd (dropWhile (\<lambda>p. cq_clock p < now + timeout \<and> cq_ret p = - 11) polls)"
  shows "\<exists>r e'. wait_completion libs now timeout h polls e = Some (r, e') \<and>
    (r \<longleftrightarrow> cq_clock first < now + timeout \<and> 0 < cq_ret first) \<and> (\<not> r \<longrightarrow> e' = e) \<and>
    (r \<longrightarrow> (\<exists>d'. map_of (ep_descriptors e') h = Some d' \<and> td_done d') \<and>
       (\<forall>h'. h' \<noteq> h \<longrightarrow> map_of (ep_descriptors e') h' = map_of (ep_descriptors e) h') \<and>
       gc_completions (ep_stats e') = gc_completions (ep_stats e) + 1 \<and>
       gc_bytes_sent (ep_stats e') = gc_bytes_sent (ep_stats e) + td_length d \<and>
       gc_avg_latency_us (ep_stats e') * of_int (gc_completions (ep_stats e')) =
         gc_avg_latency_us (ep_stats e) * of_int (gc_completions (ep_stats e)) +
         (cq_done_clock first - td_t_triggered d) * 1000000) \<and>
    (\<forall>g d2. map_of (ep_descriptors e) g = Some d2 \<and> \<not> td_done d2 \<longrightarrow>
       map_option fst (wait_completion libs now timeout g polls e) = Some r)"
proof -
  let ?P = "\<lambda>p. cq_clock p < now + timeout \<and> cq_ret p = - 11"
  have "dropWhile ?P polls \<noteq> []" using assms(6,7) by (auto simp: dropWhile_eq_Nil_conv intro!: bexI [of _ p])
  then obtain ps where ps: "dropWhile ?P polls = first # ps" unfolding first_def by (cases "dropWhile ?P polls") auto
  have w: "wait_completion libs now timeout g polls e =
      Some (if cq_clock first < now + timeout \<and> 0 < cq_ret first
            then (True, record_completion g d2 (cq_done_clock first) e) else (False, e))"
    if "map_of (ep_descriptors e) g = Some d2" "\<not> td_done d2" for g d2
    by (simp add: wait_completion_def cq_loop_result ps that assms(3,4) del: not_None_eq)
  show ?thesis
  proof (cases "cq_clock first < now + timeout \<and> 0 < cq_ret first")
    case True
    then show ?thesis
      using record_completion_mean [OF assms(5), of h d "cq_done_clock first"]
      by (intro exI [of _ True] exI [of _ "record_completion h d (cq_done_clock first) e"])
        (simp add: w [OF assms(1,2)] w update_conv')
  next
    case False
    then show ?thesis by (intro exI [of _ False] exI [of _ e]) (auto simp: w [OF assms(1,2)] w)
  qed
qed

text \<open>
  What a trigger does: with a mapped doorbell it writes exactly the descriptor's token, and
  if that copy fails nothing else is sent, although the result is that of the CPU fallback;
  without a doorbell one library send of the descriptor is made, or, if no endpoint was
  opened, none at all while the descriptor counts as done. An unknown handle makes no call.
\<close>
lemma gpu_trigger_outcomes:
  "(map_of (ep_descriptors e) h = None \<longrightarrow> trigger_from_gpu libs tg h e = (False, No_Call, e)) \<and>
   (\<forall>d. map_of (ep_descriptors e) h = Some d \<longrightarrow>
      (if ep_doorbell_gpu_ptr e \<noteq> None \<and> lb_cudart libs
       then fst (trigger_from_gpu libs tg h e) = (tg_memcpy_ret tg = 0) \<and>
         fst (snd (trigger_from_gpu libs tg h e)) = Doorbell_Write (doorbell_token d) \<and>
         (tg_memcpy_ret tg \<noteq> 0 \<longrightarrow> snd (snd (trigger_from_gpu libs tg h e)) = e)
       else \<not> fst (trigger_from_gpu libs tg h e) \<and>
         (if lb_fabric libs \<and> ep_ep e \<noteq> None
          then fst (snd (trigger_from_gpu libs tg h e)) \<in>
            {Fi_Inject (td_src_ptr d) (td_length d) (td_dest_addr d),
             Fi_Send (td_src_ptr d) (td_length d) (td_dest_addr d) h}
          else fst (snd (trigger_from_gpu libs tg h e)) = No_Call \<and>
            (\<exists>d'. map_of (ep_descriptors (snd (snd (trigger_from_gpu libs tg h e)))) h = Some d' \<and> td_done d'))))"
  by (auto simp: trigger_from_gpu_def doorbell_trigger_def trigger_from_cpu_def update_conv')

section \<open>Witnesses\<close>

definition no_libs :: gpu_libs where
  "no_libs = \<lparr>lb_fabric = False, lb_cudart = False, lb_cxi_devices = False\<rparr>"

definition fabric_only :: gpu_libs where
  "fabric_only = \<lparr>lb_fabric = True, lb_cudart = False, lb_cxi_devices = True\<rparr>"

theorem gpu_registry_witness:
  "\<exists>h e'. gpu_register_transfer 2 3 4096 None
       (fold (gpu_exec no_libs) [G_Register 1 2 10 None, G_Deregister 0] (endpoint_init no_libs 0 0 2 True 256)) = (h, e') \<and>
     gpu_ok e' \<and> h = 1"
proof -
  let ?e = "fold (gpu_exec no_libs) [G_Register 1 2 10 None, G_Deregister 0] (endpoint_init no_libs 0 0 2 True 256)"
  obtain h e' where r: "gpu_register_transfer 2 3 4096 None ?e = (h, e')" by (rule prod.exhaust)
  then have "h = 1"
    by (simp add: gpu_register_transfer_def Let_def gpu_deregister_def endpoint_init_def)
  have "gpu_ok e'" using gpu_registry [OF refl r] by (rule conjunct1)
  with r \<open>h = 1\<close> show ?thesis by (intro exI conjI)
qed

theorem gpu_wait_correct_witness:
  "let e = (snd (gpu_register_transfer 7 8 100 None (endpoint_init fabric_only 0 0 2 True 256)))
        \<lparr>ep_cq := Some 1, ep_ep := Some 2\<rparr>
   in map_option fst (wait_completion fabric_only 0 5 0
        [\<lparr>cq_clock = 1, cq_ret = - 11, cq_done_clock = 0\<rparr>, \<lparr>cq_clock = 2, cq_ret = 1, cq_done_clock = 3\<rparr>,
         \<lparr>cq_clock = 6, cq_ret = - 11, cq_done_clock = 0\<rparr>] e) = Some True"
proof -
  define e where "e = (snd (gpu_register_transfer 7 8 100 None (endpoint_init fabric_only 0 0 2 True 256)))
        \<lparr>ep_cq := Some 1, ep_ep := Some 2\<rparr>"
  define d where "d = \<lparr>td_handle_id = 0, td_src_ptr = 7, td_dest_addr = 8, td_length = 100, td_tc = 2,
    td_in_flight = False, td_done = False, td_t_triggered = 0, td_t_complete = 0\<rparr>"
  let ?ps = "[\<lparr>cq_clock = 1, cq_ret = - 11, cq_done_clock = 0\<rparr>, \<lparr>cq_clock = 2, cq_ret = 1, cq_done_clock = 3\<rparr>,
         \<lparr>cq_clock = 6, cq_ret = - 11, cq_done_clock = 0\<rparr>]"
  have h: "map_of (ep_descriptors e) 0 = Some d" "\<not> td_done d" "lb_fabric fabric_only" "ep_cq e \<noteq> None"
    "0 \<le> gc_completions (ep_stats e)"
    by (simp_all add: e_def d_def gpu_register_transfer_def endpoint_init_def Let_def fabric_only_def)
  have p: "\<lparr>cq_clock = 6, cq_ret = - 11, cq_done_clock = 0\<rparr> \<in> set ?ps"
    "(0 :: real) + 5 \<le> cq_clock \<lparr>cq_clock = 6, cq_ret = - 11, cq_done_clock = 0\<rparr>" by simp_all
  let ?q = "hd (dropWhile (\<lambda>p. cq_clock p < 0 + 5 \<and> cq_ret p = - 11) ?ps)"
  from gpu_wait_correct [OF h p] obtain r e' where w: "wait_completion fabric_only 0 5 0 ?ps e = Some (r, e')"
    and r: "r \<longleftrightarrow> cq_clock ?q < 0 + 5 \<and> 0 < cq_ret ?q"
    by (elim exE conjE)
  from r have r by simp
  then show ?thesis using w unfolding e_def Let_def by simp
qed

end
