(* ===== verification/Scheduler_V4.thy ===== *)
theory Scheduler_V4
  imports Scheduler P2P_Cache Sparse_Transfer Nano_Overlap Nexus NVLink_Router GPU_Driven
begin

text \<open>
  \<^verbatim>\<open>tempo/scheduler.py\<close>, versions 4 to 6. Version 4 puts a peer-to-peer cache and
  the nano-overlap pipeline around the version 3 checkpoint, version 5 the coordinator's
  checkpoint window, version 6 the traffic class and the egress NIC. Keyword arguments are passed
  as Python does: a keyword the callee has no parameter for raises \<open>TypeError\<close> before its body
  runs. \<open>end_step\<close> may block on the worker's queue (\<open>end_step_returns\<close>); here it has
  returned.
\<close>

section \<open>Version 4\<close>

record 'b tempo_v4 = "'b tempo_v3" +
  te_sparse_filter :: "sparse_filter option"
  te_p2p_cache :: "8 word p2p_store option"
  te_nano_ctrl :: "nano option"

text \<open>
  The environment: the digest and the store's disk, the network, whether CUDA and pinned memory
  are available, and the files left under the NVMe root of the cache.
\<close>

record v4_env =
  ve_io :: io_env
  ve_net :: "8 word net_env"
  ve_cuda :: bool
  ve_alloc_ok :: bool
  ve_files :: "int \<rightharpoonup> bytes"

definition tempo_v4_init ::
    "v4_env \<Rightarrow> int \<Rightarrow> bool \<Rightarrow> real \<Rightarrow> bool \<Rightarrow> real \<Rightarrow> bool \<Rightarrow> nat \<Rightarrow> 'b tempo_v3 \<Rightarrow> 'b tempo_v4" where
  "tempo_v4_init env flush_chunk_mb enable_sparse_transfer sparse_threshold enable_p2p_cache
      p2p_dram_limit_gb enable_nano_overlap n_layers s =
     tempo_v3.extend s
       \<lparr>te_sparse_filter =
          (if enable_sparse_transfer
           then Some (sparse_filter_init sparse_threshold (20 / 100) 1 64) else None),
        te_p2p_cache =
          (if enable_p2p_cache
           then Some (p2p_init (io_hash (ve_io env)) (te_rank s) (nat (te_world_size s))
                        p2p_dram_limit_gb 32 REPLICATION_FACTOR (te_world_size s = 1) (ve_files env))
           else None),
        te_nano_ctrl =
          (if enable_nano_overlap
           then Some (nano_init n_layers
                        (nat (flush_chunk_mb * 1024 * 1024 div int (max 1 n_layers)))
                        (ve_cuda env) True True (ve_alloc_ok env))
           else None)\<rparr>"

definition size_hint :: "metadata option \<Rightarrow> ('b, 'm) tempo_v4_scheme \<Rightarrow> int" where
  "size_hint metadata s =
     (let hint = meta_get metadata ''size_bytes'' (256 * 1024 * 1024) in
      case te_sparse_filter s of
        None \<Rightarrow> hint
      | Some f \<Rightarrow>
          (let avg_hot = max (5 / 100) (sst_avg_hot_ratio_pct (sparse_get_stats f) / 100)
           in py_int (of_int hint * avg_hot)))"

text \<open>The dictionary that is passed on, and that the caller's dictionary has become.\<close>

definition v4_metadata :: "metadata option \<Rightarrow> ('b, 'm) tempo_v4_scheme \<Rightarrow> metadata" where
  "v4_metadata metadata s =
     (case metadata of None \<Rightarrow> Map.empty | Some m \<Rightarrow> m)(''size_bytes'' \<mapsto> size_hint metadata s)"

definition encode :: "string \<Rightarrow> bytes" where
  "encode s = map (\<lambda>c. of_nat (of_char c)) s"

definition ckpt_cache_key :: "int \<Rightarrow> int \<Rightarrow> string" where
  "ckpt_cache_key step rank = ''ckpt:step='' @ str_int step @ '':rank='' @ str_int rank"

text \<open>The lookup before the checkpoint and the registration after it; \<open>now\<close> is the clock.\<close>

definition cache_lookup ::
    "v4_env \<Rightarrow> real \<Rightarrow> string \<Rightarrow> ('b, 'm) tempo_v4_scheme \<Rightarrow> bytes option \<times> ('b, 'm) tempo_v4_scheme" where
  "cache_lookup env now key s =
     (case te_p2p_cache s of
        None \<Rightarrow> (None, s)
      | Some p \<Rightarrow>
          (let (hit, p') = p2p_get (ve_io env) (ve_net env) now key p
           in (hit, s\<lparr>te_p2p_cache := Some p'\<rparr>)))"

definition cache_register ::
    "v4_env \<Rightarrow> real \<Rightarrow> string \<Rightarrow> bytes \<Rightarrow> ('b, 'm) tempo_v4_scheme \<Rightarrow> ('b, 'm) tempo_v4_scheme" where
  "cache_register env now key data s =
     s\<lparr>te_p2p_cache :=
         map_option (\<lambda>p. snd (p2p_put (ve_io env) (ve_net env) now key data p)) (te_p2p_cache s)\<rparr>"

definition checkpoint_v4 ::
    "v4_env \<Rightarrow> ckpt_clock \<Rightarrow> 'b list \<Rightarrow> int \<Rightarrow> metadata option \<Rightarrow> ('b, 'm) tempo_v4_scheme
     \<Rightarrow> unit result \<times> ('b, 'm) tempo_v4_scheme" where
  "checkpoint_v4 env ck blob step metadata s =
     (let md = v4_metadata metadata s;
          key = ckpt_cache_key step (te_rank s);
          (hit, s1) = cache_lookup env (ck_submit_v3 ck) key s
      in if hit \<noteq> None then (Inr (), s1)
         else
           let s2 = s1\<lparr>te_nano_ctrl := map_option (nano_begin_step step) (te_nano_ctrl s1)\<rparr>
           in case checkpoint_v3 ck blob step (Some md) s2 of
                (Inl e, s3) \<Rightarrow> (Inl e, s3)
              | (Inr _, s3) \<Rightarrow>
                  (let s4 = cache_register env (ck_exit ck) key (encode (''step='' @ str_int step)) s3
                   in (Inr (), s4\<lparr>te_nano_ctrl := map_option (snd \<circ> nano_end_step) (te_nano_ctrl s4)\<rparr>)))"

text \<open>
  \<open>kv_data\<close> is the second positional argument of \<open>on_layer_compute_end\<close>, which is its
  \<open>kv_tensor\<close>. Two clock readings.
\<close>

definition on_layer_event ::
    "real \<Rightarrow> real \<Rightarrow> int \<Rightarrow> string \<Rightarrow> bytes option \<Rightarrow> ('b, 'm) tempo_v4_scheme
     \<Rightarrow> ('b, 'm) tempo_v4_scheme result" where
  "on_layer_event now now' layer_id event kv_data s =
     (case te_nano_ctrl s of
        None \<Rightarrow> Inr s
      | Some c \<Rightarrow>
          if event = ''start''
          then (case nano_compute_start layer_id now c of
                  Inl e \<Rightarrow> Inl e | Inr c' \<Rightarrow> Inr (s\<lparr>te_nano_ctrl := Some c'\<rparr>))
          else if event = ''end''
          then (case nano_compute_end layer_id (map_option (\<lambda>_. Not_A_Tensor) kv_data) None now now' c of
                  Inl e \<Rightarrow> Inl e | Inr c' \<Rightarrow> Inr (s\<lparr>te_nano_ctrl := Some c'\<rparr>))
          else Inr s)"

definition current_nano_step :: "('b, 'm) tempo_v4_scheme \<Rightarrow> int" where
  "current_nano_step s = (case te_nano_ctrl s of Some c \<Rightarrow> no_step c | None \<Rightarrow> -1)"

definition nano_io_callback ::
    "v4_env \<Rightarrow> real \<Rightarrow> int \<Rightarrow> bytes \<Rightarrow> ('b, 'm) tempo_v4_scheme \<Rightarrow> ('b, 'm) tempo_v4_scheme" where
  "nano_io_callback env now layer_id data s =
     cache_register env now
       (''nano:step='' @ str_int (current_nano_step s) @ '':layer='' @ str_int layer_id @ '':rank='' @ str_int (te_rank s))
       data s"

record tempo_v4_stats = tempo_v3_stats +
  ts_sparse :: "sparse_stats option"
  ts_p2p_cache :: "p2p_stats option"
  ts_nano_overlap :: "nano_stats option"

definition get_stats_v4 :: "('b, 'm) tempo_v4_scheme \<Rightarrow> tempo_v4_stats" where
  "get_stats_v4 s =
     tempo_v3_stats.extend (get_stats_v3 s)
       \<lparr>ts_sparse = map_option sparse_get_stats (te_sparse_filter s),
        ts_p2p_cache = map_option p2p_get_stats (te_p2p_cache s),
        ts_nano_overlap = map_option nano_get_stats (te_nano_ctrl s)\<rparr>"

text \<open>
  \<open>print_stats\<close> on rank 0 looks the averages of the pipeline up, which \<open>get_stats\<close> has only once a step
  was ended. What versions 1 to 3, 5 and 6 print is always there.
\<close>

definition print_stats_v4 :: "('b, 'm) tempo_v4_scheme \<Rightarrow> unit result" where
  "print_stats_v4 s =
     (if te_rank s \<noteq> 0 then Inr ()
      else case ts_nano_overlap (get_stats_v4 s) of
        None \<Rightarrow> Inr ()
      | Some n \<Rightarrow> if nos_averages n = None then Inl KeyError else Inr ())"

text \<open>
  Each \<open>shutdown\<close> first calls that of its parent class; the one of version 1 ends with the
  \<open>print_stats\<close> of the object's own class. An exception there leaves out everything behind it.
\<close>

definition shutdown_v4 :: "('b, 'm) tempo_v4_scheme \<Rightarrow> unit result \<times> ('b, 'm) tempo_v4_scheme" where
  "shutdown_v4 s =
     (let s1 = shutdown_v1 s in
      case print_stats_v4 s1 of
        Inl e \<Rightarrow> (Inl e, s1)
      | Inr u \<Rightarrow>
          (let s2 = s1\<lparr>te_net_monitor := map_option nm_stop (te_net_monitor s1)\<rparr>
           in (Inr (), s2\<lparr>te_nano_ctrl := map_option nano_shutdown (te_nano_ctrl s2)\<rparr>)))"

section \<open>Version 5\<close>

record 'b tempo_v5 = "'b tempo_v4" +
  te_enable_nexus :: bool
  te_enable_layer_gates :: bool
  te_nexus :: "nexus option"

text \<open>
  \<open>getattr(self, "network_monitor", None)\<close> is \<open>None\<close>: the attribute is called
  \<open>net_monitor\<close>. The coordinator is built without a monitor.
\<close>

definition tempo_v5_init ::
    "bool \<Rightarrow> nat \<Rightarrow> bool \<Rightarrow> real \<Rightarrow> real \<Rightarrow> bool \<Rightarrow> 'b tempo_v4 \<Rightarrow> 'b tempo_v5" where
  "tempo_v5_init cuda n_layers enable_nexus nexus_base_window_ms nexus_overlap_fraction
      enable_layer_gates s =
     tempo_v4.extend s
       \<lparr>te_enable_nexus = enable_nexus, te_enable_layer_gates = enable_layer_gates,
        te_nexus =
          (if enable_nexus \<or> enable_layer_gates
           then Some (nexus_init cuda (te_rank s) (nat (te_world_size s)) n_layers nexus_base_window_ms
                        nexus_overlap_fraction False True)
           else None)\<rparr>"

text \<open>The parameters of the version 4 \<open>checkpoint\<close> after \<open>self\<close>, and a call with keywords.\<close>

definition checkpoint_v4_parameters :: "string list" where
  "checkpoint_v4_parameters = [''state_dict'', ''step'', ''metadata'']"

definition super_checkpoint ::
    "string list \<Rightarrow> v4_env \<Rightarrow> ckpt_clock \<Rightarrow> 'b list \<Rightarrow> int \<Rightarrow> ('b, 'm) tempo_v4_scheme
     \<Rightarrow> unit result \<times> ('b, 'm) tempo_v4_scheme" where
  "super_checkpoint keywords env ck blob step s =
     (if list_all (\<lambda>k. k \<in> set (drop 2 checkpoint_v4_parameters)) keywords
      then checkpoint_v4 env ck blob step None s
      else (Inl TypeError, s))"

text \<open>\<open>reduced\<close> is what the collective gives, \<open>elapsed\<close> the time the whole call took.\<close>

definition checkpoint_v5 ::
    "v4_env \<Rightarrow> ckpt_clock \<Rightarrow> real list option \<Rightarrow> real \<Rightarrow> 'b list \<Rightarrow> int \<Rightarrow> ('b, 'm) tempo_v5_scheme
     \<Rightarrow> unit result \<times> ('b, 'm) tempo_v5_scheme" where
  "checkpoint_v5 env ck reduced elapsed blob step s =
     (case (te_enable_nexus s \<and> te_mode s = ''tempo'', te_nexus s) of
        (True, Some n) \<Rightarrow>
          (case wait_for_window step None reduced n of
             Inl e \<Rightarrow> (Inl e, s)
           | Inr (win, slept, n') \<Rightarrow>
               (let s1 = s\<lparr>te_nexus := Some n', te_slept_ms := te_slept_ms s @ [slept * 1000]\<rparr>
                in case super_checkpoint [''filename'', ''force''] env ck blob step s1 of
                     (Inl e, s2) \<Rightarrow> (Inl e, s2)
                   | (Inr r, s2) \<Rightarrow>
                       (Inr r, s2\<lparr>te_nexus := map_option (record_flush_time elapsed) (te_nexus s2)\<rparr>)))
      | _ \<Rightarrow> super_checkpoint [''filename'', ''force''] env ck blob step s)"

definition on_step_begin_v5 :: "real \<Rightarrow> int \<Rightarrow> ('b, 'm) tempo_v5_scheme \<Rightarrow> ('b, 'm) tempo_v5_scheme" where
  "on_step_begin_v5 now step s =
     (let s1 = on_step_begin_v2 now step s
      in s1\<lparr>te_nexus := map_option (Nexus.begin_step step) (te_nexus s1)\<rparr>)"

definition on_layer_ar_done_v5 :: "int \<Rightarrow> ('b, 'm) tempo_v5_scheme \<Rightarrow> ('b, 'm) tempo_v5_scheme result" where
  "on_layer_ar_done_v5 layer_id s =
     (case (te_enable_layer_gates s, te_nexus s) of
        (True, Some n) \<Rightarrow>
          (case on_layer_ar_done layer_id n of
             Inl e \<Rightarrow> Inl e | Inr n' \<Rightarrow> Inr (s\<lparr>te_nexus := Some n'\<rparr>))
      | _ \<Rightarrow> Inr s)"

definition wait_layer_gate_v5 ::
    "int \<Rightarrow> bool \<Rightarrow> bool \<Rightarrow> ('b, 'm) tempo_v5_scheme \<Rightarrow> gate_wait option result" where
  "wait_layer_gate_v5 layer_id has_stream fired_in_time s =
     (case (te_enable_layer_gates s, te_nexus s) of
        (True, Some n) \<Rightarrow> wait_layer_gate layer_id has_stream fired_in_time n
      | _ \<Rightarrow> Inr None)"

record tempo_v5_stats = tempo_v4_stats +
  ts_nexus :: "nexus_stats option"

definition get_stats_v5 :: "('b, 'm) tempo_v5_scheme \<Rightarrow> tempo_v5_stats" where
  "get_stats_v5 s =
     tempo_v4_stats.extend (get_stats_v4 s) \<lparr>ts_nexus = map_option nexus_get_stats (te_nexus s)\<rparr>"

section \<open>Version 6\<close>

text \<open>\<open>te_egress_nic\<close> is the attribute \<open>_v6_egress_nic\<close> set on the checkpoint manager.\<close>

record 'b tempo_v6 = "'b tempo_v5" +
  te_n_gpus_per_node :: int
  te_local_gpu :: int
  te_gpu_pool :: "gpu_pool option"
  te_nvlink_router :: "nvlink_router option"
  te_fabric_qos :: "fabric_qos option"
  te_egress_nic :: "int option"

record v6_env =
  vs_libs :: gpu_libs
  vs_setup :: "int \<Rightarrow> setup_env"
  vs_sysfs :: "string \<Rightarrow> int option"
  vs_clock :: "string \<Rightarrow> real"
  vs_torch :: bool
  vs_fabric :: fabric_env
  vs_probe_tos :: bool

text \<open>What \<open>attach_pool\<close> finds as the endpoint pointer: the library handle is a \<open>c_void_p\<close>.\<close>

definition pool_handle :: "gpu_pool option \<Rightarrow> nat \<Rightarrow> ep_handle" where
  "pool_handle pool i =
     (case Option.bind pool (pool_get_endpoint (int i)) of
        None \<Rightarrow> No_Handle
      | Some e \<Rightarrow> (case ep_ep e of None \<Rightarrow> No_Handle | Some ptr \<Rightarrow> C_Void_P ptr))"

definition open_gpu_pool :: "v6_env \<Rightarrow> int \<Rightarrow> bool \<Rightarrow> int \<Rightarrow> gpu_pool option result" where
  "open_gpu_pool env n_gpus enable_gpu_doorbell gpu_staging_buf_mb =
     (if enable_gpu_doorbell
      then (case gpu_pool_init (vs_libs env) None n_gpus None FI_TC_STORAGE enable_gpu_doorbell
                   gpu_staging_buf_mb of
              Inl e \<Rightarrow> Inl e
            | Inr pool \<Rightarrow> Inr (Some (pool_open_all (vs_libs env) (vs_setup env) pool)))
      else Inr None)"

definition build_fabric_qos ::
    "v6_env \<Rightarrow> int \<Rightarrow> bool \<Rightarrow> bool \<Rightarrow> gpu_pool option \<Rightarrow> fabric_qos option result" where
  "build_fabric_qos env n_gpus enable_cxi_tc_control cxi_dry_run pool =
     (if enable_cxi_tc_control
      then (let f = fabric_qos_init (vs_probe_tos env) (nat n_gpus) cxi_dry_run CXI_STORAGE in
            if pool = None then Inr (Some f)
            else (case attach_pool (vs_fabric env) (pool_handle pool) f of
                    (Inl e, _) \<Rightarrow> Inl e | (Inr _, f') \<Rightarrow> Inr (Some f')))
      else Inr None)"

definition tempo_v6_init ::
    "v6_env \<Rightarrow> bool \<Rightarrow> bool \<Rightarrow> real \<Rightarrow> bool \<Rightarrow> bool \<Rightarrow> int \<Rightarrow> int \<Rightarrow> 'b tempo_v5 \<Rightarrow> 'b tempo_v6 result" where
  "tempo_v6_init env enable_gpu_doorbell enable_nvlink_routing nvlink_saturation_threshold
      enable_cxi_tc_control cxi_dry_run gpu_staging_buf_mb n_gpus_per_node s =
     (if n_gpus_per_node = 0 then Inl ZeroDivisionError
      else
        case open_gpu_pool env n_gpus_per_node enable_gpu_doorbell gpu_staging_buf_mb of
          Inl e \<Rightarrow> Inl e
        | Inr pool \<Rightarrow>
            (case build_fabric_qos env n_gpus_per_node enable_cxi_tc_control cxi_dry_run pool of
               Inl e \<Rightarrow> Inl e
             | Inr fq \<Rightarrow>
                 Inr (tempo_v5.extend s
                   \<lparr>te_n_gpus_per_node = n_gpus_per_node,
                    te_local_gpu = te_rank s mod n_gpus_per_node, te_gpu_pool = pool,
                    te_nvlink_router =
                      (if enable_nvlink_routing
                       then Some (nv_start (vs_sysfs env) (vs_clock env)
                              (nvlink_init (nat n_gpus_per_node) None nvlink_saturation_threshold
                                 (5 / 1000) (vs_torch env)))
                       else None),
                    te_fabric_qos = fq, te_egress_nic = None\<rparr>)))"

text \<open>The class of the egress NIC; \<open>None\<close> if there is no manager.\<close>

definition apply_egress_tc ::
    "v6_env \<Rightarrow> int \<Rightarrow> real \<Rightarrow> ('b, 'm) tempo_v6_scheme \<Rightarrow> cxi_tc option \<times> ('b, 'm) tempo_v6_scheme" where
  "apply_egress_tc env nic gain_score s =
     (case te_fabric_qos s of
        None \<Rightarrow> (None, s)
      | Some f \<Rightarrow>
          (let (c, f') = apply_for_gain (vs_fabric env) (nat nic) gain_score f
           in (Some c, s\<lparr>te_fabric_qos := Some f'\<rparr>)))"

definition choose_egress :: "v6_env \<Rightarrow> real \<Rightarrow> ('b, 'm) tempo_v6_scheme \<Rightarrow> ('b, 'm) tempo_v6_scheme" where
  "choose_egress env gain_score s =
     (let (selected_tc, s1) = apply_egress_tc env (te_local_gpu s) gain_score s in
      case te_nvlink_router s1 of
        None \<Rightarrow> s1\<lparr>te_egress_nic := Some (te_local_gpu s)\<rparr>
      | Some r \<Rightarrow>
          (let (egress_gpu, r') = select_egress_gpu (te_local_gpu s) r;
               s2 = s1\<lparr>te_nvlink_router := Some r'\<rparr>;
               s3 = (if need_nvlink_relay (te_local_gpu s) egress_gpu \<and> selected_tc \<noteq> None
                     then snd (apply_egress_tc env egress_gpu gain_score s2) else s2)
           in s3\<lparr>te_egress_nic := Some egress_gpu\<rparr>))"

definition checkpoint_v6 ::
    "v6_env \<Rightarrow> v4_env \<Rightarrow> ckpt_clock \<Rightarrow> real list option \<Rightarrow> real \<Rightarrow> 'b list \<Rightarrow> int \<Rightarrow> real
     \<Rightarrow> ('b, 'm) tempo_v6_scheme \<Rightarrow> unit result \<times> ('b, 'm) tempo_v6_scheme" where
  "checkpoint_v6 env6 env ck reduced elapsed blob step gain_score s =
     (if te_mode s \<noteq> ''tempo'' then checkpoint_v5 env ck reduced elapsed blob step s
      else checkpoint_v5 env ck reduced elapsed blob step (choose_egress env6 gain_score s))"

text \<open>\<open>_ckpt_interval\<close> and \<open>_last_ckpt_step\<close> are never set: the defaults 100 and 0 are used.\<close>

definition heuristic_gain :: "int \<Rightarrow> int \<Rightarrow> real" where
  "heuristic_gain step max_steps =
     (let ckpt_interval = 100; last = 0;
          steps_pending = max 1 (step - last);
          urgency = min 1 (of_int steps_pending / of_int (max 1 ckpt_interval));
          recency = min 1 (of_int step / of_int (max 1 max_steps))
      in urgency * (5 / 10 + 5 / 10 * recency))"

record tempo_v6_stats = tempo_v5_stats +
  ts_gpu_driven :: "(string \<times> endpoint_stats) list option"
  ts_nvlink_router :: "nvlink_stats option"
  ts_fabric_qos :: "fq_stats option"

definition get_stats_v6 :: "v6_env \<Rightarrow> ('b, 'm) tempo_v6_scheme \<Rightarrow> tempo_v6_stats" where
  "get_stats_v6 env s =
     tempo_v5_stats.extend (get_stats_v5 s)
       \<lparr>ts_gpu_driven = map_option pool_get_stats (te_gpu_pool s),
        ts_nvlink_router = map_option nvlink_get_stats (te_nvlink_router s),
        ts_fabric_qos = map_option (fq_get_stats (vs_fabric env)) (te_fabric_qos s)\<rparr>"

definition shutdown_v6 ::
    "v6_env \<Rightarrow> ('b, 'm) tempo_v6_scheme \<Rightarrow> unit result \<times> ('b, 'm) tempo_v6_scheme" where
  "shutdown_v6 env s =
     (case shutdown_v4 s of
        (Inl e, s1) \<Rightarrow> (Inl e, s1)
      | (Inr u, s1) \<Rightarrow>
          (let s2 = s1\<lparr>te_nvlink_router := map_option nv_stop (te_nvlink_router s1)\<rparr>
           in (Inr (), s2\<lparr>te_gpu_pool := map_option (pool_close_all (vs_libs env)) (te_gpu_pool s2)\<rparr>)))"

section \<open>The cache after a registration\<close>

lemma collect_owners_nonempty: "owners \<noteq> [] \<or> nodes \<noteq> [] \<Longrightarrow> collect_owners n nodes owners \<noteq> []"
proof (induction nodes arbitrary: owners)
  case Nil
  then show ?case by simp
next
  case (Cons x xs)
  define owners' where "owners' = (if x \<in> set owners then owners else owners @ [x])"
  have "owners' \<noteq> []" by (auto simp: owners'_def)
  then show ?case
    using Cons.IH [of owners'] by (simp add: Let_def owners'_def [symmetric] del: append_is_Nil_conv)
qed

lemma get_nodes_nonempty: "hr_sorted_keys r \<noteq> [] \<Longrightarrow> get_nodes H key n r \<noteq> []"
  by (simp add: get_nodes_def Let_def collect_owners_nonempty)

definition holds :: "string \<Rightarrow> 'b p2p_store \<Rightarrow> bool" where
  "holds key p \<longleftrightarrow> map_of (ts_dram (pp_local_store p)) key \<noteq> None"

lemma ts_put_holds: "map_of (ts_dram (ts_put io now key data s)) key \<noteq> None"
  by (simp add: ts_put_def Let_def update_conv')

lemma put_owners_holds:
  assumes "pp_simulation p" and "owners \<noteq> [] \<or> holds key p"
  shows "holds key (snd (put_owners io net now key data owners p))"
  using assms
proof (induction owners arbitrary: p)
  case Nil
  then show ?case by simp
next
  case (Cons r rs)
  let ?p = "p\<lparr>pp_local_store := ts_put io now key data (pp_local_store p),
              pp_puts_local := pp_puts_local p + 1\<rparr>"
  have "holds key (snd (put_owners io net now key data rs ?p))"
    using Cons ts_put_holds [of io now key data "pp_local_store p"] by (simp add: holds_def)
  with Cons.prems(1) show ?case by (simp add: case_prod_unfold Let_def)
qed

lemma put_owners_keeps:
  "pp_simulation (snd (put_owners io net now key data owners p)) = pp_simulation p \<and>
   pp_ring (snd (put_owners io net now key data owners p)) = pp_ring p \<and>
   pp_replication (snd (put_owners io net now key data owners p)) = pp_replication p"
proof (induction owners arbitrary: p)
  case Nil
  then show ?case by simp
next
  case (Cons r rs)
  then show ?case
    by (cases "r = pp_rank p \<or> pp_simulation p"; cases "remote_put net r key data p")
      (simp_all add: Cons.IH case_prod_unfold Let_def)
qed

lemma p2p_get_holds:
  assumes "holds key p" and "pp_simulation p" and "hr_sorted_keys (pp_ring p) \<noteq> []"
  shows "fst (p2p_get io net now key p) \<noteq> None"
proof -
  obtain r rs where "get_nodes (io_hash io) key (pp_replication p) (pp_ring p) = r # rs"
    using get_nodes_nonempty [OF assms(3)] by (meson list.exhaust)
  with assms(1,2) show ?thesis
    by (auto simp: p2p_get_def holds_def ts_get_def)
qed

lemma get_owners_holds:
  assumes "get_owners io net now key owners p = (Some data, p')" and "pp_simulation p"
  shows "holds key p'"
  using assms
proof (induction owners arbitrary: p)
  case Nil
  then show ?case by simp
next
  case (Cons r rs)
  obtain d st where g: "ts_get io now key (pp_local_store p) = (d, st)" by fastforce
  show ?case
  proof (cases d)
    case None
    with Cons.prems g Cons.IH [of "p\<lparr>pp_local_store := st\<rparr>"] show ?thesis by simp
  next
    case (Some x)
    with g have "map_of (ts_dram st) key \<noteq> None"
      by (auto simp: ts_get_def promote_def Let_def update_conv' split: option.splits)
    with Cons.prems g Some show ?thesis by (auto simp: holds_def)
  qed
qed

lemma get_owners_keeps:
  "pp_simulation p \<Longrightarrow> pp_simulation (snd (get_owners io net now key owners p)) \<and>
   pp_ring (snd (get_owners io net now key owners p)) = pp_ring p"
proof (induction owners arbitrary: p)
  case Nil
  then show ?case by simp
next
  case (Cons r rs)
  obtain d st where g: "ts_get io now key (pp_local_store p) = (d, st)" by fastforce
  with Cons.prems Cons.IH [of "p\<lparr>pp_local_store := st\<rparr>"] show ?case by (cases d) simp_all
qed

section \<open>A deferred checkpoint and its retry\<close>

text \<open>The part of a version 4 state that the version 3 checkpoint leaves alone.\<close>

definition same_v4 :: "('b, 'm) tempo_v4_scheme \<Rightarrow> ('b, 'm) tempo_v4_scheme \<Rightarrow> bool" where
  "same_v4 s s' \<longleftrightarrow> te_p2p_cache s' = te_p2p_cache s \<and> te_rank s' = te_rank s"

lemma same_v4_trans: "same_v4 s t \<Longrightarrow> same_v4 t u \<Longrightarrow> same_v4 s u"
  by (simp add: same_v4_def)

lemma submit_gain_v4: "submit_gain now job step s = (r, s') \<Longrightarrow> same_v4 s s'"
  by (erule submit_gain_cases) (auto simp: same_v4_def)

lemma v1_v4: "same_v4 s (snd (checkpoint_v1 change_phase_v2 ck blob step s))"
  by (simp add: same_v4_def checkpoint_v1_def change_phase_v2_def change_phase_def Let_def split: prod.split)

lemma gated_v4: "same_v4 s (snd (gated_checkpoint ck blob step s))"
proof -
  obtain d s2 where d: "submit_gain (ck_submit_v2 ck) No_Job step s = (d, s2)" by fastforce
  with same_v4_trans [OF submit_gain_v4 [OF d] v1_v4] submit_gain_v4 [OF d] show ?thesis
    by (auto simp: gated_checkpoint_def split: sum.split option.split)
qed

lemma v2_v4: "same_v4 s (snd (checkpoint_v2 ck blob step md s))"
proof -
  define s0 where "s0 = s\<lparr>te_svc_gain := map_option (update_step step) (te_svc_gain s)\<rparr>"
  obtain d s2 where d: "submit_gain (ck_submit_v2 ck) No_Job step s0 = (d, s2)" by fastforce
  have upd: "same_v4 (s0\<lparr>te_slept_ms := sl\<rparr>) t = same_v4 s t" "same_v4 s0 t = same_v4 s t" for sl t
    by (auto simp: same_v4_def s0_def)
  have "same_v4 s s2" using submit_gain_v4 [OF d] upd by simp
  then show ?thesis
    unfolding checkpoint_v2_def Let_def s0_def [symmetric]
    using d v1_v4 [of s0, unfolded upd] gated_v4 [of s0, unfolded upd]
      gated_v4 [of "s0\<lparr>te_slept_ms := sl\<rparr>" for sl, unfolded upd]
    by (auto split: route_action.split sum.split)
qed

lemma v3_v4: "same_v4 s (snd (checkpoint_v3 ck blob step md s))"
proof -
  obtain d s1 where d: "submit_gain (ck_submit_v3 ck) Empty_Dict step s = (d, s1)" by fastforce
  have s1: "same_v4 s s1" by (rule submit_gain_v4 [OF d])
  show ?thesis
  proof (cases d)
    case (Inl e)
    with d s1 show ?thesis by (simp add: checkpoint_v3_def)
  next
    case (Inr prio)
    obtain pl s2 where pl: "place_checkpoint (ck_window ck) md (classify_checkpoint prio s1) = (pl, s2)"
      by fastforce
    then have "same_v4 s1 s2"
      by (auto simp: place_checkpoint_def classify_checkpoint_def same_v4_def
          split: option.splits prod.splits)
    with s1 have s2: "same_v4 s s2" by (rule same_v4_trans)
    with same_v4_trans [OF s2 v2_v4, of ck blob step md] d Inr pl show ?thesis
      by (cases "checkpoint_v2 ck blob step md s2") (auto simp: checkpoint_v3_def split: sum.split)
  qed
qed

text \<open>Once the key is held, a version 4 checkpoint of that step only looks it up.\<close>

definition step_registered :: "int \<Rightarrow> ('b, 'm) tempo_v4_scheme \<Rightarrow> bool" where
  "step_registered step s \<longleftrightarrow>
     (\<exists>p. te_p2p_cache s = Some p \<and> pp_simulation p \<and> hr_sorted_keys (pp_ring p) \<noteq> [] \<and>
        holds (ckpt_cache_key step (te_rank s)) p)"

lemma registered_skips:
  assumes "step_registered step s"
  shows "fst (checkpoint_v4 env ck blob step md s) = Inr () \<and>
         unsaved s (snd (checkpoint_v4 env ck blob step md s))"
proof -
  from assms obtain p where p: "te_p2p_cache s = Some p" "pp_simulation p"
      "hr_sorted_keys (pp_ring p) \<noteq> []" "holds (ckpt_cache_key step (te_rank s)) p"
    by (auto simp: step_registered_def)
  from p2p_get_holds [OF p(4,2,3), of "ve_io env" "ve_net env" "ck_submit_v3 ck"] p(1) show ?thesis
    by (auto simp: checkpoint_v4_def cache_lookup_def Let_def unsaved_def split: prod.split)
qed

lemma checkpoint_v4_registers:
  assumes p: "te_p2p_cache s = Some p" "pp_simulation p" "hr_sorted_keys (pp_ring p) \<noteq> []"
    and run: "checkpoint_v4 env ck blob step md s = (Inr (), s')"
  shows "step_registered step s'"
proof -
  let ?key = "ckpt_cache_key step (te_rank s)"
  obtain hit p1 where g: "p2p_get (ve_io env) (ve_net env) (ck_submit_v3 ck) ?key p = (hit, p1)"
    by fastforce
  then have p1: "pp_simulation p1" "hr_sorted_keys (pp_ring p1) \<noteq> []"
    using get_owners_keeps [OF p(2)] p(3) unfolding p2p_get_def by (metis snd_conv)+
  let ?s1 = "s\<lparr>te_p2p_cache := Some p1\<rparr>"
  show ?thesis
  proof (cases hit)
    case (Some d)
    with g p(2) have "holds ?key p1" unfolding p2p_get_def by (auto intro: get_owners_holds)
    moreover have "s' = ?s1"
      using run g Some p(1) by (simp add: checkpoint_v4_def cache_lookup_def Let_def)
    ultimately show ?thesis using p1 by (simp add: step_registered_def)
  next
    case None
    define s2 where "s2 = s\<lparr>te_p2p_cache := Some p1,
      te_nano_ctrl := map_option (nano_begin_step step) (te_nano_ctrl s)\<rparr>"
    obtain r s3 where v3: "checkpoint_v3 ck blob step (Some (v4_metadata md s)) s2 = (r, s3)" by fastforce
    then have "same_v4 s2 s3" using v3_v4 [of s2 ck blob step] by (metis snd_conv)
    then have s3: "te_p2p_cache s3 = Some p1" "te_rank s3 = te_rank s"
      by (simp_all add: same_v4_def s2_def)
    define q where "q = snd (p2p_put (ve_io env) (ve_net env) (ck_exit ck) ?key (encode (''step='' @ str_int step)) p1)"
    have q: "holds ?key q" "pp_simulation q" "pp_ring q = pp_ring p1"
      using put_owners_holds [OF p1(1)] get_nodes_nonempty [OF p1(2)] p1(1)
      unfolding q_def p2p_put_def by (simp_all add: put_owners_keeps)
    have "te_p2p_cache s' = Some q \<and> te_rank s' = te_rank s"
      using run g None p(1) v3 s3
      by (cases r) (auto simp: checkpoint_v4_def cache_lookup_def cache_register_def Let_def s2_def [symmetric] q_def)
    with q p1(2) show ?thesis by (simp add: step_registered_def)
  qed
qed

text \<open>What the version 4 call does when the look-ahead of version 2 defers.\<close>

lemma place_checkpoint_look: "place_checkpoint now md s = (pl, s') \<Longrightarrow> look_ahead m s' = look_ahead m s"
  by (auto simp: place_checkpoint_def look_ahead_def split: option.splits prod.splits)

lemma submit_gain_look: "submit_gain now job step s = (r, s') \<Longrightarrow> look_ahead m s' = look_ahead m s"
  by (erule submit_gain_cases) auto

lemma v3_deferred:
  assumes "te_mode s = ''tempo''" and "gain_configured s" and "is_defer (look_ahead md s)"
    and "checkpoint_v3 ck blob step md s = (r, s')"
  shows "r = Inr () \<and> unsaved s s'"
proof -
  have r: "r = Inr ()" using placement_and_jobs [OF assms(1,4)] assms(2) by simp
  obtain d s1 where d: "submit_gain (ck_submit_v3 ck) Empty_Dict step s = (d, s1)" by fastforce
  from submit_configured [OF assms(2) d] obtain prio where prio: "d = Inr prio"
    and s1: "te_mode s1 = ''tempo''" using assms(1) by auto
  obtain pl s2 where pl: "place_checkpoint (ck_window ck) md (classify_checkpoint prio s1) = (pl, s2)"
    by fastforce
  note kept = place_checkpoint_keeps [OF pl]
  have un: "unsaved s s2"
    using submit_gain_unsaved [OF d] kept(3) unsaved_trans [of s "classify_checkpoint prio s1" s2]
    by simp
  have df: "is_defer (look_ahead md s2)"
    using assms(3) place_checkpoint_look [OF pl] submit_gain_look [OF d]
    by (simp add: look_ahead_def classify_checkpoint_def)
  obtain q s3 where q: "checkpoint_v2 ck blob step md s2 = (q, s3)" by fastforce
  have mode: "te_mode s2 = ''tempo''" using kept(2) s1 by simp
  have "unsaved s2 s3"
    using df by (cases rule: checkpoint_v2_cases [OF mode q refl]) simp_all
  then have "unsaved s s3" by (rule unsaved_trans [OF un])
  with r assms(4) d prio pl q un show ?thesis
    by (auto simp: checkpoint_v3_def split: sum.splits if_splits)
qed

lemma v4_deferred:
  assumes "te_mode s = ''tempo''" and "gain_configured s"
    and "is_defer (look_ahead (Some (v4_metadata md s)) s)"
    and "checkpoint_v4 env ck blob step md s = (r, s')"
  shows "r = Inr () \<and> unsaved s s'"
proof -
  obtain hit s1 where g: "cache_lookup env (ck_submit_v3 ck) (ckpt_cache_key step (te_rank s)) s = (hit, s1)"
    by fastforce
  then have s1: "te_mode s1 = te_mode s" "gain_configured s1 = gain_configured s" "unsaved s s1"
      "look_ahead m s1 = look_ahead m s" for m
    by (auto simp: cache_lookup_def gain_configured_def unsaved_def look_ahead_def
        split: option.splits prod.splits)
  show ?thesis
  proof (cases hit)
    case (Some d)
    with assms(4) g s1(3) show ?thesis by (simp add: checkpoint_v4_def Let_def)
  next
    case None
    define s2 where "s2 = s1\<lparr>te_nano_ctrl := map_option (nano_begin_step step) (te_nano_ctrl s1)\<rparr>"
    obtain q s3 where q: "checkpoint_v3 ck blob step (Some (v4_metadata md s)) s2 = (q, s3)" by fastforce
    have "te_mode s2 = ''tempo''" and "gain_configured s2"
      and "is_defer (look_ahead (Some (v4_metadata md s)) s2)" and un: "unsaved s s2"
      using assms(1-3) s1 by (simp_all add: s2_def gain_configured_def look_ahead_def unsaved_def)
    with v3_deferred [OF _ _ _ q] have "q = Inr ()" and "unsaved s s3"
      using unsaved_trans [OF un] by auto
    with assms(4) g None q show ?thesis
      by (auto simp: checkpoint_v4_def Let_def cache_register_def s2_def [symmetric] unsaved_def)
  qed
qed

section \<open>Keyword calls\<close>

lemma super_checkpoint_raises [simp]:
  "super_checkpoint [''filename'', ''force''] env ck blob step s = (Inl TypeError, s)"
  by (simp add: super_checkpoint_def checkpoint_v4_parameters_def)

text \<open>The operations of a version 5 scheduler that involve its coordinator.\<close>

datatype 'b v5_op =
    V5_Checkpoint v4_env ckpt_clock "real list option" real "'b list" int
  | V5_Step real int | V5_Layer int | V5_Layer_Event real real int string "bytes option"

fun v5_exec :: "'b v5_op \<Rightarrow> ('b, 'm) tempo_v5_scheme \<Rightarrow> ('b, 'm) tempo_v5_scheme" where
  "v5_exec (V5_Checkpoint env ck reduced elapsed blob step) s =
     snd (checkpoint_v5 env ck reduced elapsed blob step s)"
| "v5_exec (V5_Step now step) s = on_step_begin_v5 now step s"
| "v5_exec (V5_Layer layer) s =
     (case on_layer_ar_done_v5 layer s of Inl e \<Rightarrow> s | Inr s' \<Rightarrow> s')"
| "v5_exec (V5_Layer_Event now now' layer event kv_data) s =
     (case on_layer_event now now' layer event kv_data s of Inl e \<Rightarrow> s | Inr s' \<Rightarrow> s')"

text \<open>Nothing was saved and the estimate of the window was not updated.\<close>

definition window_kept :: "('b, 'm) tempo_v5_scheme \<Rightarrow> ('b, 'm) tempo_v5_scheme \<Rightarrow> bool" where
  "window_kept s s' \<longleftrightarrow> te_ckpt_manager s' = te_ckpt_manager s \<and>
     map_option nx_window_ms_ema (te_nexus s') = map_option nx_window_ms_ema (te_nexus s) \<and>
     map_option nx_flush_times (te_nexus s') = map_option nx_flush_times (te_nexus s)"

lemma window_kept_trans: "window_kept s t \<Longrightarrow> window_kept t u \<Longrightarrow> window_kept s u"
  by (simp add: window_kept_def)

lemma wait_for_window_keeps:
  "wait_for_window step bw reduced n = Inr (win, slept, n') \<Longrightarrow>
   nx_window_ms_ema n' = nx_window_ms_ema n \<and> nx_flush_times n' = nx_flush_times n"
  by (auto simp: wait_for_window_def compute_window_def Let_def split: sum.splits prod.splits option.splits)

lemma checkpoint_v5_raises:
  "\<exists>e. fst (checkpoint_v5 env ck reduced elapsed blob step s) = Inl e"
  "window_kept s (snd (checkpoint_v5 env ck reduced elapsed blob step s))"
  by (auto simp: checkpoint_v5_def Let_def window_kept_def
      split: bool.split option.split sum.split prod.split dest: wait_for_window_keeps)

lemma v5_exec_keeps: "window_kept s (v5_exec op s)"
proof (cases op)
  case (V5_Checkpoint env ck reduced elapsed blob step)
  then show ?thesis by (simp add: checkpoint_v5_raises)
next
  case (V5_Step now step)
  then show ?thesis
    by (cases "te_nexus s")
      (simp_all add: window_kept_def on_step_begin_v5_def on_step_begin_v2_def on_step_begin_def Let_def
        Nexus.begin_step_def split: option.split)
next
  case (V5_Layer layer)
  then show ?thesis
    by (auto simp: window_kept_def on_layer_ar_done_v5_def on_layer_ar_done_def
        split: option.split sum.split bool.split)
next
  case (V5_Layer_Event now now' layer event kv_data)
  then show ?thesis by (auto simp: window_kept_def on_layer_event_def split: option.splits sum.splits)
qed

lemma v5_run_keeps: "window_kept s (fold v5_exec ops s)"
proof (induction ops arbitrary: s)
  case Nil
  then show ?case by (simp add: window_kept_def)
next
  case (Cons op ops)
  from window_kept_trans [OF v5_exec_keeps [of s op] Cons.IH] show ?case by simp
qed

lemma sort_key_const: "\<forall>x \<in> set xs. f x = c \<Longrightarrow> sort_key f xs = xs"
  by (rule sort_key_id_if_sorted) (induction xs, auto)

lemma sorted_ranks_equal: "sorted_ranks n (replicate n c) = map int [0..<n]"
  unfolding sorted_ranks_def by (subst sort_key_const [where c = c]) simp_all

text \<open>The coordinator of version 5 has no monitor, every rank contributes load 0, and the order
  of the windows is the order of the ranks.\<close>

lemma v5_windows_by_rank:
  assumes "compute_window step None (Some (replicate (nx_world_size n) 0)) n = Inr (win, n')"
    and "\<not> nx_has_monitor n"
  shows "cw_my_load_gbps win = 0 \<and>
         list_index (map int [0..<nx_world_size n]) (nx_rank n) = Inr (cw_position win)"
  using assms
  by (auto simp: compute_window_def own_load_def sorted_ranks_equal Let_def split: sum.splits)

section \<open>Properties\<close>


text \<open>
  C35: No version 5 checkpoint saves anything. Every call ends in an exception: in tempo mode with
  the coordinator it first sleeps the delay of the rank's window and then raises
  \<open>TypeError\<close>, because version 4 has no parameters \<open>filename\<close> and \<open>force\<close>. So in any
  history of checkpoints, steps and layer signals the checkpoint manager stays as it was, and the
  window estimate is never adapted.
\<close>

theorem v5_checkpoint_never_saves:
  "(\<exists>e. fst (checkpoint_v5 env ck reduced elapsed blob step s) = Inl e) \<and>
   (case (te_enable_nexus s \<and> te_mode s = ''tempo'', te_nexus s) of
      (True, Some n) \<Rightarrow>
        (case wait_for_window step None reduced n of
           Inl e \<Rightarrow> checkpoint_v5 env ck reduced elapsed blob step s = (Inl e, s)
         | Inr (win, slept, n') \<Rightarrow>
             checkpoint_v5 env ck reduced elapsed blob step s =
               (Inl TypeError, s\<lparr>te_nexus := Some n', te_slept_ms := te_slept_ms s @ [slept * 1000]\<rparr>))
    | _ \<Rightarrow> checkpoint_v5 env ck reduced elapsed blob step s = (Inl TypeError, s)) \<and>
   window_kept s (fold v5_exec ops s)"
proof -
  have "case (te_enable_nexus s \<and> te_mode s = ''tempo'', te_nexus s) of
      (True, Some n) \<Rightarrow>
        (case wait_for_window step None reduced n of
           Inl e \<Rightarrow> checkpoint_v5 env ck reduced elapsed blob step s = (Inl e, s)
         | Inr (win, slept, n') \<Rightarrow>
             checkpoint_v5 env ck reduced elapsed blob step s =
               (Inl TypeError, s\<lparr>te_nexus := Some n', te_slept_ms := te_slept_ms s @ [slept * 1000]\<rparr>))
    | _ \<Rightarrow> checkpoint_v5 env ck reduced elapsed blob step s = (Inl TypeError, s)"
    by (auto simp: checkpoint_v5_def Let_def split: bool.split option.split sum.split prod.split)
  with checkpoint_v5_raises(1) v5_run_keeps show ?thesis by blast
qed

text \<open>
  In version 5 the pipeline never begins a step: its layer timings stay empty and the controller as it
  was built, for every layer event either raises before it changes anything or is out of range.
\<close>

definition nano_unused :: "nano \<Rightarrow> ('b, 'm) tempo_v5_scheme \<Rightarrow> bool" where
  "nano_unused c s \<longleftrightarrow> te_rank s = 0 \<and> te_nano_ctrl s = Some c"

lemma v5_layer_event:
  assumes "te_nano_ctrl s = Some c" and "no_layer_timings c = []"
  shows "on_layer_event now now' layer event kv_data s =
    (if (event = ''start'' \<or> event = ''end'') \<and> 0 \<le> layer \<and> layer < int (no_n_layers c)
     then Inl IndexError else Inr s)"
  using assms by (simp add: on_layer_event_def nano_compute_start_def nano_compute_end_def)

lemma v5_exec_nano:
  assumes "nano_unused c s" and "no_layer_timings c = []"
  shows "nano_unused c (v5_exec op s)"
proof (cases op)
  case (V5_Checkpoint env ck reduced elapsed blob step)
  with assms(1) show ?thesis
    by (auto simp: nano_unused_def checkpoint_v5_def Let_def split: bool.split option.split sum.split prod.split)
next
  case (V5_Step now step)
  with assms(1) show ?thesis
    by (simp add: nano_unused_def on_step_begin_v5_def on_step_begin_v2_def on_step_begin_def Let_def
        split: option.split)
next
  case (V5_Layer layer)
  with assms(1) show ?thesis
    by (auto simp: nano_unused_def on_layer_ar_done_v5_def split: option.split sum.split bool.split)
next
  case (V5_Layer_Event now now' layer event kv_data)
  with assms show ?thesis by (simp add: nano_unused_def v5_layer_event)
qed

lemma v5_run_nano:
  "nano_unused c s \<Longrightarrow> no_layer_timings c = [] \<Longrightarrow> nano_unused c (fold v5_exec ops s)"
  by (induction ops arbitrary: s) (simp_all add: v5_exec_nano)

lemma shutdown_v4_fails:
  "shutdown_v4 s =
     (if te_rank s = 0 \<and> (\<exists>c. te_nano_ctrl s = Some c \<and> no_history c = []) then (Inl KeyError, shutdown_v1 s)
      else (Inr (), (shutdown_v2 s)\<lparr>te_nano_ctrl := map_option nano_shutdown (te_nano_ctrl s)\<rparr>))"
  by (auto simp: shutdown_v4_def print_stats_v4_def get_stats_v4_def shutdown_v2_def shutdown_v1_def
      nano_get_stats_def tempo_v3_stats.defs Let_def split: option.split)

text \<open>
  C36: No version 5 scheduler of rank 0 can be shut down while the pipeline is enabled. After any
  history of checkpoints, steps, layer signals and layer events the call raises \<open>KeyError\<close> in
  printing the statistics, before the network monitor and the pipeline's worker are told to stop:
  both are left as they were. And every start or end of a layer raises \<open>IndexError\<close>.
\<close>

theorem v5_shutdown_raises:
  assumes "te_rank s = 0" and "te_nano_ctrl s = Some c" and "no_history c = []" and "no_layer_timings c = []"
    and "s' = fold v5_exec ops s"
  shows "shutdown_v4 s' = (Inl KeyError, shutdown_v1 s') \<and>
    te_net_monitor (snd (shutdown_v4 s')) = te_net_monitor s' \<and>
    te_nano_ctrl (snd (shutdown_v4 s')) = Some c \<and>
    (\<forall>layer. 0 \<le> layer \<and> layer < int (no_n_layers c) \<longrightarrow>
      on_layer_event now now' layer ''start'' kv_data s' = Inl IndexError \<and>
      on_layer_event now now' layer ''end'' kv_data s' = Inl IndexError)"
proof -
  have "nano_unused c s'" using assms v5_run_nano [of c s ops] by (simp add: nano_unused_def)
  then have s': "te_rank s' = 0" "te_nano_ctrl s' = Some c" by (simp_all add: nano_unused_def)
  then have down: "shutdown_v4 s' = (Inl KeyError, shutdown_v1 s')" using assms(3) by (simp add: shutdown_v4_fails)
  then show ?thesis using s' by (simp add: shutdown_v1_def v5_layer_event [OF s'(2) assms(4)])
qed

text \<open>
  The gain heuristic of version 6: for a step of the run it lies between 1/200 and 1, it never
  falls when the step grows, and it reaches 1 exactly when the run is complete and at least 100
  steps are pending.
\<close>

lemma heuristic_gain_range:
  assumes "0 \<le> step" and "step \<le> step'"
  shows "1 / 200 \<le> heuristic_gain step max_steps \<and>
         heuristic_gain step max_steps \<le> heuristic_gain step' max_steps \<and>
         heuristic_gain step' max_steps \<le> 1 \<and>
         (heuristic_gain step max_steps = 1 \<longleftrightarrow> 100 \<le> step \<and> max 1 max_steps \<le> step)"
proof -
  define u where "u k = min 1 (of_int (max 1 k) / (100 :: real))" for k :: int
  define r where "r k = min 1 (of_int k / of_int (max 1 max_steps) :: real)" for k :: int
  have g: "heuristic_gain k max_steps = u k * (1 / 2 + 1 / 2 * r k)" for k
    by (simp add: heuristic_gain_def u_def r_def Let_def)
  have u: "1 / 100 \<le> u step" "u step \<le> u step'" "u step' \<le> 1" "u step \<le> 1"
    using assms by (auto simp: u_def min_def max_def divide_simps)
  have m: "0 < real_of_int (max 1 max_steps)" by simp
  have r: "0 \<le> r step" "r step \<le> r step'" "r step' \<le> 1" "r step \<le> 1"
  proof -
    have "real_of_int step / of_int (max 1 max_steps) \<le> of_int step' / of_int (max 1 max_steps)"
      using assms m by (intro divide_right_mono) auto
    moreover have "0 \<le> real_of_int step / of_int (max 1 max_steps)" using assms m by simp
    ultimately show "0 \<le> r step" "r step \<le> r step'" "r step' \<le> 1" "r step \<le> 1"
      unfolding r_def by linarith+
  qed
  have b: "1 / 2 \<le> 1 / 2 + 1 / 2 * r step" "1 / 2 + 1 / 2 * r step \<le> 1 / 2 + 1 / 2 * r step'"
      "1 / 2 + 1 / 2 * r step' \<le> 1" "1 / 2 + 1 / 2 * r step \<le> 1"
    using r by simp_all
  have low: "1 / 100 * (1 / 2) \<le> u step * (1 / 2 + 1 / 2 * r step)"
    using u b by (intro mult_mono) auto
  have mono: "u step * (1 / 2 + 1 / 2 * r step) \<le> u step' * (1 / 2 + 1 / 2 * r step')"
    using u b by (intro mult_mono) auto
  have high: "u step' * (1 / 2 + 1 / 2 * r step') \<le> 1 * 1"
    using u b by (intro mult_mono) auto
  have one: "u step * (1 / 2 + 1 / 2 * r step) = 1 \<longleftrightarrow> u step = 1 \<and> r step = 1"
  proof
    assume e: "u step * (1 / 2 + 1 / 2 * r step) = 1"
    have "u step * (1 / 2 + 1 / 2 * r step) \<le> u step * 1"
      using u b by (intro mult_left_mono) auto
    with e u have "u step = 1" by linarith
    with e show "u step = 1 \<and> r step = 1" by simp
  qed simp
  have "u step = 1 \<longleftrightarrow> 100 \<le> step"
    using assms by (auto simp: u_def min_def max_def divide_simps)
  moreover have "r step = 1 \<longleftrightarrow> max 1 max_steps \<le> step"
    using m by (simp add: r_def min_def le_divide_eq) linarith
  ultimately show ?thesis using g low mono high one by simp
qed

section \<open>Witnesses\<close>

definition sample_v4_env :: v4_env where
  "sample_v4_env = \<lparr>ve_io = \<lparr>io_hash = int \<circ> length, io_write_ok = (\<lambda>_. True), io_read_ok = True\<rparr>,
     ve_net = \<lparr>ne_put = (\<lambda>_ _ _. False), ne_get = (\<lambda>_ _. None)\<rparr>, ve_cuda = False,
     ve_alloc_ok = True, ve_files = Map.empty\<rparr>"

definition sample_p2p :: "8 word p2p_store" where
  "sample_p2p = \<lparr>pp_rank = 0, pp_world_size = 1, pp_replication = 2, pp_simulation = True,
     pp_local_store = tier_store_init (2 ^ 32) (2 ^ 35) Map.empty,
     pp_ring = \<lparr>hr_vn = 1, hr_ring = [(5, 0)], hr_sorted_keys = [5]\<rparr>, pp_peer_addrs = [],
     pp_puts_local = 0, pp_puts_remote = 0, pp_gets_local = 0, pp_gets_remote = 0, pp_gets_miss = 0\<rparr>"

definition sample_v5_nano :: "bool tempo_v5" where
  "sample_v5_nano = tempo_v5_init False 4 True 200 0 True
     (tempo_v4_init sample_v4_env 256 False (1 / 100) False 4 True 4 sample_v3)"

theorem v5_shutdown_raises_witness:
  "fst (shutdown_v4 (fold v5_exec [V5_Step 1 5, V5_Layer 2, V5_Layer_Event 1 2 0 ''start'' None] sample_v5_nano)) =
     Inl KeyError"
proof -
  obtain c where c: "te_nano_ctrl sample_v5_nano = Some c" "no_history c = []" "no_layer_timings c = []"
    by (simp add: sample_v5_nano_def tempo_v5_init_def tempo_v4_init_def nano_init_def tempo_v3.defs tempo_v4.defs)
  have "te_rank sample_v5_nano = 0"
    by (simp add: sample_v5_nano_def tempo_v5_init_def tempo_v4_init_def sample_v3_def sample_v2_def sample_v1_def
        tempo_v2_init_def tempo.defs tempo_v2.defs tempo_v3.defs tempo_v4.defs)
  from v5_shutdown_raises [OF this c refl, THEN conjunct1] show ?thesis by (simp only: fst_conv)
qed

definition sample_v4 :: "bool tempo_v4" where
  "sample_v4 = tempo_v3.extend sample_v3
     \<lparr>te_sparse_filter = None, te_p2p_cache = Some sample_p2p, te_nano_ctrl = None\<rparr>"


end
