(* ===== verification/Ablation.thy ===== *)
theory Ablation
  imports Checkpoint_Safety Scheduler_V4
begin

text \<open>
  \<^verbatim>\<open>eval/ablation/train_ablation.py\<close>: the choice of the scheduler for an ablation
  mode, the communication hook and the program. The modes \<^verbatim>\<open>baseline\<close> and \<^verbatim>\<open>core\<close> run
  version 1 of the scheduler, the others version 6.
\<close>

section \<open>The scheduler of a mode\<close>

record ablation_args = train_args +
  aa_cxi_dry_run :: bool

datatype 'b any_scheduler = V1_Sched "'b tempo" | V6_Sched "'b tempo_v6"

text \<open>What the constructors of the versions read from the machine.\<close>

record machine =
  ma_nics :: "string list"
  ma_hostname :: string
  ma_devices :: "string list option"
  ma_v4 :: v4_env
  ma_v6 :: v6_env

text \<open>\<open>TEMPOSchedulerV6(...)\<close> with the defaults of the parameters that are not given.\<close>

definition scheduler_v6 ::
    "machine \<Rightarrow> bool \<Rightarrow> bool \<Rightarrow> bool \<Rightarrow> bool \<Rightarrow> int \<Rightarrow> 'b tempo \<Rightarrow> 'b tempo_v6 result" where
  "scheduler_v6 ma enable_p1 enable_p2 enable_p3 cxi_dry flush_chunk_mb s =
     (case tempo_v3_init (ma_hostname ma) (ma_devices ma) (vs_probe_tos (ma_v6 ma)) True True True
             (20 / 100) (tempo_v2_init (ma_nics ma) 500 (75 / 100) True True True s) of
        Inl e \<Rightarrow> Inl e
      | Inr s3 \<Rightarrow>
          tempo_v6_init (ma_v6 ma) enable_p1 enable_p2 (80 / 100) enable_p3 cxi_dry 256 4
            (tempo_v5_init (ve_cuda (ma_v4 ma)) 32 True 200 0 True
              (tempo_v4_init (ma_v4 ma) flush_chunk_mb True (1 / 100) True 4 True 32 s3)))"

definition build_scheduler ::
    "machine \<Rightarrow> string option \<Rightarrow> 'b fs \<Rightarrow> string \<Rightarrow> int \<Rightarrow> int \<Rightarrow> ablation_args
     \<Rightarrow> 'b any_scheduler result" where
  "build_scheduler ma pscratch fs mode rank world_size args =
     (if mode = ''baseline'' \<or> mode = ''core''
      then (case driver_scheduler pscratch fs rank world_size
                   (if mode = ''baseline'' then ''baseline'' else ''tempo'') args of
              Inl e \<Rightarrow> Inl e | Inr s \<Rightarrow> Inr (V1_Sched s))
      else
        let enable_p1 = mode \<in> {''core_p1'', ''core_p1_p2'', ''core_p1_p2_p3''};
            enable_p2 = mode \<in> {''core_p1_p2'', ''core_p1_p2_p3''};
            enable_p3 = (mode = ''core_p1_p2_p3'');
            cxi_dry = (if enable_p3 then aa_cxi_dry_run args else True)
        in case driver_scheduler pscratch fs rank world_size ''tempo'' args of
             Inl e \<Rightarrow> Inl e
           | Inr s \<Rightarrow>
               (case scheduler_v6 ma enable_p1 enable_p2 enable_p3 cxi_dry (ta_flush_chunk_mb args) s of
                  Inl e \<Rightarrow> Inl e | Inr s6 \<Rightarrow> Inr (V6_Sched s6)))"

section \<open>The hook\<close>

record ablation_row =
  ar_step :: int
  ar_ablation_mode :: string
  ar_allreduce_ms :: real
  ar_algbw_GBs :: real
  ar_busbw_GBs :: real
  ar_is_ckpt_step :: int
  ar_timestamp :: real

record ablation_comm = "ablation_row flag_comm" +
  cs_ablation_mode :: string

definition ablation_record :: "ablation_comm \<Rightarrow> hook_call \<Rightarrow> ablation_row" where
  "ablation_record c call =
     \<lparr>ar_step = cs_step c, ar_ablation_mode = cs_ablation_mode c,
      ar_allreduce_ms = py_round 4 (hc_lat_ms call), ar_algbw_GBs = py_round 4 (algbw call),
      ar_busbw_GBs = py_round 4 (busbw (cs_world_size c) call),
      ar_is_ckpt_step = of_bool (cs_is_ckpt_step c), ar_timestamp = py_round 3 (hc_timestamp call)\<rparr>"

definition ablation_comm_hook ::
    "'s phase_change \<Rightarrow> hook_call \<Rightarrow> 's \<times> ablation_comm \<Rightarrow> unit result \<times> ('s \<times> ablation_comm)" where
  "ablation_comm_hook change = comm_hook change ablation_record"

section \<open>The program\<close>

record 'b v6_step_env = "'b step_env" +
  vse_v4 :: v4_env
  vse_reduced :: "real list option"
  vse_elapsed :: real

definition v6_ops :: "v6_env \<Rightarrow> ('b tempo_v6, 'b v6_step_env) sched_ops" where
  "v6_ops env6 =
     \<lparr>so_change = change_phase_v2, so_begin = on_step_begin_v5, so_end = on_step_end,
      so_checkpoint = (\<lambda>env step s.
        checkpoint_v6 env6 (vse_v4 env) (se_clock env) (vse_reduced env) (vse_elapsed env) (se_blob env)
          step (40 / 100) s),
      so_chunk_bytes = (\<lambda>s. cm_chunk_bytes (te_ckpt_manager s))\<rparr>"

definition ablation_start :: "int \<Rightarrow> string \<Rightarrow> ablation_comm" where
  "ablation_start world_size mode =
     \<lparr>cs_world_size = world_size, cs_gated = (mode \<noteq> ''baseline''), cs_records = [], cs_step = 0,
      cs_is_ckpt_step = False, cs_ablation_mode = mode\<rparr>"

definition ablation_csv :: "int \<Rightarrow> ablation_comm \<Rightarrow> ablation_row list" where
  "ablation_csv rank c = (if rank = 0 then filter (\<lambda>r. 0 \<le> ar_step r) (cs_records c) else [])"

definition ablation_means :: "int \<Rightarrow> ablation_comm \<Rightarrow> real option \<times> real option" where
  "ablation_means rank c =
     (let good = ablation_csv rank c;
          avg = (\<lambda>rows. if rows = [] then None else Some (mean (map ar_algbw_GBs rows)))
      in (avg (filter (\<lambda>r. ar_is_ckpt_step r \<noteq> 0) good),
          avg (filter (\<lambda>r. ar_is_ckpt_step r = 0) good)))"

text \<open>Each mode has a remote directory of its own. The mode is \<open>ta_mode\<close>.\<close>

definition ablation_loop ::
    "machine \<Rightarrow> string option \<Rightarrow> 'b fs \<Rightarrow> int \<Rightarrow> int \<Rightarrow> ablation_args \<Rightarrow> (int \<Rightarrow> 'b v6_step_env)
     \<Rightarrow> unit result \<times> ('b any_scheduler \<times> ablation_comm) option" where
  "ablation_loop ma pscratch fs rank world_size args0 env =
     (let mode = ta_mode args0;
          args = args0\<lparr>ta_lustre_dir := ta_lustre_dir args0 @ ''/'' @ mode\<rparr>;
          c = ablation_start world_size mode;
          steps = py_range (total_steps args)
      in case build_scheduler ma pscratch fs mode rank world_size args of
           Inl e \<Rightarrow> (Inl e, None)
         | Inr (V1_Sched s) \<Rightarrow>
             (case train_loop (flagged_step ablation_comm_hook v1_ops args) env steps (s, c) of
                (Inl e, (s', c')) \<Rightarrow> (Inl e, Some (V1_Sched s', c'))
              | (Inr _, (s', c')) \<Rightarrow> (Inr (), Some (V1_Sched s', c')))
         | Inr (V6_Sched s) \<Rightarrow>
             (case train_loop (flagged_step ablation_comm_hook (v6_ops (ma_v6 ma)) args) env steps (s, c) of
                (Inl e, (s', c')) \<Rightarrow> (Inl e, Some (V6_Sched s', c'))
              | (Inr _, (s', c')) \<Rightarrow> (Inr (), Some (V6_Sched s', c'))))"

text \<open>The file is written between the loop and the shutdown, which may raise.\<close>

fun shutdown_any :: "machine \<Rightarrow> 'b any_scheduler \<Rightarrow> unit result \<times> 'b any_scheduler" where
  "shutdown_any ma (V1_Sched s) = (Inr (), V1_Sched (shutdown_v1 s))"
| "shutdown_any ma (V6_Sched s) = (case shutdown_v6 (ma_v6 ma) s of (r, s') \<Rightarrow> (r, V6_Sched s'))"

definition ablation_main ::
    "machine \<Rightarrow> string option \<Rightarrow> 'b fs \<Rightarrow> int \<Rightarrow> int \<Rightarrow> ablation_args \<Rightarrow> (int \<Rightarrow> 'b v6_step_env)
     \<Rightarrow> unit result \<times> ('b any_scheduler \<times> ablation_comm) option" where
  "ablation_main ma pscratch fs rank world_size args env =
     (case ablation_loop ma pscratch fs rank world_size args env of
        (Inr u, Some (s, c)) \<Rightarrow> (case shutdown_any ma s of (r, s') \<Rightarrow> (r, Some (s', c)))
      | ended \<Rightarrow> ended)"

section \<open>Version 6 in the loop\<close>

lemma ablation_hook_unfold: "ablation_comm_hook = (\<lambda>change. comm_hook change ablation_record)"
  by (simp add: ablation_comm_hook_def fun_eq_iff)

lemma choose_egress_ckpt [simp]:
  "te_ckpt_manager (choose_egress env6 g s) = te_ckpt_manager s"
  by (simp add: choose_egress_def apply_egress_tc_def Let_def case_prod_unfold split: option.split)

lemma checkpoint_v6_raises:
  "\<exists>e. fst (checkpoint_v6 env6 env ck reduced elapsed blob step g s) = Inl e"
  "te_ckpt_manager (snd (checkpoint_v6 env6 env ck reduced elapsed blob step g s)) = te_ckpt_manager s"
  using checkpoint_v5_raises [where env = env and ck = ck and reduced = reduced and elapsed = elapsed
      and blob = blob and step = step and s = s]
    checkpoint_v5_raises [where env = env and ck = ck and reduced = reduced and elapsed = elapsed
      and blob = blob and step = step and s = "choose_egress env6 g s"]
  by (simp_all add: checkpoint_v6_def window_kept_def)

lemma on_step_begin_v5_ckpt [simp]: "te_ckpt_manager (on_step_begin_v5 now step s) = te_ckpt_manager s"
  by (simp add: on_step_begin_v5_def on_step_begin_v2_def on_step_begin_def Let_def split: option.split)

lemma on_step_end_ckpt [simp]: "te_ckpt_manager (snd (on_step_end now s)) = te_ckpt_manager s"
  by (simp add: on_step_end_def Let_def)

text \<open>A step of version 6 never touches the checkpoint manager and returns only if no checkpoint is due.\<close>

lemma v6_step:
  assumes "flagged_step ablation_comm_hook (v6_ops env6) args step env (s, c) = (r, (s', c'))"
  shows "te_ckpt_manager s' = te_ckpt_manager s" and "r = Inr () \<Longrightarrow> is_ckpt_step args step = Inr False"
proof -
  have "te_ckpt_manager s' = te_ckpt_manager s \<and> (r = Inr () \<longrightarrow> is_ckpt_step args step = Inr False)"
  proof (cases "is_ckpt_step args step")
    case (Inl e)
    with assms show ?thesis by (auto simp: flagged_step_def)
  next
    case (Inr b)
    obtain q s2 c2 where pass: "compute_pass change_phase_v2 (comm_hook change_phase_v2 ablation_record) env
        (on_step_begin_v5 (se_begin env) step s,
         c\<lparr>cs_step := step - ta_warmup_steps args, cs_is_ckpt_step := b\<rparr>) = (q, (s2, c2))"
      by (metis surj_pair)
    have k: "te_ckpt_manager s2 = te_ckpt_manager s" using v2.compute_pass_ends(1) [OF pass] by simp
    show ?thesis
      using assms pass Inr k
        checkpoint_v6_raises [where ?env6.0 = env6 and env = "vse_v4 env" and ck = "se_clock env"
          and reduced = "vse_reduced env" and elapsed = "vse_elapsed env" and blob = "se_blob env"
          and step = step and g = "40 / 100" and s = "snd (on_step_end (se_end env) s2)"]
      by (auto simp: flagged_step_def v6_ops_def ablation_hook_unfold case_prod_unfold Let_def
          split: sum.splits if_splits)
  qed
  then show "te_ckpt_manager s' = te_ckpt_manager s"
    and "r = Inr () \<Longrightarrow> is_ckpt_step args step = Inr False" by simp_all
qed

lemma v6_loop:
  "train_loop (flagged_step ablation_comm_hook (v6_ops env6) args) env ks (s, c) = (r, (s', c')) \<Longrightarrow>
   te_ckpt_manager s' = te_ckpt_manager s \<and>
   (r = Inr () \<longrightarrow> (\<forall>k \<in> set ks. is_ckpt_step args k = Inr False))"
proof (induction ks arbitrary: s c)
  case Nil
  then show ?case by simp
next
  case (Cons k ks)
  obtain q s1 c1 where b: "flagged_step ablation_comm_hook (v6_ops env6) args k (env k) (s, c) = (q, (s1, c1))"
    by (metis surj_pair)
  note v = v6_step [OF b]
  show ?case
  proof (cases q)
    case (Inl e)
    with Cons.prems b v show ?thesis by auto
  next
    case (Inr u)
    with Cons.prems b have "train_loop (flagged_step ablation_comm_hook (v6_ops env6) args) env ks (s1, c1)
        = (r, (s', c'))" by simp
    from Cons.IH [OF this] v Inr show ?thesis by auto
  qed
qed

lemma scheduler_v6_ckpt:
  assumes "scheduler_v6 ma p1 p2 p3 dry chunk s = Inr s'"
  shows "te_ckpt_manager s' = te_ckpt_manager s"
  using assms
  by (auto simp: scheduler_v6_def tempo_v3_init_def tempo_v6_init_def tempo_v5_init_def tempo_v4_init_def
      tempo_v2_init_def tempo.defs tempo_v2.defs tempo_v3.defs tempo_v4.defs tempo_v5.defs Let_def
      split: sum.splits if_splits)

lemma build_v6:
  assumes "build_scheduler ma pscratch fs mode rank world_size args = Inr x"
    and "mode \<noteq> ''baseline''" and "mode \<noteq> ''core''"
  obtains s where "x = V6_Sched s" and "cm_fs (te_ckpt_manager s) = fs"
proof -
  obtain s0 where d: "driver_scheduler pscratch fs rank world_size ''tempo'' args = Inr s0"
    using assms by (auto simp: build_scheduler_def Let_def split: sum.splits)
  then have "cm_fs (te_ckpt_manager s0) = fs"
    by (auto simp: driver_scheduler_def tempo_init_def ckpt_init_def Let_def)
  moreover obtain s p1 p2 p3 dry where "x = V6_Sched s"
    and "scheduler_v6 ma p1 p2 p3 dry (ta_flush_chunk_mb args) s0 = Inr s"
    using assms d by (simp add: build_scheduler_def Let_def split: sum.splits) blast
  ultimately show thesis using that scheduler_v6_ckpt by metis
qed

section \<open>Properties\<close>

lemma ablation_v6_ends:
  assumes "ta_mode args \<noteq> ''baseline''" and "ta_mode args \<noteq> ''core''"
    and "0 \<le> ta_warmup_steps args" and "0 < ta_num_steps args"
    and "ablation_loop ma pscratch fs rank world_size args env = (r, res)"
  shows "(\<exists>e. r = Inl e) \<and>
    (\<forall>s c. res = Some (s, c) \<longrightarrow> (\<exists>s6. s = V6_Sched s6 \<and> cm_fs (te_ckpt_manager s6) = fs))"
proof -
  let ?args = "args\<lparr>ta_lustre_dir := ta_lustre_dir args @ ''/'' @ ta_mode args\<rparr>"
  let ?b = "build_scheduler ma pscratch fs (ta_mode args) rank world_size ?args"
  show ?thesis
  proof (cases ?b)
    case (Inl e)
    with assms(5) show ?thesis by (auto simp: ablation_loop_def Let_def)
  next
    case (Inr x)
    from build_v6 [OF Inr assms(1,2)] obtain s where v6: "?b = Inr (V6_Sched s)"
      and fs: "cm_fs (te_ckpt_manager s) = fs" using Inr by metis
    obtain q s' c' where loop: "train_loop (flagged_step ablation_comm_hook (v6_ops (ma_v6 ma)) ?args) env
        (py_range (total_steps ?args)) (s, ablation_start world_size (ta_mode args)) = (q, (s', c'))"
      by (metis surj_pair)
    note l = v6_loop [OF loop]
    have "ta_warmup_steps args \<in> set (py_range (total_steps ?args))"
      using assms(3,4) by (auto simp: py_range_def total_steps_def image_iff intro!: bexI [of _ "nat (ta_warmup_steps args)"])
    moreover have "is_ckpt_step ?args (ta_warmup_steps args) \<noteq> Inr False" by (simp add: is_ckpt_step_def)
    ultimately have "q \<noteq> Inr ()" using l by blast
    then obtain e where "q = Inl e" by (cases q) auto
    with loop v6 assms(5) l fs show ?thesis by (auto simp: ablation_loop_def Let_def)
  qed
qed


definition ablation_sample_args :: "string \<Rightarrow> ablation_args" where
  "ablation_sample_args mode = train_args.extend sample_args \<lparr>aa_cxi_dry_run = True\<rparr>\<lparr>ta_mode := mode\<rparr>"


text \<open>
  In the modes of version 1 no checkpoint is lost, as in the other drivers.
\<close>

lemma ablation_core_keeps:
  assumes "build_scheduler ma pscratch fs mode rank world_size args = Inr (V1_Sched s0)"
    and "train_run (flagged_step ablation_comm_hook v1_ops args) (is_ckpt_step args) (total_steps args)
      (s0, c0) n saved (s, c)"
    and "0 < ta_flush_chunk_mb args" and "(t, blob) \<in> set saved"
    and "ta_lustre_dir args \<noteq> ta_local_nvme args @ ''/rank'' @ str_int rank"
  shows "held (te_ckpt_manager s) t blob"
proof -
  have "saved_inv [] (fst (s0, c0))"
    using assms(1) driver_start_inv [OF _ assms(3,5)]
    by (auto simp: build_scheduler_def Let_def split: sum.splits if_splits)
  with assms(2,4) show ?thesis
    unfolding ablation_hook_unfold by (intro flagged.run_held(1))
qed

end
