(* ===== verification/Flush_Threads.thy ===== *)
theory Flush_Threads
  imports Checkpoint_Manager
begin

text \<open>
  The copy loop of \<open>_do_flush\<close> as the flush thread runs it, one access to shared state at a time,
  while the training thread changes the phase. \<open>Checkpoint_Manager\<close> takes an iteration as one step
  that sees one state of the monitor; here the phase may change between any two accesses: between
  the resizing and the rate, between the rate and the gate, during the sleep of a soft throttle, and
  while a chunk is being written.
\<close>

section \<open>Program points\<close>

text \<open>
  The top of the loop (resizing); the reading of the estimate; the call that grants a rate; the wait
  at the gate; the test of the stop flag after a wait that failed; a sleep; the read of the next
  chunk; its write; and the ends of the loop.
\<close>

datatype 'b flush_pc =
    At_Top | At_Estimate | At_Rate real | At_Gate | At_Stop_Test | Asleep real | At_Read
  | Writing "'b list" | Copied | Aborted | Failed

text \<open>
  \<open>ft_overlap\<close> is not part of the program: the sizes of the writes whose time overlaps the collective
  that is active, or was last active.
\<close>

record 'b flush_thread =
  ft_pc :: "'b flush_pc"
  ft_loop :: "'b flush_loop"
  ft_monitor :: phase_monitor
  ft_stop :: bool
  ft_overlap :: "int list"

record tick_env =
  tk_gate_ms :: real
  tk_write_ok :: bool
  tk_write_ms :: real

definition after_rate :: "real \<Rightarrow> 'b flush_thread \<Rightarrow> 'b flush_thread" where
  "after_rate rate s =
     (let l = ft_loop s; est = est_bw (fl_samples l) in
      if rate \<le> 0 then s\<lparr>ft_pc := At_Gate\<rparr>
      else if rate < est * (95 / 100)
      then (let token_wait_s = of_int (fl_chunk_bytes l) / max rate 1 - of_int (fl_chunk_bytes l) / max est 1
            in if 0 < token_wait_s
               then s\<lparr>ft_pc := Asleep (min token_wait_s (50 / 1000)),
                     ft_loop := l\<lparr>fl_waits := fl_waits l + 1\<rparr>\<rparr>
               else s\<lparr>ft_pc := At_Read\<rparr>)
      else s\<lparr>ft_pc := At_Read\<rparr>)"

text \<open>The end of the pacing block adds its time; then the next chunk is read.\<close>

definition read_chunk :: "bool \<Rightarrow> tick_env \<Rightarrow> 'b flush_thread \<Rightarrow> 'b flush_thread" where
  "read_chunk has_monitor e s =
     (let l = ft_loop s;
          l1 = l\<lparr>fl_block_ms := fl_block_ms l + (if has_monitor then tk_gate_ms e else 0)\<rparr>;
          chunk = py_read (fl_chunk_bytes l1) (fl_rest l1)
      in if chunk = [] then s\<lparr>ft_pc := Copied, ft_loop := l1\<rparr>
         else s\<lparr>ft_pc := Writing chunk, ft_loop := l1,
                ft_overlap := (if is_nccl_active (ft_monitor s)
                               then ft_overlap s @ [int (length chunk)] else ft_overlap s)\<rparr>)"

definition end_write :: "tick_env \<Rightarrow> 'b list \<Rightarrow> 'b flush_thread \<Rightarrow> 'b flush_thread" where
  "end_write e chunk s =
     (let l = ft_loop s; samples = fl_samples l @ [(int (length chunk), tk_write_ms e + 1 / 10 ^ 6)] in
      if tk_write_ok e
      then s\<lparr>ft_pc := At_Top,
             ft_loop := l\<lparr>fl_rest := drop (length chunk) (fl_rest l),
                          fl_written := fl_written l @ chunk,
                          fl_write_ms := fl_write_ms l + tk_write_ms e,
                          fl_samples := (if 8 < length samples then tl samples else samples)\<rparr>\<rparr>
      else s\<lparr>ft_pc := Failed\<rparr>)"

text \<open>One access of the flush thread.\<close>

definition flush_tick :: "bool \<Rightarrow> bool \<Rightarrow> tick_env \<Rightarrow> 'b flush_thread \<Rightarrow> 'b flush_thread" where
  "flush_tick adaptive has_monitor e s =
     (let l = ft_loop s; m = ft_monitor s in
      case ft_pc s of
        At_Top \<Rightarrow>
          (if has_monitor
           then s\<lparr>ft_pc := At_Estimate,
                  ft_loop := (if adaptive
                    then l\<lparr>fl_chunk_bytes := adaptive_chunk_size m (fl_samples l) (fl_chunk_bytes l)\<rparr>
                    else l)\<rparr>
           else s\<lparr>ft_pc := At_Read\<rparr>)
      | At_Estimate \<Rightarrow> s\<lparr>ft_pc := At_Rate (estimated_nccl_bps m)\<rparr>
      | At_Rate est \<Rightarrow> after_rate (dynamic_rate est (fl_samples l) m) s
      | At_Gate \<Rightarrow>
          (if wait_for_io_allowed False m then s\<lparr>ft_pc := At_Read\<rparr>
           else s\<lparr>ft_pc := At_Stop_Test, ft_loop := l\<lparr>fl_waits := fl_waits l + 1\<rparr>\<rparr>)
      | At_Stop_Test \<Rightarrow> s\<lparr>ft_pc := (if ft_stop s then Aborted else At_Gate)\<rparr>
      | Asleep d \<Rightarrow> s\<lparr>ft_pc := At_Read\<rparr>
      | At_Read \<Rightarrow> read_chunk has_monitor e s
      | Writing chunk \<Rightarrow> end_write e chunk s
      | _ \<Rightarrow> s)"

text \<open>
  A phase change of the training thread. A collective that begins while a chunk is being written
  overlaps that write.
\<close>

definition phase_tick :: "real \<Rightarrow> training_phase \<Rightarrow> 'b flush_thread \<Rightarrow> 'b flush_thread" where
  "phase_tick now p s =
     s\<lparr>ft_monitor := set_phase now p (ft_monitor s),
       ft_overlap := (if p = NCCL_COMM \<and> \<not> is_nccl_active (ft_monitor s)
                      then (case ft_pc s of Writing chunk \<Rightarrow> [int (length chunk)] | _ \<Rightarrow> [])
                      else ft_overlap s)\<rparr>"

definition flush_thread_start :: "'b list \<Rightarrow> 'b ckpt \<Rightarrow> phase_monitor \<Rightarrow> 'b flush_thread" where
  "flush_thread_start src c m =
     \<lparr>ft_pc = At_Top, ft_loop = flush_start src c, ft_monitor = m, ft_stop = cm_stop c, ft_overlap = []\<rparr>"

text \<open>Every interleaving of the flush thread with phase changes and a stop request.\<close>

inductive ft_reach :: "bool \<Rightarrow> bool \<Rightarrow> 'b flush_thread \<Rightarrow> 'b flush_thread \<Rightarrow> bool"
  for adaptive has_monitor s0 where
  start: "ft_reach adaptive has_monitor s0 s0"
| tick: "ft_reach adaptive has_monitor s0 s \<Longrightarrow>
    ft_reach adaptive has_monitor s0 (flush_tick adaptive has_monitor e s)"
| phase: "ft_reach adaptive has_monitor s0 s \<Longrightarrow> ft_reach adaptive has_monitor s0 (phase_tick now p s)"
| stop: "ft_reach adaptive has_monitor s0 s \<Longrightarrow> ft_reach adaptive has_monitor s0 (s\<lparr>ft_stop := True\<rparr>)"

section \<open>What is copied\<close>

text \<open>
  At every point the bytes written, followed by those left, are the source; a chunk being written is
  a prefix of those left, at most one chunk long; and the chunk size stays positive and at most the
  larger of the first one and the adaptive maximum.
\<close>

definition chunk_cap :: "int \<Rightarrow> int" where
  "chunk_cap n0 = max n0 MAX_CHUNK_BYTES"

definition copy_ok :: "'b list \<Rightarrow> int \<Rightarrow> 'b flush_thread \<Rightarrow> bool" where
  "copy_ok src n0 s \<longleftrightarrow>
     fl_written (ft_loop s) @ fl_rest (ft_loop s) = src \<and>
     0 < fl_chunk_bytes (ft_loop s) \<and> fl_chunk_bytes (ft_loop s) \<le> chunk_cap n0 \<and>
     (case ft_pc s of
        Writing chunk \<Rightarrow> chunk \<noteq> [] \<and> (\<exists>rest. fl_rest (ft_loop s) = chunk @ rest) \<and>
          int (length chunk) \<le> chunk_cap n0
      | Copied \<Rightarrow> fl_rest (ft_loop s) = []
      | _ \<Rightarrow> True)"

lemma adaptive_chunk_cap:
  "n \<le> chunk_cap n0 \<Longrightarrow> adaptive_chunk_size m samples n \<le> chunk_cap n0"
  using adaptive_chunk_range [of m samples n] by (auto simp: chunk_cap_def)

lemma py_read_prefix:
  assumes "0 < n"
  shows "\<exists>rest. xs = py_read n xs @ rest" and "int (length (py_read n xs)) \<le> n"
  using assms by (auto simp: py_read_def intro: exI [of _ "drop (nat n) xs"])

lemma copy_ok_tick:
  assumes "copy_ok src n0 s"
  shows "copy_ok src n0 (flush_tick adaptive has_monitor e s)"
proof (cases "ft_pc s")
  case At_Read
  with assms py_read_prefix [of "fl_chunk_bytes (ft_loop s)" "fl_rest (ft_loop s)"] show ?thesis
    by (fastforce simp: copy_ok_def flush_tick_def read_chunk_def Let_def py_read_Nil)
next
  case (Writing chunk)
  with assms show ?thesis by (auto simp: copy_ok_def flush_tick_def end_write_def Let_def)
next
  case At_Top
  with assms show ?thesis
    by (auto simp: copy_ok_def flush_tick_def Let_def adaptive_chunk_pos adaptive_chunk_cap)
next
  case (At_Rate est)
  with assms show ?thesis by (auto simp: copy_ok_def flush_tick_def after_rate_def Let_def)
qed (use assms in \<open>auto simp: copy_ok_def flush_tick_def Let_def\<close>)

section \<open>How much of it overlaps a collective\<close>

text \<open>A thread that has passed the pacing block of this iteration, but not begun to write.\<close>

definition past_gate :: "'b flush_pc \<Rightarrow> bool" where
  "past_gate pc \<longleftrightarrow> (case pc of Asleep _ \<Rightarrow> True | At_Read \<Rightarrow> True | _ \<Rightarrow> False)"

definition overlap_ok :: "int \<Rightarrow> 'b flush_thread \<Rightarrow> bool" where
  "overlap_ok n0 s \<longleftrightarrow> gate_ok (ft_monitor s) \<and>
     length (ft_overlap s) \<le> 1 \<and> (\<forall>n \<in> set (ft_overlap s). n \<le> chunk_cap n0) \<and>
     (is_nccl_active (ft_monitor s) \<and> past_gate (ft_pc s) \<longrightarrow> ft_overlap s = [])"

lemma dynamic_rate_active: "is_nccl_active m \<Longrightarrow> dynamic_rate est samples m = 0"
  by (simp add: dynamic_rate_def pm.rate_busy)

lemma overlap_ok_tick:
  assumes ok: "overlap_ok n0 s" and copy: "copy_ok src n0 s"
  shows "overlap_ok n0 (flush_tick adaptive True e s)"
proof (cases "ft_pc s")
  case At_Read
  have "int (length (py_read (fl_chunk_bytes (ft_loop s)) (fl_rest (ft_loop s)))) \<le> chunk_cap n0"
    using copy py_read_prefix(2) [of "fl_chunk_bytes (ft_loop s)" "fl_rest (ft_loop s)"]
    by (auto simp: copy_ok_def)
  with At_Read ok show ?thesis
    by (auto simp: overlap_ok_def flush_tick_def read_chunk_def Let_def past_gate_def)
next
  case (At_Rate est)
  with ok dynamic_rate_active show ?thesis
    by (auto simp: overlap_ok_def flush_tick_def after_rate_def Let_def past_gate_def)
next
  case At_Gate
  with ok show ?thesis
    by (auto simp: overlap_ok_def flush_tick_def Let_def past_gate_def gate_ok_def
        wait_for_io_allowed_def is_nccl_active_def)
next
  case (Writing chunk)
  with ok show ?thesis by (auto simp: overlap_ok_def flush_tick_def end_write_def Let_def past_gate_def)
qed (use ok in \<open>auto simp: overlap_ok_def flush_tick_def Let_def past_gate_def\<close>)

lemma overlap_ok_phase:
  assumes ok: "overlap_ok n0 s" and copy: "copy_ok src n0 s"
  shows "overlap_ok n0 (phase_tick now p s)"
proof -
  have g: "gate_ok (set_phase now p (ft_monitor s))" using ok by (simp add: overlap_ok_def)
  have a: "is_nccl_active (set_phase now p (ft_monitor s)) \<longleftrightarrow> p = NCCL_COMM"
    by (simp add: is_nccl_active_def set_phase_def Let_def)
  have w: "int (length chunk) \<le> chunk_cap n0" if "ft_pc s = Writing chunk" for chunk
    using copy that by (simp add: copy_ok_def)
  show ?thesis
  proof (cases "p = NCCL_COMM \<and> \<not> is_nccl_active (ft_monitor s)")
    case True
    then show ?thesis using g w
      by (cases "ft_pc s") (auto simp: overlap_ok_def phase_tick_def past_gate_def)
  next
    case False
    then show ?thesis using g ok a by (auto simp: overlap_ok_def phase_tick_def)
  qed
qed

lemma copy_ok_phase: "copy_ok src n0 s \<Longrightarrow> copy_ok src n0 (phase_tick now p s)"
  by (cases "ft_pc s") (auto simp: copy_ok_def phase_tick_def)

lemma copy_ok_stop: "copy_ok src n0 s \<Longrightarrow> copy_ok src n0 (s\<lparr>ft_stop := b\<rparr>)"
  by (cases "ft_pc s") (auto simp: copy_ok_def)

lemma ft_reach_copy:
  "ft_reach adaptive has_monitor s0 s \<Longrightarrow> copy_ok src n0 s0 \<Longrightarrow> copy_ok src n0 s"
proof (induction rule: ft_reach.induct)
  case (tick s e)
  then show ?case using copy_ok_tick by blast
next
  case (phase s now p)
  then show ?case using copy_ok_phase by blast
qed (simp_all add: copy_ok_stop)

lemma ft_reach_overlap:
  "ft_reach adaptive True s0 s \<Longrightarrow> copy_ok src n0 s0 \<Longrightarrow> overlap_ok n0 s0 \<Longrightarrow> overlap_ok n0 s"
proof (induction rule: ft_reach.induct)
  case (tick s e)
  with ft_reach_copy show ?case using overlap_ok_tick by blast
next
  case (phase s now p)
  with ft_reach_copy show ?case using overlap_ok_phase by blast
qed (simp_all add: overlap_ok_def)

lemma start_ok:
  assumes "0 < cm_chunk_bytes c" and "gate_ok m"
  shows "copy_ok src (cm_chunk_bytes c) (flush_thread_start src c m)"
    and "overlap_ok (cm_chunk_bytes c) (flush_thread_start src c m)"
  using assms by (simp_all add: copy_ok_def overlap_ok_def flush_thread_start_def flush_start_def chunk_cap_def)

section \<open>An undisturbed iteration\<close>

text \<open>What \<open>flush_iteration\<close> says of one iteration, as a state of the thread.\<close>

fun at_outcome :: "'b flush_outcome \<Rightarrow> 'b flush_thread \<Rightarrow> bool" where
  "at_outcome (Flush_Running l) s \<longleftrightarrow> ft_pc s = At_Top \<and> ft_loop s = l"
| "at_outcome (Flush_Aborted l) s \<longleftrightarrow> ft_pc s = Aborted \<and> ft_loop s = l"
| "at_outcome (Flush_Failed l) s \<longleftrightarrow> ft_pc s = Failed \<and> ft_loop s = l"
| "at_outcome (Flush_Copied l) s \<longleftrightarrow> ft_pc s = Copied \<and> ft_loop s = l"

definition quiet_env :: "phase_monitor \<Rightarrow> tick_env \<Rightarrow> chunk_env" where
  "quiet_env m e =
     \<lparr>ce_monitor = m, ce_failed_waits = of_bool (is_nccl_active m), ce_stop_seen = is_nccl_active m,
      ce_monitor_after = m, ce_gate_ms = tk_gate_ms e, ce_write_ok = tk_write_ok e,
      ce_write_ms = tk_write_ms e\<rparr>"

definition resized :: "bool \<Rightarrow> bool \<Rightarrow> phase_monitor \<Rightarrow> 'b flush_loop \<Rightarrow> 'b flush_loop" where
  "resized adaptive has_monitor m l =
     (if adaptive \<and> has_monitor
      then l\<lparr>fl_chunk_bytes := adaptive_chunk_size m (fl_samples l) (fl_chunk_bytes l)\<rparr> else l)"

definition paced :: "bool \<Rightarrow> chunk_env \<Rightarrow> 'b flush_loop \<Rightarrow> pace" where
  "paced has_monitor env l =
     (if has_monitor then pacing env (fl_chunk_bytes l) (fl_samples l) else Pace_Go 0 0)"

text \<open>The ticks of the pacing block reach what \<open>pacing\<close> decides.\<close>

lemma ticks_pace:
  assumes top: "ft_pc s = At_Top" and m: "gate_ok (ft_monitor s)"
    and stop: "is_nccl_active (ft_monitor s) \<longrightarrow> has_monitor \<and> ft_stop s"
    and l: "l = resized adaptive has_monitor (ft_monitor s) (ft_loop s)"
  shows "\<exists>k. (flush_tick adaptive has_monitor e ^^ k) s =
    (case paced has_monitor (quiet_env (ft_monitor s) e) l of
       Pace_Abort w \<Rightarrow> s\<lparr>ft_pc := Aborted, ft_loop := l\<lparr>fl_waits := fl_waits l + w\<rparr>\<rparr>
     | Pace_Go w d \<Rightarrow> s\<lparr>ft_pc := At_Read, ft_loop := l\<lparr>fl_waits := fl_waits l + w\<rparr>\<rparr>)"
proof (cases has_monitor)
  case False
  then show ?thesis using top l
    by (intro exI [of _ 1]) (simp add: flush_tick_def paced_def resized_def Let_def)
next
  case True
  let ?T = "flush_tick adaptive True e" and ?m = "ft_monitor s"
  let ?rate = "dynamic_rate (estimated_nccl_bps ?m) (fl_samples l) ?m" and ?est = "est_bw (fl_samples l)"
  have pre: "(?T ^^ 3) s = after_rate ?rate (s\<lparr>ft_pc := At_Rate (estimated_nccl_bps ?m), ft_loop := l\<rparr>)"
    using top l True by (cases s) (simp add: flush_tick_def resized_def Let_def eval_nat_numeral)
  have gate: "wait_for_io_allowed False ?m \<longleftrightarrow> \<not> is_nccl_active ?m"
    using m by (auto simp: wait_for_io_allowed_def gate_ok_def is_nccl_active_def)
  consider (hard) "?rate \<le> 0" | (go) "0 < ?rate" by linarith
  then show ?thesis
  proof cases
    case hard
    have "(?T ^^ (if is_nccl_active ?m then 5 else 4)) s =
      (if is_nccl_active ?m then s\<lparr>ft_pc := Aborted, ft_loop := l\<lparr>fl_waits := fl_waits l + 1\<rparr>\<rparr>
       else s\<lparr>ft_pc := At_Read, ft_loop := l\<rparr>)"
    proof -
      have "(?T ^^ 4) s = ?T ((?T ^^ 3) s)" "(?T ^^ 5) s = ?T (?T ((?T ^^ 3) s))"
        by (simp_all add: eval_nat_numeral)
      with hard pre gate stop show ?thesis by (simp add: after_rate_def flush_tick_def Let_def)
    qed
    then show ?thesis using True hard
      by (intro exI [of _ "if is_nccl_active ?m then 5 else 4"])
        (auto simp: paced_def pacing_def quiet_env_def Let_def)
  next
    case go
    then have na: "\<not> is_nccl_active ?m" using dynamic_rate_active by fastforce
    let ?w = "of_int (fl_chunk_bytes l) / max ?rate 1 - of_int (fl_chunk_bytes l) / max ?est 1"
    show ?thesis
    proof (cases "?rate < ?est * (95 / 100) \<and> 0 < ?w")
      case soft: True
      have "(?T ^^ 4) s = ?T ((?T ^^ 3) s)" by (simp add: eval_nat_numeral)
      with soft go pre have "(?T ^^ 4) s = s\<lparr>ft_pc := At_Read, ft_loop := l\<lparr>fl_waits := fl_waits l + 1\<rparr>\<rparr>"
        by (simp add: after_rate_def flush_tick_def Let_def)
      with soft go True show ?thesis
        by (intro exI [of _ 4]) (simp add: paced_def pacing_def quiet_env_def Let_def)
    next
      case full: False
      then have "(?T ^^ 3) s = s\<lparr>ft_pc := At_Read, ft_loop := l\<rparr>"
        using go pre by (auto simp: after_rate_def Let_def)
      with full go True show ?thesis
        by (intro exI [of _ 3]) (auto simp: paced_def pacing_def quiet_env_def Let_def)
    qed
  qed
qed

text \<open>The part of an iteration after the pacing block; the read and the write reach what it says.\<close>

definition copy_outcome :: "bool \<Rightarrow> tick_env \<Rightarrow> 'b flush_loop \<Rightarrow> 'b flush_outcome" where
  "copy_outcome has_monitor e l =
     (let l2 = l\<lparr>fl_block_ms := fl_block_ms l + (if has_monitor then tk_gate_ms e else 0)\<rparr>;
          chunk = py_read (fl_chunk_bytes l2) (fl_rest l2)
      in if chunk = [] then Flush_Copied l2
         else if \<not> tk_write_ok e then Flush_Failed l2
         else let samples = fl_samples l2 @ [(int (length chunk), tk_write_ms e + 1 / 10 ^ 6)]
              in Flush_Running
                   (l2\<lparr>fl_rest := drop (length chunk) (fl_rest l2), fl_written := fl_written l2 @ chunk,
                       fl_write_ms := fl_write_ms l2 + tk_write_ms e,
                       fl_samples := (if 8 < length samples then tl samples else samples)\<rparr>))"

lemma ticks_copy:
  assumes "ft_pc s = At_Read"
  shows "\<exists>k. at_outcome (copy_outcome has_monitor e (ft_loop s)) ((flush_tick adaptive has_monitor e ^^ k) s)"
proof (cases "py_read (fl_chunk_bytes (ft_loop s)) (fl_rest (ft_loop s)) = []")
  case True
  with assms show ?thesis
    by (intro exI [of _ 1]) (simp add: flush_tick_def read_chunk_def copy_outcome_def Let_def)
next
  case False
  with assms show ?thesis
    by (intro exI [of _ 2])
      (simp add: flush_tick_def read_chunk_def end_write_def copy_outcome_def Let_def eval_nat_numeral)
qed

lemma iteration_unfold:
  "flush_iteration adaptive has_monitor (quiet_env m e) l =
     (case paced has_monitor (quiet_env m e) (resized adaptive has_monitor m l) of
        Pace_Abort w \<Rightarrow> Flush_Aborted ((resized adaptive has_monitor m l)
          \<lparr>fl_waits := fl_waits (resized adaptive has_monitor m l) + w\<rparr>)
      | Pace_Go w d \<Rightarrow> copy_outcome has_monitor e ((resized adaptive has_monitor m l)
          \<lparr>fl_waits := fl_waits (resized adaptive has_monitor m l) + w\<rparr>))"
  by (cases has_monitor; cases adaptive)
    (simp_all add: flush_iteration_def resized_def paced_def copy_outcome_def quiet_env_def Let_def
      split: pace.split)

lemma funpow_compose: "P ((f ^^ k) ((f ^^ j) s)) \<Longrightarrow> \<exists>n. P ((f ^^ n) s)"
  by (rule exI [of _ "k + j"]) (simp add: funpow_add)

section \<open>Properties\<close>

text \<open>
  C13: Bounded interference. However the phase changes between the accesses of the flush thread, each
  collective overlaps at most one chunk write, of at most the larger of the configured chunk and
  512 MB: the one in progress when it begins, or the one whose rate had been granted before. The
  bytes written and those left are always the checkpoint, so none is lost or written twice, and a
  loop that ends as copied has written it all.
\<close>

theorem bounded_interference:
  assumes "ft_reach adaptive True (flush_thread_start src c m) s"
    and "0 < cm_chunk_bytes c" and "gate_ok m"
  shows "length (ft_overlap s) \<le> 1 \<and>
    (\<forall>n \<in> set (ft_overlap s). n \<le> max (cm_chunk_bytes c) MAX_CHUNK_BYTES) \<and>
    fl_written (ft_loop s) @ fl_rest (ft_loop s) = src \<and>
    (ft_pc s = Copied \<longrightarrow> fl_written (ft_loop s) = src)"
proof -
  have "copy_ok src (cm_chunk_bytes c) s" "overlap_ok (cm_chunk_bytes c) s"
    using ft_reach_copy [OF assms(1)] ft_reach_overlap [OF assms(1)] start_ok [OF assms(2,3)] by blast+
  then show ?thesis by (auto simp: copy_ok_def overlap_ok_def chunk_cap_def)
qed


section \<open>Witnesses\<close>

definition plain_tick :: tick_env where
  "plain_tick = \<lparr>tk_gate_ms = 0, tk_write_ok = True, tk_write_ms = 1\<rparr>"

definition sample_thread :: "bool flush_thread" where
  "sample_thread = flush_thread_start [True, False] sample_ckpt (phase_monitor_init 0 False)"

theorem bounded_interference_witness:
  "\<exists>s. ft_reach False True sample_thread s \<and> is_nccl_active (ft_monitor s) \<and>
     length (ft_overlap s) \<le> 1 \<and> fl_written (ft_loop s) @ fl_rest (ft_loop s) = [True, False]"
proof -
  let ?s = "flush_tick False True plain_tick (phase_tick 1 NCCL_COMM sample_thread)"
  have r: "ft_reach False True sample_thread ?s" by (intro ft_reach.intros)
  have "0 < cm_chunk_bytes sample_ckpt" "gate_ok (phase_monitor_init 0 False)"
    by (simp_all add: sample_ckpt_def ckpt_init_def)
  from bounded_interference [OF r [unfolded sample_thread_def] this] r show ?thesis
    by (intro exI [of _ ?s])
      (simp add: sample_thread_def flush_tick_def phase_tick_def flush_thread_start_def is_nccl_active_def
        set_phase_def phase_monitor_init_def enter_nccl_def Let_def)
qed


end
