(* ===== verification/LMCache.thy ===== *)
theory LMCache
  imports Network_Monitor
begin

text \<open>
  \<^verbatim>\<open>tempo/lmcache_connector.py\<close> and \<^verbatim>\<open>tempo/vllm_hook.py\<close>: the storage backend
  that absorbs evicted KV blocks and writes them behind, and the patches that route vLLM's and
  SGLang's evictions through it. The wrapped backend and \<open>libtempo\<close> are third-party code:
  their operations are arguments. The soft absorber's worker thread is a program counter and
  one function per step, so that absorbing, the worker and \<open>shutdown\<close> interleave.
\<close>

section \<open>Configuration and library\<close>

record tempo_config =
  tc_rate_gbps :: real
  tc_burst_mb :: int
  tc_ffn_wait_us :: int
  tc_strict_gate :: bool
  tc_staging_dir :: string
  tc_lustre_dir :: string
  tc_verbose :: bool

text \<open>\<open>exists\<close> is \<open>os.path.exists\<close>, \<open>load\<close> what \<open>ctypes.CDLL\<close> gives.\<close>

fun load_libtempo :: "(string \<Rightarrow> bool) \<Rightarrow> (string \<Rightarrow> 'l option) \<Rightarrow> string list \<Rightarrow> 'l option" where
  "load_libtempo exists load [] = None"
| "load_libtempo exists load (path # paths) =
     (if path \<noteq> [] \<and> exists path
      then (case load path of Some lib \<Rightarrow> Some lib | None \<Rightarrow> load_libtempo exists load paths)
      else load_libtempo exists load paths)"

section \<open>Soft absorber\<close>

record ('k, 'b, 's) backing_ops =
  bo_put :: "'k \<Rightarrow> 'b list \<Rightarrow> 's \<Rightarrow> 's"
  bo_get :: "'k \<Rightarrow> 's \<Rightarrow> 'b list option"
  bo_contains :: "'k \<Rightarrow> 's \<Rightarrow> bool"
  bo_delete :: "'k \<Rightarrow> 's \<Rightarrow> 's"

text \<open>
  Where the worker is: at the loop head, waiting for an item, writing one, or ended (by leaving
  the loop or by an exception). Its local variables \<open>tokens\<close> and \<open>last_t\<close> are fields.
\<close>

datatype ('k, 'b) worker_pc = Loop_Head | Waiting | Writing 'k "'b list" | Ended

record ('k, 'b) soft_absorber =
  sa_rate_bps :: real
  sa_burst_b :: real
  sa_queue :: "('k \<times> 'b list) list"
  sa_stop :: bool
  sa_pc :: "('k, 'b) worker_pc"
  sa_tokens :: real
  sa_last_t :: real

definition soft_init :: "tempo_config \<Rightarrow> real \<Rightarrow> ('k, 'b) soft_absorber" where
  "soft_init cfg now =
     \<lparr>sa_rate_bps = tc_rate_gbps cfg * 10 ^ 9, sa_burst_b = of_int (tc_burst_mb cfg * 1024 * 1024),
      sa_queue = [], sa_stop = False, sa_pc = Loop_Head,
      sa_tokens = of_int (tc_burst_mb cfg * 1024 * 1024), sa_last_t = now\<rparr>"

definition soft_absorb :: "'k \<Rightarrow> 'b list \<Rightarrow> ('k, 'b) soft_absorber \<Rightarrow> ('k, 'b) soft_absorber" where
  "soft_absorb key tensor a = a\<lparr>sa_queue := sa_queue a @ [(key, tensor)]\<rparr>"

definition soft_loop_head :: "('k, 'b) soft_absorber \<Rightarrow> ('k, 'b) soft_absorber" where
  "soft_loop_head a = a\<lparr>sa_pc := (if sa_stop a then Ended else Waiting)\<rparr>"

definition soft_take :: "('k, 'b) soft_absorber \<Rightarrow> ('k, 'b) soft_absorber" where
  "soft_take a =
     (case sa_queue a of
        [] \<Rightarrow> if sa_stop a then a\<lparr>sa_pc := Ended\<rparr> else a
      | (key, tensor) # rest \<Rightarrow> a\<lparr>sa_queue := rest, sa_pc := Writing key tensor\<rparr>)"

text \<open>
  The pacing of one item: the time read at the refill and the one read after the sleep. The
  tokens left, the time stored as \<open>last_t\<close> and the seconds slept.
\<close>

definition soft_pace ::
    "real \<Rightarrow> real \<Rightarrow> real \<Rightarrow> real \<Rightarrow> real \<Rightarrow> real \<times> real \<Rightarrow> (real \<times> real \<times> real) result" where
  "soft_pace rate burst now now' n_bytes st =
     (case st of (tokens, last_t) \<Rightarrow>
        let tokens1 = min (tokens + (now - last_t) * rate) burst in
        if tokens1 < n_bytes
        then (if rate = 0 then Inl ZeroDivisionError
              else if n_bytes / rate < 0 then Inl ValueError
              else Inr (min (tokens1 + (now' - now) * rate) burst - n_bytes, now, n_bytes / rate))
        else Inr (tokens1 - n_bytes, now, 0))"

text \<open>An exception ends the thread, and the item it held is gone.\<close>

definition soft_write ::
    "('k, 'b, 's) backing_ops \<Rightarrow> real \<Rightarrow> real \<Rightarrow> ('k, 'b) soft_absorber \<times> 's \<Rightarrow> ('k, 'b) soft_absorber \<times> 's" where
  "soft_write ops now now' st =
     (case st of (a, backing) \<Rightarrow>
        case sa_pc a of
          Writing key tensor \<Rightarrow>
            (case soft_pace (sa_rate_bps a) (sa_burst_b a) now now' (real (length tensor))
                    (sa_tokens a, sa_last_t a) of
               Inl e \<Rightarrow> (a\<lparr>sa_pc := Ended\<rparr>, backing)
             | Inr (tokens, last_t, slept) \<Rightarrow>
                 (a\<lparr>sa_tokens := tokens, sa_last_t := last_t, sa_pc := Loop_Head\<rparr>,
                  bo_put ops key tensor backing))
        | _ \<Rightarrow> (a, backing))"

definition soft_shutdown :: "('k, 'b) soft_absorber \<Rightarrow> ('k, 'b) soft_absorber" where
  "soft_shutdown a = a\<lparr>sa_stop := True\<rparr>"

section \<open>Storage backend\<close>

text \<open>
  \<open>lib_absorb\<close> is \<open>tempo_absorb\<close> of the C library with its return value, \<open>py_hash\<close> Python's
  \<open>hash\<close>; the calls made to the library are recorded.
\<close>

record ('k, 'b, 's) storage_backend =
  sb_using_c :: bool
  sb_absorber :: "('k, 'b) soft_absorber"
  sb_backing :: 's
  sb_lib_calls :: "(64 word \<times> 'b list) list"

definition init_c_absorber :: "tempo_config \<Rightarrow> (int \<Rightarrow> int \<Rightarrow> int \<Rightarrow> int) \<Rightarrow> int result" where
  "init_c_absorber cfg create_engine =
     (let handle = create_engine (py_int (tc_rate_gbps cfg * 10 ^ 9)) (tc_burst_mb cfg * 1024 * 1024)
                     (tc_ffn_wait_us cfg)
      in if handle = 0 then Inl RuntimeError else Inr handle)"

definition storage_init ::
    "(int \<Rightarrow> int \<Rightarrow> int \<Rightarrow> int) option \<Rightarrow> tempo_config \<Rightarrow> real \<Rightarrow> 's
     \<Rightarrow> ('k, 'b, 's) storage_backend result" where
  "storage_init lib cfg now backing =
     (let b = \<lparr>sb_using_c = (lib \<noteq> None), sb_absorber = soft_init cfg now, sb_backing = backing,
               sb_lib_calls = []\<rparr>
      in case lib of
           None \<Rightarrow> Inr b
         | Some create \<Rightarrow> (case init_c_absorber cfg create of Inl e \<Rightarrow> Inl e | Inr handle \<Rightarrow> Inr b))"

definition block_id :: "('k \<Rightarrow> int) \<Rightarrow> 'k \<Rightarrow> 64 word" where
  "block_id py_hash key = word_of_int (py_hash key)"

definition c_absorb ::
    "('k, 'b, 's) backing_ops \<Rightarrow> ('k \<Rightarrow> int) \<Rightarrow> (64 word \<Rightarrow> 'b list \<Rightarrow> int) \<Rightarrow> 'k \<Rightarrow> 'b list
     \<Rightarrow> ('k, 'b, 's) storage_backend \<Rightarrow> ('k, 'b, 's) storage_backend" where
  "c_absorb ops py_hash lib_absorb key tensor b =
     (let bid = block_id py_hash key;
          b1 = b\<lparr>sb_lib_calls := sb_lib_calls b @ [(bid, tensor)]\<rparr>
      in if lib_absorb bid tensor = 0 then b1\<lparr>sb_backing := bo_put ops key tensor (sb_backing b1)\<rparr>
         else b1)"

definition sb_put ::
    "('k, 'b, 's) backing_ops \<Rightarrow> ('k \<Rightarrow> int) \<Rightarrow> (64 word \<Rightarrow> 'b list \<Rightarrow> int) \<Rightarrow> 'k \<Rightarrow> 'b list
     \<Rightarrow> ('k, 'b, 's) storage_backend \<Rightarrow> ('k, 'b, 's) storage_backend" where
  "sb_put ops py_hash lib_absorb key tensor b =
     (if sb_using_c b then c_absorb ops py_hash lib_absorb key tensor b
      else b\<lparr>sb_absorber := soft_absorb key tensor (sb_absorber b)\<rparr>)"

definition sb_get :: "('k, 'b, 's) backing_ops \<Rightarrow> 'k \<Rightarrow> ('k, 'b, 's) storage_backend \<Rightarrow> 'b list option" where
  "sb_get ops key b = bo_get ops key (sb_backing b)"

definition sb_contains :: "('k, 'b, 's) backing_ops \<Rightarrow> 'k \<Rightarrow> ('k, 'b, 's) storage_backend \<Rightarrow> bool" where
  "sb_contains ops key b = bo_contains ops key (sb_backing b)"

definition sb_delete ::
    "('k, 'b, 's) backing_ops \<Rightarrow> 'k \<Rightarrow> ('k, 'b, 's) storage_backend \<Rightarrow> ('k, 'b, 's) storage_backend" where
  "sb_delete ops key b = b\<lparr>sb_backing := bo_delete ops key (sb_backing b)\<rparr>"

definition sb_close :: "('k, 'b, 's) storage_backend \<Rightarrow> ('k, 'b, 's) storage_backend" where
  "sb_close b = (if sb_using_c b then b else b\<lparr>sb_absorber := soft_shutdown (sb_absorber b)\<rparr>)"

text \<open>One step of the worker thread on the backend.\<close>

definition sb_worker ::
    "('k, 'b, 's) backing_ops \<Rightarrow> real \<Rightarrow> real \<Rightarrow> ('k, 'b, 's) storage_backend \<Rightarrow> ('k, 'b, 's) storage_backend" where
  "sb_worker ops now now' b =
     (case sa_pc (sb_absorber b) of
        Loop_Head \<Rightarrow> b\<lparr>sb_absorber := soft_loop_head (sb_absorber b)\<rparr>
      | Waiting \<Rightarrow> b\<lparr>sb_absorber := soft_take (sb_absorber b)\<rparr>
      | Writing key tensor \<Rightarrow>
          (let (a, backing) = soft_write ops now now' (sb_absorber b, sb_backing b)
           in b\<lparr>sb_absorber := a, sb_backing := backing\<rparr>)
      | Ended \<Rightarrow> b)"

section \<open>The vLLM and SGLang patches\<close>

text \<open>
  A connector object: its attributes \<open>_tempo_backend\<close>, \<open>backend\<close> and \<open>store\<close>; with each of
  the last two whether the object is truthy. \<open>None\<close> is a missing attribute or the value \<open>None\<close>. Once the patch has wrapped the
  object, its state is the one inside \<open>cn_tempo_backend\<close>.
\<close>

record ('k, 'b, 's) connector =
  cn_tempo_backend :: "('k, 'b, 's) storage_backend option"
  cn_backend :: "('s \<times> bool) option"
  cn_store :: "('s \<times> bool) option"
  cn_original_puts :: "('k \<times> 'b list) list"

definition find_backing :: "('k, 'b, 's) connector \<Rightarrow> 's option" where
  "find_backing c =
     (case cn_backend c of
        Some (s, True) \<Rightarrow> Some s
      | _ \<Rightarrow> map_option fst (cn_store c))"

text \<open>The class attribute \<open>store_kv_cache\<close>: the original, or the patch around what it was.\<close>

datatype store_method = Original_Store | Tempo_Store tempo_config store_method

text \<open>\<open>put\<close> is \<open>sb_put\<close> with the library's arguments, \<open>now\<close> the time the worker starts.\<close>

fun store_kv_cache ::
    "(int \<Rightarrow> int \<Rightarrow> int \<Rightarrow> int) option
     \<Rightarrow> ('k \<Rightarrow> 'b list \<Rightarrow> ('k, 'b, 's) storage_backend \<Rightarrow> ('k, 'b, 's) storage_backend)
     \<Rightarrow> real \<Rightarrow> store_method \<Rightarrow> 'k \<Rightarrow> 'b list \<Rightarrow> ('k, 'b, 's) connector
     \<Rightarrow> unit result \<times> ('k, 'b, 's) connector" where
  "store_kv_cache lib put now Original_Store key tensor c =
     (Inr (), c\<lparr>cn_original_puts := cn_original_puts c @ [(key, tensor)]\<rparr>)"
| "store_kv_cache lib put now (Tempo_Store cfg original) key tensor c =
     (case cn_tempo_backend c of
        Some b \<Rightarrow> (Inr (), c\<lparr>cn_tempo_backend := Some (put key tensor b)\<rparr>)
      | None \<Rightarrow>
          (case find_backing c of
             None \<Rightarrow> store_kv_cache lib put now original key tensor c
           | Some backing \<Rightarrow>
               (case storage_init lib cfg now backing of
                  Inl e \<Rightarrow> (Inl e, c)
                | Inr b \<Rightarrow> (Inr (), c\<lparr>cn_tempo_backend := Some (put key tensor b)\<rparr>))))"

text \<open>
  \<open>modules\<close> imports a module: its attributes. The connector class is found with its current
  method; \<open>None\<close> in the result is no class. A class without the method raises.
\<close>

definition find_connector ::
    "(string \<Rightarrow> (string \<Rightarrow> store_method option option) option) \<Rightarrow> store_method option option" where
  "find_connector modules =
     (case first_some [modules ''lmcache.integration.vllm.lmcache_connector'',
                       modules ''lmcache.vllm_v1.connector''] of
        None \<Rightarrow> None
      | Some attr \<Rightarrow>
          first_some [attr ''LMCacheConnector'', attr ''VLLMLMCacheConnector'', attr ''CacheConnector''])"

definition install ::
    "tempo_config \<Rightarrow> (string \<Rightarrow> (string \<Rightarrow> store_method option option) option)
     \<Rightarrow> (bool \<times> store_method option) result" where
  "install cfg modules =
     (case find_connector modules of
        None \<Rightarrow> Inr (False, None)
      | Some None \<Rightarrow> Inl AttributeError
      | Some (Some original_put) \<Rightarrow> Inr (True, Some (Tempo_Store cfg original_put)))"

text \<open>
  The patched \<open>evict\<close> of SGLang: \<open>result\<close> is what the original returned, a pair or a
  tensor alone, whose key is its identity.
\<close>

datatype ('k, 'b) evicted = Evicted_None | Evicted_Pair 'k "'b list" | Evicted_Tensor "'b list"

definition tempo_evict ::
    "('k \<Rightarrow> 'b list \<Rightarrow> ('k, 'b, 's) storage_backend \<Rightarrow> ('k, 'b, 's) storage_backend)
     \<Rightarrow> ('b list \<Rightarrow> 'k) \<Rightarrow> ('k, 'b) evicted \<Rightarrow> ('k, 'b, 's) storage_backend option
     \<Rightarrow> ('k, 'b) evicted \<times> ('k, 'b, 's) storage_backend option" where
  "tempo_evict put py_id result tempo_backend =
     (result,
      case (tempo_backend, result) of
        (Some b, Evicted_Pair key tensor) \<Rightarrow> Some (put key tensor b)
      | (Some b, Evicted_Tensor tensor) \<Rightarrow> Some (put (py_id tensor) tensor b)
      | _ \<Rightarrow> tempo_backend)"

text \<open>
  \<open>install_sglang\<close> wraps the method the class has; a class without \<open>evict\<close> is left alone. A call of
  the method runs the original and then every wrapper around it, and all of them share the
  backend attribute of the object.
\<close>

datatype evict_method = Original_Evict | Tempo_Evict tempo_config evict_method

definition install_sglang ::
    "tempo_config \<Rightarrow> (string \<Rightarrow> (string \<Rightarrow> evict_method option option) option) \<Rightarrow> bool \<times> evict_method option" where
  "install_sglang cfg modules =
     (case modules ''sglang.srt.mem_pool'' of
        None \<Rightarrow> (False, None)
      | Some attr \<Rightarrow>
          (case attr ''KVCache'' of
             None \<Rightarrow> (False, None)
           | Some None \<Rightarrow> (False, None)
           | Some (Some original_evict) \<Rightarrow> (True, Some (Tempo_Evict cfg original_evict))))"

fun call_evict ::
    "('k \<Rightarrow> 'b list \<Rightarrow> ('k, 'b, 's) storage_backend \<Rightarrow> ('k, 'b, 's) storage_backend)
     \<Rightarrow> ('b list \<Rightarrow> 'k) \<Rightarrow> ('k, 'b) evicted \<Rightarrow> evict_method \<Rightarrow> ('k, 'b, 's) storage_backend option
     \<Rightarrow> ('k, 'b) evicted \<times> ('k, 'b, 's) storage_backend option" where
  "call_evict put py_id evicts Original_Evict tempo_backend = (evicts, tempo_backend)"
| "call_evict put py_id evicts (Tempo_Evict cfg original_evict) tempo_backend =
     (case call_evict put py_id evicts original_evict tempo_backend of
        (result, b) \<Rightarrow> tempo_evict put py_id result b)"

definition install_tempo_in_vllm ::
    "'e \<Rightarrow> tempo_config \<Rightarrow> (string \<Rightarrow> (string \<Rightarrow> store_method option option) option)
     \<Rightarrow> ('e \<times> store_method option) result" where
  "install_tempo_in_vllm engine cfg modules =
     (case install cfg modules of Inl e \<Rightarrow> Inl e | Inr (patched, m) \<Rightarrow> Inr (engine, m))"

lemma tempo_evict_result: "fst (tempo_evict put py_id result b) = result"
  by (simp add: tempo_evict_def)

lemma call_evict_result [simp]: "fst (call_evict put py_id evicts m b) = evicts"
  by (induction m) (simp_all add: tempo_evict_result split_beta)

text \<open>
  Without the backend attribute the patched method changes nothing; installed twice, each evicted
  block is put twice.
\<close>

lemma evict_without_backend: "call_evict put py_id evicts m None = (evicts, None)"
  by (induction m) (simp_all add: tempo_evict_def)

lemma evict_installed_twice:
  "call_evict put py_id (Evicted_Pair key tensor) (Tempo_Evict cfg' (Tempo_Evict cfg Original_Evict)) (Some b)
     = (Evicted_Pair key tensor, Some (put key tensor (put key tensor b)))"
  by (simp add: tempo_evict_def)

section \<open>Order of delivery\<close>

definition in_hand :: "('k, 'b) soft_absorber \<Rightarrow> ('k \<times> 'b list) list" where
  "in_hand a = (case sa_pc a of Writing key tensor \<Rightarrow> [(key, tensor)] | _ \<Rightarrow> [])"

text \<open>What a worker step delivers: the item it holds, unless the pacing raises.\<close>

definition delivers :: "real \<Rightarrow> real \<Rightarrow> ('k, 'b) soft_absorber \<Rightarrow> ('k \<times> 'b list) list" where
  "delivers now now' a =
     (case sa_pc a of
        Writing key tensor \<Rightarrow>
          (case soft_pace (sa_rate_bps a) (sa_burst_b a) now now' (real (length tensor))
                  (sa_tokens a, sa_last_t a) of Inl e \<Rightarrow> [] | Inr _ \<Rightarrow> [(key, tensor)])
      | _ \<Rightarrow> [])"

text \<open>
  Histories of a soft backend: the items put so far and the items written to the wrapped backend
  so far. Puts, worker steps and \<open>close\<close> come in any order.
\<close>

inductive soft_reach ::
    "('k, 'b, 's) backing_ops \<Rightarrow> tempo_config \<Rightarrow> 's \<Rightarrow> ('k, 'b, 's) storage_backend
     \<Rightarrow> ('k \<times> 'b list) list \<Rightarrow> ('k \<times> 'b list) list \<Rightarrow> bool"
  for ops cfg s0 where
  init: "storage_init None cfg now s0 = Inr b \<Longrightarrow> soft_reach ops cfg s0 b [] []"
| put: "soft_reach ops cfg s0 b enq del \<Longrightarrow>
    soft_reach ops cfg s0 (sb_put ops h l key tensor b) (enq @ [(key, tensor)]) del"
| work: "soft_reach ops cfg s0 b enq del \<Longrightarrow>
    soft_reach ops cfg s0 (sb_worker ops now now' b) enq (del @ delivers now now' (sb_absorber b))"
| close: "soft_reach ops cfg s0 b enq del \<Longrightarrow> soft_reach ops cfg s0 (sb_close b) enq del"

definition put_all :: "('k, 'b, 's) backing_ops \<Rightarrow> ('k \<times> 'b list) list \<Rightarrow> 's \<Rightarrow> 's" where
  "put_all ops items s = fold (\<lambda>(key, tensor). bo_put ops key tensor) items s"

definition soft_ok ::
    "('k, 'b, 's) backing_ops \<Rightarrow> tempo_config \<Rightarrow> 's \<Rightarrow> ('k, 'b, 's) storage_backend
     \<Rightarrow> ('k \<times> 'b list) list \<Rightarrow> ('k \<times> 'b list) list \<Rightarrow> bool" where
  "soft_ok ops cfg s0 b enq del \<longleftrightarrow> \<not> sb_using_c b \<and>
     sa_rate_bps (sb_absorber b) = tc_rate_gbps cfg * 10 ^ 9 \<and>
     enq = del @ in_hand (sb_absorber b) @ sa_queue (sb_absorber b) \<and>
     sb_backing b = put_all ops del s0 \<and>
     (sa_pc (sb_absorber b) = Ended \<longrightarrow> sa_stop (sb_absorber b))"

lemma soft_pace_returns: "0 < rate \<Longrightarrow> 0 \<le> n \<Longrightarrow> \<exists>x. soft_pace rate burst now now' n st = Inr x"
  by (cases st) (simp add: soft_pace_def Let_def divide_less_0_iff)

lemma soft_ok_work:
  assumes "soft_ok ops cfg s0 b enq del" and "0 < tc_rate_gbps cfg"
  shows "soft_ok ops cfg s0 (sb_worker ops now now' b) enq (del @ delivers now now' (sb_absorber b))"
proof (cases "sa_pc (sb_absorber b)")
  case (Writing key tensor)
  let ?a = "sb_absorber b"
  have "0 < sa_rate_bps ?a" using assms by (simp add: soft_ok_def)
  with soft_pace_returns obtain tokens last_t slept where
    "soft_pace (sa_rate_bps ?a) (sa_burst_b ?a) now now' (real (length tensor)) (sa_tokens ?a, sa_last_t ?a)
       = Inr (tokens, last_t, slept)"
    by (metis of_nat_0_le_iff surj_pair)
  with assms Writing show ?thesis
    by (simp add: soft_ok_def sb_worker_def soft_write_def delivers_def in_hand_def put_all_def)
next
  case Waiting
  with assms show ?thesis
    by (auto simp: soft_ok_def sb_worker_def soft_take_def delivers_def in_hand_def split: list.split)
qed (use assms in \<open>auto simp: soft_ok_def sb_worker_def soft_loop_head_def delivers_def in_hand_def\<close>)

lemma soft_reach_ok:
  assumes "soft_reach ops cfg s0 b enq del" and "0 < tc_rate_gbps cfg"
  shows "soft_ok ops cfg s0 b enq del"
  using assms(1)
proof (induction rule: soft_reach.induct)
  case (init now b)
  then show ?case
    by (auto simp: storage_init_def soft_init_def soft_ok_def in_hand_def put_all_def)
next
  case (put b enq del h l key tensor)
  then show ?case by (auto simp: soft_ok_def sb_put_def soft_absorb_def in_hand_def)
next
  case (work b enq del now now')
  then show ?case by (simp add: soft_ok_work assms(2))
next
  case (close b enq del)
  then show ?case by (auto simp: soft_ok_def sb_close_def soft_shutdown_def in_hand_def)
qed

section \<open>Pacing\<close>

text \<open>A run of items: the two times and the size of each.\<close>

fun soft_paces :: "real \<Rightarrow> real \<Rightarrow> (real \<times> real \<times> real) list \<Rightarrow> real \<times> real \<Rightarrow> (real \<times> real) option" where
  "soft_paces rate burst [] st = Some st"
| "soft_paces rate burst ((now, now', n) # items) st =
     (case soft_pace rate burst now now' n st of
        Inl e \<Rightarrow> None
      | Inr (tokens, last_t, slept) \<Rightarrow> soft_paces rate burst items (tokens, last_t))"

text \<open>
  The clock never goes back, a sleep lasts at least as long as asked, and no item is larger than
  \<open>M\<close>; \<open>t\<close> is the time the last item was written.
\<close>

fun soft_clock :: "real \<Rightarrow> real \<Rightarrow> real \<Rightarrow> real \<Rightarrow> (real \<times> real \<times> real) list \<Rightarrow> real \<times> real \<Rightarrow> bool" where
  "soft_clock rate burst M t [] st \<longleftrightarrow> True"
| "soft_clock rate burst M t ((now, now', n) # items) st \<longleftrightarrow>
     t \<le> now \<and> now \<le> now' \<and> 0 \<le> n \<and> n \<le> M \<and>
     (case soft_pace rate burst now now' n st of
        Inl e \<Rightarrow> False
      | Inr (tokens, last_t, slept) \<Rightarrow>
          now + slept \<le> now' \<and> soft_clock rate burst M now' items (tokens, last_t))"

fun end_time :: "real \<Rightarrow> (real \<times> real \<times> real) list \<Rightarrow> real" where
  "end_time t [] = t"
| "end_time t ((now, now', n) # items) = end_time now' items"

lemma soft_pace_step:
  assumes "soft_pace rate burst now now' n (tokens, last_t) = Inr (tokens', last_t', slept)"
    and "0 < rate" and "last_t \<le> now" and "now \<le> now'" and "now + slept \<le> now'" and "0 \<le> n" and "n \<le> M"
    and "min 0 (burst - M) \<le> tokens" and "tokens \<le> burst"
  shows "last_t' = now" and "tokens' + n \<le> tokens + rate * ((now - last_t) + (now' - now))"
    and "min 0 (burst - M) \<le> tokens'" and "tokens' \<le> burst"
proof -
  let ?t1 = "min (tokens + (now - last_t) * rate) burst"
  have up: "0 \<le> (now - last_t) * rate" "0 \<le> (now' - now) * rate" using assms(2-4) by simp_all
  from assms(1) have "last_t' = now \<and> tokens' + n \<le> tokens + rate * ((now - last_t) + (now' - now)) \<and>
      min 0 (burst - M) \<le> tokens' \<and> tokens' \<le> burst"
  proof (cases "?t1 < n")
    case True
    with assms(1,2) have r: "tokens' = min (?t1 + (now' - now) * rate) burst - n" "last_t' = now"
        "slept = n / rate"
      by (auto simp: soft_pace_def Let_def split: if_splits)
    have "n \<le> (now' - now) * rate" using assms(2,5) r(3) by (simp add: field_simps)
    then have "min ?t1 (burst - n) \<le> tokens'" using r(1) by linarith
    moreover have "min 0 (burst - M) \<le> ?t1" using assms(8,9) up(1) by linarith
    ultimately have "min 0 (burst - M) \<le> tokens'" using assms(7) by linarith
    moreover have "tokens' + n \<le> tokens + ((now - last_t) * rate + (now' - now) * rate)"
      using r(1) by linarith
    ultimately show ?thesis using r assms(6) by (auto simp: algebra_simps)
  next
    case False
    with assms(1) have r: "tokens' = ?t1 - n" "last_t' = now"
      by (auto simp: soft_pace_def Let_def)
    have "tokens' + n \<le> tokens + (now - last_t) * rate" using r by linarith
    then have "tokens' + n \<le> tokens + ((now - last_t) * rate + (now' - now) * rate)" using up by linarith
    then show ?thesis using r False assms(6) by (auto simp: algebra_simps)
  qed
  then show "last_t' = now" and "tokens' + n \<le> tokens + rate * ((now - last_t) + (now' - now))"
    and "min 0 (burst - M) \<le> tokens'" and "tokens' \<le> burst" by simp_all
qed

lemma soft_paces_bound:
  assumes "soft_clock rate burst M t items (tokens, last_t)" and "0 < rate" and "last_t \<le> t"
    and "min 0 (burst - M) \<le> tokens" and "tokens \<le> burst"
  shows "(\<Sum>(now, now', n) \<leftarrow> items. n) + min 0 (burst - M)
           \<le> tokens + rate * ((end_time t items - last_t) + (end_time t items - t))"
  using assms
proof (induction items arbitrary: t tokens last_t)
  case Nil
  have "0 \<le> rate * (t - last_t)" using Nil.prems by simp
  with Nil.prems(4) have "min 0 (burst - M) \<le> tokens + rate * (t - last_t)" by linarith
  then show ?case by simp
next
  case (Cons item items)
  obtain now now' n where item: "item = (now, now', n)" by (cases item)
  from Cons.prems(1) item obtain tokens' last_t' slept where
    p: "soft_pace rate burst now now' n (tokens, last_t) = Inr (tokens', last_t', slept)"
    and c: "t \<le> now" "now \<le> now'" "0 \<le> n" "n \<le> M" "now + slept \<le> now'"
      "soft_clock rate burst M now' items (tokens', last_t')"
    by (auto split: sum.splits)
  have "last_t \<le> now" using Cons.prems(3) c(1) by simp
  note s = soft_pace_step [OF p Cons.prems(2) this c(2,5,3,4) Cons.prems(4,5)]
  let ?e = "end_time now' items"
  have "(\<Sum>(now, now', n) \<leftarrow> items. n) + min 0 (burst - M)
      \<le> tokens' + rate * ((?e - now) + (?e - now'))"
    using Cons.IH [OF c(6) Cons.prems(2) _ s(3,4)] c(2) s(1) by simp
  moreover have "0 \<le> rate * (now - t)" using Cons.prems(2) c(1) by simp
  ultimately show ?case using s(2) item by (simp add: algebra_simps)
qed

section \<open>Properties\<close>


text \<open>
  The bandwidth of the soft absorber. Over any run of items, none larger than \<open>M\<close>, from a
  full bucket at time \<open>t\<close>, with a clock that never goes back and sleeps that last as long as
  asked, the bytes written are at most the larger of the burst and \<open>M\<close> plus twice
  the rate times the elapsed time: the time slept is credited again at the next refill.
\<close>

lemma soft_pacing_bound:
  assumes "0 < rate" and "soft_clock rate burst M t items (burst, t)" and "0 \<le> burst"
  shows "(\<Sum>(now, now', n) \<leftarrow> items. n) \<le> max burst M + 2 * rate * (end_time t items - t)"
proof (cases "M \<le> burst")
  case True
  with soft_paces_bound [OF assms(2,1)] assms(3) show ?thesis by (simp add: algebra_simps)
next
  case False
  with soft_paces_bound [OF assms(2,1)] assms(3) show ?thesis by (simp add: algebra_simps min_def)
qed

text \<open>At rate 1, after the burst, two items of size 1 are written in every second.\<close>

definition double_rate_items :: "(real \<times> real \<times> real) list" where
  "double_rate_items = [(0, 0, 1), (0, 1, 1), (1, 1, 1), (1, 2, 1), (2, 2, 1), (2, 3, 1)]"

lemma double_rate_clock: "soft_clock 1 1 1 0 double_rate_items (1, 0)"
  by (simp add: double_rate_items_def soft_pace_def)

definition list_ops :: "(nat, bool, (nat \<times> bool list) list) backing_ops" where
  "list_ops = \<lparr>bo_put = (\<lambda>key tensor s. AList.update key tensor s), bo_get = (\<lambda>key s. map_of s key),
     bo_contains = (\<lambda>key s. map_of s key \<noteq> None), bo_delete = AList.delete\<rparr>"

definition sample_config :: tempo_config where
  "sample_config = \<lparr>tc_rate_gbps = 5, tc_burst_mb = 256, tc_ffn_wait_us = 200, tc_strict_gate = True,
     tc_staging_dir = ''/tmp/tempo'', tc_lustre_dir = ''/tmp/tempo_kvcache'', tc_verbose = False\<rparr>"


end
