(* ===== verification/Trace_Loader.thy ===== *)
theory Trace_Loader
  imports Prelude
begin

text \<open>
  \<^verbatim>\<open>tempo/trace_loader.py\<close>: loading of serving traces (BurstGPT CSV, ShareGPT
  JSON, a calibrated synthetic one) and their statistics. What \<open>csv\<close> and \<open>json\<close> read is the
  argument: the field names and rows, the list of entries. \<open>float\<close>, \<open>int\<close> and
  \<open>datetime.fromisoformat\<close> on strings are functions that give \<open>None\<close> where Python raises
  \<open>ValueError\<close>, and NumPy's random draws are lists. A written CSV file is its field names and the
  rows that reading it gives.
\<close>

section \<open>Data\<close>

record trace_params =
  tp_iat_pareto_alpha :: real
  tp_iat_pareto_xmin :: real
  tp_input_lognorm_mu :: real
  tp_input_lognorm_sigma :: real
  tp_output_lognorm_mu :: real
  tp_output_lognorm_sigma :: real
  tp_burst_cv :: real
  tp_peak_rps :: int

definition BURSTGPT_GPT35 :: trace_params where
  "BURSTGPT_GPT35 = \<lparr>tp_iat_pareto_alpha = 12 / 10, tp_iat_pareto_xmin = 4 / 100,
     tp_input_lognorm_mu = 64 / 10, tp_input_lognorm_sigma = 11 / 10,
     tp_output_lognorm_mu = 53 / 10, tp_output_lognorm_sigma = 14 / 10,
     tp_burst_cv = 48 / 10, tp_peak_rps = 312\<rparr>"

definition BURSTGPT_GPT4 :: trace_params where
  "BURSTGPT_GPT4 = \<lparr>tp_iat_pareto_alpha = 14 / 10, tp_iat_pareto_xmin = 12 / 100,
     tp_input_lognorm_mu = 68 / 10, tp_input_lognorm_sigma = 1,
     tp_output_lognorm_mu = 49 / 10, tp_output_lognorm_sigma = 13 / 10,
     tp_burst_cv = 39 / 10, tp_peak_rps = 47\<rparr>"

record request =
  rq_id :: int
  rq_arrival_s :: real
  rq_input_tokens :: int
  rq_output_tokens :: int
  rq_model :: "string option"
  rq_ttft_ms :: real
  rq_tpot_ms :: real
  rq_e2e_ms :: real
  rq_slo_met :: bool

definition make_request :: "int \<Rightarrow> real \<Rightarrow> int \<Rightarrow> int \<Rightarrow> string option \<Rightarrow> request" where
  "make_request rid arrival input_tok output_tok model =
     \<lparr>rq_id = rid, rq_arrival_s = arrival, rq_input_tokens = max 1 input_tok,
      rq_output_tokens = max 1 output_tok, rq_model = model, rq_ttft_ms = 0, rq_tpot_ms = 0,
      rq_e2e_ms = 0, rq_slo_met = True\<rparr>"

section \<open>Strings\<close>

definition to_lower :: "string \<Rightarrow> string" where
  "to_lower s = map (\<lambda>c. let k = of_char c :: nat in
     if 65 \<le> k \<and> k \<le> 90 then char_of (k + 32) else c) s"

definition is_space :: "char \<Rightarrow> bool" where
  "is_space c \<longleftrightarrow> (let k = of_char c :: nat in
     9 \<le> k \<and> k \<le> 13 \<or> 28 \<le> k \<and> k \<le> 32 \<or> k = 133 \<or> k = 160)"

text \<open>\<open>len(s.split())\<close>: the flag says whether the last character belongs to a word.\<close>

fun count_words :: "bool \<Rightarrow> string \<Rightarrow> nat" where
  "count_words in_word [] = 0"
| "count_words in_word (c # cs) =
     (if is_space c then count_words False cs
      else (if in_word then 0 else 1) + count_words True cs)"

section \<open>BurstGPT\<close>

record str_parsers =
  ps_float :: "string \<Rightarrow> real option"
  ps_iso :: "string \<Rightarrow> real option"
  ps_int :: "string \<Rightarrow> int option"

definition has_word :: "string \<Rightarrow> string \<Rightarrow> bool" where
  "has_word w c \<longleftrightarrow> sublist w (to_lower c)"

record csv_cols =
  cc_ts :: string
  cc_id :: "string option"
  cc_in :: string
  cc_out :: string
  cc_model :: "string option"

text \<open>An empty field name counts as missing where the code tests \<open>not ts_col\<close>.\<close>

definition find_cols :: "string list \<Rightarrow> csv_cols result" where
  "find_cols cols =
     (let pick = (\<lambda>p. List.find p cols); present = (\<lambda>col. case col of None \<Rightarrow> None
                     | Some c \<Rightarrow> if c = [] then None else Some c)
      in case (present (pick (has_word ''time'')),
               present (pick (\<lambda>c. has_word ''input'' c \<and> has_word ''token'' c)),
               present (pick (\<lambda>c. has_word ''output'' c \<and> has_word ''token'' c))) of
           (Some ts, Some inp, Some out) \<Rightarrow>
             Inr \<lparr>cc_ts = ts, cc_id = present (pick (has_word ''id'')), cc_in = inp, cc_out = out,
                  cc_model = present (pick (has_word ''model''))\<rparr>
         | _ \<Rightarrow> Inl ValueError)"

text \<open>A row: \<open>None\<close> where the column is missing or has no value.\<close>

type_synonym csv_row = "string \<Rightarrow> string option"

definition parse_ts :: "str_parsers \<Rightarrow> string \<Rightarrow> real option" where
  "parse_ts ps s = (case ps_float ps s of Some x \<Rightarrow> Some x | None \<Rightarrow> ps_iso ps s)"

definition parse_tokens :: "str_parsers \<Rightarrow> string option \<Rightarrow> int option" where
  "parse_tokens ps s = map_option py_int (Option.bind s (ps_float ps))"

text \<open>
  One row: the time of the first timestamp, which a row sets even if the rest of it is malformed,
  and the request, or \<open>None\<close> for a row that is skipped. \<open>k\<close> is the number of requests so far.
\<close>

definition burst_row ::
    "str_parsers \<Rightarrow> csv_cols \<Rightarrow> real \<Rightarrow> nat \<Rightarrow> csv_row \<Rightarrow> real option \<Rightarrow> real option \<times> request option" where
  "burst_row ps cols start_s k row t0 =
     (case Option.bind (row (cc_ts cols)) (parse_ts ps) of
        None \<Rightarrow> (t0, None)
      | Some ts \<Rightarrow>
          (let first = (case t0 of None \<Rightarrow> ts | Some t \<Rightarrow> t); arrival = ts - first in
           (Some first,
            if arrival < start_s then None
            else case (parse_tokens ps (row (cc_in cols)), parse_tokens ps (row (cc_out cols)),
                       case cc_id cols of None \<Rightarrow> Some (int k)
                       | Some c \<Rightarrow> Option.bind (row c) (ps_int ps)) of
                   (Some input_tok, Some output_tok, Some rid) \<Rightarrow>
                     Some (make_request rid (arrival - start_s) input_tok output_tok
                       (case cc_model cols of None \<Rightarrow> Some ''unknown'' | Some c \<Rightarrow> row c))
                 | _ \<Rightarrow> None)))"

fun burst_rows ::
    "str_parsers \<Rightarrow> csv_cols \<Rightarrow> int \<Rightarrow> real \<Rightarrow> csv_row list \<Rightarrow> real option \<Rightarrow> request list \<Rightarrow> request list" where
  "burst_rows ps cols n start_s [] t0 reqs = reqs"
| "burst_rows ps cols n start_s (row # rows) t0 reqs =
     (if n \<le> int (length reqs) then reqs
      else case burst_row ps cols start_s (length reqs) row t0 of
             (t0', None) \<Rightarrow> burst_rows ps cols n start_s rows t0' reqs
           | (t0', Some r) \<Rightarrow> burst_rows ps cols n start_s rows t0' (reqs @ [r]))"

definition load_burstgpt ::
    "str_parsers \<Rightarrow> string list \<Rightarrow> csv_row list \<Rightarrow> int \<Rightarrow> real \<Rightarrow> request list result" where
  "load_burstgpt ps fieldnames rows n_requests start_s =
     (case find_cols fieldnames of
        Inl e \<Rightarrow> Inl e
      | Inr cols \<Rightarrow>
          (let reqs = burst_rows ps cols n_requests start_s rows None []
           in if reqs = [] then Inl RuntimeError else Inr reqs))"

section \<open>ShareGPT\<close>

text \<open>A conversation item: \<open>"from"\<close> and \<open>"value"\<close>, where present.\<close>

type_synonym conversation = "(string option \<times> string option) list"

fun count_tokens :: "string \<Rightarrow> conversation \<Rightarrow> real result" where
  "count_tokens who [] = Inr 0"
| "count_tokens who ((from_who, val) # items) =
     (if from_who \<noteq> Some who then count_tokens who items
      else case val of
             None \<Rightarrow> Inl KeyError
           | Some s \<Rightarrow>
               (case count_tokens who items of
                  Inl e \<Rightarrow> Inl e
                | Inr k \<Rightarrow> Inr (of_nat (count_words False s) * (13 / 10) + k)))"

text \<open>The exponential draws, one for each request, and the sum so far.\<close>

fun share_entries ::
    "int \<Rightarrow> real list \<Rightarrow> conversation list \<Rightarrow> real \<Rightarrow> request list \<Rightarrow> request list result" where
  "share_entries n iats [] cum reqs = Inr reqs"
| "share_entries n iats (convs # entries) cum reqs =
     (if n \<le> int (length reqs) then Inr reqs
      else case (count_tokens ''human'' convs, count_tokens ''gpt'' convs, iats) of
             (Inr human_toks, Inr gpt_toks, iat # iats') \<Rightarrow>
               share_entries n iats' entries (cum + iat)
                 (reqs @ [make_request (int (length reqs)) (cum + iat) (py_int human_toks)
                            (py_int gpt_toks) (Some ''llama'')])
           | (Inl e, _, _) \<Rightarrow> Inl e
           | (_, Inl e, _) \<Rightarrow> Inl e
           | _ \<Rightarrow> Inr reqs)"

definition load_sharegpt :: "string \<Rightarrow> real list \<Rightarrow> conversation list \<Rightarrow> int \<Rightarrow> request list result" where
  "load_sharegpt ext iats entries n_requests =
     (if ext = ''.json'' then share_entries n_requests iats entries 0 [] else Inl ValueError)"

section \<open>Synthetic traces\<close>

definition params_of :: "string \<Rightarrow> trace_params" where
  "params_of model = (if sublist ''gpt-4'' (to_lower model) then BURSTGPT_GPT4 else BURSTGPT_GPT35)"

definition pareto_iat :: "trace_params \<Rightarrow> real \<Rightarrow> real" where
  "pareto_iat params u =
     tp_iat_pareto_xmin params
       / (max (1 / 10 ^ 9) (min (1 - 1 / 10 ^ 9) u)) powr (1 / tp_iat_pareto_alpha params)"

fun cumsum :: "real \<Rightarrow> real list \<Rightarrow> real list" where
  "cumsum acc [] = []"
| "cumsum acc (x # xs) = (acc + x) # cumsum (acc + x) xs"

text \<open>
  \<open>us\<close>, \<open>input_draws\<close> and \<open>output_draws\<close> are the draws; each list is as long as asked. The
  log line reads \<open>arrivals[-1]\<close>.
\<close>

definition synthesise ::
    "string \<Rightarrow> real list \<Rightarrow> real list \<Rightarrow> real list \<Rightarrow> int \<Rightarrow> request list result" where
  "synthesise model us input_draws output_draws n_requests =
     (if n_requests < 0 then Inl ValueError
      else
        let n = nat n_requests;
            arrivals = cumsum 0 (map (pareto_iat (params_of model)) (take n us));
            reqs = map (\<lambda>i. make_request (int i) (arrivals ! i) (py_int (input_draws ! i))
                              (py_int (output_draws ! i)) (Some ''synthetic-gpt-3.5'')) [0..<n]
        in if arrivals = [] then Inl IndexError else Inr reqs)"

section \<open>The loader\<close>

record loader =
  tl_trace_type :: string
  tl_model :: string
  tl_requests :: "request list"
  tl_synthetic :: bool
  tl_trace_path :: "string option"

definition loader_init :: "(string \<Rightarrow> bool) \<Rightarrow> string option \<Rightarrow> string \<Rightarrow> string \<Rightarrow> loader" where
  "loader_init exists trace_path trace_type model =
     (let found = (case trace_path of None \<Rightarrow> None | Some p \<Rightarrow> if exists p then Some p else None)
      in \<lparr>tl_trace_type = trace_type, tl_model = model, tl_requests = [],
          tl_synthetic = (found = None), tl_trace_path = found\<rparr>)"

definition arrival_times :: "loader \<Rightarrow> real list" where
  "arrival_times l = map rq_arrival_s (tl_requests l)"

definition inter_arrival_times :: "loader \<Rightarrow> real list" where
  "inter_arrival_times l =
     (let ts = arrival_times l in map (\<lambda>i. ts ! (i + 1) - ts ! i) [0..<length ts - 1])"

definition request_shapes :: "loader \<Rightarrow> (int \<times> int) list" where
  "request_shapes l = map (\<lambda>r. (rq_input_tokens r, rq_output_tokens r)) (tl_requests l)"

definition kv_sizes_bytes :: "int \<Rightarrow> int \<Rightarrow> int \<Rightarrow> int \<Rightarrow> loader \<Rightarrow> int list" where
  "kv_sizes_bytes n_layers n_heads head_dim dtype_bytes l =
     map (\<lambda>r. 2 * n_layers * rq_input_tokens r * n_heads * head_dim * dtype_bytes) (tl_requests l)"

section \<open>Statistics\<close>

text \<open>NumPy's mean, standard deviation and linear percentile; \<open>None\<close> stands for \<open>nan\<close>.\<close>

definition np_mean :: "real list \<Rightarrow> real" where
  "np_mean xs = sum_list xs / of_nat (length xs)"

definition np_std :: "real list \<Rightarrow> real" where
  "np_std xs = sqrt (np_mean (map (\<lambda>x. (x - np_mean xs)\<^sup>2) xs))"

definition np_percentile :: "real \<Rightarrow> real list \<Rightarrow> real" where
  "np_percentile q xs =
     (let s = sort xs; pos = q / 100 * of_nat (length xs - 1); lo = nat \<lfloor>pos\<rfloor>;
          hi = min (lo + 1) (length xs - 1)
      in s ! lo + (pos - of_nat lo) * (s ! hi - s ! lo))"

record trace_stats =
  ts_n_requests :: nat
  ts_duration_s :: real
  ts_mean_rps :: real
  ts_peak_rps :: real
  ts_burst_ratio :: real
  ts_median_input_tok :: real
  ts_p99_input_tok :: real
  ts_median_output_tok :: real
  ts_p99_output_tok :: real
  ts_cv_iat :: "real option"
  ts_trace_source :: string
  ts_synthetic :: bool

definition in_window :: "real \<Rightarrow> real list \<Rightarrow> nat" where
  "in_window t arrivals = length (filter (\<lambda>a. t \<le> a \<and> a < t + 1) arrivals)"

definition peak_rps :: "real \<Rightarrow> real list \<Rightarrow> real" where
  "peak_rps dur arrivals =
     (if 0 < dur
      then of_nat (Max (set (map (\<lambda>t. in_window (of_nat t) arrivals) [0..<nat (py_int dur) + 1])))
      else of_nat (length arrivals))"

definition duration_s :: "real list \<Rightarrow> real" where
  "duration_s arrivals = (if 1 < length arrivals then last arrivals - hd arrivals else 1)"

definition statistics :: "loader \<Rightarrow> trace_stats result" where
  "statistics l =
     (if tl_requests l = [] then Inl RuntimeError
      else
        let arrivals = arrival_times l; n = length (tl_requests l); dur = duration_s arrivals;
            iats = inter_arrival_times l;
            inputs = map (real_of_int \<circ> rq_input_tokens) (tl_requests l);
            outputs = map (real_of_int \<circ> rq_output_tokens) (tl_requests l);
            peak = peak_rps dur arrivals; mean = of_nat n / max (1 / 10 ^ 6) dur
        in Inr \<lparr>ts_n_requests = n, ts_duration_s = dur, ts_mean_rps = mean, ts_peak_rps = peak,
                ts_burst_ratio = peak / max 1 mean,
                ts_median_input_tok = np_percentile 50 inputs, ts_p99_input_tok = np_percentile 99 inputs,
                ts_median_output_tok = np_percentile 50 outputs, ts_p99_output_tok = np_percentile 99 outputs,
                ts_cv_iat = (if iats = [] then Some 0 else if np_mean iats = 0 then None
                             else Some (np_std iats / np_mean iats)),
                ts_trace_source = (if tl_synthetic l then ''synthetic'' else tl_trace_type l),
                ts_synthetic = tl_synthetic l\<rparr>)"

text \<open>
  \<open>write_csv\<close>: the header and, for each request, the cell of each column as \<open>csv\<close> reads it back:
  \<open>str\<close> of the value, and the empty string for \<open>None\<close>. \<open>float_str\<close> is \<open>str\<close> on floats.
\<close>

definition CSV_FIELDS :: "string list" where
  "CSV_FIELDS = [''request_id'', ''arrival_s'', ''input_tokens'', ''output_tokens'', ''model'',
                 ''ttft_ms'', ''tpot_ms'', ''e2e_ms'', ''slo_met'']"

definition request_cells :: "(real \<Rightarrow> string) \<Rightarrow> request \<Rightarrow> string list" where
  "request_cells float_str r =
     [str_int (rq_id r), float_str (rq_arrival_s r), str_int (rq_input_tokens r),
      str_int (rq_output_tokens r), (case rq_model r of None \<Rightarrow> [] | Some m \<Rightarrow> m),
      float_str (rq_ttft_ms r), float_str (rq_tpot_ms r), float_str (rq_e2e_ms r),
      (if rq_slo_met r then ''True'' else ''False'')]"

definition write_csv :: "(real \<Rightarrow> string) \<Rightarrow> loader \<Rightarrow> string list \<times> csv_row list" where
  "write_csv float_str l =
     (CSV_FIELDS, map (\<lambda>r. map_of (zip CSV_FIELDS (request_cells float_str r))) (tl_requests l))"

text \<open>What the trace file holds, and the draws.\<close>

record trace_env =
  tv_parsers :: str_parsers
  tv_fieldnames :: "string list"
  tv_rows :: "csv_row list"
  tv_suffix :: string
  tv_entries :: "conversation list"
  tv_uniform :: "real list"
  tv_input_draws :: "real list"
  tv_output_draws :: "real list"
  tv_iats :: "real list"

definition read_trace :: "trace_env \<Rightarrow> int \<Rightarrow> real \<Rightarrow> loader \<Rightarrow> request list result" where
  "read_trace env n_requests start_s l =
     (if tl_synthetic l
      then synthesise (tl_model l) (tv_uniform env) (tv_input_draws env) (tv_output_draws env) n_requests
      else if tl_trace_path l = None then Inl AssertionError
      else if tl_trace_type l = ''burstgpt''
      then load_burstgpt (tv_parsers env) (tv_fieldnames env) (tv_rows env) n_requests start_s
      else if tl_trace_type l = ''sharegpt''
      then load_sharegpt (tv_suffix env) (tv_iats env) (tv_entries env) n_requests
      else Inl ValueError)"

definition load_trace :: "trace_env \<Rightarrow> int \<Rightarrow> real \<Rightarrow> loader \<Rightarrow> request list result \<times> loader" where
  "load_trace env n_requests start_s l =
     (case read_trace env n_requests start_s l of
        Inl e \<Rightarrow> (Inl e, l)
      | Inr reqs \<Rightarrow>
          (let l1 = l\<lparr>tl_requests := sort_key rq_arrival_s reqs\<rparr>
           in case statistics l1 of
                Inl e \<Rightarrow> (Inl e, l1)
              | Inr s \<Rightarrow> (Inr (tl_requests l1), l1)))"

section \<open>Lemmas on loading\<close>

definition request_ok :: "request \<Rightarrow> bool" where
  "request_ok r \<longleftrightarrow> 1 \<le> rq_input_tokens r \<and> 1 \<le> rq_output_tokens r \<and> 0 \<le> rq_arrival_s r"

lemma make_request_ok [simp]: "request_ok (make_request rid arrival i out m) \<longleftrightarrow> 0 \<le> arrival"
  by (simp add: request_ok_def make_request_def)

lemma burst_row_ok: "burst_row ps cols start_s k row t0 = (t0', Some r) \<Longrightarrow> request_ok r"
  by (auto simp: burst_row_def Let_def split: option.splits if_splits)

lemma burst_rows_ok:
  assumes "list_all request_ok reqs" and "int (length reqs) \<le> N" and "n \<le> N"
  shows "list_all request_ok (burst_rows ps cols n start_s rows t0 reqs) \<and>
         int (length (burst_rows ps cols n start_s rows t0 reqs)) \<le> N"
  using assms(1,2)
proof (induction rows arbitrary: t0 reqs)
  case Nil
  then show ?case by simp
next
  case (Cons row rows)
  obtain t0' d where d: "burst_row ps cols start_s (length reqs) row t0 = (t0', d)" by fastforce
  show ?case
  proof (cases d)
    case None
    with Cons.prems d Cons.IH [of reqs t0'] show ?thesis by simp
  next
    case (Some r)
    with Cons.prems d burst_row_ok [of ps cols start_s "length reqs" row t0 t0' r]
      Cons.IH [of "reqs @ [r]" t0'] assms(3) show ?thesis by simp
  qed
qed

lemma share_entries_ok:
  assumes "share_entries n iats entries cum reqs = Inr res"
    and "list_all request_ok reqs" and "int (length reqs) \<le> max 0 n" and "0 \<le> cum" and "list_all (\<lambda>x. 0 \<le> x) iats"
  shows "list_all request_ok res \<and> int (length res) \<le> max 0 n"
  using assms
proof (induction n iats entries cum reqs rule: share_entries.induct)
  case (1 n iats cum reqs)
  then show ?case by simp
next
  case (2 n iats convs entries cum reqs)
  then show ?case by (auto split: if_splits sum.splits list.splits)
qed

lemma cumsum_length [simp]: "length (cumsum acc xs) = length xs"
  by (induction xs arbitrary: acc) simp_all

lemma cumsum_ge: "list_all (\<lambda>x. 0 \<le> x) xs \<Longrightarrow> list_all (\<lambda>a. acc \<le> a) (cumsum acc xs)"
proof (induction xs arbitrary: acc)
  case Nil
  then show ?case by simp
next
  case (Cons x xs)
  then show ?case by (auto intro: list.pred_mono_strong [of "\<lambda>a. acc + x \<le> a"])
qed

lemma pareto_iat_nonneg: "0 \<le> pareto_iat (params_of model) u"
  by (simp add: pareto_iat_def params_of_def BURSTGPT_GPT35_def BURSTGPT_GPT4_def)

definition draws_ok :: "trace_env \<Rightarrow> int \<Rightarrow> bool" where
  "draws_ok env n \<longleftrightarrow> length (tv_uniform env) = nat n \<and> list_all (\<lambda>x. 0 \<le> x) (tv_iats env)"

lemma synthesise_ok:
  assumes "synthesise model us ins outs n = Inr reqs" and "length us = nat n"
  shows "list_all request_ok reqs \<and> int (length reqs) = n"
proof -
  have ge: "0 \<le> cumsum 0 (map (pareto_iat (params_of model)) us) ! i" if "i < nat n" for i
    using cumsum_ge [of "map (pareto_iat (params_of model)) us" 0] that assms(2)
    by (simp add: list_all_length pareto_iat_nonneg)
  then show ?thesis
    using assms by (auto simp: synthesise_def Let_def list_all_iff split: if_splits)
qed

lemma read_trace_ok:
  assumes "read_trace env n start_s l = Inr reqs" and "draws_ok env n"
  shows "list_all request_ok reqs \<and> int (length reqs) \<le> max 0 n"
proof -
  have "list_all request_ok reqs \<and> int (length reqs) \<le> max 0 n"
    if "load_burstgpt ps fs rows n start_s = Inr reqs" for ps fs rows
    using that burst_rows_ok [of "[]" "max 0 n" n]
    by (auto simp: load_burstgpt_def Let_def split: sum.splits if_splits)
  moreover have "list_all request_ok reqs \<and> int (length reqs) \<le> max 0 n"
    if "load_sharegpt ext (tv_iats env) entries n = Inr reqs" for ext entries
    using that share_entries_ok [of n "tv_iats env" entries 0 "[]" reqs] assms(2)
    by (auto simp: load_sharegpt_def draws_ok_def split: if_splits)
  moreover have "list_all request_ok reqs \<and> int (length reqs) \<le> max 0 n"
    if "synthesise m (tv_uniform env) ins outs n = Inr reqs" for m ins outs
    using synthesise_ok [OF that] assms(2) by (auto simp: draws_ok_def)
  ultimately show ?thesis
    using assms(1) by (auto simp: read_trace_def split: if_splits)
qed

section \<open>Lemmas on statistics\<close>

lemma percentile_range:
  assumes "xs \<noteq> []" and "0 \<le> q" and "q \<le> 100"
  shows "\<exists>a \<in> set xs. \<exists>b \<in> set xs. a \<le> np_percentile q xs \<and> np_percentile q xs \<le> b"
proof -
  define s where "s = sort xs"
  define m where "m = length xs - 1"
  define pos where "pos = q / 100 * of_nat m"
  define lo where "lo = nat \<lfloor>pos\<rfloor>"
  define hi where "hi = min (lo + 1) m"
  have pos: "0 \<le> pos" "pos \<le> of_nat m"
    using assms(2,3) mult_right_mono [of "q / 100" 1 "of_nat m :: real"] by (simp_all add: pos_def)
  then have lo: "lo \<le> m" unfolding lo_def by linarith
  have frac: "0 \<le> pos - of_nat lo" "pos - of_nat lo \<le> 1"
    using pos unfolding lo_def by linarith+
  have len: "length s = Suc m" using assms(1) by (simp add: s_def m_def)
  have "lo \<le> hi" "hi \<le> m" using lo by (auto simp: hi_def)
  then have mono: "s ! lo \<le> s ! hi" using len by (intro sorted_nth_mono) (simp_all add: s_def)
  have ins: "s ! lo \<in> set xs" "s ! hi \<in> set xs"
    using nth_mem [of lo s] nth_mem [of hi s] lo len by (simp_all add: s_def hi_def m_def)
  have "np_percentile q xs = s ! lo + (pos - of_nat lo) * (s ! hi - s ! lo)"
    by (simp add: np_percentile_def Let_def s_def m_def pos_def lo_def hi_def)
  moreover have "0 \<le> (pos - of_nat lo) * (s ! hi - s ! lo)" using frac mono by simp
  moreover have "(pos - of_nat lo) * (s ! hi - s ! lo) \<le> 1 * (s ! hi - s ! lo)"
    using frac mono by (intro mult_right_mono) simp_all
  ultimately show ?thesis using ins by (intro bexI [of _ "s ! lo"] bexI [of _ "s ! hi"]) auto
qed

lemma percentile_of:
  assumes "rs \<noteq> []" and "0 \<le> q" and "q \<le> 100"
  shows "\<exists>r \<in> set rs. \<exists>r' \<in> set rs. f r \<le> np_percentile q (map f rs) \<and> np_percentile q (map f rs) \<le> f r'"
  using percentile_range [of "map f rs" q] assms by (simp only: set_map bex_simps(7) map_is_Nil_conv simp_thms)

lemma in_window_le: "in_window t xs \<le> length xs"
  by (simp add: in_window_def)

lemma windows_cover:
  assumes "\<forall>a \<in> set xs. 0 \<le> a \<and> a < of_nat k"
  shows "(\<Sum>t \<leftarrow> [0..<k]. in_window (of_nat t) xs) = length xs"
  using assms
proof (induction xs)
  case Nil
  then show ?case by (simp add: in_window_def)
next
  case (Cons a xs)
  define j where "j = nat \<lfloor>a\<rfloor>"
  have j: "j < k" "\<And>t :: nat. of_nat t \<le> a \<and> a < of_nat t + 1 \<longleftrightarrow> t = j"
  proof -
    have a: "0 \<le> a" "a < of_nat k" using Cons.prems by simp_all
    then show "j < k" unfolding j_def by linarith
    fix t :: nat
    have "\<lfloor>a\<rfloor> = int t \<longleftrightarrow> of_nat t \<le> a \<and> a < of_nat t + 1" by (simp add: floor_eq_iff)
    moreover have "\<lfloor>a\<rfloor> = int t \<longleftrightarrow> t = j" using a(1) unfolding j_def by auto
    ultimately show "of_nat t \<le> a \<and> a < of_nat t + 1 \<longleftrightarrow> t = j" by simp
  qed
  have "(\<Sum>t \<leftarrow> [0..<k]. in_window (of_nat t) (a # xs)) =
      (\<Sum>t \<leftarrow> [0..<k]. (if t = j then 1 else 0) + in_window (of_nat t) xs)"
    by (rule arg_cong [where f = sum_list], rule map_cong) (auto simp: in_window_def j(2))
  also have "\<dots> = (\<Sum>t \<leftarrow> [0..<k]. if t = j then 1 else 0) + length xs"
    using Cons by (simp add: sum_list_addf)
  also have "(\<Sum>t \<leftarrow> [0..<k]. if t = j then 1 else 0 :: nat) = 1"
    using j(1) by (simp add: interv_sum_list_conv_sum_set_nat sum.If_cases lessThan_atLeast0)
  finally show ?case by simp
qed

lemma sum_list_le: "\<forall>x \<in> set xs. f x \<le> M \<Longrightarrow> (\<Sum>x \<leftarrow> xs. f x) \<le> length xs * (M :: nat)"
  by (induction xs) auto

lemma duration_nonneg: "sorted xs \<Longrightarrow> 0 \<le> duration_s xs"
  by (cases xs) (auto simp: duration_s_def)

lemma peak_le: "peak_rps dur xs \<le> of_nat (length xs)" and peak_nonneg: "0 \<le> peak_rps dur xs"
  by (auto simp: peak_rps_def in_window_le)

text \<open>From time 0 on, the windows cover the trace, so the peak is at least the mean of them.\<close>

lemma peak_covers:
  assumes "sorted xs" and "xs \<noteq> []" and "hd xs = 0" and dur: "dur = duration_s xs"
  shows "of_nat (length xs) \<le> peak_rps dur xs * of_int (\<lfloor>dur\<rfloor> + 1)"
proof (cases "0 < dur")
  case False
  with duration_nonneg [OF assms(1)] dur have "dur = 0" by simp
  then show ?thesis by (simp add: peak_rps_def)
next
  case True
  define k where "k = nat (py_int dur) + 1"
  define w where "w t = in_window (of_nat t) xs" for t :: nat
  have k: "real k = of_int (\<lfloor>dur\<rfloor> + 1)" using True by (simp add: k_def py_int_def)
  have "0 \<le> a \<and> a < of_nat k" if "a \<in> set xs" for a
  proof -
    from \<open>a \<in> set xs\<close> obtain i where i: "i < length xs" "a = xs ! i" by (metis in_set_conv_nth)
    have "xs ! 0 = 0" using assms(2,3) by (simp add: hd_conv_nth)
    moreover have "xs ! 0 \<le> a" "a \<le> last xs"
      using i assms(1,2) by (auto simp: last_conv_nth intro: sorted_nth_mono)
    moreover have "last xs \<le> dur"
      using assms(2,3) dur by (cases xs) (auto simp: duration_s_def split: if_splits)
    moreover have "dur < of_int (\<lfloor>dur\<rfloor> + 1)" by linarith
    ultimately show ?thesis using k by linarith
  qed
  then have "length xs = (\<Sum>t \<leftarrow> [0..<k]. w t)" by (simp add: windows_cover w_def)
  also have "\<dots> \<le> length [0..<k] * Max (set (map w [0..<k]))"
    by (rule sum_list_le) simp
  finally have "real (length xs) \<le> of_nat k * of_nat (Max (set (map w [0..<k])))"
    by (metis length_upt diff_zero of_nat_mono of_nat_mult)
  moreover have "peak_rps dur xs = of_nat (Max (set (map w [0..<k])))"
  proof -
    have "w = (\<lambda>t. in_window (of_nat t) xs)" by (simp add: w_def fun_eq_iff)
    with True show ?thesis by (simp only: peak_rps_def k_def if_True)
  qed
  ultimately show ?thesis using k by (simp add: mult.commute)
qed

lemma peak_late:
  assumes "sorted xs" and "0 < dur" and "dur + 1 \<le> hd xs"
  shows "peak_rps dur xs = 0"
proof -
  define k where "k = nat (py_int dur) + 1"
  have "in_window (of_nat t) xs = 0" if "t < k" for t :: nat
  proof -
    have "t \<le> nat \<lfloor>dur\<rfloor>" using that assms(2) by (simp add: k_def py_int_def)
    then have "of_nat t + 1 \<le> dur + 1" using assms(2) by linarith
    moreover have "hd xs \<le> a" if "a \<in> set xs" for a
      using assms(1) that by (cases xs) auto
    ultimately show ?thesis using assms(3) by (fastforce simp: in_window_def filter_empty_conv)
  qed
  then have "set (map (\<lambda>t. in_window (of_nat t) xs) [0..<k]) = {0}"
    by (auto simp: k_def)
  with assms(2) show ?thesis by (simp only: peak_rps_def k_def if_True) simp
qed

section \<open>The written trace\<close>

text \<open>
  A written trace holds, for each request in order, its values; but none of its columns is called a
  time, so the loader rejects the file it wrote, whatever the requests were.
\<close>

lemma has_word_fields: "List.find (has_word ''time'') CSV_FIELDS = None"
  by (simp add: CSV_FIELDS_def find_None_iff has_word_def to_lower_def sublist_code Let_def)

lemma written_trace_rejected:
  "write_csv float_str l = (cols, rows) \<Longrightarrow> load_burstgpt ps cols rows n start_s = Inl ValueError"
  by (auto simp: write_csv_def load_burstgpt_def find_cols_def has_word_fields Let_def)

lemma written_row:
  assumes "write_csv float_str l = (cols, rows)" and "i < length (tl_requests l)"
  shows "length rows = length (tl_requests l) \<and>
    (rows ! i) ''request_id'' = Some (str_int (rq_id (tl_requests l ! i))) \<and>
    (rows ! i) ''arrival_s'' = Some (float_str (rq_arrival_s (tl_requests l ! i))) \<and>
    (rows ! i) ''input_tokens'' = Some (str_int (rq_input_tokens (tl_requests l ! i))) \<and>
    (rows ! i) ''output_tokens'' = Some (str_int (rq_output_tokens (tl_requests l ! i))) \<and>
    (rows ! i) ''model'' = Some (case rq_model (tl_requests l ! i) of None \<Rightarrow> [] | Some m \<Rightarrow> m)"
proof -
  have rows: "rows = map (\<lambda>r. map_of (zip CSV_FIELDS (request_cells float_str r))) (tl_requests l)"
    using assms(1) by (simp add: write_csv_def)
  show ?thesis using assms(2)
    by (auto simp: rows CSV_FIELDS_def request_cells_def)
qed

section \<open>Properties\<close>


text \<open>
  The statistics of a well-formed trace. The duration is not negative, medians and 99th
  percentiles lie between two token counts of the trace, and the peak rate lies between 0 and the
  number of requests. If the trace starts at time 0 its windows cover every request, so the peak
  is at least the number of requests over the number of windows; but the windows start at 0 and
  not at the first arrival, so a trace that starts more than its duration and a second later has
  a reported peak of 0.
\<close>

lemma trace_statistics:
  assumes "statistics l = Inr s" and "sorted (arrival_times l)" and "list_all request_ok (tl_requests l)"
  shows "ts_n_requests s = length (tl_requests l) \<and> 0 \<le> ts_duration_s s \<and>
         0 \<le> ts_peak_rps s \<and> ts_peak_rps s \<le> of_nat (length (tl_requests l)) \<and>
         list_all (\<lambda>x. \<exists>r \<in> set (tl_requests l). \<exists>r' \<in> set (tl_requests l).
             of_int (rq_input_tokens r) \<le> x \<and> x \<le> of_int (rq_input_tokens r'))
           [ts_median_input_tok s, ts_p99_input_tok s] \<and>
         list_all (\<lambda>x. \<exists>r \<in> set (tl_requests l). \<exists>r' \<in> set (tl_requests l).
             of_int (rq_output_tokens r) \<le> x \<and> x \<le> of_int (rq_output_tokens r'))
           [ts_median_output_tok s, ts_p99_output_tok s] \<and>
         (hd (arrival_times l) = 0 \<longrightarrow>
            of_nat (length (tl_requests l)) \<le> ts_peak_rps s * of_int (\<lfloor>ts_duration_s s\<rfloor> + 1)) \<and>
         (0 < ts_duration_s s \<and> ts_duration_s s + 1 \<le> hd (arrival_times l) \<longrightarrow> ts_peak_rps s = 0)"
proof -
  let ?inputs = "map (real_of_int \<circ> rq_input_tokens) (tl_requests l)"
  let ?outputs = "map (real_of_int \<circ> rq_output_tokens) (tl_requests l)"
  from assms(1) have ne: "tl_requests l \<noteq> []" by (auto simp: statistics_def split: if_splits)
  define dur where "dur = duration_s (arrival_times l)"
  have s: "ts_n_requests s = length (tl_requests l)" "ts_duration_s s = dur"
      "ts_peak_rps s = peak_rps dur (arrival_times l)"
      "ts_median_input_tok s = np_percentile 50 ?inputs" "ts_p99_input_tok s = np_percentile 99 ?inputs"
      "ts_median_output_tok s = np_percentile 50 ?outputs" "ts_p99_output_tok s = np_percentile 99 ?outputs"
    using assms(1) by (auto simp: statistics_def Let_def dur_def split: if_splits)
  have len: "length (arrival_times l) = length (tl_requests l)" "arrival_times l \<noteq> []"
    using ne by (simp_all add: arrival_times_def)
  have pin: "\<exists>r \<in> set (tl_requests l). \<exists>r' \<in> set (tl_requests l).
             of_int (rq_input_tokens r) \<le> np_percentile q ?inputs \<and> np_percentile q ?inputs \<le> of_int (rq_input_tokens r')"
    and pout: "\<exists>r \<in> set (tl_requests l). \<exists>r' \<in> set (tl_requests l).
             of_int (rq_output_tokens r) \<le> np_percentile q ?outputs \<and> np_percentile q ?outputs \<le> of_int (rq_output_tokens r')"
    if "0 \<le> q" "q \<le> 100" for q
    using percentile_of [OF ne that, of "real_of_int \<circ> rq_input_tokens"]
      percentile_of [OF ne that, of "real_of_int \<circ> rq_output_tokens"] by (simp_all only: o_apply)
  show ?thesis
    unfolding s
  proof (intro conjI impI)
    show "0 \<le> dur" using duration_nonneg [OF assms(2)] by (simp add: dur_def)
    show "peak_rps dur (arrival_times l) \<le> of_nat (length (tl_requests l))"
      using peak_le [of dur "arrival_times l"] len(1) by simp
    show "of_nat (length (tl_requests l)) \<le> peak_rps dur (arrival_times l) * of_int (\<lfloor>dur\<rfloor> + 1)"
      if "hd (arrival_times l) = 0"
      using peak_covers [OF assms(2) len(2) that dur_def] len(1) by simp
    show "peak_rps dur (arrival_times l) = 0" if "0 < dur \<and> dur + 1 \<le> hd (arrival_times l)"
      using peak_late [OF assms(2)] that by simp
  qed (simp_all only: list.pred_inject peak_nonneg, (intro conjI TrueI pin pout; simp)+)
qed

section \<open>Witnesses\<close>

definition digit_parsers :: str_parsers where
  "digit_parsers = \<lparr>ps_float = (\<lambda>s. if s = ''12'' then Some 12 else if s = ''13.5'' then Some (27 / 2) else None),
     ps_iso = (\<lambda>_. None), ps_int = (\<lambda>s. if s = ''12'' then Some 12 else None)\<rparr>"

definition sample_trace :: trace_env where
  "sample_trace = \<lparr>tv_parsers = digit_parsers, tv_fieldnames = [''Timestamp'', ''input_tokens'', ''output_tokens''],
     tv_rows = [[''Timestamp'' \<mapsto> ''12'', ''input_tokens'' \<mapsto> ''12'', ''output_tokens'' \<mapsto> ''12''],
                [''Timestamp'' \<mapsto> ''bad'', ''input_tokens'' \<mapsto> ''12'', ''output_tokens'' \<mapsto> ''12''],
                [''Timestamp'' \<mapsto> ''13.5'', ''input_tokens'' \<mapsto> ''12'', ''output_tokens'' \<mapsto> ''13.5'']],
     tv_suffix = [], tv_entries = [], tv_uniform = replicate 5 (1 / 2), tv_input_draws = [], tv_output_draws = [],
     tv_iats = []\<rparr>"

definition sample_loader :: loader where
  "sample_loader = loader_init (\<lambda>p. p = ''t.csv'') (Some ''t.csv'') ''burstgpt'' ''gpt-4''"

lemma sample_find_cols: "find_cols [''Timestamp'', ''input_tokens'', ''output_tokens''] =
    Inr \<lparr>cc_ts = ''Timestamp'', cc_id = None, cc_in = ''input_tokens'', cc_out = ''output_tokens'', cc_model = None\<rparr>"
  by code_simp

lemma sample_read:
  "read_trace sample_trace 5 0 sample_loader =
     Inr [make_request 0 0 12 12 (Some ''unknown''), make_request 1 (3 / 2) 12 13 (Some ''unknown'')]"
  by (simp add: read_trace_def sample_loader_def loader_init_def sample_trace_def load_burstgpt_def
      sample_find_cols burst_row_def parse_ts_def parse_tokens_def digit_parsers_def py_int_def floor_divide_of_nat_eq
      numeral_eq_Suc)


text \<open>Two requests at 10 s and 11 s: the reported peak rate is 0.\<close>

definition late_loader :: loader where
  "late_loader = sample_loader\<lparr>tl_requests :=
     [make_request 0 10 12 12 None, make_request 1 11 12 13 None]\<rparr>"

end
