(* ===== verification/Eval_Stats.thy ===== *)
theory Eval_Stats
  imports Trace_Loader
begin

text \<open>
  What the analysis scripts of the evaluation share: the functions of Python's \<open>statistics\<close> module
  and the percentage of a change, and the interface \<open>average\<close> of the statistics of location. An
  exact real stands for a float; \<open>statistics.StatisticsError\<close> is a \<open>ValueError\<close>.
\<close>

section \<open>Python's statistics\<close>

definition py_mean :: "real list \<Rightarrow> real result" where
  "py_mean xs = (if xs = [] then Inl ValueError else Inr (np_mean xs))"

definition median_of :: "real list \<Rightarrow> real" where
  "median_of xs =
     (let s = sort xs; n = length xs
      in if n mod 2 = 1 then s ! (n div 2) else (s ! (n div 2 - 1) + s ! (n div 2)) / 2)"

definition py_median :: "real list \<Rightarrow> real result" where
  "py_median xs = (if xs = [] then Inl ValueError else Inr (median_of xs))"

definition stdev_of :: "real list \<Rightarrow> real" where
  "stdev_of xs = sqrt (sum_list (map (\<lambda>x. (x - np_mean xs)\<^sup>2) xs) / of_nat (length xs - 1))"

definition py_stdev :: "real list \<Rightarrow> real result" where
  "py_stdev xs = (if length xs < 2 then Inl ValueError else Inr (stdev_of xs))"

text \<open>The element of the sorted samples at index \<open>int(len(xs) * 0.99)\<close>.\<close>

definition p99_of :: "real list \<Rightarrow> real" where
  "p99_of xs = sort xs ! nat (py_int (of_nat (length xs) * (99 / 100)))"

definition pct_change :: "real \<Rightarrow> real \<Rightarrow> real" where
  "pct_change base x = (x - base) / base * 100"

text \<open>A NumPy quotient: \<open>None\<close> stands for an infinity or \<open>nan\<close>.\<close>

definition np_div :: "real \<Rightarrow> real \<Rightarrow> real option" where
  "np_div x y = (if y = 0 then None else Some (x / y))"

text \<open>The mean of a column or array; that of no values is \<open>nan\<close>.\<close>

definition df_mean :: "real list \<Rightarrow> real option" where
  "df_mean xs = np_div (sum_list xs) (of_nat (length xs))"

definition np_clip :: "real \<Rightarrow> real \<Rightarrow> real \<Rightarrow> real" where
  "np_clip lo hi x = min hi (max lo x)"

text \<open>\<open>range(0, stop, step)\<close>.\<close>

definition py_range_step :: "int \<Rightarrow> int \<Rightarrow> int list result" where
  "py_range_step stop step =
     (if step = 0 then Inl ValueError
      else if 0 < step then Inr (map (\<lambda>i. step * int i) [0..<nat ((stop + step - 1) div step)])
      else Inr (map (\<lambda>i. step * int i) [0..<nat ((- stop - step - 1) div (- step))]))"

text \<open>The next statement runs only if the last one did not raise.\<close>

definition and_then :: "'a result \<Rightarrow> ('a \<Rightarrow> 'b result) \<Rightarrow> 'b result" where
  "and_then r f = (case r of Inl e \<Rightarrow> Inl e | Inr x \<Rightarrow> f x)"

lemma and_then_simps [simp]: "and_then (Inl e) f = Inl e" "and_then (Inr x) f = f x"
  by (simp_all add: and_then_def)

lemma and_then_Inr: "and_then r f = Inr y \<longleftrightarrow> (\<exists>x. r = Inr x \<and> f x = Inr y)"
  by (cases r) simp_all

lemma py_round_nonneg: "0 \<le> x \<Longrightarrow> 0 \<le> py_round n x"
  by (simp add: py_round_def half_even_def)

lemma py_round_nonpos: "x \<le> 0 \<Longrightarrow> py_round n x \<le> 0"
proof -
  assume "x \<le> 0"
  then have "x * 10 ^ n \<le> of_int 0" "of_int \<lfloor>x * 10 ^ n\<rfloor> \<le> x * 10 ^ n" by (simp_all add: mult_nonpos_nonneg)
  then have "half_even (x * 10 ^ n) \<le> 0" using half_even_range by blast
  then show ?thesis by (simp add: py_round_def divide_nonpos_pos)
qed

section \<open>Statistics of location\<close>

text \<open>
  A statistic of location lies between the samples and does not depend on their order. From this
  alone: the samples of two runs that a value separates have statistics that it separates, so a
  comparison of statistics cannot contradict one that holds of every sample.
\<close>

locale average =
  fixes avg :: "real list \<Rightarrow> real"
  assumes avg_between: "xs \<noteq> [] \<Longrightarrow> \<forall>x \<in> set xs. a \<le> x \<and> x \<le> b \<Longrightarrow> a \<le> avg xs \<and> avg xs \<le> b"
    and avg_perm: "mset xs = mset ys \<Longrightarrow> avg xs = avg ys"
begin

lemma avg_constant: "xs \<noteq> [] \<Longrightarrow> \<forall>x \<in> set xs. x = a \<Longrightarrow> avg xs = a"
  using avg_between [of xs a a] by (auto intro: antisym)

lemma avg_upper: "xs \<noteq> [] \<Longrightarrow> \<forall>x \<in> set xs. x \<le> b \<Longrightarrow> avg xs \<le> b"
  using avg_between [of xs "Min (set xs)" b] by auto

lemma avg_lower: "xs \<noteq> [] \<Longrightarrow> \<forall>x \<in> set xs. a \<le> x \<Longrightarrow> a \<le> avg xs"
  using avg_between [of xs a "Max (set xs)"] by auto

lemma avg_separated:
  assumes "xs \<noteq> []" "ys \<noteq> []" and "\<forall>x \<in> set xs. \<forall>y \<in> set ys. x \<le> y"
  shows "avg xs \<le> avg ys"
proof -
  have "\<forall>x \<in> set xs. x \<le> Min (set ys)" using assms(2,3) by simp
  then have "avg xs \<le> Min (set ys)" by (rule avg_upper [OF assms(1)])
  moreover have "Min (set ys) \<le> avg ys" using assms(2) by (intro avg_lower) auto
  ultimately show ?thesis by linarith
qed

lemma change_nonneg:
  assumes "xs \<noteq> []" "ys \<noteq> []" and "\<forall>x \<in> set xs. 0 < x \<and> (\<forall>y \<in> set ys. x \<le> y)"
  shows "0 \<le> pct_change (avg xs) (avg ys)"
proof -
  have "0 < Min (set xs)" using assms(1,3) by simp
  moreover have "Min (set xs) \<le> avg xs" using assms(1) by (intro avg_lower) auto
  ultimately have "0 < avg xs" by linarith
  moreover have "avg xs \<le> avg ys" using assms by (intro avg_separated) auto
  ultimately show ?thesis by (simp add: pct_change_def)
qed

lemma change_nonpos:
  assumes "xs \<noteq> []" "ys \<noteq> []" and "0 < avg xs" and "\<forall>y \<in> set ys. \<forall>x \<in> set xs. y \<le> x"
  shows "pct_change (avg xs) (avg ys) \<le> 0"
proof -
  have "avg ys \<le> avg xs" using assms(4) by (intro avg_separated assms(1,2))
  with assms(3) show ?thesis by (simp add: pct_change_def divide_nonpos_pos mult_nonpos_nonneg)
qed

end

lemma sum_list_between:
  fixes xs :: "real list"
  assumes "\<forall>x \<in> set xs. a \<le> x \<and> x \<le> b"
  shows "of_nat (length xs) * a \<le> sum_list xs \<and> sum_list xs \<le> of_nat (length xs) * b"
  using assms by (induction xs) (fastforce simp: algebra_simps)+

lemma np_mean_between:
  assumes "xs \<noteq> []" and "\<forall>x \<in> set xs. a \<le> x \<and> x \<le> b"
  shows "a \<le> np_mean xs \<and> np_mean xs \<le> b"
proof -
  have "0 < real (length xs)" using assms(1) by simp
  with sum_list_between [OF assms(2)] show ?thesis
    by (simp add: np_mean_def pos_le_divide_eq pos_divide_le_eq mult.commute)
qed

lemma np_mean_perm: "mset xs = mset ys \<Longrightarrow> np_mean xs = np_mean ys"
  by (metis mset_eq_length np_mean_def sum_mset_sum_list)

interpretation avg_mean: average np_mean
  by unfold_locales (use np_mean_between np_mean_perm in blast)+

lemma sort_nth_in: "i < length xs \<Longrightarrow> sort xs ! i \<in> set xs"
  using nth_mem [of i "sort xs"] by simp

lemma median_of_between:
  assumes "xs \<noteq> []" and "\<forall>x \<in> set xs. a \<le> x \<and> x \<le> b"
  shows "a \<le> median_of xs \<and> median_of xs \<le> b"
proof -
  have n: "length xs div 2 < length xs" "length xs div 2 - 1 < length xs"
    using assms(1) by (cases xs; simp; linarith)+
  have "a \<le> sort xs ! (length xs div 2) \<and> sort xs ! (length xs div 2) \<le> b"
    "a \<le> sort xs ! (length xs div 2 - 1) \<and> sort xs ! (length xs div 2 - 1) \<le> b"
    using n [THEN sort_nth_in] assms(2) by blast+
  then show ?thesis by (auto simp: median_of_def Let_def)
qed

lemma sort_perm: "mset xs = mset ys \<Longrightarrow> sort xs = sort (ys :: 'a::linorder list)"
  by (metis mset_sort properties_for_sort sorted_sort)

lemma median_of_perm: "mset xs = mset ys \<Longrightarrow> median_of xs = median_of ys"
  using sort_perm [of xs ys] mset_eq_length [of xs ys] by (simp add: median_of_def)

interpretation avg_median: average median_of
  by unfold_locales (use median_of_between median_of_perm in blast)+

section \<open>The 99th percentile\<close>

lemma p99_index: "xs \<noteq> [] \<Longrightarrow> nat (py_int (of_nat (length xs) * (99 / 100))) < length xs"
  by (simp add: py_int_def nat_less_iff floor_less_iff)

lemma p99_of_in: "xs \<noteq> [] \<Longrightarrow> p99_of xs \<in> set xs"
  unfolding p99_of_def by (rule sort_nth_in) (rule p99_index)

lemma sorted_above_nth:
  assumes "sorted s" and "i < length s"
  shows "length (filter (\<lambda>x. s ! i < x) s) \<le> length s - Suc i"
proof -
  have "\<forall>x \<in> set (take (Suc i) s). \<not> s ! i < x"
    using assms sorted_nth_mono [of s _ i] by (auto simp: in_set_conv_nth not_less)
  then have "filter (\<lambda>x. s ! i < x) (take (Suc i) s) = []" by (simp add: filter_empty_conv)
  then have "filter (\<lambda>x. s ! i < x) s = filter (\<lambda>x. s ! i < x) (drop (Suc i) s)"
    by (metis append_Nil append_take_drop_id filter_append)
  then show ?thesis by (metis length_drop length_filter_le)
qed

text \<open>Less than one hundredth of the samples lie above it.\<close>

lemma p99_above:
  assumes "xs \<noteq> []"
  shows "of_nat (length (filter (\<lambda>x. p99_of xs < x) xs)) < of_nat (length xs) / (100 :: real)"
proof -
  let ?i = "nat (py_int (of_nat (length xs) * (99 / 100)))"
  have "length (filter (\<lambda>x. p99_of xs < x) xs) = length (filter (\<lambda>x. p99_of xs < x) (sort xs))"
    by (metis mset_filter mset_sort size_mset)
  also have "\<dots> \<le> length xs - Suc ?i"
    using sorted_above_nth [of "sort xs" ?i] p99_index [OF assms] by (simp add: p99_of_def)
  finally have "length (filter (\<lambda>x. p99_of xs < x) xs) \<le> length xs - Suc ?i" .
  moreover have "real (length xs) * (99 / 100) < 1 + real ?i" by (simp add: py_int_def) linarith
  ultimately show ?thesis using p99_index [OF assms] by linarith
qed

end
