(* ===== verification/Eval_Analysis.thy ===== *)
theory Eval_Analysis
  imports Ablation Eval_Stats
begin

text \<open>
  The analysis of the ablation and scaling runs: \<^verbatim>\<open>eval/ablation/plot_ablation.py\<close> and
  \<^verbatim>\<open>eval/node_scaling/plot_node_scaling.py\<close> over the rows the drivers write. A number of a CSV file
  is the number written; a file that does not exist is \<open>None\<close>. Of the figures, the bars and labels
  handed to the plotting library are modelled, not how it draws them.
\<close>

section \<open>The ablation summary\<close>

definition ABLATION_MODES :: "string list" where
  "ABLATION_MODES = [''baseline'', ''core'', ''core_p1'', ''core_p1_p2'', ''core_p1_p2_p3'']"

definition partition_rows :: "ablation_row list \<Rightarrow> real list \<times> real list" where
  "partition_rows rows =
     (map ar_algbw_GBs (filter (\<lambda>r. ar_is_ckpt_step r \<noteq> 0) rows),
      map ar_algbw_GBs (filter (\<lambda>r. \<not> ar_is_ckpt_step r \<noteq> 0) rows))"

definition safe_stats :: "real list \<Rightarrow> real \<times> real" where
  "safe_stats vals =
     (if vals = [] then (0, 0) else (np_mean vals, if 1 < length vals then stdev_of vals else 0))"

record mode_stats =
  ms_ckpt_mean :: real
  ms_ckpt_std :: real
  ms_ckpt_n :: nat
  ms_non_mean :: real
  ms_non_std :: real
  ms_non_n :: nat

definition mode_stats_of :: "ablation_row list \<Rightarrow> mode_stats" where
  "mode_stats_of rows =
     (case partition_rows rows of (ckpt, non) \<Rightarrow>
        \<lparr>ms_ckpt_mean = fst (safe_stats ckpt), ms_ckpt_std = snd (safe_stats ckpt),
         ms_ckpt_n = length ckpt, ms_non_mean = fst (safe_stats non),
         ms_non_std = snd (safe_stats non), ms_non_n = length non\<rparr>)"

text \<open>The modes with a file, in the order of \<open>ABLATION_MODES\<close>.\<close>

fun collect_modes :: "(string \<Rightarrow> ablation_row list option) \<Rightarrow> string list \<Rightarrow> (string \<times> mode_stats) list" where
  "collect_modes files [] = []"
| "collect_modes files (mode # modes) =
     (case files mode of
        None \<Rightarrow> collect_modes files modes
      | Some rows \<Rightarrow> (mode, mode_stats_of rows) # collect_modes files modes)"

definition b_ref :: "(string \<times> mode_stats) list \<Rightarrow> real option" where
  "b_ref data = map_option ms_ckpt_mean (map_of data ''baseline'')"

text \<open>A reference that is missing or zero is no reference: \<open>if b_ref and mode != "baseline"\<close>.\<close>

definition improvement :: "real option \<Rightarrow> string \<Rightarrow> mode_stats \<Rightarrow> real option" where
  "improvement ref mode d =
     (case ref of
        Some b \<Rightarrow> if b \<noteq> 0 \<and> mode \<noteq> ''baseline'' then Some (pct_change b (ms_ckpt_mean d)) else None
      | None \<Rightarrow> None)"

record ablation_summary_row =
  as_mode :: string
  as_ckpt_mean :: real
  as_ckpt_std :: real
  as_ckpt_n :: nat
  as_non_mean :: real
  as_non_std :: real
  as_non_n :: nat
  as_vs_baseline :: real

definition ablation_summary_of :: "real option \<Rightarrow> string \<times> mode_stats \<Rightarrow> ablation_summary_row" where
  "ablation_summary_of ref md =
     (case md of (mode, d) \<Rightarrow>
        (let vs = (case improvement ref mode d of Some v \<Rightarrow> v | None \<Rightarrow> 0)
         in \<lparr>as_mode = mode, as_ckpt_mean = py_round 4 (ms_ckpt_mean d),
             as_ckpt_std = py_round 4 (ms_ckpt_std d), as_ckpt_n = ms_ckpt_n d,
             as_non_mean = py_round 4 (ms_non_mean d), as_non_std = py_round 4 (ms_non_std d),
             as_non_n = ms_non_n d, as_vs_baseline = py_round 2 vs\<rparr>))"

text \<open>The bars: position, height and error; the labels: position and percentage.\<close>

record ablation_figure =
  af_ckpt_bars :: "(real \<times> real \<times> real) list"
  af_non_bars :: "(real \<times> real \<times> real) list"
  af_labels :: "(real \<times> real \<times> real) list"

definition bars_at :: "real \<Rightarrow> (real \<times> real) list \<Rightarrow> (real \<times> real \<times> real) list" where
  "bars_at offset vals = map (\<lambda>i. (of_nat i + offset, vals ! i)) [0..<length vals]"

definition ablation_figure_of :: "(string \<times> mode_stats) list \<Rightarrow> ablation_figure" where
  "ablation_figure_of data =
     (let width = 35 / 100;
          ckpt_stds = map (ms_ckpt_std \<circ> snd) data;
          label = (\<lambda>i. case data ! i of (m, d) \<Rightarrow>
            (case improvement (b_ref data) m d of
               None \<Rightarrow> []
             | Some vs \<Rightarrow> [(of_nat i - width / 2, ms_ckpt_mean d + Max (set ckpt_stds) * (15 / 100), vs)]))
      in \<lparr>af_ckpt_bars = bars_at (- width / 2) (map (\<lambda>(m, d). (ms_ckpt_mean d, ms_ckpt_std d)) data),
          af_non_bars = bars_at (width / 2) (map (\<lambda>(m, d). (ms_non_mean d, ms_non_std d)) data),
          af_labels = concat (map label [0..<length data])\<rparr>)"

text \<open>The program: \<open>None\<close> when there is no file at all.\<close>

definition plot_ablation ::
    "(string \<Rightarrow> ablation_row list option) \<Rightarrow> (ablation_summary_row list \<times> ablation_figure) option" where
  "plot_ablation files =
     (let data = collect_modes files ABLATION_MODES
      in if data = [] then None
         else Some (map (ablation_summary_of (b_ref data)) data, ablation_figure_of data))"

section \<open>The scaling summary\<close>

definition extract_ckpt_latencies :: "scaling_row list \<Rightarrow> real list" where
  "extract_ckpt_latencies rows = map sr_allreduce_ms (filter (\<lambda>r. sr_is_ckpt_step r \<noteq> 0) rows)"

definition extract_non_ckpt_latencies :: "scaling_row list \<Rightarrow> real list" where
  "extract_non_ckpt_latencies rows = map sr_allreduce_ms (filter (\<lambda>r. \<not> sr_is_ckpt_step r \<noteq> 0) rows)"

record lat_stats =
  ls_ckpt_mean :: real
  ls_ckpt_std :: real
  ls_ckpt_n :: nat
  ls_non_mean :: real

definition lat_stats_of :: "scaling_row list \<Rightarrow> lat_stats" where
  "lat_stats_of rows =
     (let lats = extract_ckpt_latencies rows; non = extract_non_ckpt_latencies rows
      in \<lparr>ls_ckpt_mean = np_mean lats, ls_ckpt_std = (if 1 < length lats then stdev_of lats else 0),
          ls_ckpt_n = length lats, ls_non_mean = (if non \<noteq> [] then np_mean non else 0)\<rparr>)"

text \<open>Node counts with both files and a checkpoint row in each; one given twice is there twice.\<close>

fun collect_nodes ::
    "(int \<Rightarrow> bool \<Rightarrow> scaling_row list option) \<Rightarrow> int list \<Rightarrow> (int \<times> lat_stats \<times> lat_stats) list" where
  "collect_nodes files [] = []"
| "collect_nodes files (N # nodes) =
     (case (files N False, files N True) of
        (Some b, Some t) \<Rightarrow>
          (if extract_ckpt_latencies b = [] \<or> extract_ckpt_latencies t = []
           then collect_nodes files nodes
           else (N, lat_stats_of b, lat_stats_of t) # collect_nodes files nodes)
      | _ \<Rightarrow> collect_nodes files nodes)"

record node_summary_row =
  nr_n_nodes :: int
  nr_b_mean :: real
  nr_b_std :: real
  nr_b_n :: nat
  nr_b_non_mean :: real
  nr_t_mean :: real
  nr_t_std :: real
  nr_t_n :: nat
  nr_t_non_mean :: real
  nr_reduction_pct :: real

definition node_summary_of :: "int \<times> lat_stats \<times> lat_stats \<Rightarrow> node_summary_row" where
  "node_summary_of x =
     (case x of (N, b, t) \<Rightarrow>
        \<lparr>nr_n_nodes = N, nr_b_mean = py_round 4 (ls_ckpt_mean b), nr_b_std = py_round 4 (ls_ckpt_std b),
         nr_b_n = ls_ckpt_n b, nr_b_non_mean = py_round 4 (ls_non_mean b),
         nr_t_mean = py_round 4 (ls_ckpt_mean t), nr_t_std = py_round 4 (ls_ckpt_std t),
         nr_t_n = ls_ckpt_n t, nr_t_non_mean = py_round 4 (ls_non_mean t),
         nr_reduction_pct = py_round 2 (pct_change (ls_ckpt_mean b) (ls_ckpt_mean t))\<rparr>)"

text \<open>
  The text summary divides by every baseline mean before the file is opened, so a mean of zero raises
  and leaves no file.
\<close>

definition plot_node_scaling ::
    "(int \<Rightarrow> bool \<Rightarrow> scaling_row list option) \<Rightarrow> int list \<Rightarrow> node_summary_row list option result" where
  "plot_node_scaling files nodes =
     (let data = sort_key fst (collect_nodes files nodes)
      in if data = [] then Inr None
         else if list_ex (\<lambda>(N, b, t). ls_ckpt_mean b = 0) data then Inl ZeroDivisionError
         else Inr (Some (map node_summary_of data)))"

text \<open>The curves of the figure: node count, mean and deviation of both modes, the written change.\<close>

definition scaling_points ::
    "(int \<Rightarrow> bool \<Rightarrow> scaling_row list option) \<Rightarrow> int list \<Rightarrow> (int \<times> (real \<times> real) \<times> (real \<times> real) \<times> real) list" where
  "scaling_points files nodes =
     map (\<lambda>(N, b, t). (N, (ls_ckpt_mean b, ls_ckpt_std b), (ls_ckpt_mean t, ls_ckpt_std t),
            pct_change (ls_ckpt_mean b) (ls_ckpt_mean t))) (sort_key fst (collect_nodes files nodes))"

section \<open>What the ablation summary says\<close>

lemma collect_modes_fst: "map fst (collect_modes files ms) = filter (\<lambda>m. files m \<noteq> None) ms"
  by (induction ms) (auto split: option.splits)

lemma collect_modes_iff:
  "(m, d) \<in> set (collect_modes files ms) \<longleftrightarrow> m \<in> set ms \<and> map_option mode_stats_of (files m) = Some d"
  by (induction ms) (auto split: option.splits)

lemma collect_modes_map_of:
  "map_of (collect_modes files ms) m = (if m \<in> set ms then map_option mode_stats_of (files m) else None)"
  by (induction ms) (auto split: option.splits)

lemma b_ref_collect:
  "b_ref (collect_modes files ABLATION_MODES) = map_option (ms_ckpt_mean \<circ> mode_stats_of) (files ''baseline'')"
proof -
  have "''baseline'' \<in> set ABLATION_MODES" by (simp add: ABLATION_MODES_def)
  then show ?thesis by (simp only: b_ref_def collect_modes_map_of if_True option.map_comp)
qed

abbreviation ckpt_bw :: "ablation_row list \<Rightarrow> real list" where
  "ckpt_bw rows \<equiv> fst (partition_rows rows)"

lemma mode_stats_ckpt [simp]:
  "ms_ckpt_mean (mode_stats_of rows) = (if ckpt_bw rows = [] then 0 else np_mean (ckpt_bw rows))"
  "ms_ckpt_n (mode_stats_of rows) = length (ckpt_bw rows)"
  by (simp_all add: mode_stats_of_def safe_stats_def case_prod_unfold)

lemma partition_counts: "ms_ckpt_n (mode_stats_of rows) + ms_non_n (mode_stats_of rows) = length rows"
  using sum_length_filter_compl [of "\<lambda>r. ar_is_ckpt_step r \<noteq> 0" rows]
  by (simp add: mode_stats_of_def partition_rows_def)

lemma improvement_collect:
  "improvement (b_ref (collect_modes files ABLATION_MODES)) m (mode_stats_of rows) =
     (case files ''baseline'' of
        Some base \<Rightarrow> if ms_ckpt_mean (mode_stats_of base) \<noteq> 0 \<and> m \<noteq> ''baseline''
          then Some (pct_change (ms_ckpt_mean (mode_stats_of base)) (ms_ckpt_mean (mode_stats_of rows))) else None
      | None \<Rightarrow> None)"
  by (simp add: improvement_def b_ref_collect split: option.split)

text \<open>A mode whose every checkpoint sample is at least as high as every one of the baseline.\<close>

lemma improvement_nonneg:
  assumes "ckpt_bw base \<noteq> []" "ckpt_bw rows \<noteq> []"
    and "\<forall>x \<in> set (ckpt_bw base). 0 < x \<and> (\<forall>y \<in> set (ckpt_bw rows). x \<le> y)"
  shows "0 \<le> pct_change (ms_ckpt_mean (mode_stats_of base)) (ms_ckpt_mean (mode_stats_of rows))"
  using avg_mean.change_nonneg [OF assms] assms by simp

lemma plot_ablation_rows:
  assumes "plot_ablation files = Some (rows, fig)" and "row \<in> set rows" and "files (as_mode row) = Some rs"
  shows "row = ablation_summary_of (b_ref (collect_modes files ABLATION_MODES)) (as_mode row, mode_stats_of rs)"
proof -
  let ?data = "collect_modes files ABLATION_MODES"
  obtain m d where md: "(m, d) \<in> set ?data" and row: "row = ablation_summary_of (b_ref ?data) (m, d)"
    using assms(1,2) by (auto simp: plot_ablation_def Let_def split: if_splits)
  then have "as_mode row = m" by (simp add: ablation_summary_of_def Let_def)
  with md row assms(3) show ?thesis by (simp add: collect_modes_iff)
qed

lemma plot_ablation_modes:
  assumes "plot_ablation files = Some (rows, fig)"
  shows "map as_mode rows = filter (\<lambda>m. files m \<noteq> None) ABLATION_MODES"
proof -
  have "map as_mode rows = map fst (collect_modes files ABLATION_MODES)"
    using assms by (auto simp: plot_ablation_def Let_def ablation_summary_of_def split: if_splits)
  then show ?thesis by (simp only: collect_modes_fst)
qed

text \<open>
  The ablation summary. Its rows are the modes with a file, in order, each counting every row of
  the file once. The change against the baseline is the relative change of the means, to two digits;
  it is not negative when every checkpoint sample of the mode is at least every one of the baseline.
  Without a baseline file, or one without checkpoint rows, all changes are given as zero.
\<close>

lemma ablation_report:
  assumes "plot_ablation files = Some (rows, fig)"
  shows "map as_mode rows = filter (\<lambda>m. files m \<noteq> None) ABLATION_MODES \<and>
    (\<forall>row \<in> set rows. \<forall>rs. files (as_mode row) = Some rs \<longrightarrow>
      as_ckpt_n row + as_non_n row = length rs \<and>
      (\<forall>base. files ''baseline'' = Some base \<and> as_mode row \<noteq> ''baseline'' \<and>
          ckpt_bw base \<noteq> [] \<and> ckpt_bw rs \<noteq> [] \<and> np_mean (ckpt_bw base) \<noteq> 0 \<longrightarrow>
        \<bar>as_vs_baseline row - pct_change (np_mean (ckpt_bw base)) (np_mean (ckpt_bw rs))\<bar> \<le> 1 / 200 \<and>
        ((\<forall>x \<in> set (ckpt_bw base). 0 < x \<and> (\<forall>y \<in> set (ckpt_bw rs). x \<le> y)) \<longrightarrow> 0 \<le> as_vs_baseline row)) \<and>
      (files ''baseline'' = None \<or> ckpt_bw (the (files ''baseline'')) = [] \<longrightarrow> as_vs_baseline row = 0))"
proof (intro conjI ballI allI impI)
  let ?data = "collect_modes files ABLATION_MODES"
  show "map as_mode rows = filter (\<lambda>m. files m \<noteq> None) ABLATION_MODES"
    by (rule plot_ablation_modes [OF assms])
  fix row rs assume r: "row \<in> set rows" "files (as_mode row) = Some rs"
  note eq = plot_ablation_rows [OF assms r]
  have vs: "as_vs_baseline row = py_round 2 (case improvement (b_ref ?data) (as_mode row) (mode_stats_of rs) of
      Some v \<Rightarrow> v | None \<Rightarrow> 0)"
    by (subst eq) (simp add: ablation_summary_of_def Let_def)
  show "as_ckpt_n row + as_non_n row = length rs"
    using partition_counts [of rs] by (subst (1 2) eq) (simp add: ablation_summary_of_def Let_def)
  show "as_vs_baseline row = 0" if "files ''baseline'' = None \<or> ckpt_bw (the (files ''baseline'')) = []"
    using that by (auto simp: vs improvement_collect py_round_def half_even_def split: option.splits)
  fix base
  assume b: "files ''baseline'' = Some base \<and> as_mode row \<noteq> ''baseline'' \<and> ckpt_bw base \<noteq> [] \<and>
    ckpt_bw rs \<noteq> [] \<and> np_mean (ckpt_bw base) \<noteq> 0"
  let ?c = "pct_change (np_mean (ckpt_bw base)) (np_mean (ckpt_bw rs))"
  have v: "as_vs_baseline row = py_round 2 ?c" using b by (simp add: vs improvement_collect)
  show "\<bar>as_vs_baseline row - ?c\<bar> \<le> 1 / 200" using py_round_near [of 2 ?c] by (simp add: v)
  show "0 \<le> as_vs_baseline row"
    if "\<forall>x \<in> set (ckpt_bw base). 0 < x \<and> (\<forall>y \<in> set (ckpt_bw rs). x \<le> y)"
    using avg_mean.change_nonneg [OF _ _ that] b py_round_nonneg by (simp add: v)
qed

section \<open>The ablation study end to end\<close>

text \<open>
  The file of a mode after its run of the driver: written by rank 0 after the loop, if there is a row.
\<close>

definition ablation_file ::
    "machine \<Rightarrow> string option \<Rightarrow> 'b fs \<Rightarrow> int \<Rightarrow> ablation_args \<Rightarrow> (string \<Rightarrow> int \<Rightarrow> 'b v6_step_env)
     \<Rightarrow> string \<Rightarrow> ablation_row list option" where
  "ablation_file ma pscratch fs world_size args env mode =
     (case ablation_loop ma pscratch fs 0 world_size (args\<lparr>ta_mode := mode\<rparr>) (env mode) of
        (Inr u, Some (s, c)) \<Rightarrow> if ablation_csv 0 c \<noteq> [] then Some (ablation_csv 0 c) else None
      | _ \<Rightarrow> None)"

text \<open>
  C38: The study as the two programs run it. With at least one measured step, the summary of the five
  modes holds at most the baseline and the core mode: the runs of the other three end in an exception
  before their file is written, so the figure of the full system is missing, whatever the machine
  and the times are.
\<close>

theorem ablation_study_modes:
  assumes "0 \<le> ta_warmup_steps args" and "0 < ta_num_steps args"
  shows "(\<forall>mode. mode \<noteq> ''baseline'' \<and> mode \<noteq> ''core'' \<longrightarrow>
      ablation_file ma pscratch fs world_size args env mode = None) \<and>
    (\<forall>rows fig. plot_ablation (ablation_file ma pscratch fs world_size args env) = Some (rows, fig) \<longrightarrow>
      set (map as_mode rows) \<subseteq> {''baseline'', ''core''})"
proof -
  let ?files = "ablation_file ma pscratch fs world_size args env"
  have none: "?files mode = None" if m: "mode \<noteq> ''baseline''" "mode \<noteq> ''core''" for mode
  proof -
    obtain r res where run: "ablation_loop ma pscratch fs 0 world_size (args\<lparr>ta_mode := mode\<rparr>) (env mode) = (r, res)"
      by (metis surj_pair)
    obtain e where "r = Inl e"
      using ablation_v6_ends [OF _ _ _ _ run] m assms(1,2) by auto
    with run show ?thesis by (simp add: ablation_file_def)
  qed
  have "set (map as_mode rows) \<subseteq> {''baseline'', ''core''}" if "plot_ablation ?files = Some (rows, fig)" for rows fig
  proof
    fix m assume "m \<in> set (map as_mode rows)"
    then have "?files m \<noteq> None" unfolding plot_ablation_modes [OF that] set_filter mem_Collect_eq by (rule conjunct2)
    then show "m \<in> {''baseline'', ''core''}" using none [of m] by (metis insertCI)
  qed
  then show ?thesis by (intro conjI allI impI) (simp_all add: none)
qed

section \<open>What the scaling summary says\<close>

lemma collect_nodes_iff:
  "(N, b, t) \<in> set (collect_nodes files nodes) \<longleftrightarrow> N \<in> set nodes \<and>
     (\<exists>br tr. files N False = Some br \<and> files N True = Some tr \<and> extract_ckpt_latencies br \<noteq> [] \<and>
       extract_ckpt_latencies tr \<noteq> [] \<and> b = lat_stats_of br \<and> t = lat_stats_of tr)"
  by (induction nodes) (auto split: option.splits)

lemma mean_zero_iff:
  assumes "xs \<noteq> []" and "\<forall>x \<in> set xs. 0 \<le> x"
  shows "np_mean xs = 0 \<longleftrightarrow> (\<forall>x \<in> set xs. x = 0)"
  using assms sum_list_nonneg_eq_0_iff [of xs] by (simp add: np_mean_def)

definition has_ckpt_rows :: "(int \<Rightarrow> bool \<Rightarrow> scaling_row list option) \<Rightarrow> int \<Rightarrow> bool" where
  "has_ckpt_rows files N \<longleftrightarrow>
     (case (files N False, files N True) of
        (Some b, Some t) \<Rightarrow> extract_ckpt_latencies b \<noteq> [] \<and> extract_ckpt_latencies t \<noteq> []
      | _ \<Rightarrow> False)"

lemma collect_nodes_fst: "map fst (collect_nodes files nodes) = filter (has_ckpt_rows files) nodes"
  by (induction nodes) (auto simp: has_ckpt_rows_def split: option.splits)

abbreviation ckpt_lats :: "(int \<Rightarrow> bool \<Rightarrow> scaling_row list option) \<Rightarrow> int \<Rightarrow> bool \<Rightarrow> real list" where
  "ckpt_lats files N tempo \<equiv> extract_ckpt_latencies (the (files N tempo))"

text \<open>An entry of the collected data: the statistics of the two runs of a node count.\<close>

lemma node_entry:
  assumes "x \<in> set (collect_nodes files nodes)"
  shows "x = (fst x, lat_stats_of (the (files (fst x) False)), lat_stats_of (the (files (fst x) True))) \<and>
    has_ckpt_rows files (fst x) \<and> fst x \<in> set nodes"
proof -
  obtain N b t where "x = (N, b, t)" by (metis surj_pair)
  with assms show ?thesis by (auto simp: collect_nodes_iff has_ckpt_rows_def)
qed

lemma lat_stats_mean: "ls_ckpt_mean (lat_stats_of (the (files N tempo))) = np_mean (ckpt_lats files N tempo)"
  by (simp add: lat_stats_of_def Let_def)

lemma node_base_mean:
  "x \<in> set (collect_nodes files nodes) \<Longrightarrow> ls_ckpt_mean (fst (snd x)) = np_mean (ckpt_lats files (fst x) False)"
  using node_entry lat_stats_mean by (metis fst_conv snd_conv)

lemma ckpt_lats_nonneg:
  assumes "\<forall>N mode rows. files N mode = Some rows \<longrightarrow> (\<forall>x \<in> set (extract_ckpt_latencies rows). 0 \<le> x)"
    and "has_ckpt_rows files N"
  shows "ckpt_lats files N tempo \<noteq> [] \<and> (\<forall>x \<in> set (ckpt_lats files N tempo). 0 \<le> x)"
  using assms by (cases tempo) (auto simp: has_ckpt_rows_def split: option.splits)

text \<open>The division by the mean of the baseline fails for a node count with latencies of zero.\<close>

lemma node_zero_mean:
  assumes "\<forall>N mode rows. files N mode = Some rows \<longrightarrow> (\<forall>x \<in> set (extract_ckpt_latencies rows). 0 \<le> x)"
  shows "list_ex (\<lambda>(N, b, t). ls_ckpt_mean b = 0) (sort_key fst (collect_nodes files nodes)) \<longleftrightarrow>
    (\<exists>N \<in> set nodes. has_ckpt_rows files N \<and> (\<forall>x \<in> set (ckpt_lats files N False). x = 0))"
proof -
  have fsts: "fst ` set (collect_nodes files nodes) = {N \<in> set nodes. has_ckpt_rows files N}"
    using arg_cong [OF collect_nodes_fst, of set] by (auto simp: image_def)
  have "list_ex (\<lambda>(N, b, t). ls_ckpt_mean b = 0) (sort_key fst (collect_nodes files nodes)) \<longleftrightarrow>
      (\<exists>x \<in> set (collect_nodes files nodes). np_mean (ckpt_lats files (fst x) False) = 0)"
    unfolding list_ex_iff case_prod_unfold set_sort using node_base_mean by (intro bex_cong refl) (simp only:)
  also have "\<dots> \<longleftrightarrow> (\<exists>N \<in> fst ` set (collect_nodes files nodes). np_mean (ckpt_lats files N False) = 0)" by simp
  also have "\<dots> \<longleftrightarrow> (\<exists>N \<in> set nodes. has_ckpt_rows files N \<and> np_mean (ckpt_lats files N False) = 0)"
    unfolding fsts by auto
  also have "\<dots> \<longleftrightarrow> (\<exists>N \<in> set nodes. has_ckpt_rows files N \<and> (\<forall>x \<in> set (ckpt_lats files N False). x = 0))"
    by (intro bex_cong refl conj_cong mean_zero_iff) (use ckpt_lats_nonneg [OF assms] in simp_all)
  finally show ?thesis .
qed

lemma node_reduction:
  assumes nonneg: "\<forall>N mode rows. files N mode = Some rows \<longrightarrow> (\<forall>x \<in> set (extract_ckpt_latencies rows). 0 \<le> x)"
    and x: "x \<in> set (collect_nodes files nodes)" and nz: "ls_ckpt_mean (fst (snd x)) \<noteq> 0"
    and le: "\<forall>y \<in> set (ckpt_lats files (fst x) True). \<forall>z \<in> set (ckpt_lats files (fst x) False). y \<le> z"
  shows "nr_reduction_pct (node_summary_of x) \<le> 0"
proof -
  let ?b = "np_mean (ckpt_lats files (fst x) False)" and ?t = "np_mean (ckpt_lats files (fst x) True)"
  note e = node_entry [OF x]
  have "?b \<noteq> 0" using nz node_base_mean [OF x] by simp
  moreover have "0 \<le> ?b" using avg_mean.avg_lower ckpt_lats_nonneg [OF nonneg] e by blast
  ultimately have "pct_change ?b ?t \<le> 0"
    using avg_mean.change_nonpos ckpt_lats_nonneg [OF nonneg] e le by (metis order_le_less)
  moreover have "nr_reduction_pct (node_summary_of x) = py_round 2 (pct_change ?b ?t)"
    using e lat_stats_mean
    by (metis (no_types, lifting) node_summary_of_def case_prod_conv node_summary_row.select_convs(10))
  ultimately show ?thesis by (simp add: py_round_nonpos)
qed

text \<open>
  The scaling summary. It raises \<open>ZeroDivisionError\<close> exactly when some plotted node count has a
  mean latency of zero in its baseline run; otherwise its rows are the node counts with checkpoint
  rows in both runs, in increasing order. Where no TEMPO collective is slower than any of the baseline,
  \<open>reduction_pct\<close> is not positive: it is the change of the mean, so a reduction is a negative number.
\<close>

lemma scaling_report:
  assumes "\<forall>N mode rows. files N mode = Some rows \<longrightarrow> (\<forall>x \<in> set (extract_ckpt_latencies rows). 0 \<le> x)"
  shows "(plot_node_scaling files nodes = Inl ZeroDivisionError \<longleftrightarrow>
      (\<exists>N \<in> set nodes. has_ckpt_rows files N \<and> (\<forall>x \<in> set (ckpt_lats files N False). x = 0))) \<and>
    (plot_node_scaling files nodes = Inr None \<longleftrightarrow> filter (has_ckpt_rows files) nodes = []) \<and>
    (\<forall>rows. plot_node_scaling files nodes = Inr (Some rows) \<longrightarrow>
      map nr_n_nodes rows = sort (filter (has_ckpt_rows files) nodes) \<and>
      (\<forall>row \<in> set rows.
        (\<forall>x \<in> set (ckpt_lats files (nr_n_nodes row) True). \<forall>y \<in> set (ckpt_lats files (nr_n_nodes row) False). x \<le> y) \<longrightarrow>
        nr_reduction_pct row \<le> 0))"
proof -
  let ?data = "sort_key fst (collect_nodes files nodes)"
  note zero = node_zero_mean [OF assms, of nodes]
  have fsts: "map fst ?data = sort (filter (has_ckpt_rows files) nodes)"
    unfolding collect_nodes_fst [symmetric] by (rule properties_for_sort [symmetric]) simp_all
  have empty: "?data = [] \<longleftrightarrow> filter (has_ckpt_rows files) nodes = []"
    by (metis fsts map_is_Nil_conv mset_sort mset_zero_iff)
  have none: "\<not> list_ex P ?data" if "?data = []" for P using that by simp
  have "nr_reduction_pct row \<le> 0"
    if rows: "plot_node_scaling files nodes = Inr (Some rows)" "row \<in> set rows"
      and le: "\<forall>x \<in> set (ckpt_lats files (nr_n_nodes row) True).
        \<forall>y \<in> set (ckpt_lats files (nr_n_nodes row) False). x \<le> y" for rows row
  proof -
    have nz: "\<not> list_ex (\<lambda>(N, b, t). ls_ckpt_mean b = 0) ?data" and "rows = map node_summary_of ?data"
      using rows(1) by (auto simp: plot_node_scaling_def Let_def split: if_splits)
    then obtain x where x: "x \<in> set (collect_nodes files nodes)" "row = node_summary_of x"
      using rows(2) by auto
    have "nr_n_nodes row = fst x" by (simp add: x(2) node_summary_of_def case_prod_unfold)
    moreover have "ls_ckpt_mean (fst (snd x)) \<noteq> 0" using nz x(1) by (auto simp: list_ex_iff case_prod_unfold)
    ultimately show ?thesis using node_reduction [OF assms x(1)] le x(2) by simp
  qed
  moreover have "map nr_n_nodes (map node_summary_of ?data) = map fst ?data"
    by (simp add: node_summary_of_def case_prod_unfold)
  ultimately show ?thesis using zero empty none fsts by (auto simp: plot_node_scaling_def Let_def)
qed

section \<open>What a checkpoint row measures\<close>

text \<open>
  The rows marked as those of a checkpoint step are measured before that step takes its checkpoint:
  whatever the checkpoint does, the rows after the step are the same. The flush it starts runs during
  the collectives of later steps, whose rows are not marked.
\<close>

lemma ckpt_rows_before_flush:
  "snd (snd (flagged_step hook (ops\<lparr>so_checkpoint := f\<rparr>) args step env st)) =
   snd (snd (flagged_step hook ops args step env st))"
  by (auto simp: flagged_step_def Let_def split: sum.split prod.split)

section \<open>Witnesses\<close>

definition sample_row :: "bool \<Rightarrow> real \<Rightarrow> ablation_row" where
  "sample_row ckpt bw =
     \<lparr>ar_step = 0, ar_ablation_mode = ''core'', ar_allreduce_ms = 1, ar_algbw_GBs = bw, ar_busbw_GBs = bw,
      ar_is_ckpt_step = of_bool ckpt, ar_timestamp = 0\<rparr>"

definition sample_files :: "string \<Rightarrow> ablation_row list option" where
  "sample_files m =
     (if m = ''baseline'' then Some [sample_row True 2, sample_row False 3]
      else if m = ''core'' then Some [sample_row True 3] else None)"

lemma ablation_report_witness:
  "\<exists>rows fig. plot_ablation sample_files = Some (rows, fig) \<and> map as_mode rows = [''baseline'', ''core''] \<and>
     (\<forall>row \<in> set rows. as_mode row = ''core'' \<longrightarrow> as_ckpt_n row + as_non_n row = 1 \<and> 0 \<le> as_vs_baseline row)"
proof -
  have "filter (\<lambda>m. sample_files m \<noteq> None) ABLATION_MODES = [''baseline'', ''core'']"
    by (simp add: ABLATION_MODES_def sample_files_def)
  moreover from this have "collect_modes sample_files ABLATION_MODES \<noteq> []"
    by (metis collect_modes_fst list.distinct(1) list.map_disc_iff)
  then obtain rows fig where p: "plot_ablation sample_files = Some (rows, fig)" by (simp add: plot_ablation_def Let_def)
  have files: "sample_files ''core'' = Some [sample_row True 3]"
    "sample_files ''baseline'' = Some [sample_row True 2, sample_row False 3]"
    by (simp_all add: sample_files_def)
  have bw: "ckpt_bw [sample_row True 3] = [3]" "ckpt_bw [sample_row True 2, sample_row False 3] = [2]"
    by (simp_all add: partition_rows_def sample_row_def)
  have "as_ckpt_n row + as_non_n row = 1 \<and> 0 \<le> as_vs_baseline row" if "row \<in> set rows" "as_mode row = ''core''" for row
    using conjunct2 [OF ablation_report [OF p], THEN bspec, OF that(1), THEN spec, unfolded that(2), THEN mp, OF files(1)]
    by (simp add: files(2) bw np_mean_def)
  ultimately show ?thesis using p plot_ablation_modes [OF p] by (intro exI [of _ rows] exI [of _ fig]) simp
qed

theorem ablation_study_modes_witness:
  "\<forall>ma env. ablation_file ma None (Map.empty :: bool fs) 4 (ablation_sample_args ''core'') env ''core_p1_p2_p3'' = None"
proof (intro allI)
  fix ma and env :: "string \<Rightarrow> int \<Rightarrow> bool v6_step_env"
  have "0 \<le> ta_warmup_steps (ablation_sample_args ''core'')" "0 < ta_num_steps (ablation_sample_args ''core'')"
    by (simp_all add: ablation_sample_args_def sample_args_def train_args.defs)
  from ablation_study_modes [OF this, of ma None Map.empty 4 env]
  show "ablation_file ma None Map.empty 4 (ablation_sample_args ''core'') env ''core_p1_p2_p3'' = None" by simp
qed

definition sample_lat :: "real \<Rightarrow> scaling_row" where
  "sample_lat ms =
     \<lparr>sr_step = 0, sr_n_nodes = 2, sr_world_size = 8, sr_allreduce_ms = ms, sr_algbw_GBs = 1,
      sr_busbw_GBs = 1, sr_is_ckpt_step = 1, sr_timestamp = 0\<rparr>"

definition sample_runs :: "int \<Rightarrow> bool \<Rightarrow> scaling_row list option" where
  "sample_runs N tempo = (if N = 4 then None else Some [sample_lat (if tempo then 1 else 2)])"

lemma scaling_report_witness:
  "\<exists>rows. plot_node_scaling sample_runs [8, 4, 2] = Inr (Some rows) \<and> map nr_n_nodes rows = [2, 8] \<and>
     (\<forall>row \<in> set rows. nr_reduction_pct row \<le> 0)"
proof -
  have h: "\<forall>N mode rows. sample_runs N mode = Some rows \<longrightarrow> (\<forall>x \<in> set (extract_ckpt_latencies rows). 0 \<le> x)"
    by (auto simp: sample_runs_def sample_lat_def extract_ckpt_latencies_def)
  note r = scaling_report [OF h, of "[8, 4, 2]"]
  have f: "filter (has_ckpt_rows sample_runs) [8, 4, 2] = [8, 2]"
    "\<not> (\<exists>N \<in> set [8, 4, 2 :: int]. has_ckpt_rows sample_runs N \<and> (\<forall>x \<in> set (ckpt_lats sample_runs N False). x = 0))"
    by (auto simp: has_ckpt_rows_def sample_runs_def extract_ckpt_latencies_def sample_lat_def)
  obtain rows where p: "plot_node_scaling sample_runs [8, 4, 2] = Inr (Some rows)"
    using r f by (auto simp: plot_node_scaling_def Let_def split: if_splits)
  have n: "map nr_n_nodes rows = [2, 8]" using r f p by simp
  then have "nr_n_nodes row \<in> {2, 8}" if "row \<in> set rows" for row
    by (metis image_eqI insertCI list.set(1,2) list.set_map that)
  then have "nr_reduction_pct row \<le> 0" if "row \<in> set rows" for row
    using r p that by (fastforce simp: sample_runs_def extract_ckpt_latencies_def sample_lat_def)
  with p n show ?thesis by (intro exI [of _ rows]) simp
qed

end
