(* ===== verification/Killer_Graph.thy ===== *)
theory Killer_Graph
  imports Training Eval_Stats
begin

text \<open>
  \<^verbatim>\<open>eval/e2e_training/plot_killer_graph.py\<close>: the bandwidth of the baseline, the contended and the
  paced run over the training steps. Arrays are lists; draws of NumPy's generator are arguments. What
  is handed to the plotting library is modelled, not how it draws; plotting two arrays of different
  lengths raises \<open>ValueError\<close>.
\<close>

section \<open>Data\<close>

text \<open>A run: the steps and the bandwidths. \<open>use_bus\<close> is the choice of \<open>--bw-metric\<close>.\<close>

type_synonym bw_series = "int list \<times> real list"

definition load_series :: "bool \<Rightarrow> e2e_row list \<Rightarrow> bw_series" where
  "load_series use_bus rows =
     (map er_step rows, map (if use_bus then er_busbw_GBs else er_algbw_GBs) rows)"

definition np_convolve_at :: "real list \<Rightarrow> nat \<Rightarrow> nat \<Rightarrow> real" where
  "np_convolve_at arr w k =
     sum_list (map (\<lambda>j. if j \<le> k \<and> k < j + w then arr ! j * (1 / of_nat w) else 0) [0..<length arr])"

text \<open>
  \<open>np.convolve(..., mode="same")\<close> returns the middle of the full convolution, as many values as the
  longer of array and kernel has, and raises for an empty array.
\<close>

definition rolling_mean :: "int \<Rightarrow> real list \<Rightarrow> real list result" where
  "rolling_mean w arr =
     (if w \<le> 1 then Inr arr
      else if arr = [] then Inl ValueError
      else let n = length arr; k = nat w
           in Inr (map (\<lambda>i. np_convolve_at arr k (i + (min n k - 1) div 2)) [0..<max n k]))"

text \<open>The synthetic runs, from the draws: of the baseline, the contended run, each step of a flush in
  the order the loops reach it, the paced run, and the dip at each checkpoint.\<close>

record demo_draws =
  dd_baseline :: "nat \<Rightarrow> real"
  dd_contention :: "nat \<Rightarrow> real"
  dd_flush :: "nat \<Rightarrow> real"
  dd_tempo :: "nat \<Rightarrow> real"
  dd_dip :: "nat \<Rightarrow> real"

definition demo_flush_steps :: "int \<Rightarrow> int list \<Rightarrow> (int \<times> int) list" where
  "demo_flush_steps num_steps ckpts =
     concat (map (\<lambda>c. map (\<lambda>i. (c, i)) [c..min (c + 30) num_steps - 1]) ckpts)"

fun demo_flush :: "(nat \<Rightarrow> real) \<Rightarrow> nat \<Rightarrow> (int \<times> int) list \<Rightarrow> real list \<Rightarrow> real list" where
  "demo_flush draws n [] contention = contention"
| "demo_flush draws n ((c, i) # rest) contention =
     (let severity = 1 - 45 / 100 * exp (- of_int (i - c) / 5)
      in demo_flush draws (Suc n) rest
           (contention[nat i := contention ! nat i * severity + draws n]))"

fun demo_dips :: "(nat \<Rightarrow> real) \<Rightarrow> nat \<Rightarrow> int list \<Rightarrow> real list \<Rightarrow> real list" where
  "demo_dips draws n [] tempo = tempo"
| "demo_dips draws n (c # rest) tempo =
     demo_dips draws (Suc n) rest (tempo[nat c := tempo ! nat c - draws n])"

definition generate_demo_data ::
    "nat \<Rightarrow> int \<Rightarrow> demo_draws \<Rightarrow> (int list \<times> real list \<times> real list \<times> real list) result" where
  "generate_demo_data num_steps ckpt_every d =
     and_then (py_range_step (int num_steps) ckpt_every) (\<lambda>ckpts.
       let baseline = map (\<lambda>i. np_clip 20 28 (242 / 10 + dd_baseline d i)) [0..<num_steps];
           contention0 = map (\<lambda>i. baseline ! i + dd_contention d i) [0..<num_steps];
           contention = demo_flush (dd_flush d) 0 (demo_flush_steps (int num_steps) ckpts) contention0;
           tempo0 = map (\<lambda>i. 238 / 10 + dd_tempo d i) [0..<num_steps];
           tempo = demo_dips (dd_dip d) 0 ckpts tempo0
       in Inr (map int [0..<num_steps], baseline, map (np_clip 8 28) contention, map (np_clip 20 28) tempo))"

section \<open>The graph\<close>

text \<open>\<open>np.argmin\<close>: the first index of the least value.\<close>

definition np_argmin :: "real list \<Rightarrow> nat" where
  "np_argmin xs = length (takeWhile (\<lambda>x. x \<noteq> Min (set xs)) xs)"

definition np_max :: "'a::linorder list \<Rightarrow> 'a result" where
  "np_max xs = (if xs = [] then Inl ValueError else Inr (Max (set xs)))"

definition np_min :: "'a::linorder list \<Rightarrow> 'a result" where
  "np_min xs = (if xs = [] then Inl ValueError else Inr (Min (set xs)))"

definition plot_lines :: "'a list \<Rightarrow> real list \<Rightarrow> ('a \<times> real) list result" where
  "plot_lines xs ys = (if length xs = length ys then Inr (zip xs ys) else Inl ValueError)"

record worst_point =
  wp_step :: int
  wp_bl_bw :: real
  wp_ct_bw :: real
  wp_degradation :: "real option"

definition worst_of :: "int list \<Rightarrow> real list \<Rightarrow> real list \<Rightarrow> worst_point option result" where
  "worst_of steps_ct bl_s ct_s =
     (let common_len = min (length bl_s) (length ct_s)
      in if 0 < common_len
         then let worst_idx = np_argmin (map (\<lambda>i. ct_s ! i - bl_s ! i) [0..<common_len])
              in if worst_idx < length steps_ct
                 then Inr (Some \<lparr>wp_step = steps_ct ! worst_idx, wp_bl_bw = bl_s ! worst_idx,
                                 wp_ct_bw = ct_s ! worst_idx,
                                 wp_degradation = map_option (\<lambda>d. d * 100)
                                   (np_div (bl_s ! worst_idx - ct_s ! worst_idx) (bl_s ! worst_idx))\<rparr>)
                 else Inl IndexError
         else Inr None)"

record killer_figure =
  kf_zones :: "(int \<times> int) list"
  kf_lines :: "(int \<times> real) list list"
  kf_worst :: "worst_point option"
  kf_marks :: "int list"
  kf_ylim :: "real \<times> real"

text \<open>The lines of one run: raw and smoothed.\<close>

definition run_lines :: "int \<Rightarrow> bw_series \<Rightarrow> ((int \<times> real) list list \<times> real list) result" where
  "run_lines smooth_w series =
     (case series of (steps, bw) \<Rightarrow>
        and_then (rolling_mean smooth_w bw) (\<lambda>smoothed.
        and_then (plot_lines steps bw) (\<lambda>raw.
        and_then (plot_lines steps smoothed) (\<lambda>smooth. Inr ([raw, smooth], smoothed)))))"

definition draw_killer_graph ::
    "bw_series \<Rightarrow> bw_series \<Rightarrow> bw_series option \<Rightarrow> int \<Rightarrow> int \<Rightarrow> bool \<Rightarrow> killer_figure result" where
  "draw_killer_graph bl ct tp ckpt_every smooth_w no_tempo =
     and_then (np_max (fst ct)) (\<lambda>last.
     and_then (py_range_step (last + 1) ckpt_every) (\<lambda>zones.
     and_then (run_lines smooth_w bl) (\<lambda>(bl_lines, bl_s).
     and_then (run_lines smooth_w ct) (\<lambda>(ct_lines, ct_s).
     and_then (case tp of Some t \<Rightarrow> if no_tempo then Inr [] else
         and_then (run_lines smooth_w t) (\<lambda>(tp_lines, tp_s). Inr tp_lines) | None \<Rightarrow> Inr []) (\<lambda>tp_lines.
     and_then (worst_of (fst ct) bl_s ct_s) (\<lambda>worst.
     and_then (py_range_step (max (if fst bl = [] then 0 else Max (set (fst bl))) last + 1) ckpt_every) (\<lambda>marks.
     and_then (np_min (snd ct)) (\<lambda>ct_min.
     and_then (np_max (snd bl)) (\<lambda>bl_max.
       let y_min = min (ct_min * (88 / 100)) 0; y_max = max (bl_max * (110 / 100)) 30
       in Inr \<lparr>kf_zones = map (\<lambda>c. (c, min (c + 30) last)) zones, kf_lines = bl_lines @ ct_lines @ tp_lines,
               kf_worst = worst, kf_marks = marks, kf_ylim = (max 0 y_min, y_max)\<rparr>)))))))))"

text \<open>The printed summary: mean, least and greatest bandwidth of each run, and the improvement.\<close>

record killer_summary =
  ks_rows :: "(real option \<times> real \<times> real) list"
  ks_improvement :: "real option"

definition summary_row :: "real list \<Rightarrow> (real option \<times> real \<times> real) result" where
  "summary_row bw =
     and_then (np_min bw) (\<lambda>lo. and_then (np_max bw) (\<lambda>hi. Inr (df_mean bw, lo, hi)))"

definition relative_gain :: "real list \<Rightarrow> real list \<Rightarrow> real option" where
  "relative_gain base bw =
     (case (df_mean base, df_mean bw) of
        (Some b, Some m) \<Rightarrow> map_option (\<lambda>q. q * 100) (np_div (m - b) b)
      | _ \<Rightarrow> None)"

definition summarise ::
    "bw_series \<Rightarrow> bw_series \<Rightarrow> bw_series option \<Rightarrow> bool \<Rightarrow> killer_summary result" where
  "summarise bl ct tp no_tempo =
     and_then (summary_row (snd bl)) (\<lambda>b.
     and_then (summary_row (snd ct)) (\<lambda>c.
       case tp of
         Some t \<Rightarrow>
           if no_tempo then Inr \<lparr>ks_rows = [b, c], ks_improvement = None\<rparr>
           else and_then (summary_row (snd t)) (\<lambda>r.
                  Inr \<lparr>ks_rows = [b, c, r], ks_improvement = relative_gain (snd ct) (snd t)\<rparr>)
       | None \<Rightarrow> Inr \<lparr>ks_rows = [b, c], ks_improvement = None\<rparr>))"

text \<open>The figure is saved before the summary is printed.\<close>

definition plot_killer_graph ::
    "bw_series \<Rightarrow> bw_series \<Rightarrow> bw_series option \<Rightarrow> int \<Rightarrow> int \<Rightarrow> bool
     \<Rightarrow> killer_summary result \<times> killer_figure option" where
  "plot_killer_graph bl ct tp ckpt_every smooth_w no_tempo =
     (case draw_killer_graph bl ct tp ckpt_every smooth_w no_tempo of
        Inl e \<Rightarrow> (Inl e, None)
      | Inr fig \<Rightarrow> (summarise bl ct tp no_tempo, Some fig))"

section \<open>The comparison of scales\<close>

definition SCALE_CFG :: "(string \<times> string \<times> nat) list" where
  "SCALE_CFG = [(''2node'', ''2 nodes (8 GPU)'', 8), (''4node'', ''4 nodes (16 GPU)'', 16),
     (''8node'', ''8 nodes (32 GPU)'', 32)]"

text \<open>Steps and bandwidths of one scale; drawn placeholders where a file is missing.\<close>

definition scale_series ::
    "(string \<Rightarrow> string \<Rightarrow> e2e_row list option) \<Rightarrow> bool \<Rightarrow> (nat \<Rightarrow> nat \<Rightarrow> real) \<Rightarrow> (nat \<Rightarrow> nat \<Rightarrow> real) \<Rightarrow> nat
     \<Rightarrow> int list \<times> real list \<times> real list" where
  "scale_series files use_bus z0 z1 idx =
     (let dname = fst (SCALE_CFG ! idx)
      in case (files dname ''baseline'', files dname ''contention'') of
           (Some b, Some c) \<Rightarrow>
             (let (steps, bw_bl) = load_series use_bus b; (cs, bw_ct) = load_series use_bus c
              in (take (length bw_bl) steps, bw_bl, bw_ct))
         | _ \<Rightarrow>
             (let base_bw = 245 / 10 - of_nat idx * (3 / 2);
                  bw_bl = map (\<lambda>i. base_bw + z0 idx i) [0..<100];
                  bw_ct = map (\<lambda>i. bw_bl ! i * (72 / 100 - of_nat idx * (5 / 100)) + z1 idx i) [0..<100]
              in (map int [0..<100], bw_bl, bw_ct)))"

text \<open>The drop in percent; \<open>None\<close> is \<open>nan\<close>. The means are Python floats, whose division raises.\<close>

definition scale_drop :: "real list \<Rightarrow> real list \<Rightarrow> real option result" where
  "scale_drop bl ct =
     (if bl = [] then Inr None
      else if np_mean bl = 0 then Inl ZeroDivisionError
      else if ct = [] then Inr None
      else Inr (Some (100 * (np_mean bl - np_mean ct) / np_mean bl)))"

definition scale_one :: "int \<Rightarrow> int list \<times> real list \<times> real list \<Rightarrow> real option result" where
  "scale_one smooth_w x =
     (case x of (steps, bl, ct) \<Rightarrow>
        and_then (rolling_mean smooth_w bl) (\<lambda>bl_s.
        and_then (rolling_mean smooth_w ct) (\<lambda>ct_s.
        and_then (scale_drop bl_s ct_s) (\<lambda>drop.
        and_then (plot_lines steps bl_s) (\<lambda>l1.
        and_then (plot_lines steps ct_s) (\<lambda>l2. Inr drop))))))"

text \<open>The drops of the three scales, the amplification where it is printed, and whether the message
  that confirms the hypothesis is printed. An axis limit that is \<open>nan\<close> raises.\<close>

definition plot_scale_compare ::
    "(string \<Rightarrow> string \<Rightarrow> e2e_row list option) \<Rightarrow> bool \<Rightarrow> (nat \<Rightarrow> nat \<Rightarrow> real) \<Rightarrow> (nat \<Rightarrow> nat \<Rightarrow> real) \<Rightarrow> int
     \<Rightarrow> (real option list \<times> real option \<times> bool) result" where
  "plot_scale_compare files use_bus z0 z1 smooth_w =
     and_then (scale_one smooth_w (scale_series files use_bus z0 z1 0)) (\<lambda>d0.
     and_then (scale_one smooth_w (scale_series files use_bus z0 z1 1)) (\<lambda>d1.
     and_then (scale_one smooth_w (scale_series files use_bus z0 z1 2)) (\<lambda>d2.
       case d0 of
         None \<Rightarrow> Inl ValueError
       | Some first \<Rightarrow>
           let amplification = (if 0 < first then map_option (\<lambda>l. l / first) d2 else None)
           in Inr ([d0, d1, d2], amplification,
                   (case amplification of Some a \<Rightarrow> 3 / 2 \<le> a | None \<Rightarrow> False)))))"

section \<open>The program\<close>

record killer_args =
  ka_baseline :: "e2e_row list option"
  ka_contention :: "e2e_row list option"
  ka_tempo :: "e2e_row list option"
  ka_ckpt_every :: int
  ka_use_bus :: bool
  ka_smooth :: int
  ka_demo :: bool
  ka_no_tempo :: bool

text \<open>
  Without \<open>--scale-compare\<close>. A file argument that is given is the rows of the file. \<open>None\<close> is the
  exit with code 1 for missing arguments.
\<close>

definition killer_main :: "killer_args \<Rightarrow> demo_draws \<Rightarrow> (killer_summary result \<times> killer_figure option) option" where
  "killer_main a draws =
     (if ka_demo a
      then (case generate_demo_data 400 (ka_ckpt_every a) draws of
              Inl e \<Rightarrow> Some (Inl e, None)
            | Inr (steps, bl, ct, tp) \<Rightarrow>
                Some (plot_killer_graph (steps, bl) (steps, ct)
                  (if ka_no_tempo a then None else Some (steps, tp)) (ka_ckpt_every a) (ka_smooth a) (ka_no_tempo a)))
      else case (ka_baseline a, ka_contention a) of
             (Some b, Some c) \<Rightarrow>
               Some (plot_killer_graph (load_series (ka_use_bus a) b) (load_series (ka_use_bus a) c)
                 (if ka_no_tempo a then None else map_option (load_series (ka_use_bus a)) (ka_tempo a))
                 (ka_ckpt_every a) (ka_smooth a) (ka_no_tempo a))
           | _ \<Rightarrow> None)"

section \<open>Smoothing\<close>

lemma rolling_mean_length:
  "rolling_mean w arr = Inr ys \<Longrightarrow> length ys = (if w \<le> 1 then length arr else max (length arr) (nat w))"
  by (auto simp: rolling_mean_def Let_def split: if_splits)

lemma sum_window:
  "sum_list (map (\<lambda>j. if a \<le> j \<and> j < b then f j else 0) [0..<n]) = sum_list (map f [a..<min n b])"
  for f :: "nat \<Rightarrow> real"
proof (induction n)
  case (Suc n)
  then show ?case by (cases "a \<le> n \<and> n < b") (auto simp: min_def not_le)
qed simp

text \<open>The value at \<open>k\<close> of the full convolution adds the \<open>w\<close> values that end at \<open>k\<close>, as far as they exist.\<close>

lemma np_convolve_window:
  assumes "0 < w"
  shows "np_convolve_at arr w k = sum_list (map ((!) arr) [Suc k - w..<min (length arr) (Suc k)]) / of_nat w"
proof -
  have "(\<lambda>j. if j \<le> k \<and> k < j + w then arr ! j * (1 / of_nat w) else 0) =
      (\<lambda>j. if Suc k - w \<le> j \<and> j < Suc k then arr ! j * (1 / of_nat w) else 0)"
    using assms by (auto simp: fun_eq_iff)
  then show ?thesis
    by (simp only: np_convolve_at_def sum_window sum_list_mult_const) simp
qed

lemma take_drop_nth: "a + n \<le> length xs \<Longrightarrow> take n (drop a xs) = map ((!) xs) [a..<a + n]"
  by (rule nth_equalityI) simp_all

lemma rolling_mean_nth:
  assumes "1 < w" and "arr \<noteq> []"
  obtains ys where "rolling_mean w arr = Inr ys" and "length ys = max (length arr) (nat w)"
    and "\<And>i. i < length ys \<Longrightarrow>
      ys ! i = np_convolve_at arr (nat w) (i + (min (length arr) (nat w) - 1) div 2)"
  using assms that by (simp add: rolling_mean_def Let_def)

lemma np_convolve_bounds:
  assumes "0 < w" and "\<forall>x \<in> set arr. 0 \<le> x \<and> x \<le> b" and "0 \<le> b"
  shows "0 \<le> np_convolve_at arr w k \<and> np_convolve_at arr w k \<le> b"
proof -
  let ?xs = "map ((!) arr) [Suc k - w..<min (length arr) (Suc k)]"
  have "\<forall>x \<in> set ?xs. 0 \<le> x \<and> x \<le> b" using assms(2) by auto
  from sum_list_between [OF this] have s: "0 \<le> sum_list ?xs" "sum_list ?xs \<le> of_nat (length ?xs) * b" by auto
  have "length ?xs \<le> w" by simp
  then have "of_nat (length ?xs) * b \<le> of_nat w * b" using assms(3) by (intro mult_right_mono) simp_all
  with s assms(1) show ?thesis
    by (simp add: np_convolve_window pos_divide_le_eq mult.commute del: length_map)
qed

text \<open>Away from the ends the value is the mean of the \<open>w\<close> values around it.\<close>

lemma np_convolve_interior:
  assumes "0 < w" and "w \<le> Suc k" and "k < length arr"
  shows "np_convolve_at arr w k = np_mean (take w (drop (Suc k - w) arr))"
proof -
  have "min (length arr) (Suc k) = (Suc k - w) + w" using assms by simp
  moreover have "take w (drop (Suc k - w) arr) = map ((!) arr) [Suc k - w..<(Suc k - w) + w]"
    using assms by (intro take_drop_nth) simp
  ultimately show ?thesis using assms by (simp add: np_convolve_window np_mean_def)
qed

text \<open>
  The smoothing. With a window of at least 2 that is no longer than the array the result is as
  long as the array; every value lies between 0 and the largest bandwidth; and away from the ends it
  is the mean of the window around it, so in the range of its samples. With a longer window the result
  has the length of the window, and drawing it over the steps raises.
\<close>

lemma rolling_mean_correct:
  assumes "1 < w" and "arr \<noteq> []" and "\<forall>x \<in> set arr. 0 \<le> x \<and> x \<le> b"
  shows "\<exists>ys. rolling_mean w arr = Inr ys \<and> (\<forall>y \<in> set ys. 0 \<le> y \<and> y \<le> b) \<and>
    (nat w \<le> length arr \<longrightarrow> length ys = length arr \<and>
      (\<forall>i. nat w \<le> i + (nat w - 1) div 2 + 1 \<and> i + (nat w - 1) div 2 < length arr \<longrightarrow>
        ys ! i = np_mean (take (nat w) (drop (i + (nat w - 1) div 2 + 1 - nat w) arr)))) \<and>
    (length arr < nat w \<longrightarrow> (\<forall>steps :: int list. length steps = length arr \<longrightarrow> plot_lines steps ys = Inl ValueError))"
proof -
  have w: "0 < nat w" using assms(1) by simp
  obtain ys where ys: "rolling_mean w arr = Inr ys" and len: "length ys = max (length arr) (nat w)"
    and nth: "\<And>i. i < length ys \<Longrightarrow> ys ! i = np_convolve_at arr (nat w) (i + (min (length arr) (nat w) - 1) div 2)"
    using rolling_mean_nth [OF assms(1,2)] by blast
  have "0 \<le> b" using assms(2,3) by (cases arr) force+
  then have "\<forall>y \<in> set ys. 0 \<le> y \<and> y \<le> b"
    using nth np_convolve_bounds [OF w assms(3)] by (metis in_set_conv_nth)
  moreover have "ys ! i = np_mean (take (nat w) (drop (i + (nat w - 1) div 2 + 1 - nat w) arr))"
    if "nat w \<le> length arr" "nat w \<le> i + (nat w - 1) div 2 + 1" "i + (nat w - 1) div 2 < length arr" for i
  proof -
    have "i < length ys" using that(3) unfolding len by linarith
    then have "ys ! i = np_convolve_at arr (nat w) (i + (nat w - 1) div 2)"
      using nth that(1) by (simp only: min_absorb2)
    then show ?thesis using np_convolve_interior [OF w _ that(3)] that(2) by (simp only: Suc_eq_plus1)
  qed
  ultimately show ?thesis using ys len by (intro exI [of _ ys]) (auto simp: plot_lines_def)
qed

section \<open>Results of the graph\<close>

lemma np_argmin_least:
  assumes "xs \<noteq> []"
  shows "np_argmin xs < length xs" and "xs ! np_argmin xs = Min (set xs)"
proof -
  have "Min (set xs) \<in> set xs" using assms by simp
  then have "takeWhile (\<lambda>x. x \<noteq> Min (set xs)) xs \<noteq> xs" by (metis set_takeWhileD)
  then show "np_argmin xs < length xs"
    by (metis length_takeWhile_le np_argmin_def order_le_neq_trans takeWhile_eq_take take_all_iff)
  then show "xs ! np_argmin xs = Min (set xs)"
    unfolding np_argmin_def using nth_length_takeWhile [of "\<lambda>x. x \<noteq> Min (set xs)" xs] by blast
qed

definition too_short :: "int \<Rightarrow> bw_series \<Rightarrow> bool" where
  "too_short w x \<longleftrightarrow> 1 < w \<and> length (snd x) < nat w"

lemma run_lines_Inl:
  assumes "length (fst x) = length (snd x)"
  shows "run_lines w x = Inl e \<longleftrightarrow> e = ValueError \<and> too_short w x"
proof (cases x)
  case (Pair steps bw)
  show ?thesis
  proof (cases "rolling_mean w bw")
    case (Inl e')
    then show ?thesis using Pair by (auto simp: run_lines_def rolling_mean_def too_short_def Let_def split: if_splits)
  next
    case (Inr ys)
    from rolling_mean_length [OF this] show ?thesis
      using Inr Pair assms by (auto simp: run_lines_def plot_lines_def too_short_def)
  qed
qed

lemma run_lines_Inr:
  assumes "length (fst x) = length (snd x)" and "run_lines w x = Inr (lines, sm)"
  shows "length sm = length (snd x)" and "rolling_mean w (snd x) = Inr sm"
  using assms by (auto simp: run_lines_def plot_lines_def and_then_Inr case_prod_unfold split: if_splits)

lemma run_lines_ok:
  assumes "length (fst x) = length (snd x)" and "\<not> too_short w x"
  obtains lines sm where "run_lines w x = Inr (lines, sm)"
  using run_lines_Inl [OF assms(1)] assms(2) by (cases "run_lines w x") auto

lemma worst_of_ok:
  assumes "bl_s \<noteq> []" "ct_s \<noteq> []" and "length ct_s = length steps"
  obtains wp where "worst_of steps bl_s ct_s = Inr (Some wp)"
    and "\<And>i. i < min (length bl_s) (length ct_s) \<Longrightarrow> wp_ct_bw wp - wp_bl_bw wp \<le> ct_s ! i - bl_s ! i"
proof -
  let ?n = "min (length bl_s) (length ct_s)" and ?d = "\<lambda>i. ct_s ! i - bl_s ! i"
  let ?ds = "map ?d [0..<?n]"
  have n: "0 < ?n" using assms(1,2) by simp
  then have ne: "?ds \<noteq> []" by simp
  note a = np_argmin_least [OF ne]
  then have i: "np_argmin ?ds < ?n" by simp
  then have m: "?d (np_argmin ?ds) = Min (set ?ds)" using a(2) by simp
  have le: "?d (np_argmin ?ds) \<le> ?d i" if "i < ?n" for i
    unfolding m using that by (intro Min_le) auto
  show thesis
    by (rule that [of "\<lparr>wp_step = steps ! np_argmin ?ds, wp_bl_bw = bl_s ! np_argmin ?ds,
          wp_ct_bw = ct_s ! np_argmin ?ds, wp_degradation = map_option (\<lambda>d. d * 100)
            (np_div (bl_s ! np_argmin ?ds - ct_s ! np_argmin ?ds) (bl_s ! np_argmin ?ds))\<rparr>"])
      (use n i le assms(3) in \<open>simp_all add: worst_of_def Let_def\<close>)
qed

text \<open>When a figure is drawn.\<close>

definition drawable :: "bw_series \<Rightarrow> bw_series \<Rightarrow> bw_series option \<Rightarrow> int \<Rightarrow> int \<Rightarrow> bool \<Rightarrow> bool" where
  "drawable bl ct tp ckpt_every w no_tempo \<longleftrightarrow>
     ckpt_every \<noteq> 0 \<and> snd bl \<noteq> [] \<and> snd ct \<noteq> [] \<and> \<not> too_short w bl \<and> \<not> too_short w ct \<and>
     (case tp of Some t \<Rightarrow> no_tempo \<or> \<not> too_short w t | None \<Rightarrow> True)"

abbreviation wf_series :: "bw_series \<Rightarrow> bool" where
  "wf_series x \<equiv> length (fst x) = length (snd x)"

lemma draw_drawable:
  assumes "wf_series bl" "wf_series ct" "\<forall>t. tp = Some t \<longrightarrow> wf_series t"
    and "draw_killer_graph bl ct tp ckpt_every w no_tempo = Inr fig"
  shows "drawable bl ct tp ckpt_every w no_tempo"
proof -
  obtain last zones b c where r: "np_max (fst ct) = Inr last" "py_range_step (last + 1) ckpt_every = Inr zones"
      "run_lines w bl = Inr b" "run_lines w ct = Inr c"
    and t: "(case tp of Some t \<Rightarrow> if no_tempo then Inr [] else
         and_then (run_lines w t) (\<lambda>(tp_lines, tp_s). Inr tp_lines) | None \<Rightarrow> Inr []) \<noteq> (Inl e :: (int \<times> real) list list result)"
      "\<exists>x. np_max (snd bl) = Inr x" for e
    using assms(4) unfolding draw_killer_graph_def by (auto simp: and_then_Inr case_prod_unfold)
  have ne: "snd ct \<noteq> []" "snd bl \<noteq> []" "ckpt_every \<noteq> 0"
    using r(1,2) t(2) assms(2) by (auto simp: np_max_def py_range_step_def split: if_splits)
  have short: "\<not> too_short w bl" "\<not> too_short w ct" using r(3,4) run_lines_Inl assms(1,2) by (metis Inr_not_Inl)+
  have "no_tempo \<or> \<not> too_short w t'" if "tp = Some t'" for t'
    using t(1) [of ValueError] that run_lines_Inl [of t' w ValueError] assms(3) by auto
  with ne short show ?thesis by (auto simp: drawable_def split: option.split)
qed

lemma drawable_draw:
  assumes "wf_series bl" "wf_series ct" "\<forall>t. tp = Some t \<longrightarrow> wf_series t"
    and d: "drawable bl ct tp ckpt_every w no_tempo"
  obtains fig wp bl_s ct_s where "draw_killer_graph bl ct tp ckpt_every w no_tempo = Inr fig"
    and "rolling_mean w (snd bl) = Inr bl_s" "rolling_mean w (snd ct) = Inr ct_s"
    and "kf_worst fig = Some wp" "fst (kf_ylim fig) = 0"
    and "\<And>i. i < min (length (snd bl)) (length (snd ct)) \<Longrightarrow> wp_ct_bw wp - wp_bl_bw wp \<le> ct_s ! i - bl_s ! i"
proof -
  obtain lb bl_s where b: "run_lines w bl = Inr (lb, bl_s)"
    using d run_lines_ok [OF assms(1)] by (auto simp: drawable_def)
  obtain lc ct_s where c: "run_lines w ct = Inr (lc, ct_s)"
    using d run_lines_ok [OF assms(2)] by (auto simp: drawable_def)
  obtain lt where t: "(case tp of Some t \<Rightarrow> if no_tempo then Inr [] else
      and_then (run_lines w t) (\<lambda>(tp_lines, tp_s). Inr tp_lines) | None \<Rightarrow> Inr []) = (Inr lt :: (int \<times> real) list list result)"
  proof (cases tp)
    case (Some t)
    show ?thesis
    proof (cases no_tempo)
      case False
      with Some d assms(3) have "wf_series t" "\<not> too_short w t" by (simp_all add: drawable_def)
      then obtain l sm where "run_lines w t = Inr (l, sm)" by (rule run_lines_ok)
      with Some False show ?thesis by (intro that) simp
    qed (use Some that in simp)
  qed (use that in simp)
  note sb = run_lines_Inr [OF assms(1) b] and sc = run_lines_Inr [OF assms(2) c]
  have "snd bl \<noteq> []" "snd ct \<noteq> []" "ckpt_every \<noteq> 0" using d by (simp_all add: drawable_def)
  moreover from this have "bl_s \<noteq> []" "ct_s \<noteq> []" "fst ct \<noteq> []"
    using sb(1) sc(1) assms(2) by (metis length_0_conv)+
  ultimately have ne: "bl_s \<noteq> []" "ct_s \<noteq> []" "fst ct \<noteq> []" "snd ct \<noteq> []" "snd bl \<noteq> []" "ckpt_every \<noteq> 0"
    by simp_all
  obtain wp where w: "worst_of (fst ct) bl_s ct_s = Inr (Some wp)"
    and least: "\<And>i. i < min (length bl_s) (length ct_s) \<Longrightarrow> wp_ct_bw wp - wp_bl_bw wp \<le> ct_s ! i - bl_s ! i"
    using worst_of_ok [OF ne(1,2), of "fst ct"] sc(1) assms(2) by auto
  have range: "\<exists>xs. py_range_step stop ckpt_every = Inr xs" for stop using ne(6) by (simp add: py_range_step_def)
  obtain zones where z: "py_range_step (Max (set (fst ct)) + 1) ckpt_every = Inr zones" using range by blast
  obtain marks where m: "py_range_step (max (if fst bl = [] then 0 else Max (set (fst bl))) (Max (set (fst ct))) + 1)
      ckpt_every = Inr marks" using range by blast
  let ?y_min = "min (Min (set (snd ct)) * (88 / 100)) 0"
  let ?fig = "\<lparr>kf_zones = map (\<lambda>c. (c, min (c + 30) (Max (set (fst ct))))) zones, kf_lines = lb @ lc @ lt,
    kf_worst = Some wp, kf_marks = marks, kf_ylim = (max 0 ?y_min, max (Max (set (snd bl)) * (110 / 100)) 30)\<rparr>"
  have "draw_killer_graph bl ct tp ckpt_every w no_tempo = Inr ?fig"
    using b c t w z m ne by (simp add: draw_killer_graph_def np_max_def np_min_def Let_def)
  from that [OF this sb(2) sc(2)] least sb(1) sc(1) show thesis by simp
qed

lemma summary_row_Inl: "summary_row bw = Inl e \<longleftrightarrow> bw = [] \<and> e = ValueError"
  by (auto simp: summary_row_def np_min_def np_max_def)

lemma summarise_Inl:
  assumes "snd bl \<noteq> []" "snd ct \<noteq> []"
  shows "summarise bl ct tp no_tempo = Inl e \<longleftrightarrow> e = ValueError \<and> (\<exists>t. tp = Some t \<and> \<not> no_tempo \<and> snd t = [])"
proof -
  obtain b c where bc: "summary_row (snd bl) = Inr b" "summary_row (snd ct) = Inr c"
    using assms by (simp add: summary_row_def np_min_def np_max_def)
  show ?thesis
  proof (cases tp)
    case (Some t)
    show ?thesis
    proof (cases "summary_row (snd t)")
      case (Inl e')
      then have "snd t = []" "e' = ValueError" by (simp_all add: summary_row_Inl)
      with Inl bc Some show ?thesis by (auto simp: summarise_def)
    next
      case (Inr r)
      then have "snd t \<noteq> []" by (auto simp: summary_row_def np_min_def)
      then show ?thesis using bc Some Inr by (simp add: summarise_def)
    qed
  qed (use bc in \<open>simp add: summarise_def\<close>)
qed

text \<open>
  What the graph needs and shows. A figure is drawn exactly when checkpoints have a period, both
  runs have rows and no drawn run is shorter than a smoothing window above one. Its worst point is the
  least difference of the smoothed runs over their common steps, and its lower limit is always zero.
  After it is saved only an empty TEMPO run can still make the summary raise.
\<close>

lemma killer_graph_result:
  assumes "wf_series bl" "wf_series ct" "\<forall>t. tp = Some t \<longrightarrow> wf_series t"
  shows "((\<exists>fig. snd (plot_killer_graph bl ct tp ckpt_every w no_tempo) = Some fig) \<longleftrightarrow>
      drawable bl ct tp ckpt_every w no_tempo) \<and>
    (\<forall>fig. snd (plot_killer_graph bl ct tp ckpt_every w no_tempo) = Some fig \<longrightarrow>
      fst (kf_ylim fig) = 0 \<and>
      (\<exists>wp bl_s ct_s. kf_worst fig = Some wp \<and>
        rolling_mean w (snd bl) = Inr bl_s \<and> rolling_mean w (snd ct) = Inr ct_s \<and>
        (\<forall>i < min (length (snd bl)) (length (snd ct)). wp_ct_bw wp - wp_bl_bw wp \<le> ct_s ! i - bl_s ! i)) \<and>
      (\<forall>e. fst (plot_killer_graph bl ct tp ckpt_every w no_tempo) = Inl e \<longleftrightarrow>
        e = ValueError \<and> (\<exists>t. tp = Some t \<and> \<not> no_tempo \<and> snd t = [])))"
proof (cases "drawable bl ct tp ckpt_every w no_tempo")
  case True
  obtain fig wp bl_s ct_s where fig: "draw_killer_graph bl ct tp ckpt_every w no_tempo = Inr fig"
    and r: "rolling_mean w (snd bl) = Inr bl_s" "rolling_mean w (snd ct) = Inr ct_s"
      "kf_worst fig = Some wp" "fst (kf_ylim fig) = 0"
      "\<And>i. i < min (length (snd bl)) (length (snd ct)) \<Longrightarrow> wp_ct_bw wp - wp_bl_bw wp \<le> ct_s ! i - bl_s ! i"
    by (rule drawable_draw [OF assms True], rule that, assumption+)
  have "snd bl \<noteq> []" "snd ct \<noteq> []" using True by (simp_all add: drawable_def)
  from summarise_Inl [OF this, of tp no_tempo] fig r True show ?thesis by (auto simp: plot_killer_graph_def)
next
  case False
  then obtain e where "draw_killer_graph bl ct tp ckpt_every w no_tempo = Inl e"
    using draw_drawable [OF assms] by (cases "draw_killer_graph bl ct tp ckpt_every w no_tempo") auto
  with False show ?thesis by (simp add: plot_killer_graph_def)
qed

section \<open>The scales\<close>

text \<open>
  The check for super-linear growth accepts 1.5 from 8 to 32 GPUs: a drop that grows by half while the
  nodes grow fourfold confirms it.
\<close>

lemma scale_confirmed:
  assumes "plot_scale_compare files use_bus z0 z1 w = Inr ([Some d0, d1, Some d2], amp, confirmed)"
  shows "confirmed \<longleftrightarrow> 0 < d0 \<and> 3 / 2 * d0 \<le> d2"
proof -
  obtain x0 x1 x2 where "scale_one w (scale_series files use_bus z0 z1 0) = Inr x0"
    "scale_one w (scale_series files use_bus z0 z1 1) = Inr x1"
    "scale_one w (scale_series files use_bus z0 z1 2) = Inr x2"
    using assms unfolding plot_scale_compare_def and_then_Inr by blast
  then show ?thesis using assms
    by (cases x0; cases "0 < the x0") (auto simp: plot_scale_compare_def Let_def pos_le_divide_eq)
qed

section \<open>The synthetic runs\<close>

lemma demo_flush_length [simp]: "length (demo_flush draws n ps xs) = length xs"
  by (induction draws n ps xs rule: demo_flush.induct) (simp_all add: Let_def)

lemma demo_dips_length [simp]: "length (demo_dips draws n cs xs) = length xs"
  by (induction draws n cs xs rule: demo_dips.induct) simp_all

lemma np_clip_range: "lo \<le> hi \<Longrightarrow> lo \<le> np_clip lo hi x \<and> np_clip lo hi x \<le> hi"
  by (simp add: np_clip_def)

lemma demo_data_ranges:
  assumes "generate_demo_data n k d = Inr (steps, bl, ct, tp)"
  shows "length steps = n" "length bl = n" "length ct = n" "length tp = n"
    and "\<forall>x \<in> set bl \<union> set tp. 20 \<le> x \<and> x \<le> 28" and "\<forall>x \<in> set ct. 8 \<le> x \<and> x \<le> 28"
  using assms by (auto simp: generate_demo_data_def Let_def and_then_Inr np_clip_range)

text \<open>The demo draws its figure whenever the period is positive and the window is at most 400.\<close>

lemma demo_drawable:
  assumes "ka_demo a" and "ka_ckpt_every a \<noteq> 0" and "ka_smooth a \<le> 400"
  shows "\<exists>sum fig. killer_main a d = Some (Inr sum, Some fig)"
proof -
  obtain ckpts where "py_range_step 400 (ka_ckpt_every a) = Inr ckpts"
    using assms(2) by (cases "py_range_step 400 (ka_ckpt_every a)") (auto simp: py_range_step_def split: if_splits)
  then obtain steps bl ct tp where g: "generate_demo_data 400 (ka_ckpt_every a) d = Inr (steps, bl, ct, tp)"
    by (simp add: generate_demo_data_def Let_def)
  note r = demo_data_ranges [OF g]
  let ?tp = "if ka_no_tempo a then None else Some (steps, tp)"
  have wf: "wf_series (steps, bl)" "wf_series (steps, ct)" "\<forall>t. ?tp = Some t \<longrightarrow> wf_series t" using r(1-4) by auto
  have ne: "bl \<noteq> []" "ct \<noteq> []" "tp \<noteq> []" using r(2-4) by auto
  have dr: "drawable (steps, bl) (steps, ct) ?tp (ka_ckpt_every a) (ka_smooth a) (ka_no_tempo a)"
    using assms(2,3) ne r(2-4) by (simp add: drawable_def too_short_def zless_nat_eq_int_zless)
  obtain fig where "draw_killer_graph (steps, bl) (steps, ct) ?tp (ka_ckpt_every a) (ka_smooth a) (ka_no_tempo a) = Inr fig"
    using drawable_draw [OF wf dr] by metis
  moreover have "summarise (steps, bl) (steps, ct) ?tp (ka_no_tempo a) \<noteq> Inl e" for e
    using ne by (simp add: summarise_Inl)
  then obtain sum where "summarise (steps, bl) (steps, ct) ?tp (ka_no_tempo a) = Inr sum" by (meson sum.exhaust)
  ultimately show ?thesis using assms(1) g by (simp add: killer_main_def plot_killer_graph_def)
qed

section \<open>Witnesses\<close>

lemma rolling_mean_correct_witness:
  "\<exists>ys. rolling_mean 3 [1, 2, 6, 4] = Inr ys \<and> (\<forall>y \<in> set ys. 0 \<le> y \<and> y \<le> 6) \<and> length ys = 4 \<and> ys ! 1 = 3"
proof -
  obtain ys where ys: "rolling_mean 3 [1, 2, 6, 4] = Inr ys" "\<forall>y \<in> set ys. 0 \<le> y \<and> y \<le> 6"
      "length ys = 4" "\<forall>i. 3 \<le> i + 1 + 1 \<and> i + 1 < 4 \<longrightarrow>
        ys ! i = np_mean (take 3 (drop (i + 1 + 1 - 3) [1, 2, 6, 4]))"
    using rolling_mean_correct [of 3 "[1, 2, 6, 4]" 6] by auto
  from ys(4) [rule_format, of 1] have "ys ! 1 = 3" by (simp add: np_mean_def)
  with ys show ?thesis by blast
qed

lemma killer_graph_result_witness:
  "\<exists>fig. snd (plot_killer_graph ([0, 1], [24, 24]) ([0, 1], [20, 12]) None 50 1 False) = Some fig \<and>
     (\<exists>wp. kf_worst fig = Some wp \<and> wp_ct_bw wp - wp_bl_bw wp \<le> - 12)"
proof -
  have d: "drawable ([0, 1], [24, 24]) ([0, 1], [20, 12]) None 50 1 False"
    by (simp add: drawable_def too_short_def)
  note r = killer_graph_result [of "([0, 1], [24, 24])" "([0, 1], [20, 12])" None 50 1 False]
  obtain fig where fig: "snd (plot_killer_graph ([0, 1], [24, 24]) ([0, 1], [20, 12]) None 50 1 False) = Some fig"
    using r d by auto
  then obtain wp bl_s ct_s where "kf_worst fig = Some wp" "rolling_mean 1 [24, 24] = Inr bl_s"
      "rolling_mean 1 [20, 12] = Inr ct_s" "\<forall>i < 2. wp_ct_bw wp - wp_bl_bw wp \<le> ct_s ! i - bl_s ! i"
    using r by auto
  moreover from this(2-4) have "wp_ct_bw wp - wp_bl_bw wp \<le> - 12"
    by (auto simp: rolling_mean_def dest!: spec [of _ 1])
  ultimately show ?thesis using fig by blast
qed

end
