(* ===== verification/Chunk_Sweep.thy ===== *)
theory Chunk_Sweep
  imports Training Eval_Stats
begin

text \<open>
  \<^verbatim>\<open>scripts/simulate_chunk_sweep.py\<close>, which writes the runs of the chunk-size study, and the figure
  made of them (\<open>fig6_chunk_sweep\<close> of \<^verbatim>\<open>scripts/make_figures.py\<close>). The generator is the sequence
  \<open>z\<close> of its standard normal draws, of which the script has used the first \<open>n\<close>.
\<close>

section \<open>The simulated runs\<close>

text \<open>A data frame: its rows, and whether it has the two optional columns.\<close>

record sweep_table =
  st_rows :: "e2e_row list"
  st_has_vram :: bool
  st_has_chunk :: bool

definition SWEEP_CKPT_STEPS :: "int list" where
  "SWEEP_CKPT_STEPS = [20, 40, 60]"

definition chunk_mb_of :: "string \<Rightarrow> int" where
  "chunk_mb_of mode =
     (case map_of [(''tempo-16mb'', 16), (''tempo-64mb'', 64), (''tempo-128mb'', 128),
                   (''tempo-256mb'', 256), (''tempo-adaptive'', 128)] mode of
        Some m \<Rightarrow> m | None \<Rightarrow> 128)"

definition sweep_scale :: "real \<Rightarrow> real \<Rightarrow> int \<Rightarrow> real" where
  "sweep_scale ckpt_s other_s step = (if step \<in> set SWEEP_CKPT_STEPS then ckpt_s else other_s)"

text \<open>One row: two draws, for the bandwidth and for the memory.\<close>

definition sweep_row ::
    "string \<Rightarrow> real \<Rightarrow> real \<Rightarrow> real \<Rightarrow> bool \<Rightarrow> (nat \<Rightarrow> real) \<Rightarrow> nat \<Rightarrow> e2e_row \<Rightarrow> e2e_row" where
  "sweep_row mode ckpt_s other_s noise has_vram z n row =
     (let scale = sweep_scale ckpt_s other_s (er_step row);
          bw = max (er_algbw_GBs row * scale * (1 + noise * z n)) (1 / 2);
          vram = (if has_vram then er_vram_used_gb row else Some (55 / 10))
      in \<lparr>er_step = er_step row, er_latency_ms = py_round 4 (er_latency_ms row / scale),
          er_algbw_GBs = py_round 4 bw, er_busbw_GBs = py_round 4 (bw * (7 / 8)),
          er_timestamp = er_timestamp row,
          er_vram_used_gb = map_option (\<lambda>v. py_round 3 (v + 1 / 10 * z (Suc n))) vram,
          er_chunk_mb = Some (chunk_mb_of mode)\<rparr>)"

fun sweep_rows ::
    "string \<Rightarrow> real \<Rightarrow> real \<Rightarrow> real \<Rightarrow> bool \<Rightarrow> (nat \<Rightarrow> real) \<Rightarrow> nat \<Rightarrow> e2e_row list \<Rightarrow> e2e_row list" where
  "sweep_rows mode ckpt_s other_s noise has_vram z n [] = []"
| "sweep_rows mode ckpt_s other_s noise has_vram z n (row # rows) =
     sweep_row mode ckpt_s other_s noise has_vram z n row #
     sweep_rows mode ckpt_s other_s noise has_vram z (n + 2) rows"

definition make_sweep_csv :: "string \<Rightarrow> real \<Rightarrow> real \<Rightarrow> (nat \<Rightarrow> real) \<Rightarrow> nat \<Rightarrow> sweep_table \<Rightarrow> sweep_table" where
  "make_sweep_csv mode ckpt_s other_s z n tempo =
     \<lparr>st_rows = sweep_rows mode ckpt_s other_s (8 / 100) (st_has_vram tempo) z n (st_rows tempo),
      st_has_vram = True, st_has_chunk = True\<rparr>"

definition make_baseline_csv :: "sweep_table \<Rightarrow> sweep_table" where
  "make_baseline_csv baseline =
     (let df = (if st_has_vram baseline then baseline
                else baseline\<lparr>st_rows := map (\<lambda>r. r\<lparr>er_vram_used_gb := Some (55 / 10)\<rparr>) (st_rows baseline),
                              st_has_vram := True\<rparr>)
      in if st_has_chunk df then df
         else df\<lparr>st_rows := map (\<lambda>r. r\<lparr>er_chunk_mb := Some 0\<rparr>) (st_rows df), st_has_chunk := True\<rparr>)"

definition SWEEP_MODES :: "(string \<times> (real \<times> real) option) list" where
  "SWEEP_MODES =
     [(''baseline'', None), (''tempo-16mb'', Some (92 / 100, 96 / 100)),
      (''tempo-64mb'', Some (97 / 100, 98 / 100)), (''tempo-128mb'', Some (1, 1)),
      (''tempo-256mb'', Some (93 / 100, 102 / 100)), (''tempo-adaptive'', Some (106 / 100, 99 / 100))]"

text \<open>
  The loop over the modes. A file that exists is kept, and takes no draws. A frame without rows has no
  column \<open>step\<close>: the file is written, then the mean raises.
\<close>

fun sweep_loop ::
    "sweep_table \<Rightarrow> sweep_table \<Rightarrow> (nat \<Rightarrow> real) \<Rightarrow> nat \<Rightarrow> (string \<times> (real \<times> real) option) list
     \<Rightarrow> (string \<rightharpoonup> sweep_table) \<Rightarrow> unit result \<times> (string \<rightharpoonup> sweep_table)" where
  "sweep_loop baseline tempo z n [] files = (Inr (), files)"
| "sweep_loop baseline tempo z n ((mode, params) # modes) files =
     (case files mode of
        Some t \<Rightarrow> sweep_loop baseline tempo z n modes files
      | None \<Rightarrow>
          (case params of
             None \<Rightarrow> sweep_loop baseline tempo z n modes (files(mode \<mapsto> make_baseline_csv baseline))
           | Some (ckpt_s, other_s) \<Rightarrow>
               let df = make_sweep_csv mode ckpt_s other_s z n tempo
               in if st_rows df = [] then (Inl KeyError, files(mode \<mapsto> df))
                  else sweep_loop baseline tempo z (n + 2 * length (st_rows tempo)) modes (files(mode \<mapsto> df))))"

text \<open>The script; \<open>None\<close> is the exit with code 1 when a measured run is missing.\<close>

definition simulate_chunk_sweep ::
    "sweep_table option \<Rightarrow> sweep_table option \<Rightarrow> (nat \<Rightarrow> real) \<Rightarrow> (string \<rightharpoonup> sweep_table)
     \<Rightarrow> (unit result \<times> (string \<rightharpoonup> sweep_table)) option" where
  "simulate_chunk_sweep baseline tempo z files =
     (case (baseline, tempo) of
        (Some b, Some t) \<Rightarrow> Some (sweep_loop b t z 0 SWEEP_MODES files)
      | _ \<Rightarrow> None)"

section \<open>The figure\<close>

text \<open>Means of the selected rows.\<close>

definition at_ckpt :: "sweep_table \<Rightarrow> real list" where
  "at_ckpt t = map er_algbw_GBs (filter (\<lambda>r. er_step r \<in> set SWEEP_CKPT_STEPS) (st_rows t))"

definition off_ckpt :: "sweep_table \<Rightarrow> real list" where
  "off_ckpt t = map er_algbw_GBs (filter (\<lambda>r. \<not> er_step r \<in> set SWEEP_CKPT_STEPS) (st_rows t))"

record sweep_result =
  sw_folder :: string
  sw_ckpt_bw :: "real option"
  sw_other_bw :: "real option"
  sw_overall :: "real option"

definition sweep_result_of :: "string \<Rightarrow> sweep_table \<Rightarrow> sweep_result" where
  "sweep_result_of folder t =
     \<lparr>sw_folder = folder, sw_ckpt_bw = df_mean (at_ckpt t), sw_other_bw = df_mean (off_ckpt t),
      sw_overall = df_mean (map er_algbw_GBs (st_rows t))\<rparr>"

definition fig6_results :: "(string \<rightharpoonup> sweep_table) \<Rightarrow> sweep_result list" where
  "fig6_results files =
     concat (map (\<lambda>folder. case files folder of None \<Rightarrow> [] | Some t \<Rightarrow> [sweep_result_of folder t])
       (map fst SWEEP_MODES))"

text \<open>The percentages over the bars: against the first result, whichever mode that is.\<close>

definition fig6_labels :: "sweep_result list \<Rightarrow> (string \<times> real option) list" where
  "fig6_labels results =
     (case results of
        [] \<Rightarrow> []
      | first # rest \<Rightarrow>
          map (\<lambda>r. (sw_folder r,
            (case (sw_ckpt_bw first, sw_ckpt_bw r) of
               (Some b, Some c) \<Rightarrow> map_option (\<lambda>q. (q - 1) * 100) (np_div c b)
             | _ \<Rightarrow> None))) rest)"

section \<open>What the study shows\<close>

lemma sweep_rows_nth:
  "length (sweep_rows mode cs os noise hv z n rows) = length rows"
  "i < length rows \<Longrightarrow>
     sweep_rows mode cs os noise hv z n rows ! i = sweep_row mode cs os noise hv z (n + 2 * i) (rows ! i)"
  by (induction rows arbitrary: n i) (auto simp: nth_Cons split: nat.split)

lemma sweep_row_step [simp]: "er_step (sweep_row mode cs os noise hv z n row) = er_step row"
  by (simp add: sweep_row_def Let_def)

text \<open>How far the bandwidth of a row is from the scaled one, for draws of at most \<open>B\<close>.\<close>

lemma sweep_row_near:
  assumes "\<And>k. \<bar>z k\<bar> \<le> B" and "0 \<le> noise" and "0 \<le> er_algbw_GBs row" and "0 < cs" "0 < os"
    and "1 / 2 \<le> er_algbw_GBs row * sweep_scale cs os (er_step row) * (1 - noise * B)"
  shows "\<bar>er_algbw_GBs (sweep_row mode cs os noise hv z n row) - er_algbw_GBs row * sweep_scale cs os (er_step row)\<bar>
    \<le> er_algbw_GBs row * sweep_scale cs os (er_step row) * (noise * B) + 1 / 20000"
proof -
  let ?a = "er_algbw_GBs row * sweep_scale cs os (er_step row)"
  have a: "0 \<le> ?a" using assms(3-5) by (simp add: sweep_scale_def)
  have zn: "- (noise * B) \<le> noise * z n" "noise * z n \<le> noise * B"
    using assms(1) [of n] assms(2) mult_left_mono [of "- B" "z n" noise] mult_left_mono [of "z n" B noise]
    by (simp_all add: abs_le_iff)
  then have "?a * (1 - noise * B) \<le> ?a * (1 + noise * z n)" using a by (intro mult_left_mono) simp_all
  then have bw: "max (?a * (1 + noise * z n)) (1 / 2) = ?a * (1 + noise * z n)" using assms(6) by simp
  have "\<bar>?a * (1 + noise * z n) - ?a\<bar> \<le> ?a * (noise * B)"
    using mult_left_mono [OF zn(1) a] mult_left_mono [OF zn(2) a] by (simp add: abs_le_iff algebra_simps)
  moreover have "\<bar>py_round 4 (?a * (1 + noise * z n)) - ?a * (1 + noise * z n)\<bar> \<le> 1 / 20000"
    using py_round_near [of 4 "?a * (1 + noise * z n)"] by simp
  moreover have "er_algbw_GBs (sweep_row mode cs os noise hv z n row) = py_round 4 (?a * (1 + noise * z n))"
    using bw by (simp add: sweep_row_def Let_def)
  ultimately show ?thesis by linarith
qed

definition ckpt_rows :: "e2e_row list \<Rightarrow> real list" where
  "ckpt_rows rows = map er_algbw_GBs (filter (\<lambda>r. er_step r \<in> set SWEEP_CKPT_STEPS) rows)"

lemma at_ckpt_rows: "at_ckpt t = ckpt_rows (st_rows t)"
  by (simp add: at_ckpt_def ckpt_rows_def)

lemma abs_diff_add_le:
  fixes a b c d :: real
  shows "\<bar>a - b\<bar> \<le> x \<Longrightarrow> \<bar>c - d\<bar> \<le> y \<Longrightarrow> \<bar>(a + c) - (b + d)\<bar> \<le> x + y"
  by linarith

lemma sweep_rows_sum:
  assumes "\<And>k. \<bar>z k\<bar> \<le> B" and "0 \<le> noise" and "0 < cs" "0 < os"
    and "\<forall>r \<in> set rows. 0 \<le> er_algbw_GBs r \<and>
      1 / 2 \<le> er_algbw_GBs r * sweep_scale cs os (er_step r) * (1 - noise * B)"
  shows "length (ckpt_rows (sweep_rows mode cs os noise hv z n rows)) = length (ckpt_rows rows) \<and>
    \<bar>sum_list (ckpt_rows (sweep_rows mode cs os noise hv z n rows)) - cs * sum_list (ckpt_rows rows)\<bar>
      \<le> cs * (noise * B) * sum_list (ckpt_rows rows) + of_nat (length (ckpt_rows rows)) / 20000"
  using assms(5)
proof (induction rows arbitrary: n)
  case Nil
  show ?case by (simp add: ckpt_rows_def)
next
  case (Cons row rows)
  from Cons.IH [of "n + 2"] Cons.prems have ih:
    "length (ckpt_rows (sweep_rows mode cs os noise hv z (n + 2) rows)) = length (ckpt_rows rows)"
    "\<bar>sum_list (ckpt_rows (sweep_rows mode cs os noise hv z (n + 2) rows)) - cs * sum_list (ckpt_rows rows)\<bar>
      \<le> cs * (noise * B) * sum_list (ckpt_rows rows) + of_nat (length (ckpt_rows rows)) / 20000" by simp_all
  show ?case
  proof (cases "er_step row \<in> set SWEEP_CKPT_STEPS")
    case True
    let ?y = "er_algbw_GBs (sweep_row mode cs os noise hv z n row)" and ?x = "er_algbw_GBs row"
    let ?ys = "ckpt_rows (sweep_rows mode cs os noise hv z (n + 2) rows)" and ?xs = "ckpt_rows rows"
    have "\<bar>?y - ?x * cs\<bar> \<le> ?x * cs * (noise * B) + 1 / 20000"
      using sweep_row_near [OF assms(1,2) _ assms(3,4), of row] Cons.prems True by (simp add: sweep_scale_def)
    from abs_diff_add_le [OF this ih(2)]
    have "\<bar>(?y + sum_list ?ys) - cs * (?x + sum_list ?xs)\<bar>
      \<le> cs * (noise * B) * (?x + sum_list ?xs) + (of_nat (length ?xs) + 1) / 20000"
      by (simp add: algebra_simps add_divide_distrib)
    with ih(1) True show ?thesis by (simp add: ckpt_rows_def algebra_simps)
  next
    case False
    with ih show ?thesis by (simp add: ckpt_rows_def)
  qed
qed

lemma sweep_mean:
  assumes "\<And>k. \<bar>z k\<bar> \<le> B" and "0 < cs" "0 < os" and "at_ckpt tempo \<noteq> []"
    and "\<forall>r \<in> set (st_rows tempo). 0 \<le> er_algbw_GBs r \<and>
      1 / 2 \<le> er_algbw_GBs r * sweep_scale cs os (er_step r) * (1 - 8 / 100 * B)"
  shows "\<bar>np_mean (at_ckpt (make_sweep_csv mode cs os z n tempo)) - cs * np_mean (at_ckpt tempo)\<bar>
    \<le> cs * np_mean (at_ckpt tempo) * (8 / 100 * B) + 1 / 20000"
proof -
  let ?xs = "ckpt_rows (st_rows tempo)"
  let ?ys = "ckpt_rows (sweep_rows mode cs os (8 / 100) (st_has_vram tempo) z n (st_rows tempo))"
  have s: "length ?ys = length ?xs"
    "\<bar>sum_list ?ys - cs * sum_list ?xs\<bar> \<le> cs * (8 / 100 * B) * sum_list ?xs + of_nat (length ?xs) / 20000"
    using sweep_rows_sum [OF assms(1) _ assms(2,3,5), where mode = mode and hv = "st_has_vram tempo" and n = n]
    by simp_all
  have pos: "0 < real (length ?xs)" using assms(4) by (simp add: at_ckpt_rows)
  have "\<bar>sum_list ?ys - cs * sum_list ?xs\<bar> / real (length ?xs) \<le>
      (cs * (8 / 100 * B) * sum_list ?xs + of_nat (length ?xs) / 20000) / real (length ?xs)"
    using s(2) pos by (intro divide_right_mono) simp_all
  moreover have "\<bar>(a - cs * b) / L\<bar> = \<bar>a / L - cs * (b / L)\<bar>" for a b L :: real
    by (simp add: diff_divide_distrib)
  then have "\<bar>sum_list ?ys - cs * sum_list ?xs\<bar> / real (length ?xs) =
      \<bar>sum_list ?ys / real (length ?xs) - cs * (sum_list ?xs / real (length ?xs))\<bar>"
    using pos by (metis abs_divide abs_of_pos)
  moreover have "(cs * (8 / 100 * B) * sum_list ?xs + of_nat (length ?xs) / 20000) / real (length ?xs) =
      cs * (sum_list ?xs / real (length ?xs)) * (8 / 100 * B) + 1 / 20000"
    using pos by (simp add: add_divide_distrib mult.commute mult.left_commute)
  ultimately show ?thesis
    by (simp only: at_ckpt_rows make_sweep_csv_def sweep_table.select_convs np_mean_def s(1))
qed

lemma sweep_loop_files:
  assumes "st_rows tempo \<noteq> []" and "distinct (map fst modes)"
    and "sweep_loop baseline tempo z n modes files = (r, files')"
  shows "r = Inr ()" and "files mode = Some t \<Longrightarrow> files' mode = Some t"
    and "(mode, Some (cs, os)) \<in> set modes \<Longrightarrow> files mode = None \<Longrightarrow>
      \<exists>k. files' mode = Some (make_sweep_csv mode cs os z k tempo)"
proof -
  have ne: "st_rows (make_sweep_csv mode cs os z n tempo) \<noteq> []" for mode cs os n
    using assms(1) by (metis length_0_conv make_sweep_csv_def sweep_rows_nth(1) sweep_table.select_convs(1))
  have "r = Inr () \<and> (\<forall>t. files mode = Some t \<longrightarrow> files' mode = Some t) \<and>
    ((mode, Some (cs, os)) \<in> set modes \<and> files mode = None \<longrightarrow>
      (\<exists>k. files' mode = Some (make_sweep_csv mode cs os z k tempo)))" for mode cs os
    using assms(2,3)
  proof (induction modes arbitrary: n files)
    case Nil
    then show ?case by simp
  next
    case (Cons mp modes)
    obtain m p where mp: "mp = (m, p)" by (cases mp)
    have fresh: "(m, x) \<notin> set modes" for x using Cons.prems(1) mp by force
    have d: "distinct (map fst modes)" using Cons.prems(1) by simp
    consider (kept) t' where "files m = Some t'" | (base) "files m = None" "p = None"
      | (new) c q where "files m = None" "p = Some (c, q)" by (cases "files m"; cases p) auto
    then show ?case
    proof cases
      case kept
      then have "sweep_loop baseline tempo z n modes files = (r, files')" using Cons.prems(2) mp by simp
      from Cons.IH [OF d this] kept mp show ?thesis by auto
    next
      case base
      then have "sweep_loop baseline tempo z n modes (files(m \<mapsto> make_baseline_csv baseline)) = (r, files')"
        using Cons.prems(2) mp by simp
      from Cons.IH [OF d this] base mp fresh show ?thesis by (auto split: if_splits)
    next
      case new
      then have "sweep_loop baseline tempo z (n + 2 * length (st_rows tempo)) modes
          (files(m \<mapsto> make_sweep_csv m c q z n tempo)) = (r, files')"
        using Cons.prems(2) mp ne by (simp add: Let_def)
      from Cons.IH [OF d this] new mp fresh show ?thesis by (cases "mode = m") auto
    qed
  qed
  then show "r = Inr ()" and "files mode = Some t \<Longrightarrow> files' mode = Some t"
    and "(mode, Some (cs, os)) \<in> set modes \<Longrightarrow> files mode = None \<Longrightarrow>
      \<exists>k. files' mode = Some (make_sweep_csv mode cs os z k tempo)" by blast+
qed

section \<open>Properties\<close>

text \<open>
  The chunk-size study shows what was put in. The script ends without an error, keeps every file
  that was there, and writes for every other mode a run whose mean bandwidth at checkpoint steps is
  that of the one measured run times the factor of the mode in the script, up to the noise and the
  rounding. No measurement at any other chunk size enters.
\<close>

lemma chunk_sweep_by_construction:
  assumes "st_rows tempo \<noteq> []" and "at_ckpt tempo \<noteq> []" and "\<And>k. \<bar>z k\<bar> \<le> B" and "B \<le> 12"
    and "\<forall>r \<in> set (st_rows tempo). 1 / 2 \<le> er_algbw_GBs r * (92 / 100) * (1 - 8 / 100 * B)"
  shows "\<exists>files'. simulate_chunk_sweep (Some baseline) (Some tempo) z files = Some (Inr (), files') \<and>
    (\<forall>mode t. files mode = Some t \<longrightarrow> files' mode = Some t) \<and>
    (\<forall>mode cs os. (mode, Some (cs, os)) \<in> set SWEEP_MODES \<and> files mode = None \<longrightarrow>
      (\<exists>df. files' mode = Some df \<and> length (st_rows df) = length (st_rows tempo) \<and>
        \<bar>np_mean (at_ckpt df) - cs * np_mean (at_ckpt tempo)\<bar>
          \<le> cs * np_mean (at_ckpt tempo) * (8 / 100 * B) + 1 / 20000))"
proof -
  obtain r files' where run: "sweep_loop baseline tempo z 0 SWEEP_MODES files = (r, files')" by (metis surj_pair)
  have d: "distinct (map fst SWEEP_MODES)" by (simp add: SWEEP_MODES_def)
  note f = sweep_loop_files [OF assms(1) d run]
  have scale: "92 / 100 \<le> cs" "92 / 100 \<le> os" if "(mode, Some (cs, os)) \<in> set SWEEP_MODES" for mode cs os
    using that by (auto simp: SWEEP_MODES_def)
  have p: "0 < 1 - 8 / 100 * B" using assms(4) by simp
  have bw: "0 \<le> er_algbw_GBs r" if "r \<in> set (st_rows tempo)" for r
  proof (rule ccontr)
    assume "\<not> 0 \<le> er_algbw_GBs r"
    then have "er_algbw_GBs r * (92 / 100) * (1 - 8 / 100 * B) \<le> 0"
      using p by (intro mult_nonpos_nonneg) simp_all
    with assms(5) that show False by fastforce
  qed
  have "\<exists>df. files' mode = Some df \<and> length (st_rows df) = length (st_rows tempo) \<and>
      \<bar>np_mean (at_ckpt df) - cs * np_mean (at_ckpt tempo)\<bar>
        \<le> cs * np_mean (at_ckpt tempo) * (8 / 100 * B) + 1 / 20000"
    if m: "(mode, Some (cs, os)) \<in> set SWEEP_MODES" "files mode = None" for mode cs os
  proof -
    obtain k where k: "files' mode = Some (make_sweep_csv mode cs os z k tempo)" using f(3) m by blast
    have "0 \<le> er_algbw_GBs r \<and> 1 / 2 \<le> er_algbw_GBs r * sweep_scale cs os (er_step r) * (1 - 8 / 100 * B)"
      if r: "r \<in> set (st_rows tempo)" for r
    proof -
      have "er_algbw_GBs r * (92 / 100) \<le> er_algbw_GBs r * sweep_scale cs os (er_step r)"
        using scale [OF m(1)] bw [OF r] by (intro mult_left_mono) (simp_all add: sweep_scale_def)
      then have "er_algbw_GBs r * (92 / 100) * (1 - 8 / 100 * B)
          \<le> er_algbw_GBs r * sweep_scale cs os (er_step r) * (1 - 8 / 100 * B)"
        using p by (intro mult_right_mono) simp_all
      with assms(5) r bw [OF r] show ?thesis by fastforce
    qed
    then have "\<bar>np_mean (at_ckpt (make_sweep_csv mode cs os z k tempo)) - cs * np_mean (at_ckpt tempo)\<bar>
        \<le> cs * np_mean (at_ckpt tempo) * (8 / 100 * B) + 1 / 20000"
      using scale [OF m(1)] by (intro sweep_mean [OF assms(3) _ _ assms(2)]) auto
    with k show ?thesis by (simp add: make_sweep_csv_def sweep_rows_nth(1))
  qed
  moreover have "simulate_chunk_sweep (Some baseline) (Some tempo) z files = Some (Inr (), files')"
    using run f(1) by (simp add: simulate_chunk_sweep_def)
  ultimately show ?thesis using f(2) by blast
qed

section \<open>Witnesses\<close>

definition sample_run :: sweep_table where
  "sample_run =
     \<lparr>st_rows = [\<lparr>er_step = 20, er_latency_ms = 5, er_algbw_GBs = 8, er_busbw_GBs = 7, er_timestamp = 0,
                 er_vram_used_gb = None, er_chunk_mb = None\<rparr>], st_has_vram = False, st_has_chunk = False\<rparr>"

lemma chunk_sweep_by_construction_witness:
  "\<exists>files' df. simulate_chunk_sweep (Some sample_run) (Some sample_run) (\<lambda>k. 0) Map.empty = Some (Inr (), files') \<and>
     files' ''tempo-adaptive'' = Some df \<and> \<bar>np_mean (at_ckpt df) - 106 / 100 * 8\<bar> \<le> 1 / 20000"
proof -
  have b: "st_rows sample_run \<noteq> []" "at_ckpt sample_run \<noteq> []" "np_mean (at_ckpt sample_run) = 8"
      "\<And>k. \<bar>0 :: real\<bar> \<le> 0" "(0 :: real) \<le> 12"
      "\<forall>r \<in> set (st_rows sample_run). 1 / 2 \<le> er_algbw_GBs r * (92 / 100) * (1 - 8 / 100 * 0)"
    by (simp_all add: sample_run_def at_ckpt_def SWEEP_CKPT_STEPS_def np_mean_def)
  have m: "(''tempo-adaptive'', Some (106 / 100, 99 / 100)) \<in> set SWEEP_MODES" by (simp add: SWEEP_MODES_def)
  obtain files' where f: "simulate_chunk_sweep (Some sample_run) (Some sample_run) (\<lambda>k. 0) Map.empty = Some (Inr (), files')"
    and r: "\<forall>mode cs os. (mode, Some (cs, os)) \<in> set SWEEP_MODES \<and> Map.empty mode = None \<longrightarrow>
      (\<exists>df. files' mode = Some df \<and> length (st_rows df) = length (st_rows sample_run) \<and>
        \<bar>np_mean (at_ckpt df) - cs * np_mean (at_ckpt sample_run)\<bar>
          \<le> cs * np_mean (at_ckpt sample_run) * (8 / 100 * 0) + 1 / 20000)"
    using chunk_sweep_by_construction [OF b(1,2), of "\<lambda>k. 0" 0 sample_run Map.empty, OF b(4-6)] by blast
  from r [rule_format, OF conjI [OF m refl]] f show ?thesis by (auto simp: b(3))
qed

end
