(* ===== verification/Micro_Benchmarks.thy ===== *)
theory Micro_Benchmarks
  imports Eval_Stats
begin

text \<open>
  The other figures of \<^verbatim>\<open>scripts/plot_micro_benchmarks.py\<close>: the bandwidth against the I/O rate
  (\<open>fig10_io_nccl_sweep\<close>), the distribution of the token latency (\<open>fig11_itl_cdf\<close>) and the
  staggered checkpoints (\<open>fig12_nexus_dscp\<close>). Draws of the generator are arguments.
\<close>

section \<open>Bandwidth against the I/O rate\<close>

record io_row =
  io_rate_gbs :: real
  io_trial :: nat
  io_rank :: nat
  io_allreduce_ms :: real
  io_nccl_bw_gbs :: real

definition IO_RATES :: "real list" where
  "IO_RATES = [0, 1, 2, 4, 8, 16, 32]"

definition sweep_mean_bw :: "real \<Rightarrow> real" where
  "sweep_mean_bw io_rate =
     (let base_bw = 20; knee = 4;
          mean_bw = (if io_rate \<le> knee then base_bw - 3 / 10 * io_rate
                     else (base_bw - 3 / 10 * knee) - 55 / 100 * (io_rate - knee))
      in max mean_bw 3)"

definition sweep_sigma_bw :: "real \<Rightarrow> real" where
  "sweep_sigma_bw io_rate = 8 / 10 + 5 / 100 * io_rate"

text \<open>One trial, from its standard normal draw.\<close>

definition io_trial_row :: "real \<Rightarrow> nat \<Rightarrow> real \<Rightarrow> io_row" where
  "io_trial_row io_rate i z =
     (let bw = max (sweep_mean_bw io_rate + sweep_sigma_bw io_rate * z) 1;
          tensor_bytes = 256 * 1024 * 1024; world_size = 2;
          latency_ms = (2 * (world_size - 1) / world_size * tensor_bytes / (bw * 10 ^ 9)) * 1000
      in \<lparr>io_rate_gbs = io_rate, io_trial = i, io_rank = 0, io_allreduce_ms = py_round 4 latency_ms,
          io_nccl_bw_gbs = py_round 4 bw\<rparr>)"

definition synthetic_sweep_data :: "(real \<Rightarrow> nat \<Rightarrow> real) \<Rightarrow> io_row list" where
  "synthetic_sweep_data z =
     concat (map (\<lambda>io_rate. map (\<lambda>i. io_trial_row io_rate i (z io_rate i)) [0..<150]) IO_RATES)"

text \<open>The curves: rate, mean, and the 10th, 50th, 90th and 99th percentile of rank 0.\<close>

record io_point =
  ip_rate :: real
  ip_mean :: real
  ip_p10 :: real
  ip_p50 :: real
  ip_p90 :: real
  ip_p99 :: real

definition io_point_of :: "io_row list \<Rightarrow> real \<Rightarrow> io_point" where
  "io_point_of df0 rate =
     (let bw = map io_nccl_bw_gbs (filter (\<lambda>r. io_rate_gbs r = rate) df0)
      in \<lparr>ip_rate = rate, ip_mean = np_mean bw, ip_p10 = np_percentile 10 bw, ip_p50 = np_percentile 50 bw,
          ip_p90 = np_percentile 90 bw, ip_p99 = np_percentile 99 bw\<rparr>)"

definition io_points :: "io_row list \<Rightarrow> io_point list" where
  "io_points df =
     (let df0 = filter (\<lambda>r. io_rank r = 0) df
      in map (io_point_of df0) (sort (remdups (map io_rate_gbs df0))))"

text \<open>The knee: the first rate whose mean is below 80% of the first mean; and the drop there.\<close>

fun first_index :: "('a \<Rightarrow> bool) \<Rightarrow> 'a list \<Rightarrow> nat option" where
  "first_index P [] = None"
| "first_index P (x # xs) = (if P x then Some 0 else map_option Suc (first_index P xs))"

definition knee_of :: "io_point list \<Rightarrow> (real \<times> real \<times> real) option result" where
  "knee_of points =
     (case points of
        [] \<Rightarrow> Inl IndexError
      | p # ps \<Rightarrow>
          let peak = ip_mean p
          in Inr (map_option (\<lambda>i. (ip_rate (points ! i), ip_mean (points ! i), (1 - ip_mean (points ! i) / peak) * 100))
               (first_index (\<lambda>q. ip_mean q < 8 / 10 * peak) points)))"

definition fig10_io_nccl_sweep ::
    "io_row list option \<Rightarrow> bool \<Rightarrow> (real \<Rightarrow> nat \<Rightarrow> real)
     \<Rightarrow> (io_point list \<times> (real \<times> real \<times> real) option \<times> bool) result" where
  "fig10_io_nccl_sweep data use_demo z =
     (let synthetic = (data = None \<or> use_demo);
          df = (case data of Some d \<Rightarrow> if use_demo then synthetic_sweep_data z else d
                | None \<Rightarrow> synthetic_sweep_data z);
          points = io_points df
      in and_then (knee_of points) (\<lambda>k. Inr (points, k, synthetic)))"

section \<open>Token latency\<close>

text \<open>The synthetic latencies: log-normal draws, for the baseline with spikes, for TEMPO cut at 18 ms.\<close>

definition synthetic_itl_base :: "nat \<Rightarrow> (nat \<Rightarrow> real) \<Rightarrow> (nat \<Rightarrow> real) \<Rightarrow> (nat \<Rightarrow> real) \<Rightarrow> real list" where
  "synthetic_itl_base n z u spike =
     sort (map (\<lambda>i. if u i < 22 / 1000 then spike (length (filter (\<lambda>j. u j < 22 / 1000) [0..<i]))
                    else np_clip (1 / 2) 50 (exp (322 / 100 + 3 / 10 * z i))) [0..<n])"

definition synthetic_itl_tempo :: "nat \<Rightarrow> (nat \<Rightarrow> real) \<Rightarrow> real list" where
  "synthetic_itl_tempo n z = sort (map (\<lambda>i. np_clip (1 / 2) 18 (exp (322 / 100 + 1 / 4 * z i))) [0..<n])"

definition plot_cdf :: "real list \<Rightarrow> (real \<times> real) list" where
  "plot_cdf samples =
     (let s = sort samples in map (\<lambda>i. (s ! i, (of_nat i + 1) / of_nat (length s))) [0..<length s])"

text \<open>\<open>mark_percentile\<close>: the sample at index \<open>ceil(pct / 100 * len) - 1\<close> of the sorted samples.\<close>

definition percentile_mark :: "real list \<Rightarrow> real \<Rightarrow> real option" where
  "percentile_mark samples pct =
     map_option (\<lambda>i. samples ! i)
       (py_index (length samples) (\<lceil>pct / 100 * of_nat (length samples)\<rceil> - 1))"

text \<open>
  The figure: the two distributions, the marks at 50, 99 and 99.9% of both, and the shaded region from
  the 97.5th percentile of the baseline to its largest sample, at most 850. Measured samples are
  sorted when loaded; without both files the synthetic ones are drawn.
\<close>

record itl_figure =
  if_cdfs :: "(real \<times> real) list list"
  if_marks :: "(real \<times> real) list"
  if_spike :: "real \<times> real"

fun mark_all :: "(real list \<times> real) list \<Rightarrow> (real \<times> real) list result" where
  "mark_all [] = Inr []"
| "mark_all ((samples, pct) # ms) =
     (case percentile_mark samples pct of
        None \<Rightarrow> Inl IndexError
      | Some v \<Rightarrow> and_then (mark_all ms) (\<lambda>vs. Inr ((v, pct / 100) # vs)))"

definition draw_itl_cdf :: "real list \<Rightarrow> real list \<Rightarrow> itl_figure result" where
  "draw_itl_cdf base tempo =
     and_then (mark_all (concat (map (\<lambda>pct. [(base, pct), (tempo, pct)]) [50, 99, 999 / 10]))) (\<lambda>marks.
       Inr \<lparr>if_cdfs = [plot_cdf base, plot_cdf tempo], if_marks = marks,
            if_spike = (np_percentile (975 / 10) base, min (last base) 850)\<rparr>)"

definition fig11_itl_cdf ::
    "real list option \<Rightarrow> real list option \<Rightarrow> bool \<Rightarrow> real list \<times> real list \<Rightarrow> itl_figure result" where
  "fig11_itl_cdf base_csv tempo_csv use_demo synthetic =
     (case (base_csv, tempo_csv, use_demo) of
        (Some base, Some tempo, False) \<Rightarrow> draw_itl_cdf (sort base) (sort tempo)
      | _ \<Rightarrow> draw_itl_cdf (fst synthetic) (snd synthetic))"

section \<open>Staggered checkpoints\<close>

definition nexus_ckpt_steps :: "nat list" where
  "nexus_ckpt_steps = filter (\<lambda>s. s mod 50 = 0 \<and> 0 < s) [0..<300]"

definition nexus_synth_bw :: "bool \<Rightarrow> (nat \<Rightarrow> real) \<Rightarrow> (nat \<Rightarrow> real) \<Rightarrow> real list" where
  "nexus_synth_bw flood z dip =
     map (\<lambda>s. np_clip 8 20 (175 / 10 + 4 / 10 * z s
            - (if flood \<and> s \<in> set nexus_ckpt_steps
               then dip (length (filter (\<lambda>c. c < s) nexus_ckpt_steps)) else 0))) [0..<300]"

text \<open>The step at which rank \<open>r\<close> has its spike in the staggered run.\<close>

definition nexus_target :: "nat \<Rightarrow> nat \<Rightarrow> nat" where
  "nexus_target step_idx r = min (step_idx + r * 3) (300 - 1)"

definition spike_steps :: "bool \<Rightarrow> nat \<Rightarrow> nat list" where
  "spike_steps staggered r =
     map (\<lambda>s. if staggered then nexus_target s r else s) nexus_ckpt_steps"

record window_row =
  wr_step :: int
  wr_rank :: nat
  wr_pos :: nat
  wr_delay_ms :: real
  wr_window_ms :: "real option"

definition synthetic_windows :: "window_row list" where
  "synthetic_windows =
     concat (map (\<lambda>s. map (\<lambda>r. \<lparr>wr_step = s, wr_rank = r, wr_pos = r, wr_delay_ms = of_nat r * 200,
        wr_window_ms = Some 200\<rparr>) [0..<8]) [50, 100, 150])"

text \<open>
  The waterfall: the windows of the first step in the file, by position; a file without the column of
  the durations stands for 200 ms.
\<close>

definition waterfall :: "window_row list \<Rightarrow> (nat \<times> real \<times> real) list" where
  "waterfall wins =
     (let sample_step = (case wins of [] \<Rightarrow> 50 | w # _ \<Rightarrow> wr_step w)
      in map (\<lambda>w. (wr_pos w, wr_delay_ms w, case wr_window_ms w of Some d \<Rightarrow> d | None \<Rightarrow> 200))
           (sort_key wr_pos (filter (\<lambda>w. wr_step w = sample_step) wins)))"

text \<open>Measured rows of all ranks, and the median over the ranks at each step.\<close>

record nexus_row =
  nw_step :: int
  nw_algbw_GBs :: real
  nw_is_ckpt :: bool

definition nexus_agg :: "nexus_row list \<Rightarrow> (int \<times> real) list" where
  "nexus_agg df =
     map (\<lambda>k. (k, median_of (map nw_algbw_GBs (filter (\<lambda>r. nw_step r = k) df)))) (sort (remdups (map nw_step df)))"

record nic_row =
  nc_step :: int
  nc_rank :: nat
  nc_nic_gbps :: real

text \<open>\<open>Series.unique()\<close>: the first occurrences in order.\<close>

definition np_unique_in_order :: "'a list \<Rightarrow> 'a list" where
  "np_unique_in_order xs = rev (remdups (rev xs))"

definition nic_lines :: "nic_row list \<Rightarrow> (int \<times> real) list list" where
  "nic_lines nic =
     (let w = filter (\<lambda>r. 95 \<le> nc_step r \<and> nc_step r < 115) nic
      in map (\<lambda>k. map (\<lambda>r. (nc_step r, nc_nic_gbps r)) (filter (\<lambda>r. nc_rank r = k) w))
           (np_unique_in_order (map nc_rank w)))"

text \<open>The drawn curves of panel B when there is no measurement, for rank \<open>r\<close> at time \<open>t\<close>.\<close>

definition nic_drawn :: "nat \<Rightarrow> real \<Rightarrow> real \<times> real" where
  "nic_drawn r t =
     (15 / 10 + 14 * exp (- ((t - 3)\<^sup>2) / (15 / 10)),
      15 / 10 + 2 * exp (- ((t - (3 + of_nat r * (7 / 10)))\<^sup>2) / (3 / 10)))"

record nexus_data =
  nd_base :: "nexus_row list option"
  nd_nexus :: "nexus_row list option"
  nd_nic_base :: "nic_row list option"
  nd_nic_nexus :: "nic_row list option"
  nd_windows :: "window_row list option"

record nexus_figure =
  nf_marks :: "int list"
  nf_lines :: "(int \<times> real) list \<times> (int \<times> real) list"
  nf_nic :: "((int \<times> real) list list \<times> (int \<times> real) list list) option"
  nf_medians :: "real \<times> real"
  nf_waterfall :: "(nat \<times> real \<times> real) list"

text \<open>
  The panels: the marked checkpoint steps are the multiples of 50 after the first one in the data;
  \<open>None\<close> for the drawn curves of panel B. A violin plot of no values raises \<open>ValueError\<close>, the rows of a
  missing NIC file \<open>TypeError\<close>.
\<close>

definition nexus_panels ::
    "(int \<times> real) list \<Rightarrow> (int \<times> real) list \<Rightarrow> real list \<Rightarrow> real list
     \<Rightarrow> ((int \<times> real) list list \<times> (int \<times> real) list list) option \<Rightarrow> window_row list option
     \<Rightarrow> nexus_figure result" where
  "nexus_panels base_agg nexus_agg' ckpt_base ckpt_nexus nic wins =
     (if ckpt_base = [] \<or> ckpt_nexus = [] then Inl ValueError
      else Inr \<lparr>nf_marks = drop 1 (filter (\<lambda>s. s mod 50 = 0) (map fst base_agg)),
             nf_lines = (base_agg, nexus_agg'), nf_nic = nic, nf_medians = (median_of ckpt_base, median_of ckpt_nexus),
             nf_waterfall = (case wins of Some w \<Rightarrow> waterfall w
               | None \<Rightarrow> map (\<lambda>r. (r, of_nat r * 200, 200)) [0..<8])\<rparr>)"

definition fig12_nexus_dscp ::
    "nexus_data \<Rightarrow> bool \<Rightarrow> real list \<Rightarrow> real list \<Rightarrow> nexus_figure result" where
  "fig12_nexus_dscp data use_demo synth_base synth_nexus =
     (case (nd_base data, nd_nexus data, use_demo) of
        (Some base, Some nexus, False) \<Rightarrow>
          let panels = (\<lambda>nic. nexus_panels (nexus_agg base) (nexus_agg nexus)
                (map nw_algbw_GBs (filter nw_is_ckpt base)) (map nw_algbw_GBs (filter nw_is_ckpt nexus))
                nic (nd_windows data))
          in (case (nd_nic_base data, nd_nic_nexus data) of
                (None, _) \<Rightarrow> panels None
              | (Some nic_base, None) \<Rightarrow> Inl TypeError
              | (Some nic_base, Some nic_nexus) \<Rightarrow> panels (Some (nic_lines nic_base, nic_lines nic_nexus)))
      | _ \<Rightarrow>
          let series = (\<lambda>bw. zip (map int [0..<300]) bw); at_ckpt = (\<lambda>bw. map ((!) bw) nexus_ckpt_steps)
          in nexus_panels (series synth_base) (series synth_nexus) (at_ckpt synth_base) (at_ckpt synth_nexus)
               None (Some synthetic_windows))"

section \<open>The knee\<close>

lemma sweep_mean_min:
  "sweep_mean_bw x = max (min (20 - 3 / 10 * x) (188 / 10 - 55 / 100 * (x - 4))) 3"
proof (cases "x \<le> 4")
  case True
  then have "20 - 3 / 10 * x \<le> 188 / 10 - 55 / 100 * (x - 4)" by (simp add: field_simps)
  with True show ?thesis by (simp add: sweep_mean_bw_def min_absorb1)
next
  case False
  then have "188 / 10 - 55 / 100 * (x - 4) \<le> 20 - 3 / 10 * x" by (simp add: field_simps)
  with False show ?thesis by (simp add: sweep_mean_bw_def min_absorb2)
qed

lemma sweep_mean_antimono: "a \<le> b \<Longrightarrow> sweep_mean_bw b \<le> sweep_mean_bw a"
  unfolding sweep_mean_min by (intro max.mono min.mono order.refl) simp_all

lemma sweep_mean_values:
  "sweep_mean_bw 0 = 20" "sweep_mean_bw 4 = 188 / 10" "sweep_mean_bw 8 = 166 / 10"
  "sweep_mean_bw 16 = 122 / 10" "sweep_mean_bw 32 = 34 / 10"
  by (simp_all add: sweep_mean_bw_def)

lemma first_index_Some:
  "first_index P xs = Some i \<longleftrightarrow> i < length xs \<and> P (xs ! i) \<and> (\<forall>j < i. \<not> P (xs ! j))"
proof (induction xs arbitrary: i)
  case (Cons x xs)
  then show ?case by (cases i) (auto simp: less_Suc_eq_0_disj all_conj_distrib)
qed simp

lemma first_index_None: "first_index P xs = None \<longleftrightarrow> (\<forall>x \<in> set xs. \<not> P x)"
  by (induction xs) auto

text \<open>
  The marked knee is the first measured rate below 80% of the unloaded mean, and the drop written
  there is more than 20%.
\<close>

lemma knee_of_correct:
  assumes "knee_of points = Inr (Some (rate, bw, fall))" and "0 < ip_mean (hd points)"
  shows "20 < fall" and "bw < 8 / 10 * ip_mean (hd points)"
    and "\<exists>i < length points. ip_rate (points ! i) = rate \<and> ip_mean (points ! i) = bw \<and>
      (\<forall>j < i. 8 / 10 * ip_mean (hd points) \<le> ip_mean (points ! j))"
proof -
  obtain p ps where pts: "points = p # ps" using assms(1) by (cases points) (auto simp: knee_of_def)
  then obtain i where i: "first_index (\<lambda>q. ip_mean q < 8 / 10 * ip_mean p) points = Some i"
    and eq: "rate = ip_rate (points ! i)" "bw = ip_mean (points ! i)" "fall = (1 - bw / ip_mean p) * 100"
    using assms(1) by (auto simp: knee_of_def Let_def)
  note f = i [unfolded first_index_Some]
  show "bw < 8 / 10 * ip_mean (hd points)" using f eq pts by simp
  then have "bw / ip_mean p < 8 / 10" using assms(2) pts by (simp add: pos_divide_less_eq)
  moreover have "20 < (1 - q) * 100" if "q < 8 / 10" for q :: real using that by simp
  ultimately have "20 < (1 - bw / ip_mean p) * 100" by blast
  then show "20 < fall" using eq(3) by simp
  show "\<exists>i < length points. ip_rate (points ! i) = rate \<and> ip_mean (points ! i) = bw \<and>
      (\<forall>j < i. 8 / 10 * ip_mean (hd points) \<le> ip_mean (points ! j))"
    using f eq pts by (intro exI [of _ i]) (auto simp: not_less)
qed

section \<open>Percentile marks\<close>

lemma sorted_le_nth:
  assumes "sorted (xs :: real list)" and "i < length xs"
  shows "Suc i \<le> length (filter (\<lambda>x. x \<le> xs ! i) xs)" and "length (filter (\<lambda>x. x < xs ! i) xs) \<le> i"
proof -
  have "\<forall>x \<in> set (take (Suc i) xs). x \<le> xs ! i"
    using assms sorted_nth_mono by (fastforce simp: in_set_conv_nth)
  then have "filter (\<lambda>x. x \<le> xs ! i) (take (Suc i) xs) = take (Suc i) xs" by (simp add: filter_id_conv)
  moreover have "length (filter (\<lambda>x. x \<le> xs ! i) (take (Suc i) xs)) \<le> length (filter (\<lambda>x. x \<le> xs ! i) xs)"
    by (metis append_take_drop_id filter_append le_add1 length_append)
  ultimately show "Suc i \<le> length (filter (\<lambda>x. x \<le> xs ! i) xs)" using assms(2) by simp
  have "\<forall>x \<in> set (drop i xs). \<not> x < xs ! i"
  proof
    fix x assume "x \<in> set (drop i xs)"
    then obtain k where "k < length xs - i" "x = xs ! (i + k)" by (auto simp: in_set_conv_nth)
    then show "\<not> x < xs ! i" using sorted_nth_mono [OF assms(1), of i "i + k"] by (simp add: not_less less_diff_conv add.commute)
  qed
  then have "filter (\<lambda>x. x < xs ! i) (drop i xs) = []" by (simp add: filter_empty_conv)
  then have "filter (\<lambda>x. x < xs ! i) xs = filter (\<lambda>x. x < xs ! i) (take i xs)"
    by (metis append_Nil2 append_take_drop_id filter_append)
  then show "length (filter (\<lambda>x. x < xs ! i) xs) \<le> i"
    by (metis assms(2) length_filter_le length_take less_imp_le min_absorb2)
qed

text \<open>
  The percentile marks. On sorted samples, for a percentage above 0 and at most 100, the marked
  value is a sample such that at least that share of the samples is at most it, and less than that
  share is below it: the smallest sample with this rank.
\<close>

lemma percentile_mark_ok:
  assumes "sorted samples" and "samples \<noteq> []" and "0 < pct" and "pct \<le> 100"
  shows "\<exists>v. percentile_mark samples pct = Some v \<and> v \<in> set samples \<and>
    pct / 100 * of_nat (length samples) \<le> of_nat (length (filter (\<lambda>x. x \<le> v) samples)) \<and>
    of_nat (length (filter (\<lambda>x. x < v) samples)) < pct / 100 * of_nat (length samples)"
proof -
  let ?n = "length samples" and ?r = "pct / 100 * of_nat (length samples)"
  define i where "i = nat (\<lceil>?r\<rceil> - 1)"
  have n: "0 < real ?n" using assms(2) by simp
  then have r: "0 < ?r" "?r \<le> real ?n" using assms(3,4) by (simp_all add: mult_le_cancel_right1)
  then have c: "0 < \<lceil>?r\<rceil>" "\<lceil>?r\<rceil> \<le> int ?n" by (simp_all add: ceiling_le_iff)
  have i: "int i = \<lceil>?r\<rceil> - 1" "i < ?n" using c unfolding i_def by linarith+
  have mark: "percentile_mark samples pct = Some (samples ! i)"
    unfolding percentile_mark_def i(1) [symmetric] using i(2) by simp
  note s = sorted_le_nth [OF assms(1) i(2)]
  have "?r \<le> real (Suc i)" using i(1) by (simp add: i_def) linarith
  then have "?r \<le> of_nat (length (filter (\<lambda>x. x \<le> samples ! i) samples))" using s(1) by linarith
  moreover have "real i < ?r" using i(1) by linarith
  then have "of_nat (length (filter (\<lambda>x. x < samples ! i) samples)) < ?r" using s(2) by linarith
  ultimately show ?thesis using mark i(2) by simp
qed

text \<open>
  The synthetic TEMPO latencies are cut at 18 ms, below the centre of the draws: every draw at or
  above the mean ends at the cut, so with more than half of them there the median is the cut, while
  the baseline is cut at 50 ms.
\<close>

lemma tempo_cut: "x \<in> set (synthetic_itl_tempo n z) \<Longrightarrow> 1 / 2 \<le> x \<and> x \<le> 18"
  by (auto simp: synthetic_itl_tempo_def np_clip_def)

lemma centre_above_cut: "18 \<le> exp (322 / 100 :: real)"
proof -
  have "(1 + (322 / 100) / of_nat 20) ^ 20 \<le> exp (322 / 100 :: real)"
    by (rule exp_ge_one_plus_x_over_n_power_n) simp_all
  moreover have "(18 :: real) \<le> (1 + (322 / 100) / of_nat 20) ^ 20" by (simp add: power_divide)
  ultimately show ?thesis by linarith
qed

lemma tempo_draw_cut:
  assumes "0 \<le> z"
  shows "np_clip (1 / 2) 18 (exp (322 / 100 + 1 / 4 * z)) = 18"
proof -
  have "exp (322 / 100) \<le> exp (322 / 100 + 1 / 4 * z)" using assms by simp
  with centre_above_cut have "18 \<le> exp (322 / 100 + 1 / 4 * z)" by linarith
  then show ?thesis by (simp add: np_clip_def)
qed

text \<open>
  The synthetic TEMPO curve cannot lie on that of the baseline. Whatever the draws, no latency is
  above 18 ms, and if more than half of them are at or above their mean, the marked median is exactly the cut of 18 ms.
\<close>

lemma tempo_median_is_cut:
  assumes "0 < n" and "n < 2 * length (filter (\<lambda>i. 0 \<le> z i) [0..<n])"
  shows "(\<forall>x \<in> set (synthetic_itl_tempo n z). x \<le> 18) \<and>
    percentile_mark (synthetic_itl_tempo n z) 50 = Some 18"
proof -
  let ?s = "synthetic_itl_tempo n z" and ?f = "\<lambda>i. np_clip (1 / 2) 18 (exp (322 / 100 + 1 / 4 * z i))"
  have len: "length ?s = n" by (simp add: synthetic_itl_tempo_def)
  have "?s \<noteq> []" using assms(1) len by fastforce
  then have s: "sorted ?s" "?s \<noteq> []" by (simp_all add: synthetic_itl_tempo_def)
  obtain v where v: "percentile_mark ?s 50 = Some v" "v \<in> set ?s"
    "50 / 100 * real (length ?s) \<le> real (length (filter (\<lambda>x. x \<le> v) ?s))"
    using percentile_mark_ok [OF s, of 50] by auto
  have "v = 18"
  proof (rule ccontr)
    assume "v \<noteq> 18"
    then have lt: "v < 18" using tempo_cut [OF v(2)] by simp
    have "length (filter (\<lambda>x. x \<le> v) ?s) = length (filter (\<lambda>i. ?f i \<le> v) [0..<n])"
      unfolding synthetic_itl_tempo_def by (simp add: filter_sort filter_map comp_def)
    also have "\<dots> \<le> length (filter (\<lambda>i. \<not> 0 \<le> z i) [0..<n])"
      unfolding length_filter_conv_card
      by (intro card_mono) (use lt tempo_draw_cut in \<open>fastforce+\<close>)
    also have "\<dots> = n - length (filter (\<lambda>i. 0 \<le> z i) [0..<n])"
      using sum_length_filter_compl [of "\<lambda>i. 0 \<le> z i" "[0..<n]"] by simp
    finally have "length (filter (\<lambda>x. x \<le> v) ?s) \<le> n - length (filter (\<lambda>i. 0 \<le> z i) [0..<n])" .
    moreover have "n \<le> 2 * length (filter (\<lambda>x. x \<le> v) ?s)" using v(3) len by simp
    ultimately show False using assms by linarith
  qed
  with v(1) tempo_cut show ?thesis by blast
qed

section \<open>Spikes and windows\<close>

text \<open>In the staggered run no two ranks have a spike at the same step; without, all have.\<close>

lemma nexus_targets_distinct:
  assumes "s \<in> set nexus_ckpt_steps" "s' \<in> set nexus_ckpt_steps" and "r < 8" "r' < 8" and "r \<noteq> r'"
  shows "nexus_target s r \<noteq> nexus_target s' r'"
proof -
  obtain k k' where k: "s = 50 * k" "s' = 50 * k'" "s < 300" "s' < 300"
    using assms(1,2) by (auto simp: nexus_ckpt_steps_def elim!: dvdE simp flip: dvd_eq_mod_eq_0)
  then have "k \<le> 5" "k' \<le> 5" by simp_all
  then have "50 * k + r * 3 < 299" "50 * k' + r' * 3 < 299" using assms(3,4) by simp_all
  moreover have "50 * k + r * 3 \<noteq> 50 * k' + r' * 3"
  proof (cases "k = k'")
    case False
    then consider "k < k'" | "k' < k" by linarith
    then show ?thesis using assms(3,4) by cases linarith+
  qed (use assms(5) in simp)
  ultimately show ?thesis using k by (simp add: nexus_target_def)
qed

text \<open>The windows of the synthetic waterfall follow one another without a gap.\<close>

lemma synthetic_waterfall:
  "waterfall synthetic_windows = map (\<lambda>r. (r, of_nat r * 200, 200)) [0..<8]"
  by (simp add: waterfall_def synthetic_windows_def Let_def upt_rec)

text \<open>With synthetic data the figure is drawn, with the checkpoints 50, 100, 150, 200 and 250 marked.\<close>

lemma nexus_ckpt_steps_eq: "nexus_ckpt_steps = [50, 100, 150, 200, 250]"
proof -
  have "[0..<300] = 0 # 1 # [2..<300 :: nat]" by (simp add: upt_conv_Cons numeral_2_eq_2 del: upt_rec_numeral)
  then show ?thesis by (simp add: nexus_ckpt_steps_def)
qed

lemma fig12_demo:
  assumes "length synth_base = 300"
  shows "\<exists>fig. fig12_nexus_dscp data True synth_base synth_nexus = Inr fig \<and>
    nf_marks fig = [50, 100, 150, 200, 250] \<and> nf_waterfall fig = map (\<lambda>r. (r, of_nat r * 200, 200)) [0..<8]"
proof -
  have "map fst (zip (map int [0..<300]) synth_base) = map int [0..<300]" using assms by simp
  moreover have "filter (\<lambda>s. s mod 50 = 0) (map int [0..<300]) = map int (0 # nexus_ckpt_steps)"
  proof -
    have "filter (\<lambda>s. s mod 50 = 0) [0..<300 :: nat] = 0 # nexus_ckpt_steps"
    proof -
      have "[0..<300] = 0 # [1..<300 :: nat]" by (simp add: upt_conv_Cons del: upt_rec_numeral)
      moreover have "filter (\<lambda>s. s mod 50 = 0) [1..<300 :: nat] = filter (\<lambda>s. s mod 50 = 0 \<and> 0 < s) [1..<300]"
        by (rule filter_cong) auto
      ultimately show ?thesis by (simp add: nexus_ckpt_steps_def)
    qed
    moreover have "int s mod 50 = 0 \<longleftrightarrow> s mod 50 = 0" for s
      by (metis of_nat_0_eq_iff of_nat_mod of_nat_numeral)
    ultimately show ?thesis by (simp add: filter_map comp_def)
  qed
  ultimately have "drop 1 (filter (\<lambda>s. s mod 50 = 0) (map fst (zip (map int [0..<300]) synth_base))) =
      [50, 100, 150, 200, 250]"
    by (simp only: nexus_ckpt_steps_eq) simp
  then show ?thesis
    unfolding fig12_nexus_dscp_def nexus_panels_def Let_def
    by (simp add: nexus_ckpt_steps_eq synthetic_waterfall split: option.split)
qed

text \<open>A checkpoint that is the first multiple of 50 in the measurements is not marked.\<close>

lemma first_checkpoint_unmarked:
  assumes "fig12_nexus_dscp data False sb sn = Inr fig" and "nd_base data = Some base" "nd_nexus data = Some nexus"
    and "\<forall>r \<in> set base. 0 < nw_step r" "r \<in> set base" "nw_step r = 50"
  shows "50 \<notin> set (nf_marks fig)"
proof -
  define ks where "ks = filter (\<lambda>s. s mod 50 = 0) (sort (remdups (map nw_step base)))"
  have "50 \<in> nw_step ` set base" using assms(5,6) by force
  then have ks: "distinct ks" "50 \<in> set ks" unfolding ks_def by simp_all
  have "50 \<le> k" if "k mod 50 = 0" "0 < k" for k :: int using that by presburger
  then have least: "\<forall>k \<in> set ks. 50 \<le> k" using assms(4) unfolding ks_def by auto
  have sorted: "sorted ks" unfolding ks_def by (intro sorted_wrt_filter sorted_sort)
  have "nf_marks fig = drop 1 ks"
    using assms(1-3) by (auto simp: fig12_nexus_dscp_def nexus_panels_def nexus_agg_def comp_def ks_def Let_def
        split: option.splits if_splits)
  moreover have "hd ks = 50" using ks least sorted by (cases ks) force+
  ultimately show ?thesis using ks by (cases ks) auto
qed

section \<open>Witnesses\<close>

lemma tempo_median_is_cut_witness:
  "percentile_mark (synthetic_itl_tempo 3 (\<lambda>i. if i = 0 then - 1 else 1)) 50 = Some 18"
  using tempo_median_is_cut [of 3 "\<lambda>i. if i = 0 then - 1 else 1"] by (simp add: upt_rec)

end
