(* ===== verification/Paper_Figures.thy ===== *)
theory Paper_Figures
  imports Sparse_Transfer Eval_Stats
begin

text \<open>
  The figures of \<^verbatim>\<open>scripts/make_figures.py\<close> that compute or state something: the flush timeline
  (fig 3), the degradation table (fig 4), the per-step comparison (fig 5), the interference timeline
  (fig 7), the simulated modes (figs 8 to 10), the conflict model (fig 9) and the component models
  (fig 11). Figure 6 is in \<open>Chunk_Sweep\<close>; figures 0 and 2 are drawings.
\<close>

section \<open>Figure 3: the flush timeline\<close>

definition NCCL_PHASES :: "(real \<times> real) list" where
  "NCCL_PHASES = [(680, 840), (920, 1080), (1780, 1940)]"

definition flush_segs :: "bool \<Rightarrow> (real \<times> real) list" where
  "flush_segs tempo = (if tempo then [(0, 680), (840, 920), (1080, 1780)] else [(680, 1000)])"

definition fig3_phases :: "(real \<times> real \<times> string) list" where
  "fig3_phases =
     [(0, 120, ''FFN/Forward''), (120, 200, ''Attention''), (320, 100, ''FFN/Forward''),
      (420, 180, ''Attention''), (600, 80, ''FFN/Backward''), (680, 160, ''NCCL reduce_scatter''),
      (840, 80, ''FFN/Backward''), (920, 160, ''NCCL reduce_scatter''), (1080, 200, ''Optimizer step''),
      (1280, 120, ''FFN/Forward''), (1400, 180, ''Attention''), (1580, 200, ''FFN/Backward''),
      (1780, 160, ''NCCL reduce_scatter'')]"

definition span_overlap :: "real \<times> real \<Rightarrow> real \<times> real \<Rightarrow> real" where
  "span_overlap a b = max 0 (min (snd a) (snd b) - max (fst a) (fst b))"

definition nccl_overlap :: "(real \<times> real) list \<Rightarrow> real" where
  "nccl_overlap segs = sum_list (map (\<lambda>s. sum_list (map (span_overlap s) NCCL_PHASES)) segs)"

text \<open>
  The phases fill the first 1940 ms without a gap, those called NCCL are the marked ones, and the
  paced flush avoids them; the greedy one is drawn for 320 ms, of which 240 ms are during NCCL.
\<close>

lemma fig3_timeline:
  "nccl_overlap (flush_segs True) = 0" "nccl_overlap (flush_segs False) = 240"
  "map (\<lambda>(t, d, l). (t, t + d)) (filter (\<lambda>(t, d, l). l = ''NCCL reduce_scatter'') fig3_phases) = NCCL_PHASES"
  "\<forall>i < 12. fst (fig3_phases ! i) + fst (snd (fig3_phases ! i)) = fst (fig3_phases ! Suc i)"
  by (simp_all add: nccl_overlap_def flush_segs_def span_overlap_def NCCL_PHASES_def fig3_phases_def
      numeral_eq_Suc less_Suc_eq)

section \<open>Figure 4: the degradation table\<close>

record scale_bar =
  sb_baseline :: real
  sb_contention :: real
  sb_drop_pct :: real
  sb_amplif :: real

definition fig4_bars :: "scale_bar list" where
  "fig4_bars =
     [\<lparr>sb_baseline = 1798 / 100, sb_contention = 1778 / 100, sb_drop_pct = 11 / 10, sb_amplif = 1\<rparr>,
      \<lparr>sb_baseline = 1675 / 100, sb_contention = 1634 / 100, sb_drop_pct = 24 / 10, sb_amplif = 22 / 10\<rparr>,
      \<lparr>sb_baseline = 1620 / 100, sb_contention = 1566 / 100, sb_drop_pct = 33 / 10, sb_amplif = 29 / 10\<rparr>]"

definition bar_drop :: "scale_bar \<Rightarrow> real" where
  "bar_drop b = - pct_change (sb_baseline b) (sb_contention b)"

text \<open>The labelled drops are the computed ones to a tenth; the last amplification is not.\<close>

lemma fig4_table:
  "\<forall>b \<in> set fig4_bars. \<bar>bar_drop b - sb_drop_pct b\<bar> \<le> 1 / 20"
  "299 / 100 < bar_drop (fig4_bars ! 2) / bar_drop (fig4_bars ! 0)" "sb_amplif (fig4_bars ! 2) = 29 / 10"
  by (simp_all add: fig4_bars_def bar_drop_def pct_change_def)

section \<open>Figure 7: the interference timeline\<close>

record probe_row =
  pb_timestamp :: real
  pb_step :: int
  pb_bw :: real
  pb_flood :: bool
  pb_nic :: real

text \<open>The simulated probe, from standard normal draws: clear and flooded bandwidth, NIC of both.\<close>

definition simulate_probe :: "bool \<Rightarrow> (nat \<Rightarrow> nat \<Rightarrow> real) \<Rightarrow> probe_row list" where
  "simulate_probe baseline z =
     map (\<lambda>i.
       let flood = 100 \<le> i \<and> i < 300;
           bw = (if baseline then (if flood then 45 / 10 + 4 / 10 * z 0 i else 82 / 10 + 3 / 10 * z 1 i)
                 else (if flood then 78 / 10 + 35 / 100 * z 2 i else 82 / 10 + 3 / 10 * z 3 i));
           nic = (if flood then (if baseline then 85 else 45) + 5 * z 4 i else 10 + 3 * z 5 i)
       in \<lparr>pb_timestamp = of_nat i * (50 / 499), pb_step = int i, pb_bw = np_clip (1 / 2) 12 bw,
           pb_flood = flood, pb_nic = np_clip 0 100 nic\<rparr>) [0..<500]"

text \<open>\<open>_shade_flood\<close>: the spans of the flood; \<open>start\<close> is set while in one.\<close>

fun shade_from :: "real option \<Rightarrow> probe_row list \<Rightarrow> (real \<times> real) list \<times> real option" where
  "shade_from start [] = ([], start)"
| "shade_from start (row # rows) =
     (case start of
        None \<Rightarrow> if pb_flood row then shade_from (Some (pb_timestamp row)) rows else shade_from None rows
      | Some s \<Rightarrow>
          if pb_flood row then shade_from (Some s) rows
          else (case shade_from None rows of (spans, st) \<Rightarrow> ((s, pb_timestamp row) # spans, st)))"

definition shade_flood :: "probe_row list \<Rightarrow> (real \<times> real) list" where
  "shade_flood df =
     (case shade_from None df of
        (spans, None) \<Rightarrow> spans
      | (spans, Some s) \<Rightarrow> spans @ [(s, pb_timestamp (last df))])"

text \<open>\<open>rolling(w, min_periods=1).median()\<close>.\<close>

definition rolling_median :: "nat \<Rightarrow> real list \<Rightarrow> real list" where
  "rolling_median w xs = map (\<lambda>i. median_of (take (min w (Suc i)) (drop (Suc i - w) xs))) [0..<length xs]"

definition df_median :: "real list \<Rightarrow> real option" where
  "df_median xs = (if xs = [] then None else Some (median_of xs))"

record interference =
  nt_drop_pct :: "real option"
  nt_recovery :: "real option"
  nt_shade :: "(real \<times> real) list"
  nt_base_line :: "real list"
  nt_v2_line :: "real list"

definition fig7_interference :: "probe_row list \<Rightarrow> probe_row list \<Rightarrow> interference" where
  "fig7_interference base v2 =
     (let flood_bw = (\<lambda>df. df_median (map pb_bw (filter pb_flood df)));
          clean_bw = df_median (map pb_bw (filter (\<lambda>r. \<not> pb_flood r) base));
          ratio = (\<lambda>x y. case (x, y) of (Some a, Some b) \<Rightarrow> np_div a b | _ \<Rightarrow> None)
      in \<lparr>nt_drop_pct = map_option (\<lambda>q. 100 * (1 - q)) (ratio (flood_bw base) clean_bw),
          nt_recovery = map_option (\<lambda>q. 100 * q) (ratio (flood_bw v2) clean_bw),
          nt_shade = shade_flood base, nt_base_line = rolling_median 10 (map pb_bw base),
          nt_v2_line = rolling_median 10 (map pb_bw v2)\<rparr>)"

lemma shade_from_ends:
  "shade_from st rows = (spans, st') \<Longrightarrow>
   (\<forall>(a, b) \<in> set spans. (st = Some a \<or> a \<in> pb_timestamp ` set rows) \<and> b \<in> pb_timestamp ` set rows) \<and>
   (\<forall>s. st' = Some s \<longrightarrow> st = Some s \<or> s \<in> pb_timestamp ` set rows)"
proof (induction rows arbitrary: st spans st')
  case (Cons row rows)
  show ?case
  proof (cases "pb_flood row")
    case True
    then have "shade_from (Some (case st of Some s \<Rightarrow> s | None \<Rightarrow> pb_timestamp row)) rows = (spans, st')"
      using Cons.prems by (auto split: option.splits)
    from Cons.IH [OF this] show ?thesis by (cases st) fastforce+
  next
    case False
    then obtain spans1 where "shade_from None rows = (spans1, st')"
      and "spans = (case st of Some s \<Rightarrow> (s, pb_timestamp row) # spans1 | None \<Rightarrow> spans1)"
      using Cons.prems by (auto split: option.splits prod.splits)
    then show ?thesis using Cons.IH by (cases st) fastforce+
  qed
qed simp

text \<open>A span that is open at the start is closed or stays open.\<close>

lemma shade_from_open:
  "shade_from (Some s) rows = (spans, st') \<Longrightarrow>
   (\<exists>b. (s, b) \<in> set spans \<and> b \<in> pb_timestamp ` set rows) \<or> st' = Some s"
proof (induction rows arbitrary: spans st')
  case (Cons row rows)
  then show ?case by (cases "pb_flood row") (fastforce split: prod.splits)+
qed simp

lemma shade_from_flood:
  "\<lbrakk>shade_from st rows = (spans, st'); sorted_wrt (<) (map pb_timestamp rows);
    \<forall>s. st = Some s \<longrightarrow> (\<forall>r \<in> set rows. s < pb_timestamp r)\<rbrakk> \<Longrightarrow>
   \<forall>r \<in> set rows. pb_flood r \<longleftrightarrow>
     (\<exists>(a, b) \<in> set spans. a \<le> pb_timestamp r \<and> pb_timestamp r < b) \<or>
     (\<exists>s. st' = Some s \<and> s \<le> pb_timestamp r)"
proof (induction rows arbitrary: st spans st')
  case (Cons row rows)
  let ?t = "pb_timestamp row"
  have later: "\<forall>r \<in> set rows. ?t < pb_timestamp r" "sorted_wrt (<) (map pb_timestamp rows)"
    using Cons.prems(2) by auto
  show ?case
  proof (cases "pb_flood row")
    case True
    define s where "s = (case st of Some s \<Rightarrow> s | None \<Rightarrow> ?t)"
    have run: "shade_from (Some s) rows = (spans, st')" and s: "s \<le> ?t" "\<forall>r \<in> set rows. s < pb_timestamp r"
      using Cons.prems(1,3) True later(1) by (auto simp: s_def split: option.splits)
    have "\<forall>r \<in> set rows. pb_flood r \<longleftrightarrow>
       (\<exists>(a, b) \<in> set spans. a \<le> pb_timestamp r \<and> pb_timestamp r < b) \<or>
       (\<exists>s. st' = Some s \<and> s \<le> pb_timestamp r)"
      using Cons.IH [OF run later(2)] s(2) by simp
    moreover have "(\<exists>(a, b) \<in> set spans. a \<le> ?t \<and> ?t < b) \<or> (\<exists>s. st' = Some s \<and> s \<le> ?t)"
      using shade_from_open [OF run] s(1) later(1) by fastforce
    ultimately show ?thesis using True by simp
  next
    case False
    obtain spans1 where run: "shade_from None rows = (spans1, st')"
      and spans: "spans = (case st of Some s \<Rightarrow> (s, ?t) # spans1 | None \<Rightarrow> spans1)"
      using Cons.prems(1) False by (auto split: option.splits prod.splits)
    note ends = shade_from_ends [OF run]
    have ih: "\<forall>r \<in> set rows. pb_flood r \<longleftrightarrow>
       (\<exists>(a, b) \<in> set spans1. a \<le> pb_timestamp r \<and> pb_timestamp r < b) \<or>
       (\<exists>s. st' = Some s \<and> s \<le> pb_timestamp r)"
      using Cons.IH [OF run later(2)] by simp
    have "\<not> ((\<exists>(a, b) \<in> set spans. a \<le> ?t \<and> ?t < b) \<or> (\<exists>s. st' = Some s \<and> s \<le> ?t))"
      using ends later(1) by (auto simp: spans split: option.splits) fastforce+
    moreover have "(\<exists>(a, b) \<in> set spans. a \<le> pb_timestamp r \<and> pb_timestamp r < b) \<longleftrightarrow>
        (\<exists>(a, b) \<in> set spans1. a \<le> pb_timestamp r \<and> pb_timestamp r < b)" if "r \<in> set rows" for r
      using later(1) that by (auto simp: spans split: option.splits)
    ultimately show ?thesis using ih False by simp
  qed
qed simp

text \<open>
  The shaded spans. For rows in the order of their times, every row of the flood lies in a span and
  no other row lies in one before its end.
\<close>

lemma shade_flood_spans:
  assumes "sorted_wrt (<) (map pb_timestamp df)" and "r \<in> set df"
  shows "(pb_flood r \<longrightarrow> (\<exists>(a, b) \<in> set (shade_flood df). a \<le> pb_timestamp r \<and> pb_timestamp r \<le> b)) \<and>
    (\<not> pb_flood r \<longrightarrow> \<not> (\<exists>(a, b) \<in> set (shade_flood df). a \<le> pb_timestamp r \<and> pb_timestamp r < b))"
proof -
  obtain spans st where run: "shade_from None df = (spans, st)" by (metis surj_pair)
  have f: "pb_flood r \<longleftrightarrow> (\<exists>(a, b) \<in> set spans. a \<le> pb_timestamp r \<and> pb_timestamp r < b) \<or>
      (\<exists>s. st = Some s \<and> s \<le> pb_timestamp r)"
    using shade_from_flood [OF run assms(1)] assms(2) by simp
  have last: "pb_timestamp r \<le> pb_timestamp (last df)"
    using assms by (induction df) (auto simp: less_imp_le)
  show ?thesis
  proof (cases st)
    case None
    then have "shade_flood df = spans" using run by (simp add: shade_flood_def)
    moreover have "\<exists>(a, b) \<in> set spans. a \<le> pb_timestamp r \<and> pb_timestamp r \<le> b"
      if "\<exists>(a, b) \<in> set spans. a \<le> pb_timestamp r \<and> pb_timestamp r < b"
    proof -
      from that obtain a b where "(a, b) \<in> set spans" "a \<le> pb_timestamp r" "pb_timestamp r < b" by blast
      then show ?thesis by (intro bexI [of _ "(a, b)"]) simp_all
    qed
    ultimately show ?thesis using f None by simp
  next
    case (Some s)
    then have "set (shade_flood df) = insert (s, pb_timestamp (last df)) (set spans)"
      using run by (simp add: shade_flood_def)
    with f Some last show ?thesis by (fastforce intro: less_imp_le)
  qed
qed

section \<open>Figure 5: the comparison over the steps\<close>

text \<open>Rows of the two runs: step and bandwidth. The callout compares the means at checkpoint steps.\<close>

definition step_groups :: "(int \<times> real) list \<Rightarrow> (int \<times> real list) list" where
  "step_groups df = map (\<lambda>k. (k, map snd (filter (\<lambda>r. fst r = k) df))) (sort (remdups (map fst df)))"

record comparison =
  co_markers :: "int list"
  co_base :: "(int \<times> real \<times> real \<times> real) list"
  co_tempo :: "(int \<times> real \<times> real \<times> real) list"
  co_overall_imp :: "real option"

definition step_curve :: "(int \<times> real) list \<Rightarrow> (int \<times> real \<times> real \<times> real) list" where
  "step_curve df =
     map (\<lambda>(k, bw). (k, np_percentile 25 bw, median_of bw, np_percentile 75 bw)) (step_groups df)"

text \<open>No figure without both files or with fewer than 5 rows in one.\<close>

definition fig5_comparison ::
    "(int \<times> real) list option \<Rightarrow> (int \<times> real) list option \<Rightarrow> comparison option" where
  "fig5_comparison baseline_csv tempo_csv =
     (case (baseline_csv, tempo_csv) of
        (Some base, Some tempo) \<Rightarrow>
          if length base < 5 \<or> length tempo < 5 then None
          else
            let ckpt = (\<lambda>df. map snd (filter (\<lambda>r. fst r \<in> {20, 40, 60}) df));
                b = ckpt base; t = ckpt tempo
            in Some \<lparr>co_markers = filter (\<lambda>cs. cs \<in> fst ` set base \<union> fst ` set tempo) [20, 40, 60],
                 co_base = step_curve base, co_tempo = step_curve tempo,
                 co_overall_imp = (if b = [] \<or> t = [] then None
                   else map_option (\<lambda>q. (q - 1) * 100) (np_div (np_mean t) (np_mean b)))\<rparr>
      | _ \<Rightarrow> None)"

section \<open>Figure 8: the simulated serving modes\<close>

record mode_perf =
  mp_bw_ckpt :: real
  mp_bw_ok :: real
  mp_itl_p50 :: real
  mp_itl_p99 :: real
  mp_slo_viol :: real

definition mode_perf_of :: "string \<Rightarrow> mode_perf" where
  "mode_perf_of mode =
     (if mode = ''baseline'' then \<lparr>mp_bw_ckpt = 48 / 10, mp_bw_ok = 81 / 10, mp_itl_p50 = 35, mp_itl_p99 = 280, mp_slo_viol = 22 / 100\<rparr>
      else if mode = ''tempo-v1'' then \<lparr>mp_bw_ckpt = 71 / 10, mp_bw_ok = 82 / 10, mp_itl_p50 = 25, mp_itl_p99 = 190, mp_slo_viol = 8 / 100\<rparr>
      else if mode = ''tempo-v2'' then \<lparr>mp_bw_ckpt = 8, mp_bw_ok = 83 / 10, mp_itl_p50 = 18, mp_itl_p99 = 130, mp_slo_viol = 3 / 100\<rparr>
      else if mode = ''tempo-v2-no-net'' then \<lparr>mp_bw_ckpt = 74 / 10, mp_bw_ok = 82 / 10, mp_itl_p50 = 22, mp_itl_p99 = 175, mp_slo_viol = 7 / 100\<rparr>
      else if mode = ''tempo-v2-no-gain'' then \<lparr>mp_bw_ckpt = 76 / 10, mp_bw_ok = 83 / 10, mp_itl_p50 = 20, mp_itl_p99 = 155, mp_slo_viol = 5 / 100\<rparr>
      else if mode = ''tempo-v2-no-il'' then \<lparr>mp_bw_ckpt = 72 / 10, mp_bw_ok = 82 / 10, mp_itl_p50 = 23, mp_itl_p99 = 185, mp_slo_viol = 6 / 100\<rparr>
      else \<lparr>mp_bw_ckpt = 7, mp_bw_ok = 8, mp_itl_p50 = 25, mp_itl_p99 = 180, mp_slo_viol = 7 / 100\<rparr>)"

text \<open>The draws of a step: bandwidth, latency (standard normal), the spike factor and the gain.\<close>

record burst_draw =
  bd_bw :: real
  bd_itl :: real
  bd_spike :: real
  bd_gain :: real

record burst_row =
  br_step :: nat
  br_nccl_bw_gbs :: real
  br_itl_ms :: real
  br_io_active :: bool
  br_svc_gain :: real
  br_slo_violation :: bool

definition lognormal_sigma :: "real \<Rightarrow> real \<Rightarrow> real" where
  "lognormal_sigma p50 p99 = ln (p99 / p50) / (2326 / 1000)"

definition slo_violation_at :: "real \<Rightarrow> nat \<Rightarrow> bool" where
  "slo_violation_at p_thresh step \<longleftrightarrow> of_nat (step * 7919 mod 10000) / 10000 < p_thresh"

definition fig8_ckpt_steps :: "nat list" where
  "fig8_ckpt_steps = [30, 60, 90, 120, 150, 180]"

definition burst_row_of :: "mode_perf \<Rightarrow> nat \<Rightarrow> burst_draw \<Rightarrow> burst_row" where
  "burst_row_of perf step d =
     (let is_c = (step \<in> set fig8_ckpt_steps);
          bw = (if is_c then mp_bw_ckpt perf else mp_bw_ok perf) + 3 / 10 * bd_bw d;
          sigma = lognormal_sigma (mp_itl_p50 perf) (mp_itl_p99 perf);
          itl0 = exp (ln (mp_itl_p50 perf) + sigma * bd_itl d);
          itl = (if is_c then itl0 * bd_spike d else itl0);
          p_thresh = (if is_c then mp_slo_viol perf else mp_slo_viol perf * (15 / 100))
      in \<lparr>br_step = step, br_nccl_bw_gbs = max (1 / 2) bw, br_itl_ms = max 5 itl, br_io_active = is_c,
          br_svc_gain = bd_gain d, br_slo_violation = slo_violation_at p_thresh step\<rparr>)"

definition simulate_mode :: "string \<Rightarrow> (nat \<Rightarrow> burst_draw) \<Rightarrow> burst_row list" where
  "simulate_mode mode d = map (\<lambda>step. burst_row_of (mode_perf_of mode) step (d step)) [0..<200]"

definition slo_rate :: "burst_row list \<Rightarrow> real" where
  "slo_rate df = np_mean (map (\<lambda>r. of_bool (br_slo_violation r)) df) * 100"

text \<open>The quantile the width of the distribution is made for: at 2.326 deviations it is \<open>p99\<close>.\<close>

lemma lognormal_p99:
  assumes "0 < p50" "0 < p99"
  shows "exp (ln p50 + lognormal_sigma p50 p99 * (2326 / 1000)) = p99"
proof -
  have "exp (ln p50 + ln (p99 / p50)) = p99" using assms by (simp add: exp_add)
  then show ?thesis by (simp add: lognormal_sigma_def)
qed

text \<open>
  The figure: per mode the medians of the bandwidth, the percentiles of the latency, the rate of the
  violations and the points of the scatter plot. A file may lack the column of the gain.
\<close>

record burst_mode =
  bm_ckpt_bw :: "real option"
  bm_other_bw :: "real option"
  bm_p50 :: real
  bm_p99 :: real
  bm_slo_rate :: real
  bm_scatter :: "(real \<times> real) list"

definition burst_mode_of :: "bool \<Rightarrow> burst_row list \<Rightarrow> burst_mode result" where
  "burst_mode_of has_gain df =
     (let at_ckpt = filter br_io_active df;
          points = (if at_ckpt = [] then df else at_ckpt)
      in if df = [] then Inl IndexError
         else Inr \<lparr>bm_ckpt_bw = df_median (map br_nccl_bw_gbs at_ckpt),
                bm_other_bw = df_median (map br_nccl_bw_gbs (filter (\<lambda>r. \<not> br_io_active r) df)),
                bm_p50 = np_percentile 50 (map br_itl_ms df), bm_p99 = np_percentile 99 (map br_itl_ms df),
                bm_slo_rate = slo_rate df,
                bm_scatter = (if has_gain then map (\<lambda>r. (br_svc_gain r, br_nccl_bw_gbs r)) points else [])\<rparr>)"

definition FIG8_MODES :: "string list" where
  "FIG8_MODES = [''baseline'', ''tempo-v1'', ''tempo-v2'', ''tempo-v2-no-net'', ''tempo-v2-no-gain'',
     ''tempo-v2-no-il'']"

text \<open>The measured rows of a mode if there is a file, else the simulated ones.\<close>

definition burst_df ::
    "(string \<rightharpoonup> bool \<times> burst_row list) \<Rightarrow> (string \<Rightarrow> nat \<Rightarrow> burst_draw) \<Rightarrow> string \<Rightarrow> bool \<times> burst_row list" where
  "burst_df files d mode = (case files mode of Some df \<Rightarrow> df | None \<Rightarrow> (True, simulate_mode mode (d mode)))"

text \<open>A panel runs over the modes in order and ends with the first exception.\<close>

fun all_modes :: "(string \<Rightarrow> 'a result) \<Rightarrow> string list \<Rightarrow> 'a list result" where
  "all_modes panel [] = Inr []"
| "all_modes panel (mode # modes) =
     and_then (panel mode) (\<lambda>x. and_then (all_modes panel modes) (\<lambda>xs. Inr (x # xs)))"

text \<open>The percentages over the bars are relative to the first mode.\<close>

definition bw_pcts :: "burst_mode list \<Rightarrow> real option list" where
  "bw_pcts ms =
     map (\<lambda>m. case (bm_ckpt_bw m, bm_ckpt_bw (hd ms)) of
        (Some v, Some base_ckpt) \<Rightarrow> map_option (\<lambda>q. q * 100) (np_div (v - base_ckpt) base_ckpt)
      | _ \<Rightarrow> None) (tl ms)"

definition fig8_burstgpt ::
    "(string \<rightharpoonup> bool \<times> burst_row list) \<Rightarrow> (string \<Rightarrow> nat \<Rightarrow> burst_draw)
     \<Rightarrow> (burst_mode list \<times> real option list) result" where
  "fig8_burstgpt files d =
     and_then (all_modes (\<lambda>mode. case burst_df files d mode of (g, df) \<Rightarrow> burst_mode_of g df) FIG8_MODES)
       (\<lambda>ms. Inr (ms, bw_pcts ms))"

text \<open>The violations are the same whatever the latencies are.\<close>

lemma slo_independent_of_latency: "slo_rate (simulate_mode mode d) = slo_rate (simulate_mode mode d')"
  by (simp add: slo_rate_def simulate_mode_def comp_def burst_row_of_def Let_def)

text \<open>The rate drawn for the baseline, whose nominal one is 22%, is 3.5%.\<close>

lemma sum_of_bool_filter: "sum_list (map (\<lambda>x. of_bool (P x)) xs) = (of_nat (length (filter P xs)) :: real)"
  by (induction xs) simp_all

lemma slo_rate_baseline: "slo_rate (simulate_mode ''baseline'' d) = 35 / 10"
proof -
  have eq: "br_slo_violation (burst_row_of (mode_perf_of ''baseline'') step (d step)) \<longleftrightarrow>
      step * 7919 mod 10000 < (if step \<in> set fig8_ckpt_steps then 2200 else 330)" for step
  proof -
    have "of_nat (step * 7919 mod 10000) / 10000 < (22 / 100 :: real) \<longleftrightarrow> step * 7919 mod 10000 < 2200"
      "of_nat (step * 7919 mod 10000) / 10000 < (22 / 100 * (15 / 100) :: real) \<longleftrightarrow> step * 7919 mod 10000 < 330"
      by (simp_all add: divide_less_eq)
    then show ?thesis
      by (simp add: burst_row_of_def mode_perf_of_def slo_violation_at_def Let_def del: of_nat_mult)
  qed
  define P where "P = (\<lambda>step :: nat. step * 7919 mod 10000 < (if step \<in> set fig8_ckpt_steps then 2200 else 330))"
  have "[0..<200] = 0 # 1 # [2..<200 :: nat]" by (simp add: upt_conv_Cons numeral_2_eq_2 del: upt_rec_numeral)
  then have n: "length (filter P [0..<200]) = 7" unfolding P_def fig8_ckpt_steps_def by simp
  have "slo_rate (simulate_mode ''baseline'' d) = np_mean (map (\<lambda>step. of_bool (P step)) [0..<200]) * 100"
    unfolding slo_rate_def simulate_mode_def map_map comp_def eq P_def ..
  also have "\<dots> = sum_list (map (\<lambda>step. of_bool (P step)) [0..<200]) / 200 * 100"
    unfolding np_mean_def length_map length_upt by simp
  also have "\<dots> = 35 / 10" unfolding sum_of_bool_filter n by simp
  finally show ?thesis .
qed

section \<open>Figure 9: placement and the conflict model\<close>

record bw_row =
  bw_step :: nat
  bw_bw_gbs :: real
  bw_lat_ms :: real
  bw_flood :: bool

definition placement_row :: "real \<Rightarrow> real \<Rightarrow> nat \<Rightarrow> real \<Rightarrow> bw_row" where
  "placement_row base flood_drop step z =
     (let flood = 80 \<le> step \<and> step < 280; fall = (if flood then flood_drop else 0);
          bw = base * (1 - fall) + 4 / 10 * z; lat = (base / max (1 / 10) bw) * 12
      in \<lparr>bw_step = step, bw_bw_gbs = max (1 / 10) bw, bw_lat_ms = max 1 lat, bw_flood = flood\<rparr>)"

definition simulate_placement :: "string \<Rightarrow> (nat \<Rightarrow> real) \<Rightarrow> bw_row list result" where
  "simulate_placement mode z =
     (case map_of [(''naive'', (22, 46 / 100)), (''tempo-v2'', (215 / 10, 12 / 100)),
                   (''tempo-v3'', (218 / 10, 5 / 100))] mode of
        None \<Rightarrow> Inl KeyError
      | Some (base, fall) \<Rightarrow> Inr (map (\<lambda>step. placement_row base fall step (z step)) [0..<400]))"

definition flood_bw_drop :: "bw_row list \<Rightarrow> real option" where
  "flood_bw_drop df =
     (let bw = map bw_bw_gbs (filter (\<lambda>r. 80 \<le> bw_step r \<and> bw_step r < 280) df)
      in if bw = [] then None else Some (100 * (1 - np_mean bw / 22)))"

definition P_CONFLICT_CAPACITY :: real where
  "P_CONFLICT_CAPACITY = 16 * 10 ^ 11 - 3 * 10 ^ 11"

definition p_conflict :: "nat \<Rightarrow> real \<Rightarrow> real" where
  "p_conflict n R_io = np_clip 0 1 (1 - (1 - R_io / max P_CONFLICT_CAPACITY (10 ^ 9)) ^ n)"

lemma p_conflict_capacity: "max P_CONFLICT_CAPACITY (10 ^ 9) = 13 * 10 ^ 11"
  by (simp add: P_CONFLICT_CAPACITY_def)

lemma p_conflict_mono:
  assumes "0 \<le> R" "R \<le> R'" "R' \<le> 13 * 10 ^ 11" and "n \<le> n'"
  shows "p_conflict n R \<le> p_conflict n' R'"
proof -
  let ?x = "1 - R / (13 * 10 ^ 11)" and ?y = "1 - R' / (13 * 10 ^ 11)"
  have xy: "0 \<le> ?y" "?y \<le> ?x" "?x \<le> 1" using assms(1-3) by (simp_all add: divide_le_eq)
  have "?y ^ n' \<le> ?y ^ n" using xy assms(4) by (intro power_decreasing) simp_all
  also have "\<dots> \<le> ?x ^ n" using xy by (intro power_mono) simp_all
  finally show ?thesis unfolding p_conflict_def p_conflict_capacity np_clip_def by simp
qed

text \<open>
  The conflict model. The probability grows with the rate and with the number of I/O ranks, and at
  the plotted quota of 20% of the links it is above 24% for every number of ranks, far over the 5%
  that is plotted as the target and that the router's quota is said to keep.
\<close>

lemma quota_misses_target:
  assumes "1 \<le> n" and "2 / 10 * (16 * 10 ^ 11) \<le> R" and "R \<le> 13 * 10 ^ 11"
  shows "24 / 100 < p_conflict n R \<and> (\<forall>n' \<ge> n. p_conflict n R \<le> p_conflict n' R)"
proof -
  have "24 / 100 < p_conflict 1 (2 / 10 * (16 * 10 ^ 11))"
    unfolding p_conflict_def p_conflict_capacity by (simp add: np_clip_def)
  also have "\<dots> \<le> p_conflict n R" using assms by (intro p_conflict_mono) simp_all
  finally show ?thesis using p_conflict_mono [of R R n] assms by simp
qed

text \<open>The stacked bars: the placement shares of each mode add up to 100%.\<close>

definition tier_pcts :: "string \<Rightarrow> real list" where
  "tier_pcts mode =
     (if mode = ''naive'' then [0, 100, 0] else if mode = ''tempo-v2'' then [0, 60, 40] else [55, 30, 15])"

definition tier_bottoms :: "string \<Rightarrow> real list" where
  "tier_bottoms mode = map (\<lambda>i. sum_list (take i (tier_pcts mode))) [0..<3]"

text \<open>
  The figure: the lines of the three modes, the drops written for the first and the last, the bars,
  and the curves of the conflict model over 300 rates up to 0.8e12.
\<close>

definition FIG9_MODES :: "string list" where
  "FIG9_MODES = [''naive'', ''tempo-v2'', ''tempo-v3'']"

definition conflict_curve :: "nat \<Rightarrow> (real \<times> real) list" where
  "conflict_curve n =
     map (\<lambda>i. let R_io = of_nat i * (8 * 10 ^ 11 / 299) in (R_io / 10 ^ 9, p_conflict n R_io)) [0..<300]"

record placement_figure =
  pf_lines :: "(nat \<times> real) list list"
  pf_drops :: "real option list"
  pf_bars :: "(real \<times> real) list list"
  pf_curves :: "(real \<times> real) list list"

definition placement_df ::
    "(string \<rightharpoonup> bw_row list) \<Rightarrow> (string \<Rightarrow> nat \<Rightarrow> real) \<Rightarrow> string \<Rightarrow> bw_row list result" where
  "placement_df files z mode = (case files mode of Some df \<Rightarrow> Inr df | None \<Rightarrow> simulate_placement mode (z mode))"

definition fig9_topology_placement ::
    "(string \<rightharpoonup> bw_row list) \<Rightarrow> (string \<Rightarrow> nat \<Rightarrow> real) \<Rightarrow> placement_figure result" where
  "fig9_topology_placement files z =
     and_then (placement_df files z ''naive'') (\<lambda>naive.
     and_then (placement_df files z ''tempo-v2'') (\<lambda>v2.
     and_then (placement_df files z ''tempo-v3'') (\<lambda>v3.
       Inr \<lparr>pf_lines = map (map (\<lambda>r. (bw_step r, bw_bw_gbs r))) [naive, v2, v3],
            pf_drops = [flood_bw_drop naive, flood_bw_drop v3],
            pf_bars = map (\<lambda>mode. zip (tier_bottoms mode) (tier_pcts mode)) FIG9_MODES,
            pf_curves = map conflict_curve [1, 2, 4]\<rparr>)))"

text \<open>Every mode's placement shares add up to 100%, and the figure is drawn whatever files are there.\<close>

lemma tier_shares: "mode \<in> set FIG9_MODES \<Longrightarrow> sum_list (tier_pcts mode) = 100"
  by (auto simp: FIG9_MODES_def tier_pcts_def)

lemma fig9_drawn: "\<exists>fig. fig9_topology_placement files z = Inr fig"
  by (auto simp: fig9_topology_placement_def placement_df_def simulate_placement_def and_then_def
      split: option.split)

section \<open>Figure 10: the simulated traffic classes\<close>

definition qos_params :: "string \<Rightarrow> (real \<times> real) option" where
  "qos_params = map_of [(''no-qos'', (12, 80)), (''qos-soft'', (115 / 10, 52)), (''qos-hard'', (11, 28))]"

definition qos_scale :: "string \<Rightarrow> bool \<Rightarrow> real" where
  "qos_scale mode flood =
     (if \<not> flood then 1 else if mode = ''no-qos'' then 25 / 10 else if mode = ''qos-soft'' then 16 / 10 else 12 / 10)"

definition qos_row :: "string \<Rightarrow> real \<Rightarrow> real \<Rightarrow> nat \<Rightarrow> real \<Rightarrow> bw_row" where
  "qos_row mode p50 p99 step z =
     (let flood = 80 \<le> step \<and> step < 280;
          lat = exp (ln p50 + lognormal_sigma p50 p99 * z) * qos_scale mode flood;
          bw = 22 / max (1 / 10) (lat / 12)
      in \<lparr>bw_step = step, bw_bw_gbs = max (1 / 10) bw, bw_lat_ms = max 1 lat, bw_flood = flood\<rparr>)"

definition simulate_qos :: "string \<Rightarrow> (nat \<Rightarrow> real) \<Rightarrow> bw_row list result" where
  "simulate_qos mode z =
     (case qos_params mode of
        None \<Rightarrow> Inl KeyError
      | Some (p50, p99) \<Rightarrow> Inr (map (\<lambda>step. qos_row mode p50 p99 step (z step)) [0..<400]))"

definition flood_latencies :: "bw_row list \<Rightarrow> real list" where
  "flood_latencies df = map bw_lat_ms (filter (\<lambda>r. 80 \<le> bw_step r \<and> bw_step r < 280) df)"

record qos_figure =
  qf_bars :: "real list list"
  qf_improvement :: "real option"
  qf_cdfs :: "(real \<times> real) list list"

definition cdf_of :: "real list \<Rightarrow> (real \<times> real) list" where
  "cdf_of xs = (let s = sort xs in map (\<lambda>i. (s ! i, (of_nat i + 1) / of_nat (length s))) [0..<length s])"

text \<open>From the latencies during the flood of the three modes; the percentile of none raises.\<close>

definition fig10_qos :: "real list \<Rightarrow> real list \<Rightarrow> real list \<Rightarrow> qos_figure result" where
  "fig10_qos no_qos soft hard =
     (if no_qos = [] \<or> soft = [] \<or> hard = [] then Inl IndexError
      else
        let modes = [no_qos, soft, hard]
        in Inr \<lparr>qf_bars = map (\<lambda>p. map (np_percentile p) modes) [50, 95, 99],
                qf_improvement = map_option (\<lambda>q. (1 - q) * 100)
                  (np_div (np_percentile 99 hard) (np_percentile 99 no_qos)),
                qf_cdfs = map cdf_of modes\<rparr>)"

text \<open>
  With the same draws the latency of a later class is never higher: the figure's order of the
  classes is in the parameters.
\<close>

lemma qos_row_order:
  assumes "0 \<le> z"
  shows "bw_lat_ms (qos_row ''qos-hard'' 11 28 step z) \<le> bw_lat_ms (qos_row ''qos-soft'' (115 / 10) 52 step z)"
    and "bw_lat_ms (qos_row ''qos-soft'' (115 / 10) 52 step z) \<le> bw_lat_ms (qos_row ''no-qos'' 12 80 step z)"
proof -
  have sig: "lognormal_sigma 11 28 \<le> lognormal_sigma (115 / 10) 52"
    "lognormal_sigma (115 / 10) 52 \<le> lognormal_sigma 12 80"
    by (simp_all add: lognormal_sigma_def divide_right_mono)
  have "ln 11 + lognormal_sigma 11 28 * z \<le> ln (115 / 10) + lognormal_sigma (115 / 10) 52 * z"
    "ln (115 / 10) + lognormal_sigma (115 / 10) 52 * z \<le> ln 12 + lognormal_sigma 12 80 * z"
    using sig assms by (intro add_mono mult_right_mono; simp)+
  then have "exp (ln 11 + lognormal_sigma 11 28 * z) \<le> exp (ln (115 / 10) + lognormal_sigma (115 / 10) 52 * z)"
    "exp (ln (115 / 10) + lognormal_sigma (115 / 10) 52 * z) \<le> exp (ln 12 + lognormal_sigma 12 80 * z)"
    by (simp_all only: exp_le_cancel_iff)
  then show "bw_lat_ms (qos_row ''qos-hard'' 11 28 step z) \<le> bw_lat_ms (qos_row ''qos-soft'' (115 / 10) 52 step z)"
    and "bw_lat_ms (qos_row ''qos-soft'' (115 / 10) 52 step z) \<le> bw_lat_ms (qos_row ''no-qos'' 12 80 step z)"
    unfolding qos_row_def Let_def bw_row.select_convs
    by (intro max.mono order.refl mult_mono; simp add: qos_scale_def)+
qed

section \<open>Figure 11: the component models\<close>

definition SEQ_LENS :: "nat list" where
  "SEQ_LENS = [256, 512, 1024, 2048, 4096, 8192]"

definition hot_upper :: "nat \<Rightarrow> real" where
  "hot_upper n = min 1 (1 / (of_nat n * (1 / 100)))"

definition hot_empirical :: "nat \<Rightarrow> real" where
  "hot_empirical n = (if n = 256 then 22 / 100 else if n = 512 then 17 / 100 else 12 / 100)"

definition reduction_x :: "nat \<Rightarrow> real" where
  "reduction_x n = 1 / hot_empirical n"

definition lustre_lat :: "real \<Rightarrow> real" where
  "lustre_lat mb = 1 / 2 + mb / 6144 * 1000"

definition p2p_dram :: "real \<Rightarrow> real" where
  "p2p_dram mb = 5 / 100 + mb / (200 * 1024) * 1000"

definition p2p_nvme :: "real \<Rightarrow> real" where
  "p2p_nvme mb = 5 / 100 + mb / (10 * 1024) * 1000"

definition overlap_efficiency :: "real \<Rightarrow> real" where
  "overlap_efficiency t_io =
     (let t_compute = 35 / 10; bubble = max 0 (t_io - t_compute)
      in 1 - bubble / max (1 / 10 ^ 6) (t_compute + bubble))"

text \<open>The curves of the other panels, over the plotted lengths and sizes.\<close>

definition SIZES_MB :: "real list" where
  "SIZES_MB = [1, 4, 16, 64, 256, 1024]"

record component_curves =
  cc_bound :: "(nat \<times> real) list"
  cc_reduction :: "(nat \<times> real) list"
  cc_latency :: "(real \<times> real \<times> real \<times> real) list"
  cc_efficiency :: "real list"

definition fig11_curves :: component_curves where
  "fig11_curves =
     \<lparr>cc_bound = map (\<lambda>n. (n, 1 / hot_upper n)) SEQ_LENS, cc_reduction = map (\<lambda>n. (n, reduction_x n)) SEQ_LENS,
      cc_latency = map (\<lambda>mb. (mb, lustre_lat mb, p2p_dram mb, p2p_nvme mb)) SIZES_MB,
      cc_efficiency = map (\<lambda>t_io. overlap_efficiency t_io * 100) [78 / 100, 9 / 100]\<rparr>"

text \<open>The rows of the ablation table: a file replaces the numbers, the modes stay six; a different
  number of rows makes the bars raise.\<close>

definition fig11_ablation ::
    "(real \<times> real \<times> real) list option \<Rightarrow> (real list \<times> real list \<times> real list) result" where
  "fig11_ablation csv =
     (case csv of
        None \<Rightarrow> Inr ([98 / 10, 145 / 10, 152 / 10, 16, 166 / 10, 175 / 10],
                    [42, 294 / 10, 231 / 10, 176 / 10, 147 / 10, 109 / 10],
                    [382 / 10, 227 / 10, 181 / 10, 134 / 10, 108 / 10, 73 / 10])
      | Some rows \<Rightarrow>
          if length rows \<noteq> 6 \<and> length rows \<noteq> 1 then Inl ValueError
          else Inr (map fst rows, map (fst \<circ> snd) rows, map (snd \<circ> snd) rows))"

lemma p2p_faster: "0 \<le> mb \<Longrightarrow> p2p_dram mb \<le> p2p_nvme mb \<and> p2p_nvme mb < lustre_lat mb"
  by (simp add: p2p_dram_def p2p_nvme_def lustre_lat_def)

text \<open>Both efficiencies of panel (c) are 1: neither I/O time exceeds the compute time of a layer.\<close>

lemma overlap_efficiency_full: "t_io \<le> 35 / 10 \<Longrightarrow> overlap_efficiency t_io = 1"
proof -
  assume "t_io \<le> 35 / 10"
  then have "max 0 (t_io - 35 / 10) = 0" by simp
  then show ?thesis by (simp add: overlap_efficiency_def Let_def)
qed

lemma fig11_efficiency: "cc_efficiency fig11_curves = [100, 100]"
  by (simp add: fig11_curves_def overlap_efficiency_full)

text \<open>
  The compression curve. The filter with its threshold of 0.01 and the 64 recent tokens sends, for
  a context of the plotted length 2048, 4096 or 8192, strictly fewer tokens than the share plotted as
  empirical, whatever the cache and the query: the plotted points are beyond the bound of the same
  figure.
\<close>

lemma empirical_share_impossible:
  assumes "argpartition_ok ap" and "sf_min_tokens f = 64" and "sf_threshold f = 1 / 100"
    and "sparse_filter_run ap val ms k v query layer f = Inr (b, f')"
    and "attention_probe val (make_probe_query val k query) k = Inr scores"
    and "length (nd_rows k) = n" and "n \<in> {2048, 4096, 8192}"
  shows "of_nat (length (sb_hot_indices b)) < hot_empirical n * of_nat n \<and> hot_upper n < hot_empirical n"
proof -
  have "1 \<le> sf_min_tokens f" "0 < sf_threshold f" using assms(2,3) by simp_all
  note s = sparse_selection [OF assms(1) this assms(4,5)]
  have "of_nat (length (sb_hot_indices b)) \<le> 1 / sf_threshold f + of_int (sf_min_tokens f)"
    using s by blast
  then have "of_nat (length (sb_hot_indices b)) \<le> (164 :: real)" using assms(2,3) by simp
  moreover have "164 < hot_empirical n * of_nat n" "hot_upper n < hot_empirical n"
    using assms(7) by (auto simp: hot_empirical_def hot_upper_def)
  ultimately show ?thesis by linarith
qed

section \<open>Witnesses\<close>

lemma shade_flood_spans_witness:
  defines "row \<equiv> \<lambda>t flood. \<lparr>pb_timestamp = t, pb_step = 0, pb_bw = 8, pb_flood = flood, pb_nic = 10\<rparr>"
  shows "\<exists>(a, b) \<in> set (shade_flood [row 0 False, row 1 True, row 2 False]). a \<le> 1 \<and> 1 \<le> b"
  using shade_flood_spans [of "[row 0 False, row 1 True, row 2 False]" "row 1 True"]
  by (simp add: row_def)

lemma quota_misses_target_witness: "24 / 100 < p_conflict 1 (32 * 10 ^ 10)"
  using quota_misses_target [of 1 "32 * 10 ^ 10"] by simp

end
