(* ===== verification/PCIe_Profiler.thy ===== *)
theory PCIe_Profiler
  imports Eval_Stats "HOL-Library.Product_Lexorder"
begin

text \<open>
  The timeline profiler (\<^verbatim>\<open>eval/pcie_contention/pcie_timeline_profiler.py\<close>): the operations each mode
  issues to two CUDA streams, the rows it records from the events, and the gathering of the rows of
  all ranks. When the device runs the operations is not the program's: the times are a parameter,
  and \<open>cuda_order\<close> is what CUDA documents of them.
\<close>

section \<open>Operations of a step\<close>

datatype stream = Compute_Stream | Io_Stream

datatype event = Ar_Start | Ar_End | Dma_Start | Dma_End | Gate_Event

datatype cuda_op =
    Synchronize
  | Record event stream
  | Wait_Event stream event
  | All_Reduce stream
  | Copy_To_Host stream

definition baseline_ops :: "cuda_op list" where
  "baseline_ops =
     [Synchronize,
      Record Ar_Start Compute_Stream, All_Reduce Compute_Stream, Record Ar_End Compute_Stream,
      Record Dma_Start Io_Stream, Copy_To_Host Io_Stream, Record Dma_End Io_Stream,
      Synchronize]"

definition tempo_ops :: "cuda_op list" where
  "tempo_ops =
     [Synchronize,
      Record Ar_Start Compute_Stream, All_Reduce Compute_Stream, Record Ar_End Compute_Stream,
      Record Gate_Event Compute_Stream, Wait_Event Io_Stream Gate_Event,
      Record Dma_Start Io_Stream, Copy_To_Host Io_Stream, Record Dma_End Io_Stream,
      Synchronize]"

text \<open>What the device does in one step: when each issued operation begins and ends, in ms; and the
  host's clock when the step is launched and when its row is made, in s.\<close>

record step_run =
  sr_begin :: "nat \<Rightarrow> real"
  sr_finish :: "nat \<Rightarrow> real"
  sr_wall :: "real \<times> real"

fun op_stream :: "cuda_op \<Rightarrow> stream option" where
  "op_stream Synchronize = None"
| "op_stream (Record e s) = Some s"
| "op_stream (Wait_Event s e) = Some s"
| "op_stream (All_Reduce s) = Some s"
| "op_stream (Copy_To_Host s) = Some s"

text \<open>
  When an operation issued earlier has to end before one issued later begins: on the same stream, or
  where one of them is a synchronisation of the device. A wait for an event ends after its record.
\<close>

definition ordered_ops :: "cuda_op \<Rightarrow> cuda_op \<Rightarrow> bool" where
  "ordered_ops p q \<longleftrightarrow> op_stream p = None \<or> op_stream q = None \<or> op_stream p = op_stream q"

fun waits_for :: "cuda_op \<Rightarrow> cuda_op \<Rightarrow> bool" where
  "waits_for (Wait_Event s e) (Record e' s') \<longleftrightarrow> e = e'"
| "waits_for _ _ \<longleftrightarrow> False"

definition cuda_order :: "cuda_op list \<Rightarrow> step_run \<Rightarrow> bool" where
  "cuda_order ops t \<longleftrightarrow>
     list_all (\<lambda>j. sr_begin t j \<le> sr_finish t j \<and>
       list_all (\<lambda>i. (ordered_ops (ops ! i) (ops ! j) \<longrightarrow> sr_finish t i \<le> sr_begin t j) \<and>
                     (waits_for (ops ! j) (ops ! i) \<longrightarrow> sr_finish t i \<le> sr_finish t j)) [0..<j])
       [0..<length ops]"

fun is_record :: "event \<Rightarrow> cuda_op \<Rightarrow> bool" where
  "is_record e (Record e' s) \<longleftrightarrow> e = e'"
| "is_record e _ \<longleftrightarrow> False"

definition position :: "('a \<Rightarrow> bool) \<Rightarrow> 'a list \<Rightarrow> nat" where
  "position P xs = length (takeWhile (\<lambda>x. \<not> P x) xs)"

text \<open>\<open>EventPair.elapsed_ms\<close>: the time between two events, each recorded once.\<close>

definition elapsed_ms :: "cuda_op list \<Rightarrow> step_run \<Rightarrow> event \<Rightarrow> event \<Rightarrow> real" where
  "elapsed_ms ops t e e' =
     sr_finish t (position (is_record e') ops) - sr_finish t (position (is_record e) ops)"

section \<open>Rows\<close>

record pcie_row =
  pr_step :: int
  pr_rank :: nat
  pr_mode :: string
  pr_allreduce_ms :: real
  pr_dma_ms :: real
  pr_overlap_ms :: real
  pr_stall_ms :: real
  pr_wall_s :: real

definition baseline_row :: "nat \<Rightarrow> int \<Rightarrow> step_run \<Rightarrow> pcie_row" where
  "baseline_row rank step t =
     (let ar_ms = elapsed_ms baseline_ops t Ar_Start Ar_End;
          dma_ms = elapsed_ms baseline_ops t Dma_Start Dma_End;
          overlap_ms = min ar_ms dma_ms
      in \<lparr>pr_step = step, pr_rank = rank, pr_mode = ''baseline'', pr_allreduce_ms = py_round 4 ar_ms,
          pr_dma_ms = py_round 4 dma_ms, pr_overlap_ms = py_round 4 overlap_ms, pr_stall_ms = 0,
          pr_wall_s = py_round 6 (snd (sr_wall t) - fst (sr_wall t))\<rparr>)"

definition tempo_row :: "nat \<Rightarrow> int \<Rightarrow> step_run \<Rightarrow> pcie_row" where
  "tempo_row rank step t =
     (let ar_ms = elapsed_ms tempo_ops t Ar_Start Ar_End;
          dma_ms = elapsed_ms tempo_ops t Dma_Start Dma_End
      in \<lparr>pr_step = step, pr_rank = rank, pr_mode = ''tempo'', pr_allreduce_ms = py_round 4 ar_ms,
          pr_dma_ms = py_round 4 dma_ms, pr_overlap_ms = 0, pr_stall_ms = 0,
          pr_wall_s = py_round 6 (snd (sr_wall t) - fst (sr_wall t))\<rparr>)"

text \<open>The loops: the steps below zero are warm-up and leave no row.\<close>

definition measured_steps :: "int \<Rightarrow> int \<Rightarrow> int list" where
  "measured_steps n_steps n_warmup = filter (\<lambda>step. \<not> step < 0) [- n_warmup..n_steps - 1]"

definition run_baseline :: "nat \<Rightarrow> int \<Rightarrow> int \<Rightarrow> (int \<Rightarrow> step_run) \<Rightarrow> pcie_row list" where
  "run_baseline rank n_steps n_warmup runs =
     map (\<lambda>step. baseline_row rank step (runs step)) (measured_steps n_steps n_warmup)"

definition run_tempo :: "nat \<Rightarrow> int \<Rightarrow> int \<Rightarrow> (int \<Rightarrow> step_run) \<Rightarrow> pcie_row list" where
  "run_tempo rank n_steps n_warmup runs =
     map (\<lambda>step. tempo_row rank step (runs step)) (measured_steps n_steps n_warmup)"

section \<open>Gathering\<close>

record pcie_summary =
  ps_ar :: "real \<times> real \<times> real"
  ps_dma :: "real \<times> real \<times> real"

definition summary_of :: "real list \<Rightarrow> (real \<times> real \<times> real) result" where
  "summary_of xs =
     (case py_mean xs of Inl e \<Rightarrow> Inl e | Inr m \<Rightarrow>
      (case py_median xs of Inl e \<Rightarrow> Inl e | Inr p50 \<Rightarrow> Inr (m, p50, p99_of xs)))"

text \<open>
  \<open>all_records\<close> is what \<open>all_gather_object\<close> fills in, one list per rank. A rank other than 0 returns
  at once; rank 0 writes the rows to the file, then computes the summary, which may raise.
\<close>

definition gathered :: "pcie_row list list \<Rightarrow> pcie_row list" where
  "gathered all_records = sort_key (\<lambda>x. (pr_step x, pr_rank x)) (concat all_records)"

definition gather_and_save :: "nat \<Rightarrow> pcie_row list list \<Rightarrow> string \<Rightarrow> (string \<rightharpoonup> pcie_row list) \<Rightarrow>
    pcie_summary option result \<times> (string \<rightharpoonup> pcie_row list)" where
  "gather_and_save rank all_records output_path files =
     (if rank \<noteq> 0 then (Inr None, files)
      else
        let flat = gathered all_records;
            rank0 = filter (\<lambda>r. pr_rank r = 0) flat;
            ar = summary_of (map pr_allreduce_ms rank0);
            dma = summary_of (map pr_dma_ms rank0)
        in (case ar of Inl e \<Rightarrow> Inl e | Inr a \<Rightarrow>
              (case dma of Inl e \<Rightarrow> Inl e | Inr d \<Rightarrow> Inr (Some \<lparr>ps_ar = a, ps_dma = d\<rparr>)),
            files(output_path \<mapsto> flat)))"

record pcie_args =
  pa_tempo :: bool
  pa_n_steps :: int
  pa_n_warmup :: int
  pa_kv_mb :: int
  pa_ar_mb :: int
  pa_output_dir :: string

definition pcie_defaults :: "bool \<Rightarrow> pcie_args" where
  "pcie_defaults tempo =
     \<lparr>pa_tempo = tempo, pa_n_steps = 200, pa_n_warmup = 20, pa_kv_mb = 512, pa_ar_mb = 64,
      pa_output_dir = ''results/pcie_contention''\<rparr>"

definition pcie_records :: "pcie_args \<Rightarrow> nat \<Rightarrow> (int \<Rightarrow> step_run) \<Rightarrow> pcie_row list" where
  "pcie_records args rank runs =
     (if pa_tempo args then run_tempo rank (pa_n_steps args) (pa_n_warmup args) runs
      else run_baseline rank (pa_n_steps args) (pa_n_warmup args) runs)"

definition pcie_out_path :: "pcie_args \<Rightarrow> string" where
  "pcie_out_path args =
     pa_output_dir args @ ''/timeline_'' @ (if pa_tempo args then ''tempo'' else ''baseline'') @ ''.csv''"

text \<open>The program on rank \<open>rank\<close> of a group whose ranks all reach the gathering; \<open>runs r\<close> are the
  steps of rank \<open>r\<close>.\<close>

definition pcie_main :: "pcie_args \<Rightarrow> nat \<Rightarrow> nat \<Rightarrow> (nat \<Rightarrow> int \<Rightarrow> step_run) \<Rightarrow>
    (string \<rightharpoonup> pcie_row list) \<Rightarrow> pcie_summary option result \<times> (string \<rightharpoonup> pcie_row list)" where
  "pcie_main args rank world_size runs files =
     gather_and_save rank (map (\<lambda>r. pcie_records args r (runs r)) [0..<world_size])
       (pcie_out_path args) files"

section \<open>Overlap\<close>

text \<open>How long the collective and the copy really run at the same time.\<close>

fun is_collective :: "cuda_op \<Rightarrow> bool" where
  "is_collective (All_Reduce s) \<longleftrightarrow> True"
| "is_collective _ \<longleftrightarrow> False"

fun is_copy :: "cuda_op \<Rightarrow> bool" where
  "is_copy (Copy_To_Host s) \<longleftrightarrow> True"
| "is_copy _ \<longleftrightarrow> False"

definition true_overlap :: "cuda_op list \<Rightarrow> step_run \<Rightarrow> real" where
  "true_overlap ops t =
     (let a = position is_collective ops; c = position is_copy ops
      in max 0 (min (sr_finish t a) (sr_finish t c) - max (sr_begin t a) (sr_begin t c)))"

lemma baseline_positions [simp]:
  "position is_collective baseline_ops = 2" "position is_copy baseline_ops = 5"
  "position (is_record Ar_Start) baseline_ops = 1" "position (is_record Ar_End) baseline_ops = 3"
  "position (is_record Dma_Start) baseline_ops = 4" "position (is_record Dma_End) baseline_ops = 6"
  by (simp_all add: position_def baseline_ops_def)

lemma tempo_positions [simp]:
  "position is_collective tempo_ops = 2" "position is_copy tempo_ops = 7"
  by (simp_all add: position_def tempo_ops_def)

lemma cuda_orderD:
  assumes "cuda_order ops t" and "j < length ops"
  shows "sr_begin t j \<le> sr_finish t j"
    and "i < j \<Longrightarrow> ordered_ops (ops ! i) (ops ! j) \<Longrightarrow> sr_finish t i \<le> sr_begin t j"
    and "i < j \<Longrightarrow> waits_for (ops ! j) (ops ! i) \<Longrightarrow> sr_finish t i \<le> sr_finish t j"
  using assms by (simp_all add: cuda_order_def list_all_iff)

text \<open>The gate: the wait ends after the gate event, which follows the collective on its stream.\<close>

lemma tempo_serial:
  assumes "cuda_order tempo_ops t"
  shows "sr_finish t (position is_collective tempo_ops) \<le> sr_begin t (position is_copy tempo_ops)"
proof -
  have "sr_finish t 2 \<le> sr_begin t 4" "sr_begin t 4 \<le> sr_finish t 4"
    "sr_finish t 4 \<le> sr_finish t 5" "sr_finish t 5 \<le> sr_begin t 7"
    using cuda_orderD(2) [OF assms, of 4 2] cuda_orderD(1) [OF assms, of 4]
      cuda_orderD(3) [OF assms, of 5 4] cuda_orderD(2) [OF assms, of 7 5]
    by (simp_all add: tempo_ops_def ordered_ops_def)
  then show ?thesis by simp
qed

lemma tempo_true_overlap: "cuda_order tempo_ops t \<Longrightarrow> true_overlap tempo_ops t = 0"
  using tempo_serial [of t] by (simp add: true_overlap_def Let_def min_def max_def)

lemma baseline_true_overlap:
  assumes "cuda_order baseline_ops t"
  shows "true_overlap baseline_ops t \<le>
    min (elapsed_ms baseline_ops t Ar_Start Ar_End) (elapsed_ms baseline_ops t Dma_Start Dma_End)"
proof -
  have "sr_finish t 1 \<le> sr_begin t 2" "sr_begin t 2 \<le> sr_finish t 2" "sr_finish t 2 \<le> sr_begin t 3"
    "sr_begin t 3 \<le> sr_finish t 3" "sr_finish t 4 \<le> sr_begin t 5" "sr_begin t 5 \<le> sr_finish t 5"
    "sr_finish t 5 \<le> sr_begin t 6" "sr_begin t 6 \<le> sr_finish t 6"
    using cuda_orderD(2) [OF assms, of 2 1] cuda_orderD(2) [OF assms, of 3 2]
      cuda_orderD(2) [OF assms, of 5 4] cuda_orderD(2) [OF assms, of 6 5] cuda_orderD(1) [OF assms]
    by (simp_all add: baseline_ops_def ordered_ops_def)
  then have "min (sr_finish t 2) (sr_finish t 5) - max (sr_begin t 2) (sr_begin t 5) \<le> sr_finish t 3 - sr_finish t 1"
    "min (sr_finish t 2) (sr_finish t 5) - max (sr_begin t 2) (sr_begin t 5) \<le> sr_finish t 6 - sr_finish t 4"
    "0 \<le> sr_finish t 3 - sr_finish t 1" "0 \<le> sr_finish t 6 - sr_finish t 4"
    by linarith+
  then show ?thesis by (simp add: true_overlap_def elapsed_ms_def)
qed

text \<open>
  The events of the baseline do not bound the overlap from below: the device may run the copy after
  the collective, and the recorded overlap is the shorter of the two all the same.
\<close>

lemma baseline_serial_run:
  "\<exists>t. cuda_order baseline_ops t \<and> true_overlap baseline_ops t = 0 \<and>
     pr_overlap_ms (baseline_row rank step t) = 2"
proof -
  let ?t = "\<lparr>sr_begin = (!) [0, 0, 0, 2, 2, 2, 5, 5 :: real],
    sr_finish = (!) [0, 0, 2, 2, 2, 5, 5, 5], sr_wall = (0, 1)\<rparr>"
  have "cuda_order baseline_ops ?t" by (simp add: cuda_order_def baseline_ops_def ordered_ops_def upt_rec)
  moreover have "true_overlap baseline_ops ?t = 0" by (simp add: true_overlap_def)
  moreover have "pr_overlap_ms (baseline_row rank step ?t) = 2"
    by (simp add: baseline_row_def elapsed_ms_def py_round_def half_even_def)
  ultimately show ?thesis by blast
qed

lemma run_steps:
  "r \<in> set (run_tempo rank n w runs) \<Longrightarrow> r = tempo_row rank (pr_step r) (runs (pr_step r))"
  "r \<in> set (run_baseline rank n w runs) \<Longrightarrow> r = baseline_row rank (pr_step r) (runs (pr_step r))"
  by (auto simp: run_tempo_def run_baseline_def tempo_row_def baseline_row_def Let_def)

section \<open>The file of rank 0\<close>

definition mode_row :: "pcie_args \<Rightarrow> nat \<Rightarrow> int \<Rightarrow> step_run \<Rightarrow> pcie_row" where
  "mode_row args = (if pa_tempo args then tempo_row else baseline_row)"

lemma mode_row_key [simp]: "pr_step (mode_row args r s t) = s" "pr_rank (mode_row args r s t) = r"
  by (simp_all add: mode_row_def tempo_row_def baseline_row_def Let_def)

lemma pcie_records_map:
  "pcie_records args r runs =
     map (\<lambda>s. mode_row args r s (runs s)) (measured_steps (pa_n_steps args) (pa_n_warmup args))"
  by (simp add: pcie_records_def mode_row_def run_tempo_def run_baseline_def)

lemma measured_steps_range: "measured_steps n w = [max 0 (- w)..n - 1]"
proof -
  have "filter (\<lambda>step. \<not> step < 0) [a..b] = [max 0 a..b]" for a b :: int
  proof (induction "nat (b - a + 1)" arbitrary: a)
    case (Suc k)
    then have "[a..b] = a # [a + 1..b]" by (simp add: upto_rec1)
    moreover have "filter (\<lambda>step. \<not> step < 0) [a + 1..b] = [max 0 (a + 1)..b]" using Suc by simp
    moreover have "a < 0 \<Longrightarrow> max 0 (a + 1) = 0" by simp
    ultimately show ?case by (cases "a < 0") simp_all
  qed (simp add: max_def)
  then show ?thesis by (simp add: measured_steps_def)
qed

lemma measured_steps_sorted: "sorted_wrt (<) (measured_steps n w)"
  by (simp add: measured_steps_range)

lemma mset_concat_swap:
  "mset (concat (map (\<lambda>x. map (f x) ys) xs)) = mset (concat (map (\<lambda>y. map (\<lambda>x. f x y) xs) ys))"
proof (induction xs)
  case Nil
  show ?case by (induction ys) simp_all
next
  case (Cons x xs)
  have "mset (concat (map (\<lambda>y. f x y # g y) ys)) = mset (map (f x) ys) + mset (concat (map g ys))" for g
    by (induction ys) simp_all
  with Cons show ?case by simp
qed

lemma sorted_product:
  "sorted_wrt (<) xs \<Longrightarrow> sorted ys \<Longrightarrow> sorted (List.product xs (ys :: 'b::linorder list))"
  for xs :: "'a::linorder list"
proof (induction xs)
  case (Cons x xs)
  moreover have "sorted (map (Pair x) ys)" if "sorted ys" using that by (induction ys) auto
  ultimately show ?case by (auto simp: sorted_append)
qed simp

lemma concat_product:
  "map k (concat (map (\<lambda>s. map (\<lambda>r. f r s) rs) ss)) = map (\<lambda>(s, r). k (f r s)) (List.product ss rs)"
  by (induction ss) simp_all

text \<open>The sort of the gathered rows is the grid of steps and ranks, each row once, in order.\<close>

lemma gathered_grid:
  assumes "sorted_wrt (<) ss" and key: "\<And>r s. pr_step (f r s) = s \<and> pr_rank (f r s) = r"
  shows "gathered (map (\<lambda>r. map (f r) ss) [0..<w]) = concat (map (\<lambda>s. map (\<lambda>r. f r s) [0..<w]) ss)"
  unfolding gathered_def
proof (rule sort_key_inj_key_eq)
  show "mset (concat (map (\<lambda>r. map (f r) ss) [0..<w])) = mset (concat (map (\<lambda>s. map (\<lambda>r. f r s) [0..<w]) ss))"
    by (rule mset_concat_swap)
  show "inj_on (\<lambda>x. (pr_step x, pr_rank x)) (set (concat (map (\<lambda>r. map (f r) ss) [0..<w])))"
    by (auto intro!: inj_onI simp: key)
  show "sorted (map (\<lambda>x. (pr_step x, pr_rank x)) (concat (map (\<lambda>s. map (\<lambda>r. f r s) [0..<w]) ss)))"
    unfolding concat_product using sorted_product [OF assms(1), of "[0..<w]"] by (simp add: key)
qed

lemma summary_of_empty: "summary_of xs = Inl e \<longleftrightarrow> xs = [] \<and> e = ValueError"
  by (auto simp: summary_of_def py_mean_def py_median_def)

lemma summary_of_Nil [simp]: "summary_of [] = Inl ValueError"
  by (simp add: summary_of_empty)

lemma gather_raises:
  "fst (gather_and_save 0 all path files) = Inl e \<longleftrightarrow>
     e = ValueError \<and> (\<forall>r \<in> set (concat all). pr_rank r \<noteq> 0)"
proof -
  have "filter (\<lambda>r. pr_rank r = 0) (gathered all) = [] \<longleftrightarrow> (\<forall>r \<in> set (concat all). pr_rank r \<noteq> 0)"
    by (auto simp: gathered_def filter_empty_conv)
  then show ?thesis
    by (auto simp: gather_and_save_def Let_def summary_of_empty split: sum.split)
qed

section \<open>Properties\<close>

text \<open>
  C18: The profiler's two modes. With every step run as CUDA orders it, the overlap of zero that the
  TEMPO mode records is the time collective and copy really ran together, because the wait for the
  gate event puts the copy after the collective; the overlap that the baseline records is an upper
  bound of the real one, up to the rounding of the row.
\<close>

theorem profiler_overlap:
  assumes "\<forall>step. cuda_order tempo_ops (t_runs step)" and "\<forall>step. cuda_order baseline_ops (b_runs step)"
  shows "(\<forall>r \<in> set (run_tempo rank n_steps n_warmup t_runs).
      0 \<le> pr_step r \<and> pr_step r < n_steps \<and> pr_overlap_ms r = true_overlap tempo_ops (t_runs (pr_step r))) \<and>
    (\<forall>r \<in> set (run_baseline rank n_steps n_warmup b_runs).
      0 \<le> pr_step r \<and> pr_step r < n_steps \<and>
      true_overlap baseline_ops (b_runs (pr_step r)) \<le> pr_overlap_ms r + 1 / 20000)"
proof (intro conjI ballI)
  fix r assume r: "r \<in> set (run_tempo rank n_steps n_warmup t_runs)"
  then show "0 \<le> pr_step r" "pr_step r < n_steps"
    by (auto simp: run_tempo_def tempo_row_def measured_steps_range Let_def)
  show "pr_overlap_ms r = true_overlap tempo_ops (t_runs (pr_step r))"
    using r assms(1) by (auto simp: tempo_true_overlap run_tempo_def tempo_row_def Let_def)
next
  fix r assume r: "r \<in> set (run_baseline rank n_steps n_warmup b_runs)"
  then show "0 \<le> pr_step r" "pr_step r < n_steps"
    by (auto simp: run_baseline_def baseline_row_def measured_steps_range Let_def)
  let ?t = "b_runs (pr_step r)"
  let ?o = "min (elapsed_ms baseline_ops ?t Ar_Start Ar_End) (elapsed_ms baseline_ops ?t Dma_Start Dma_End)"
  have "pr_overlap_ms r = py_round 4 ?o"
    by (subst run_steps(2) [OF r]) (simp add: baseline_row_def Let_def)
  moreover have "true_overlap baseline_ops ?t \<le> ?o" using assms(2) baseline_true_overlap by blast
  moreover have "\<bar>py_round 4 ?o - ?o\<bar> \<le> 1 / 20000" using py_round_near [of 4 ?o] by simp
  ultimately show "true_overlap baseline_ops ?t \<le> pr_overlap_ms r + 1 / 20000" by linarith
qed

text \<open>
  The file of the profiler. Rank 0 leaves one row for every measured step and rank, ordered by
  step and then rank, and no other rank writes. The summary then raises exactly when no step was
  measured, after the file has been written. The sizes given on the command line change nothing.
\<close>

lemma pcie_csv:
  assumes "0 < world_size"
  shows "snd (pcie_main args 0 world_size runs files) (pcie_out_path args) =
      Some (concat (map (\<lambda>step. map (\<lambda>rank. mode_row args rank step (runs rank step)) [0..<world_size])
        [max 0 (- pa_n_warmup args)..pa_n_steps args - 1])) \<and>
    (fst (pcie_main args 0 world_size runs files) = Inl ValueError \<longleftrightarrow>
       pa_n_steps args \<le> max 0 (- pa_n_warmup args)) \<and>
    (rank \<noteq> 0 \<longrightarrow> pcie_main args rank world_size runs files = (Inr None, files)) \<and>
    pcie_main (args\<lparr>pa_kv_mb := kv, pa_ar_mb := ar\<rparr>) rank world_size runs files =
      pcie_main args rank world_size runs files"
proof (intro conjI impI)
  let ?row = "\<lambda>rank step. mode_row args rank step (runs rank step)"
  let ?ss = "measured_steps (pa_n_steps args) (pa_n_warmup args)"
  let ?all = "map (\<lambda>r. map (?row r) ?ss) [0..<world_size]"
  have main: "pcie_main args rank world_size runs files = gather_and_save rank ?all (pcie_out_path args) files"
    for rank by (simp add: pcie_main_def pcie_records_map)
  show "snd (pcie_main args 0 world_size runs files) (pcie_out_path args) =
    Some (concat (map (\<lambda>step. map (\<lambda>rank. ?row rank step) [0..<world_size])
      [max 0 (- pa_n_warmup args)..pa_n_steps args - 1]))"
    using gathered_grid [of ?ss ?row world_size] measured_steps_sorted
    by (simp add: main gather_and_save_def Let_def measured_steps_range)
  have "(\<forall>r \<in> set (concat ?all). pr_rank r \<noteq> 0) \<longleftrightarrow> ?ss = []" using assms by fastforce
  also have "\<dots> \<longleftrightarrow> pa_n_steps args \<le> max 0 (- pa_n_warmup args)"
    unfolding measured_steps_range upto_Nil by linarith
  finally show "fst (pcie_main args 0 world_size runs files) = Inl ValueError \<longleftrightarrow>
      pa_n_steps args \<le> max 0 (- pa_n_warmup args)"
    by (simp only: main gather_raises simp_thms)
  show "rank \<noteq> 0 \<Longrightarrow> pcie_main args rank world_size runs files = (Inr None, files)"
    by (simp add: main gather_and_save_def)
  show "pcie_main (args\<lparr>pa_kv_mb := kv, pa_ar_mb := ar\<rparr>) rank world_size runs files =
      pcie_main args rank world_size runs files"
    by (simp add: pcie_main_def pcie_out_path_def pcie_records_def)
qed

section \<open>Witnesses\<close>

text \<open>A device that runs one operation after the other, each for one millisecond.\<close>

definition serial_run :: "nat \<Rightarrow> step_run" where
  "serial_run k = \<lparr>sr_begin = of_nat, sr_finish = (\<lambda>i. of_nat i + 1), sr_wall = (0, of_nat k)\<rparr>"

lemma serial_run_order: "cuda_order ops (serial_run k)"
proof -
  have "real i + 1 \<le> real j" if "i < j" for i j using that by linarith
  then show ?thesis by (auto simp: cuda_order_def serial_run_def list_all_iff)
qed

theorem profiler_overlap_witness:
  "pr_overlap_ms (hd (run_tempo 0 1 1 (\<lambda>s. serial_run 1))) = true_overlap tempo_ops (serial_run 1) \<and>
   true_overlap baseline_ops (serial_run 1) \<le> pr_overlap_ms (hd (run_baseline 0 1 1 (\<lambda>s. serial_run 1))) + 1 / 20000"
  using profiler_overlap [of "\<lambda>s. serial_run 1" "\<lambda>s. serial_run 1" 0 1 1] serial_run_order
  by (simp add: run_tempo_def run_baseline_def measured_steps_range)

end
