(* ===== verification/Timelines.thy ===== *)
theory Timelines
  imports PCIe_Profiler
begin

text \<open>
  The timelines drawn from the profiler's file: the Gantt chart of \<^verbatim>\<open>scripts/plot_micro_benchmarks.py\<close>
  (\<open>fig9_pcie_timeline\<close>) and the one of \<^verbatim>\<open>scripts/plot_readme_figures.py\<close>
  (\<open>fig_motivation_pcie\<close>, \<open>fig_results_summary\<close>). The file has durations only; each script makes up
  the start times.
\<close>

section \<open>The Gantt chart\<close>

text \<open>The two bars of a step: collective and copy, each with start and duration in ms.\<close>

record gantt_bar =
  gb_ar_start :: real
  gb_ar_dur :: real
  gb_dma_start :: real
  gb_dma_dur :: real

text \<open>\<open>pivot_timeline\<close>: the running sum of the steps' wall times is the end of both bars.\<close>

fun pivot_from :: "real \<Rightarrow> pcie_row list \<Rightarrow> gantt_bar list" where
  "pivot_from wall_sum [] = []"
| "pivot_from wall_sum (r # rs) =
     (let wall_cumsum = (wall_sum + pr_wall_s r) * 1000
      in \<lparr>gb_ar_start = wall_cumsum - pr_allreduce_ms r, gb_ar_dur = pr_allreduce_ms r,
          gb_dma_start = wall_cumsum - pr_dma_ms r, gb_dma_dur = pr_dma_ms r\<rparr>
         # pivot_from (wall_sum + pr_wall_s r) rs)"

definition pivot_timeline :: "pcie_row list \<Rightarrow> gantt_bar list" where
  "pivot_timeline rows = pivot_from 0 (sort_key pr_step (filter (\<lambda>r. pr_rank r = 0) rows))"

text \<open>The synthetic steps: draws of the durations of the copies and collectives of both modes.\<close>

record timeline_draws =
  td_base_dma :: "nat \<Rightarrow> real"
  td_base_ar :: "nat \<Rightarrow> real"
  td_tempo_ar :: "nat \<Rightarrow> real"
  td_tempo_dma :: "nat \<Rightarrow> real"

definition linspace_at :: "real \<Rightarrow> real \<Rightarrow> nat \<Rightarrow> nat \<Rightarrow> real" where
  "linspace_at a b n i = a + of_nat i * ((b - a) / of_nat (n - 1))"

definition synthetic_base :: "timeline_draws \<Rightarrow> nat \<Rightarrow> gantt_bar" where
  "synthetic_base d i =
     (let start = linspace_at 0 (80 * 35) 80 i
      in \<lparr>gb_ar_start = start, gb_ar_dur = np_clip 13 32 (td_base_ar d i),
          gb_dma_start = start, gb_dma_dur = np_clip 12 28 (td_base_dma d i)\<rparr>)"

definition synthetic_tempo :: "timeline_draws \<Rightarrow> nat \<Rightarrow> gantt_bar" where
  "synthetic_tempo d i =
     (let start = linspace_at 0 (80 * 35) 80 i; dur = np_clip 9 15 (td_tempo_ar d i)
      in \<lparr>gb_ar_start = start, gb_ar_dur = dur, gb_dma_start = start + dur + 1 / 2,
          gb_dma_dur = np_clip 12 24 (td_tempo_dma d i)\<rparr>)"

definition synthetic_timeline_data :: "timeline_draws \<Rightarrow> gantt_bar list \<times> gantt_bar list" where
  "synthetic_timeline_data d = (map (synthetic_base d) [0..<80], map (synthetic_tempo d) [0..<80])"

text \<open>\<open>draw_gantt\<close>: the first 20 steps, from time 0 on; the stalls; the mean of the collectives.\<close>

record gantt =
  ga_bars :: "gantt_bar list"
  ga_stalls :: "(real \<times> real) list"
  ga_mean_ar :: real
  ga_mean_dma :: real

definition shift_bar :: "real \<Rightarrow> gantt_bar \<Rightarrow> gantt_bar" where
  "shift_bar t0 b = b\<lparr>gb_ar_start := gb_ar_start b - t0, gb_dma_start := gb_dma_start b - t0\<rparr>"

definition bar_stall :: "gantt_bar \<Rightarrow> (real \<times> real) list" where
  "bar_stall b =
     (let overlap_start = max (gb_ar_start b) (gb_dma_start b);
          overlap_end = min (gb_ar_start b + gb_ar_dur b) (gb_dma_start b + gb_dma_dur b)
      in if overlap_start < overlap_end then [(overlap_start, overlap_end)] else [])"

definition draw_gantt :: "bool \<Rightarrow> gantt_bar list \<Rightarrow> gantt result" where
  "draw_gantt show_stall df =
     (case take 20 df of
        [] \<Rightarrow> Inl IndexError
      | b # bs \<Rightarrow>
          let bars = map (shift_bar (gb_ar_start b)) (b # bs)
          in Inr \<lparr>ga_bars = bars, ga_stalls = (if show_stall then concat (map bar_stall bars) else []),
                  ga_mean_ar = np_mean (map gb_ar_dur bars), ga_mean_dma = np_mean (map gb_dma_dur bars)\<rparr>)"

text \<open>The loader looks for the files below \<^verbatim>\<open>phase7\<close> of the results.\<close>

definition load_timeline_data ::
    "string \<Rightarrow> (string \<rightharpoonup> pcie_row list) \<Rightarrow> pcie_row list option \<times> pcie_row list option" where
  "load_timeline_data results_dir files =
     (files (results_dir @ ''/phase7/timeline_baseline.csv''),
      files (results_dir @ ''/phase7/timeline_tempo.csv''))"

text \<open>The figure, and whether it is labelled as synthetic.\<close>

definition fig9_pcie_timeline ::
    "string \<Rightarrow> bool \<Rightarrow> timeline_draws \<Rightarrow> (string \<rightharpoonup> pcie_row list) \<Rightarrow> (gantt \<times> gantt \<times> bool) result" where
  "fig9_pcie_timeline results_dir use_demo d files =
     (let (base, tempo, synthetic) =
        (case load_timeline_data results_dir files of
           (Some b, Some t) \<Rightarrow>
             if use_demo then (fst (synthetic_timeline_data d), snd (synthetic_timeline_data d), True)
             else (pivot_timeline b, pivot_timeline t, False)
         | _ \<Rightarrow> (fst (synthetic_timeline_data d), snd (synthetic_timeline_data d), True))
      in and_then (draw_gantt True base) (\<lambda>g. and_then (draw_gantt False tempo) (\<lambda>h. Inr (g, h, synthetic))))"

section \<open>The timeline of the readme\<close>

text \<open>
  \<open>make_timeline\<close>: with a recorded overlap both bars start together, without one the copy follows the
  collective; the next step starts at the later end.
\<close>

fun timeline_from :: "real \<Rightarrow> pcie_row list \<Rightarrow> gantt_bar list" where
  "timeline_from cursor [] = []"
| "timeline_from cursor (r # rs) =
     (let d = pr_dma_ms r; a = pr_allreduce_ms r;
          st_dma = (if 0 < pr_overlap_ms r then cursor else cursor + a)
      in \<lparr>gb_ar_start = cursor, gb_ar_dur = a, gb_dma_start = st_dma, gb_dma_dur = d\<rparr>
         # timeline_from (max (st_dma + d) (cursor + a)) rs)"

definition make_timeline :: "pcie_row list \<Rightarrow> nat \<Rightarrow> gantt_bar list result" where
  "make_timeline df n = (if length df < n then Inl IndexError else Inr (timeline_from 0 (take n df)))"

record motivation =
  mo_base :: "gantt_bar list"
  mo_tempo :: "gantt_bar list"
  mo_conflict :: "(real \<times> real) list"
  mo_mean_base :: real
  mo_mean_tempo :: real
  mo_reduce_pct :: "real option"
  mo_p99_base :: real
  mo_p99_tempo :: real

definition reduction_pct :: "real \<Rightarrow> real \<Rightarrow> real option" where
  "reduction_pct m_b m_t = map_option (\<lambda>q. q * 100) (np_div (m_b - m_t) m_b)"

text \<open>A missing file raises \<open>FileNotFoundError\<close>, an \<open>OSError\<close>.\<close>

definition required :: "(string \<rightharpoonup> pcie_row list) \<Rightarrow> string \<Rightarrow> pcie_row list result" where
  "required files path = (case files path of None \<Rightarrow> Inl OSError | Some rows \<Rightarrow> Inr rows)"

definition fig_motivation_pcie :: "string \<Rightarrow> (string \<rightharpoonup> pcie_row list) \<Rightarrow> motivation result" where
  "fig_motivation_pcie results files =
     and_then (required files (results @ ''/phase7/timeline_baseline.csv'')) (\<lambda>b.
     and_then (required files (results @ ''/phase7/timeline_tempo.csv'')) (\<lambda>t.
     and_then (make_timeline (filter (\<lambda>r. pr_rank r = 0) b) 12) (\<lambda>rows_b.
     and_then (make_timeline (filter (\<lambda>r. pr_rank r = 0) t) 12) (\<lambda>rows_t.
       let ar_base = map pr_allreduce_ms b; ar_tempo = map pr_allreduce_ms t
       in Inr \<lparr>mo_base = rows_b, mo_tempo = rows_t, mo_conflict = bar_stall (hd rows_b),
               mo_mean_base = np_mean ar_base, mo_mean_tempo = np_mean ar_tempo,
               mo_reduce_pct = reduction_pct (np_mean ar_base) (np_mean ar_tempo),
               mo_p99_base = np_percentile 99 ar_base, mo_p99_tempo = np_percentile 99 ar_tempo\<rparr>))))"

text \<open>Means, errors up to the 99th percentile and the reduction, of the collectives and of the copies.\<close>

record results_bars =
  rb_means :: "real \<times> real"
  rb_errors :: "real \<times> real"
  rb_reduce :: "real option"
  rb_ymax :: real

definition results_bars_of :: "real list \<Rightarrow> real list \<Rightarrow> results_bars" where
  "results_bars_of b t =
     \<lparr>rb_means = (np_mean b, np_mean t),
      rb_errors = (np_percentile 99 b - np_mean b, np_percentile 99 t - np_mean t),
      rb_reduce = reduction_pct (np_mean b) (np_mean t), rb_ymax = np_percentile 99 b * (125 / 100)\<rparr>"

definition fig_results_summary :: "string \<Rightarrow> (string \<rightharpoonup> pcie_row list) \<Rightarrow> (results_bars \<times> results_bars) result" where
  "fig_results_summary results files =
     and_then (required files (results @ ''/phase7/timeline_baseline.csv'')) (\<lambda>b.
     and_then (required files (results @ ''/phase7/timeline_tempo.csv'')) (\<lambda>t.
       if b = [] \<or> t = [] then Inl IndexError
       else Inr (results_bars_of (map pr_allreduce_ms b) (map pr_allreduce_ms t),
                 results_bars_of (map pr_dma_ms b) (map pr_dma_ms t))))"

section \<open>How the bars overlap\<close>

definition bar_overlap :: "gantt_bar \<Rightarrow> real" where
  "bar_overlap b =
     max 0 (min (gb_ar_start b + gb_ar_dur b) (gb_dma_start b + gb_dma_dur b)
            - max (gb_ar_start b) (gb_dma_start b))"

lemma shift_bar_overlap [simp]: "bar_overlap (shift_bar t0 b) = bar_overlap b"
  by (auto simp: bar_overlap_def shift_bar_def min_def max_def)

text \<open>Bars of the chart that end together overlap by the shorter one, whatever was measured.\<close>

lemma pivot_from_overlap:
  "\<forall>r \<in> set rows. 0 \<le> pr_allreduce_ms r \<and> 0 \<le> pr_dma_ms r \<Longrightarrow>
   map bar_overlap (pivot_from w rows) = map (\<lambda>r. min (pr_allreduce_ms r) (pr_dma_ms r)) rows"
  by (induction w rows rule: pivot_from.induct)
    (auto simp: bar_overlap_def Let_def min_def max_def)

lemma timeline_from_overlap:
  "\<forall>r \<in> set rows. 0 \<le> pr_allreduce_ms r \<and> 0 \<le> pr_dma_ms r \<Longrightarrow>
   map bar_overlap (timeline_from c rows) =
     map (\<lambda>r. if 0 < pr_overlap_ms r then min (pr_allreduce_ms r) (pr_dma_ms r) else 0) rows"
  by (induction c rows rule: timeline_from.induct)
    (auto simp: bar_overlap_def Let_def min_def max_def)

text \<open>Steps of the readme's timeline do not overlap each other.\<close>

definition bar_end :: "gantt_bar \<Rightarrow> real" where
  "bar_end b = max (gb_ar_start b + gb_ar_dur b) (gb_dma_start b + gb_dma_dur b)"

lemma timeline_from_sequential:
  "\<forall>r \<in> set rows. 0 \<le> pr_allreduce_ms r \<and> 0 \<le> pr_dma_ms r \<Longrightarrow>
   sorted_wrt (\<lambda>b b'. bar_end b \<le> min (gb_ar_start b') (gb_dma_start b')) (timeline_from c rows) \<and>
   (\<forall>b \<in> set (timeline_from c rows). c \<le> min (gb_ar_start b) (gb_dma_start b))"
proof (induction c rows rule: timeline_from.induct)
  case (2 c r rs)
  let ?d = "pr_dma_ms r" and ?a = "pr_allreduce_ms r"
  let ?st = "if 0 < pr_overlap_ms r then c else c + ?a"
  let ?c = "max (?st + ?d) (c + ?a)"
  from 2 have ih: "sorted_wrt (\<lambda>b b'. bar_end b \<le> min (gb_ar_start b') (gb_dma_start b')) (timeline_from ?c rs)"
    "\<forall>b \<in> set (timeline_from ?c rs). ?c \<le> min (gb_ar_start b) (gb_dma_start b)" by (simp_all add: Let_def)
  have nn: "0 \<le> ?a" "0 \<le> ?d" using 2 by simp_all
  then have "c \<le> ?c" by auto
  with ih nn show ?case by (auto simp: Let_def bar_end_def intro: order_trans)
qed simp

lemma tempo_record_positions [simp]:
  "position (is_record Ar_Start) tempo_ops = 1" "position (is_record Ar_End) tempo_ops = 3"
  "position (is_record Dma_Start) tempo_ops = 6" "position (is_record Dma_End) tempo_ops = 8"
  by (simp_all add: position_def tempo_ops_def)

lemma tempo_durations:
  assumes "cuda_order tempo_ops t"
  shows "0 \<le> elapsed_ms tempo_ops t Ar_Start Ar_End" "0 \<le> elapsed_ms tempo_ops t Dma_Start Dma_End"
proof -
  have "sr_finish t 1 \<le> sr_begin t 3" "sr_begin t 3 \<le> sr_finish t 3"
    "sr_finish t 6 \<le> sr_begin t 8" "sr_begin t 8 \<le> sr_finish t 8"
    using cuda_orderD(2) [OF assms, of 3 1] cuda_orderD(2) [OF assms, of 8 6]
      cuda_orderD(1) [OF assms, of 3] cuda_orderD(1) [OF assms, of 8]
    by (simp_all add: tempo_ops_def ordered_ops_def)
  then show "0 \<le> elapsed_ms tempo_ops t Ar_Start Ar_End" "0 \<le> elapsed_ms tempo_ops t Dma_Start Dma_End"
    by (simp_all add: elapsed_ms_def)
qed

lemma run_tempo_rows:
  assumes "\<forall>step. cuda_order tempo_ops (runs step)" and "r \<in> set (run_tempo rank n w runs)"
  shows "pr_rank r = rank" "pr_overlap_ms r = 0" "0 \<le> pr_allreduce_ms r" "0 \<le> pr_dma_ms r"
    "true_overlap tempo_ops (runs (pr_step r)) = 0"
  using assms by (auto simp: run_tempo_def tempo_row_def Let_def tempo_durations py_round_nonneg tempo_true_overlap)

lemma run_tempo_pivot:
  "pivot_timeline (run_tempo 0 n w runs) = pivot_from 0 (run_tempo 0 n w runs)"
proof -
  have "map pr_step (run_tempo 0 n w runs) = measured_steps n w"
    by (simp add: run_tempo_def tempo_row_def Let_def comp_def)
  then have "sorted (map pr_step (run_tempo 0 n w runs))" by (simp add: measured_steps_range)
  moreover have "filter (\<lambda>r. pr_rank r = 0) (run_tempo 0 n w runs) = run_tempo 0 n w runs"
    by (simp add: filter_id_conv run_tempo_def tempo_row_def Let_def)
  ultimately show ?thesis by (simp add: pivot_timeline_def sort_key_id_if_sorted)
qed

section \<open>Properties\<close>

text \<open>
  The two timelines of a TEMPO run. When the steps ran as CUDA orders them, collective and copy
  never overlapped. The readme's timeline says so; its steps follow one another. The Gantt chart of
  the micro-benchmarks draws every step with an overlap as long as the shorter of the two, because
  it lets both end with the step: the separation it is meant to show is not in it.
\<close>

lemma timelines_of_tempo:
  assumes "\<forall>step. cuda_order tempo_ops (runs step)" and "rows = run_tempo 0 n_steps n_warmup runs"
  shows "map bar_overlap (timeline_from 0 rows) = map (\<lambda>r. true_overlap tempo_ops (runs (pr_step r))) rows \<and>
    sorted_wrt (\<lambda>b b'. bar_end b \<le> min (gb_ar_start b') (gb_dma_start b')) (timeline_from 0 rows) \<and>
    map bar_overlap (pivot_timeline rows) = map (\<lambda>r. min (pr_allreduce_ms r) (pr_dma_ms r)) rows"
proof -
  note row = run_tempo_rows [OF assms(1), of _ 0 n_steps n_warmup, folded assms(2)]
  have nn: "\<forall>r \<in> set rows. 0 \<le> pr_allreduce_ms r \<and> 0 \<le> pr_dma_ms r" using row by blast
  have "map bar_overlap (timeline_from 0 rows) = map (\<lambda>r. true_overlap tempo_ops (runs (pr_step r))) rows"
    unfolding timeline_from_overlap [OF nn] using row by simp
  moreover have "map bar_overlap (pivot_timeline rows) = map (\<lambda>r. min (pr_allreduce_ms r) (pr_dma_ms r)) rows"
    using pivot_from_overlap [OF nn] by (simp add: assms(2) run_tempo_pivot)
  ultimately show ?thesis using timeline_from_sequential [OF nn] by blast
qed

text \<open>The files of the profiler after both modes, run with their defaults.\<close>

definition profiler_files :: "nat \<Rightarrow> (nat \<Rightarrow> int \<Rightarrow> step_run) \<Rightarrow> (nat \<Rightarrow> int \<Rightarrow> step_run) \<Rightarrow> string \<rightharpoonup> pcie_row list" where
  "profiler_files world_size b_runs t_runs =
     snd (pcie_main (pcie_defaults True) 0 world_size t_runs
       (snd (pcie_main (pcie_defaults False) 0 world_size b_runs Map.empty)))"

lemma profiler_files_dom:
  "dom (profiler_files world_size b_runs t_runs) =
     {pcie_out_path (pcie_defaults False), pcie_out_path (pcie_defaults True)}"
  by (auto simp: profiler_files_def pcie_main_def gather_and_save_def Let_def)

text \<open>
  The figures look for the files where the profiler does not write them: after both runs the Gantt
  chart is drawn from synthetic data, and the figures of the readme raise.
\<close>

lemma profiler_files_not_found:
  "load_timeline_data ''results'' (profiler_files world_size b_runs t_runs) = (None, None)"
  "fig_motivation_pcie ''results'' (profiler_files world_size b_runs t_runs) = Inl OSError"
  "fig_results_summary ''results'' (profiler_files world_size b_runs t_runs) = Inl OSError"
proof -
  have "''results/phase7/timeline_baseline.csv'' \<notin> dom (profiler_files world_size b_runs t_runs)"
    "''results/phase7/timeline_tempo.csv'' \<notin> dom (profiler_files world_size b_runs t_runs)"
    unfolding profiler_files_dom by (simp_all add: pcie_out_path_def pcie_defaults_def)
  then have n: "profiler_files world_size b_runs t_runs ''results/phase7/timeline_baseline.csv'' = None"
    "profiler_files world_size b_runs t_runs ''results/phase7/timeline_tempo.csv'' = None" by blast+
  then show "load_timeline_data ''results'' (profiler_files world_size b_runs t_runs) = (None, None)"
    "fig_motivation_pcie ''results'' (profiler_files world_size b_runs t_runs) = Inl OSError"
    "fig_results_summary ''results'' (profiler_files world_size b_runs t_runs) = Inl OSError"
    by (simp_all add: load_timeline_data_def fig_motivation_pcie_def fig_results_summary_def required_def)
qed

lemma draw_gantt_overlap:
  "draw_gantt show_stall df = Inr g \<Longrightarrow> map bar_overlap (ga_bars g) = map bar_overlap (take 20 df)"
  by (auto simp: draw_gantt_def Let_def split: list.splits)

lemma fig9_synthetic:
  assumes "load_timeline_data results files = (None, None)"
  obtains g h where "fig9_pcie_timeline results use_demo d files = Inr (g, h, True)"
    and "\<forall>b \<in> set (ga_bars h). bar_overlap b = 0"
proof -
  have upt: "[0..<80] = 0 # [1..<80]" by (simp add: upt_rec)
  have zero: "bar_overlap (synthetic_tempo d i) = 0" for i
    by (simp add: bar_overlap_def synthetic_tempo_def Let_def min_def max_def)
  obtain g where g: "draw_gantt True (map (synthetic_base d) [0..<80]) = Inr g"
    unfolding upt by (simp add: draw_gantt_def Let_def)
  obtain h where h: "draw_gantt False (map (synthetic_tempo d) [0..<80]) = Inr h"
    unfolding upt by (simp add: draw_gantt_def Let_def)
  have "\<forall>b \<in> set (take 20 (map (synthetic_tempo d) [0..<80])). bar_overlap b = 0"
    using zero by (auto dest!: in_set_takeD)
  then have bars: "\<forall>b \<in> set (ga_bars h). bar_overlap b = 0"
    using draw_gantt_overlap [OF h] by (metis (no_types, lifting) in_set_conv_nth length_map nth_map)
  show thesis
    by (rule that [of g h]) (use assms g h bars in \<open>simp_all add: fig9_pcie_timeline_def synthetic_timeline_data_def\<close>)
qed

section \<open>Witnesses\<close>

end
