(* ===== verification/Readme_Figures.thy ===== *)
theory Readme_Figures
  imports Timelines
begin

text \<open>
  The rest of \<^verbatim>\<open>scripts/plot_readme_figures.py\<close>: the figure of the network interference
  (\<open>fig_motivation_network\<close>), the design figure (\<open>fig_design_overview\<close>) and the main program, which
  skips a figure whose files are missing.
\<close>

section \<open>Network interference\<close>

record net_row =
  nb_step :: int
  nb_bw_gbs :: real
  nb_flood :: bool

text \<open>\<open>load_net\<close>: the files of all ranks, each row with its rank; a missing file raises.\<close>

fun load_net :: "(nat \<Rightarrow> net_row list option) \<Rightarrow> nat list \<Rightarrow> (nat \<times> net_row) list result" where
  "load_net files [] = Inr []"
| "load_net files (r # rs) =
     (case files r of
        None \<Rightarrow> Inl OSError
      | Some df \<Rightarrow> and_then (load_net files rs) (\<lambda>rest. Inr (map (Pair r) df @ rest)))"

record net_figure =
  ne_lines :: "(int \<times> real) list \<times> (int \<times> real) list"
  ne_flood :: "int \<times> int"
  ne_before :: "real option"
  ne_boxes :: "real list list"
  ne_means :: "real option list"
  ne_drop_pct :: "real option"
  ne_recovery_pct :: "real option"

definition opt_reduction :: "real option \<Rightarrow> real option \<Rightarrow> real option" where
  "opt_reduction x y = (case (x, y) of (Some a, Some b) \<Rightarrow> reduction_pct a b | _ \<Rightarrow> None)"

text \<open>
  The span of the flood is guarded against there being none; the label beside it is not, and takes
  the first of its steps.
\<close>

definition fig_motivation_network ::
    "(string \<Rightarrow> nat \<Rightarrow> net_row list option) \<Rightarrow> net_figure result" where
  "fig_motivation_network files =
     and_then (load_net (files ''baseline'') [0..<8]) (\<lambda>nb.
     and_then (load_net (files ''tempo-v2'') [0..<8]) (\<lambda>nt.
       let r0_b = map snd (filter (\<lambda>x. fst x = 0) nb); r0_t = map snd (filter (\<lambda>x. fst x = 0) nt);
           flood_steps_b = map nb_step (filter nb_flood r0_b);
           bw = (\<lambda>flood df. map (nb_bw_gbs \<circ> snd) (filter (\<lambda>x. nb_flood (snd x) = flood) df));
           clean_base = bw False nb; flood_base = bw True nb; flood_tempo = bw True nt;
           line = map (\<lambda>r. (nb_step r, nb_bw_gbs r))
       in if flood_steps_b = [] then Inl IndexError
          else Inr \<lparr>ne_lines = (line r0_b, line r0_t), ne_flood = (hd flood_steps_b, last flood_steps_b),
                 ne_before = df_mean (map nb_bw_gbs (filter (\<lambda>r. \<not> nb_flood r) r0_b)),
                 ne_boxes = [clean_base, flood_base, flood_tempo],
                 ne_means = map df_mean [clean_base, flood_base, flood_tempo],
                 ne_drop_pct = opt_reduction (df_mean clean_base) (df_mean flood_base),
                 ne_recovery_pct = map_option uminus (opt_reduction (df_mean flood_base) (df_mean flood_tempo))\<rparr>))"

section \<open>The design figure\<close>

text \<open>
  Five steps of each mode from the measured means. In the baseline both bars start with the step; with
  TEMPO the copy starts at the end of the collective, and the next step after 85% of the copy. A mean
  of no rows is no limit of an axis: \<open>ValueError\<close>.
\<close>

record design =
  ds_base :: "gantt_bar list"
  ds_tempo :: "gantt_bar list"
  ds_reduce_pct :: "real option"

definition design_base :: "real \<Rightarrow> real \<Rightarrow> gantt_bar list" where
  "design_base m_ar m_dma =
     (let step_w = m_dma * (11 / 10)
      in map (\<lambda>i. \<lparr>gb_ar_start = of_nat i * step_w, gb_ar_dur = m_ar, gb_dma_start = of_nat i * step_w,
           gb_dma_dur = m_dma\<rparr>) [0..<5])"

definition design_tempo :: "real \<Rightarrow> real \<Rightarrow> gantt_bar list" where
  "design_tempo m_ar m_dma =
     (let step_w = m_ar + m_dma * (85 / 100)
      in map (\<lambda>i. \<lparr>gb_ar_start = of_nat i * step_w, gb_ar_dur = m_ar,
           gb_dma_start = of_nat i * step_w + m_ar, gb_dma_dur = m_dma\<rparr>) [0..<5])"

definition fig_design_overview :: "string \<Rightarrow> (string \<rightharpoonup> pcie_row list) \<Rightarrow> design result" where
  "fig_design_overview results files =
     and_then (required files (results @ ''/phase7/timeline_baseline.csv'')) (\<lambda>b.
     and_then (required files (results @ ''/phase7/timeline_tempo.csv'')) (\<lambda>t.
       case (df_mean (map pr_allreduce_ms b), df_mean (map pr_dma_ms b),
             df_mean (map pr_allreduce_ms t), df_mean (map pr_dma_ms t)) of
         (Some m_ar_b, Some m_dma_b, Some m_ar_t, Some m_dma_t) \<Rightarrow>
           Inr \<lparr>ds_base = design_base m_ar_b m_dma_b, ds_tempo = design_tempo m_ar_t m_dma_t,
                ds_reduce_pct = reduction_pct m_ar_b m_ar_t\<rparr>
       | _ \<Rightarrow> Inl ValueError))"

section \<open>The main program\<close>

text \<open>With \<open>all\<close>, a figure without its files is skipped; another exception ends the program.\<close>

fun draw_all :: "(string \<times> unit result) list \<Rightarrow> string list result" where
  "draw_all [] = Inr []"
| "draw_all ((name, r) # rest) =
     (case r of
        Inr u \<Rightarrow> and_then (draw_all rest) (\<lambda>names. Inr (name # names))
      | Inl e \<Rightarrow> if e = OSError then draw_all rest else Inl e)"

definition drawn :: "'a result \<Rightarrow> unit result" where
  "drawn r = and_then r (\<lambda>fig. Inr ())"

definition readme_funcs ::
    "string \<Rightarrow> (string \<rightharpoonup> pcie_row list) \<Rightarrow> (string \<Rightarrow> nat \<Rightarrow> net_row list option) \<Rightarrow> (string \<times> unit result) list" where
  "readme_funcs results files probes =
     [(''A'', drawn (fig_motivation_pcie results files)), (''B'', drawn (fig_motivation_network probes)),
      (''C'', drawn (fig_design_overview results files)), (''D'', drawn (fig_results_summary results files))]"

definition readme_main ::
    "string \<Rightarrow> string \<Rightarrow> (string \<rightharpoonup> pcie_row list) \<Rightarrow> (string \<Rightarrow> nat \<Rightarrow> net_row list option) \<Rightarrow> string list result" where
  "readme_main fig results files probes =
     (if fig = ''all'' then draw_all (readme_funcs results files probes)
      else case map_of (readme_funcs results files probes) fig of
        None \<Rightarrow> Inl KeyError
      | Some r \<Rightarrow> and_then r (\<lambda>u. Inr [fig]))"

section \<open>What the figures say\<close>

lemma df_mean_some: "xs \<noteq> [] \<Longrightarrow> df_mean xs = Some (np_mean xs)"
  by (simp add: df_mean_def np_div_def np_mean_def)

lemma df_mean_none: "df_mean xs = None \<longleftrightarrow> xs = []"
  by (cases "xs = []") (simp_all add: df_mean_some, simp add: df_mean_def np_div_def)

lemma load_net_Inl: "load_net files rs = Inl e \<longleftrightarrow> e = OSError \<and> (\<exists>r \<in> set rs. files r = None)"
  by (induction rs) (auto simp: and_then_def split: option.splits sum.splits)

lemma load_net_rank:
  assumes "load_net files rs = Inr df" and "distinct rs" and "r \<in> set rs"
  shows "files r = Some (map snd (filter (\<lambda>x. fst x = r) df))"
  using assms
proof (induction rs arbitrary: df)
  case (Cons q rs)
  obtain rows rest where q: "files q = Some rows" "load_net files rs = Inr rest" "df = map (Pair q) rows @ rest"
    using Cons.prems(1) by (auto simp: and_then_Inr split: option.splits)
  have ranks: "fst ` set rest \<subseteq> set rs" if "load_net files rs = Inr rest" for rs rest
    using that by (induction rs arbitrary: rest) (fastforce simp: and_then_Inr split: option.splits)+
  show ?case
  proof (cases "r = q")
    case True
    then have "filter (\<lambda>x. fst x = r) rest = []"
      using ranks [OF q(2)] Cons.prems(2) by (auto simp: filter_empty_conv)
    then show ?thesis using True q by (simp add: filter_map comp_def)
  next
    case False
    then have "files r = Some (map snd (filter (\<lambda>x. fst x = r) rest))"
      using Cons.IH [OF q(2)] Cons.prems by simp
    then show ?thesis using False q(3) by (simp add: filter_map comp_def)
  qed
qed simp

text \<open>
  The network figure ends with \<open>FileNotFoundError\<close> exactly when the file of a rank is missing, and
  with \<open>IndexError\<close> exactly when all are there and the first rank saw no flood in the baseline.
\<close>

lemma network_figure_ends:
  "fig_motivation_network files = Inl e \<longleftrightarrow>
     (if \<exists>r < 8. files ''baseline'' r = None \<or> files ''tempo-v2'' r = None then e = OSError
      else e = IndexError \<and> (\<forall>x \<in> set (the (files ''baseline'' 0)). \<not> nb_flood x))"
proof (cases "\<exists>r < 8. files ''baseline'' r = None \<or> files ''tempo-v2'' r = None")
  case True
  show ?thesis
  proof (cases "\<exists>r < 8. files ''baseline'' r = None")
    case T: True
    then have "load_net (files ''baseline'') [0..<8] = Inl OSError" by (auto simp: load_net_Inl)
    with True show ?thesis by (auto simp: fig_motivation_network_def)
  next
    case False
    then obtain nb where "load_net (files ''baseline'') [0..<8] = Inr nb"
      by (cases "load_net (files ''baseline'') [0..<8]") (auto simp: load_net_Inl)
    moreover have "load_net (files ''tempo-v2'') [0..<8] = Inl OSError"
      using True False by (auto simp: load_net_Inl)
    ultimately show ?thesis using True by (auto simp: fig_motivation_network_def)
  qed
next
  case False
  obtain nb where nb: "load_net (files ''baseline'') [0..<8] = Inr nb"
    using False by (cases "load_net (files ''baseline'') [0..<8]") (auto simp: load_net_Inl)
  obtain nt where nt: "load_net (files ''tempo-v2'') [0..<8] = Inr nt"
    using False by (cases "load_net (files ''tempo-v2'') [0..<8]") (auto simp: load_net_Inl)
  have "files ''baseline'' 0 = Some (map snd (filter (\<lambda>x. fst x = 0) nb))"
    using load_net_rank [OF nb, of 0] by simp
  then have "map nb_step (filter nb_flood (map snd (filter (\<lambda>x. fst x = 0) nb))) = [] \<longleftrightarrow>
      (\<forall>x \<in> set (the (files ''baseline'' 0)). \<not> nb_flood x)"
    by (simp add: filter_empty_conv)
  then show ?thesis using False unfolding fig_motivation_network_def nb nt Let_def and_then_simps
    by (auto simp only: if_False split: if_splits)
qed

text \<open>
  In the design figure a copy of TEMPO runs alone in its own step but is drawn into the collective of
  the next one, for 15% of its length or the whole collective.
\<close>

lemma design_overlaps:
  assumes "0 \<le> m_ar" "0 \<le> m_dma" and "i < 4"
  defines "b \<equiv> design_tempo m_ar m_dma ! i" and "c \<equiv> design_tempo m_ar m_dma ! Suc i"
  shows "bar_overlap b = 0"
    and "min (gb_dma_start b + gb_dma_dur b) (gb_ar_start c + gb_ar_dur c) - max (gb_dma_start b) (gb_ar_start c)
      = min m_ar (m_dma * (15 / 100))"
proof -
  have b: "b = \<lparr>gb_ar_start = of_nat i * (m_ar + m_dma * (85 / 100)), gb_ar_dur = m_ar,
      gb_dma_start = of_nat i * (m_ar + m_dma * (85 / 100)) + m_ar, gb_dma_dur = m_dma\<rparr>"
    using assms(3) by (simp add: b_def design_tempo_def Let_def)
  have c: "c = \<lparr>gb_ar_start = of_nat (Suc i) * (m_ar + m_dma * (85 / 100)), gb_ar_dur = m_ar,
      gb_dma_start = of_nat (Suc i) * (m_ar + m_dma * (85 / 100)) + m_ar, gb_dma_dur = m_dma\<rparr>"
    using assms(3) by (simp add: c_def design_tempo_def Let_def del: of_nat_Suc)
  show "bar_overlap b = 0" using assms(1,2) by (simp add: b bar_overlap_def min_def max_def)
  define t where "t = of_nat i * (m_ar + m_dma * (85 / 100))"
  have next_t: "of_nat (Suc i) * (m_ar + m_dma * (85 / 100)) = t + m_ar + m_dma * (85 / 100)"
    by (simp add: t_def algebra_simps)
  show "min (gb_dma_start b + gb_dma_dur b) (gb_ar_start c + gb_ar_dur c) - max (gb_dma_start b) (gb_ar_start c)
      = min m_ar (m_dma * (15 / 100))"
    unfolding b c next_t t_def [symmetric] gantt_bar.select_convs using assms(1,2) by (simp add: min_def max_def)
qed

text \<open>After both runs of the profiler, \<open>--fig all\<close> draws at most the figure that does not need them.\<close>

lemma readme_after_profiler:
  "readme_main ''all'' ''results'' (profiler_files world_size b_runs t_runs) probes =
     (case fig_motivation_network probes of
        Inr fig \<Rightarrow> Inr [''B''] | Inl e \<Rightarrow> if e = OSError then Inr [] else Inl e)"
proof -
  have "fig_design_overview ''results'' (profiler_files world_size b_runs t_runs) = Inl OSError"
    using profiler_files_not_found(1) [of world_size b_runs t_runs]
    by (simp add: fig_design_overview_def required_def load_timeline_data_def)
  then show ?thesis
    by (simp add: readme_main_def readme_funcs_def drawn_def profiler_files_not_found split: sum.split)
qed

end
