(* ===== verification/Figure_Programs.thy ===== *)
theory Figure_Programs
  imports Micro_Benchmarks Paper_Figures Readme_Figures Chunk_Sweep
begin

text \<open>
  The main programs of \<^verbatim>\<open>scripts/plot_micro_benchmarks.py\<close> and
  \<^verbatim>\<open>scripts/make_figures.py\<close>: which figures they draw, in which order, where their data come
  from, and the files that are saved until a figure raises.
\<close>

section \<open>Running figures\<close>

text \<open>A figure: the files it saves if it is drawn, or nothing for one that is skipped, or its exception.\<close>

type_synonym figure_run = "string list result"

fun run_figures :: "figure_run list \<Rightarrow> string list \<times> py_error option" where
  "run_figures [] = ([], None)"
| "run_figures (Inl e # rest) = ([], Some e)"
| "run_figures (Inr files # rest) = (case run_figures rest of (fs, e) \<Rightarrow> (files @ fs, e))"

definition saves :: "string list \<Rightarrow> 'a result \<Rightarrow> figure_run" where
  "saves files r = and_then r (\<lambda>fig. Inr files)"

section \<open>The micro-benchmarks\<close>

record micro_inputs =
  mi_timelines :: "string \<rightharpoonup> pcie_row list"
  mi_timeline_draws :: timeline_draws
  mi_sweep :: "io_row list option"
  mi_sweep_draws :: "real \<Rightarrow> nat \<Rightarrow> real"
  mi_itl_base :: "real list option"
  mi_itl_tempo :: "real list option"
  mi_itl_draws :: "real list \<times> real list"
  mi_nexus :: nexus_data
  mi_nexus_base :: "real list"
  mi_nexus_tempo :: "real list"

text \<open>The argument parser accepts 9 to 12 and exits on any other number, before a figure is drawn.\<close>

definition micro_figs :: "int option \<Rightarrow> int list option" where
  "micro_figs fig =
     (case fig of
        None \<Rightarrow> Some [9, 10, 11, 12]
      | Some k \<Rightarrow> if k \<in> {9, 10, 11, 12} then Some [k] else None)"

text \<open>Figures 9 to 11 save below the module's directory, figure 12 below the argument's.\<close>

definition micro_files :: "string \<Rightarrow> int \<Rightarrow> string list" where
  "micro_files results_dir fig_id =
     (if fig_id = 9 then [''results/figures/fig9_pcie_timeline.pdf'', ''results/figures/fig9_pcie_timeline.png'']
      else if fig_id = 10 then [''results/figures/fig10_io_nccl_sweep.pdf'', ''results/figures/fig10_io_nccl_sweep.png'']
      else if fig_id = 11 then [''results/figures/fig11_itl_cdf.pdf'', ''results/figures/fig11_itl_cdf.png'']
      else [results_dir @ ''/figures/fig12_nexus_dscp.png'', results_dir @ ''/figures/fig12_nexus_dscp.pdf''])"

definition micro_figure :: "string \<Rightarrow> bool \<Rightarrow> micro_inputs \<Rightarrow> int \<Rightarrow> figure_run" where
  "micro_figure results_dir demo inp fig_id =
     (let files = micro_files results_dir fig_id in
      if fig_id = 9 then saves files (fig9_pcie_timeline results_dir demo (mi_timeline_draws inp) (mi_timelines inp))
      else if fig_id = 10 then saves files (fig10_io_nccl_sweep (mi_sweep inp) demo (mi_sweep_draws inp))
      else if fig_id = 11 then saves files (fig11_itl_cdf (mi_itl_base inp) (mi_itl_tempo inp) demo (mi_itl_draws inp))
      else if fig_id = 12 then saves files (fig12_nexus_dscp (mi_nexus inp) demo (mi_nexus_base inp) (mi_nexus_tempo inp))
      else Inr [])"

definition micro_main ::
    "int option \<Rightarrow> bool \<Rightarrow> string \<Rightarrow> micro_inputs \<Rightarrow> (string list \<times> py_error option) option" where
  "micro_main fig demo results_dir inp =
     map_option (\<lambda>figs. run_figures (map (micro_figure results_dir demo inp) figs)) (micro_figs fig)"

section \<open>The paper's figures\<close>

record paper_args =
  pf_chunk_sweep :: bool
  pf_phase4 :: bool
  pf_phase5 :: bool
  pf_phase6 :: bool
  pf_results_dir :: "string option"
  pf_out_dir :: "string option"

text \<open>\<open>OUT\<close>: the argument replaces it unless it is empty. \<open>Path.parent\<close> of a relative path.\<close>

definition out_dir_of :: "paper_args \<Rightarrow> string" where
  "out_dir_of args =
     (case pf_out_dir args of
        Some d \<Rightarrow> if d \<noteq> [] then d else ''results/figures''
      | None \<Rightarrow> ''results/figures'')"

fun join_path :: "string list \<Rightarrow> string" where
  "join_path [] = ''.''"
| "join_path [p] = p"
| "join_path (p # q # ps) = p @ ''/'' @ join_path (q # ps)"

definition path_parent :: "string \<Rightarrow> string" where
  "path_parent p = join_path (butlast (py_split CHR ''/'' p))"

definition phase_csv :: "paper_args \<Rightarrow> string \<Rightarrow> string \<Rightarrow> string \<Rightarrow> string" where
  "phase_csv args sub mode name = path_parent (out_dir_of args) @ ''/'' @ sub @ mode @ ''/'' @ name"

record paper_inputs =
  pi_steps :: "string \<rightharpoonup> (int \<times> real) list"
  pi_sweep :: "string \<rightharpoonup> sweep_table"
  pi_probe :: "string \<rightharpoonup> probe_row list"
  pi_probe_draws :: "bool \<Rightarrow> nat \<Rightarrow> nat \<Rightarrow> real"
  pi_burst :: "string \<rightharpoonup> bool \<times> burst_row list"
  pi_burst_draws :: "string \<Rightarrow> nat \<Rightarrow> burst_draw"
  pi_bw :: "string \<rightharpoonup> bw_row list"
  pi_bw_draws :: "string \<Rightarrow> nat \<Rightarrow> real"
  pi_ablation :: "string \<rightharpoonup> (real \<times> real \<times> real) list"

definition png_pdf :: "string \<Rightarrow> string \<Rightarrow> string list" where
  "png_pdf out name = [out @ ''/'' @ name @ ''.png'', out @ ''/'' @ name @ ''.pdf'']"

definition probe_df :: "paper_inputs \<Rightarrow> paper_args \<Rightarrow> bool \<Rightarrow> probe_row list" where
  "probe_df inp args baseline =
     (case pi_probe inp (phase_csv args ''phase4/network_interference/''
             (if baseline then ''baseline'' else ''tempo-v2'') ''probe_rank0.csv'') of
        Some df \<Rightarrow> df
      | None \<Rightarrow> simulate_probe baseline (pi_probe_draws inp baseline))"

definition qos_df :: "paper_inputs \<Rightarrow> paper_args \<Rightarrow> string \<Rightarrow> bw_row list result" where
  "qos_df inp args mode =
     (case pi_bw inp (phase_csv args ''phase5/qos/'' mode ''probe_rank0.csv'') of
        Some df \<Rightarrow> Inr df
      | None \<Rightarrow> simulate_qos mode (pi_bw_draws inp mode))"

definition paper_figs :: "paper_args \<Rightarrow> paper_inputs \<Rightarrow> figure_run list" where
  "paper_figs args inp =
     (let out = out_dir_of args in
      [Inr (png_pdf out ''fig0_pcie_contention''), Inr (png_pdf out ''fig2_tempo_arch''),
       Inr (png_pdf out ''fig3_phase_timeline''), Inr (png_pdf out ''fig4_phase1_barchart''),
       (case fig5_comparison (pi_steps inp ''results/e2e_training/baseline/nccl_bw_rank0.csv'')
               (pi_steps inp ''results/e2e_training/tempo/nccl_bw_rank0.csv'') of
          None \<Rightarrow> Inr []
        | Some c \<Rightarrow> Inr (png_pdf out ''fig5_phase3_comparison''))] @
      (if pf_chunk_sweep args
       then [if fig6_results (\<lambda>folder. pi_sweep inp (''results/chunk_sweep/'' @ folder @ ''/nccl_bw_rank0.csv'')) = []
             then Inr [] else Inr (png_pdf out ''fig6_chunk_sweep'')]
       else []) @
      (if pf_phase4 args
       then [saves (png_pdf out ''fig7_network_interference'')
               (Inr (fig7_interference (probe_df inp args True) (probe_df inp args False))),
             saves (png_pdf out ''fig8_burstgpt_evaluation'')
               (fig8_burstgpt (\<lambda>mode. pi_burst inp (phase_csv args ''phase4/burst_'' mode ''burst_stats_rank0.csv''))
                 (pi_burst_draws inp))]
       else []) @
      (if pf_phase5 args
       then [saves (png_pdf out ''fig9_topology_placement'')
               (fig9_topology_placement
                 (\<lambda>mode. pi_bw inp (phase_csv args ''phase5/placement/'' mode ''probe_rank0.csv'')) (pi_bw_draws inp)),
             saves (png_pdf out ''fig10_qos_traffic_class'')
               (and_then (qos_df inp args ''no-qos'') (\<lambda>no_qos.
                and_then (qos_df inp args ''qos-soft'') (\<lambda>soft.
                and_then (qos_df inp args ''qos-hard'') (\<lambda>hard.
                  fig10_qos (flood_latencies no_qos) (flood_latencies soft) (flood_latencies hard)))))]
       else []) @
      (if pf_phase6 args
       then [saves (png_pdf out ''fig11_v4_ablation'')
               (fig11_ablation (Option.bind (pf_results_dir args)
                  (\<lambda>d. pi_ablation inp ((if d = [] then [] else d @ ''/'') @ ''ablation_results.csv''))))]
       else []))"

definition paper_main :: "paper_args \<Rightarrow> paper_inputs \<Rightarrow> string list \<times> py_error option" where
  "paper_main args inp = run_figures (paper_figs args inp)"

section \<open>What the programs do\<close>

text \<open>The files are those of the figures before the first that raises, in their order.\<close>

lemma run_figures_files:
  "fst (run_figures figs) = concat (map (\<lambda>r. case r of Inl e \<Rightarrow> [] | Inr files \<Rightarrow> files)
     (takeWhile (\<lambda>r. \<exists>files. r = Inr files) figs))"
  by (induction figs rule: run_figures.induct) (auto split: prod.splits)

lemma run_figures_error:
  "snd (run_figures figs) = (case dropWhile (\<lambda>r. \<exists>files. r = Inr files) figs of
     Inl e # rest \<Rightarrow> Some e | _ \<Rightarrow> None)"
  by (induction figs rule: run_figures.induct) (auto split: prod.splits)

lemma saves_Inr: "saves files (Inr x) = Inr files" and saves_Inl: "saves files (Inl e) = Inl e"
  by (simp_all add: saves_def and_then_def)

text \<open>Only figure 12 is saved below the directory that was asked for.\<close>

lemma micro_results_dir:
  "k \<noteq> 12 \<Longrightarrow> k \<in> {9, 10, 11} \<Longrightarrow> micro_files d k = micro_files d' k"
  "d \<noteq> d' \<Longrightarrow> micro_files d 12 \<noteq> micro_files d' 12"
  by (auto simp: micro_files_def)

lemma fig9_demo: "\<exists>r. fig9_pcie_timeline results True d files = Inr r"
proof -
  obtain g h where "fig9_pcie_timeline results True d Map.empty = Inr (g, h, True)"
    by (rule fig9_synthetic [of results Map.empty True d]) (simp_all add: load_timeline_data_def)
  moreover have "fig9_pcie_timeline results True d files = fig9_pcie_timeline results True d Map.empty"
    by (auto simp: fig9_pcie_timeline_def load_timeline_data_def split: option.split)
  ultimately have "fig9_pcie_timeline results True d files = Inr (g, h, True)" by simp
  then show ?thesis by (rule exI)
qed

lemma io_points_demo: "io_points (synthetic_sweep_data z) \<noteq> []"
proof -
  have "io_trial_row 0 0 (z 0 0) \<in> set (filter (\<lambda>r. io_rank r = 0) (synthetic_sweep_data z))"
    by (auto simp: synthetic_sweep_data_def IO_RATES_def io_trial_row_def Let_def simp del: upt_rec_numeral)
  then have "remdups (map io_rate_gbs (filter (\<lambda>r. io_rank r = 0) (synthetic_sweep_data z))) \<noteq> []"
    by (metis emptyE list.set(1) map_is_Nil_conv remdups_eq_nil_iff)
  then show ?thesis unfolding io_points_def Let_def by (metis length_0_conv length_sort map_is_Nil_conv)
qed

lemma mark_all_ok:
  "\<forall>(samples, pct) \<in> set ms. sorted samples \<and> samples \<noteq> [] \<and> 0 < pct \<and> pct \<le> 100 \<Longrightarrow>
     \<exists>vs. mark_all ms = Inr vs"
proof (induction ms)
  case (Cons m ms)
  obtain samples pct where m: "m = (samples, pct)" by (cases m)
  with Cons.prems percentile_mark_ok [of samples pct] obtain v where "percentile_mark samples pct = Some v" by auto
  with Cons m show ?case by (auto simp: and_then_def)
qed simp

text \<open>On synthetic data, which is sorted, every figure is drawn, in order, whatever files there are.\<close>

lemma micro_demo_completes:
  assumes itl: "mi_itl_draws inp = (base, tempo)" "base \<noteq> []" "tempo \<noteq> []" "sorted base" "sorted tempo"
    and "length (mi_nexus_base inp) = 300"
  shows "micro_main None True dir inp = Some (concat (map (micro_files dir) [9, 10, 11, 12]), None)"
proof -
  obtain r9 where 9: "fig9_pcie_timeline dir True (mi_timeline_draws inp) (mi_timelines inp) = Inr r9"
    using fig9_demo by blast
  obtain r10 where 10: "fig10_io_nccl_sweep (mi_sweep inp) True (mi_sweep_draws inp) = Inr r10"
  proof -
    have "fig10_io_nccl_sweep (mi_sweep inp) True (mi_sweep_draws inp)
        = and_then (knee_of (io_points (synthetic_sweep_data (mi_sweep_draws inp))))
            (\<lambda>k. Inr (io_points (synthetic_sweep_data (mi_sweep_draws inp)), k, True))"
      by (simp add: fig10_io_nccl_sweep_def Let_def split: option.split)
    moreover obtain k where "knee_of (io_points (synthetic_sweep_data (mi_sweep_draws inp))) = Inr k"
      using io_points_demo [of "mi_sweep_draws inp"]
      by (cases "io_points (synthetic_sweep_data (mi_sweep_draws inp))") (simp_all add: knee_of_def Let_def)
    ultimately show ?thesis by (intro that) (simp add: and_then_def)
  qed
  obtain r11 where 11: "fig11_itl_cdf (mi_itl_base inp) (mi_itl_tempo inp) True (mi_itl_draws inp) = Inr r11"
  proof -
    obtain vs where vs: "mark_all (concat (map (\<lambda>pct. [(base, pct), (tempo, pct)]) [50, 99, 999 / 10])) = Inr vs"
      using mark_all_ok [of "concat (map (\<lambda>pct. [(base, pct), (tempo, pct)]) [50, 99, 999 / 10])"] itl by auto
    have "fig11_itl_cdf b t True (base, tempo) = draw_itl_cdf base tempo" for b t
      by (simp add: fig11_itl_cdf_def split: option.split)
    then show ?thesis using vs by (intro that) (simp add: itl(1) draw_itl_cdf_def and_then_def)
  qed
  obtain r12 where 12: "fig12_nexus_dscp (mi_nexus inp) True (mi_nexus_base inp) (mi_nexus_tempo inp) = Inr r12"
    using fig12_demo [OF assms(6)] by blast
  show ?thesis
    by (simp add: micro_main_def micro_figs_def micro_figure_def 9 10 11 12 saves_Inr)
qed

text \<open>
  The measured data of figures 7 to 10 are looked up next to the output directory, so they are found
  only if that directory stands beside them: with another one the simulation is drawn instead.
\<close>

lemma phase_csv_default: "pf_out_dir args = None \<Longrightarrow> phase_csv args sub mode name = ''results/'' @ sub @ mode @ ''/'' @ name"
  by (simp add: phase_csv_def out_dir_of_def path_parent_def)

lemma out_dir_hides_measurements:
  assumes "pf_out_dir args = Some ''paper/figures''"
    and "\<forall>path. pi_probe inp path \<noteq> None \<longrightarrow> startswith path ''results/''"
  shows "probe_df inp args baseline = simulate_probe baseline (pi_probe_draws inp baseline)"
proof -
  have "phase_csv args sub mode name = ''paper/'' @ sub @ mode @ ''/'' @ name" for sub mode name
    using assms(1) by (simp add: phase_csv_def out_dir_of_def path_parent_def)
  then have "\<not> startswith (phase_csv args sub mode name) ''results/''" for sub mode name by simp
  then have "pi_probe inp (phase_csv args sub mode name) = None" for sub mode name
    using assms(2) by blast
  then show ?thesis by (simp add: probe_df_def)
qed

end
