(* ===== verification/Monitor_Threads.thy ===== *)
theory Monitor_Threads
  imports Topology_Router
begin

text \<open>
  The daemon threads of \<^verbatim>\<open>tempo/network_monitor.py\<close>. \<open>Network_Monitor\<close>
  takes one iteration of each loop as a function of the state; here the threads run it: reading a
  counter file with every way it can fail, the start, the loop test, the sleep and the end of the
  poll threads of \<open>NetworkMonitor\<close> and \<open>CassiniHWCounters\<close>, their interleaving with the
  main thread's \<open>start\<close> and \<open>stop\<close>, and the loading of the C counter library.
  The poll of the NIC monitor holds the lock; \<open>stop\<close> does not take it, but its two writes commute
  with the single test and the single write of each event in the poll, so the poll is one step.
\<close>

section \<open>Reading a counter file\<close>

text \<open>
  What \<open>Path(path).read_text()\<close> does: the text, a \<open>UnicodeDecodeError\<close> (a \<open>ValueError\<close>), or an
  \<open>OSError\<close> of which two kinds are caught.
\<close>

datatype file_read = Contents string | Undecodable | File_Not_Found | Permission_Denied | Other_OSError

text \<open>
  \<open>int(s)\<close> of a text in ASCII: blanks around, one sign, digits with single underscores between them;
  \<open>None\<close> is \<open>ValueError\<close>.
\<close>

definition int_of_text :: "string \<Rightarrow> int option" where
  "int_of_text text =
     (let s = py_strip text;
          negative = startswith s ''-'';
          parts = py_split CHR ''_'' (if negative \<or> startswith s ''+'' then tl s else s)
      in if list_all (\<lambda>p. p \<noteq> [] \<and> list_all is_digit p) parts
         then Some ((if negative then - 1 else 1) * int (undigits (concat parts))) else None)"

fun read_sysfs_counter :: "file_read \<Rightarrow> int option result" where
  "read_sysfs_counter (Contents text) = Inr (int_of_text (py_strip text))"
| "read_sysfs_counter Undecodable = Inr None"
| "read_sysfs_counter File_Not_Found = Inr None"
| "read_sysfs_counter Permission_Denied = Inr None"
| "read_sysfs_counter Other_OSError = Inl OSError"

type_synonym file_system = "string \<Rightarrow> file_read"

definition counter_raises :: "file_read \<Rightarrow> bool" where
  "counter_raises f \<longleftrightarrow> (case read_sysfs_counter f of Inl _ \<Rightarrow> True | Inr _ \<Rightarrow> False)"

definition counter_value :: "file_system \<Rightarrow> sysfs" where
  "counter_value files path = (case read_sysfs_counter (files path) of Inl _ \<Rightarrow> None | Inr v \<Rightarrow> v)"

section \<open>The poll thread of the NIC monitor\<close>

text \<open>
  One iteration with its error: the first NIC whose \<open>tx_bytes\<close> or \<open>rx_bytes\<close> cannot be read for
  another reason ends the poll, after the NICs before it have been updated.
\<close>

definition nic_raises :: "file_system \<Rightarrow> string \<Rightarrow> bool" where
  "nic_raises files nic \<longleftrightarrow> counter_raises (files (tx_path nic)) \<or> counter_raises (files (rx_path nic))"

definition poll_iteration ::
    "file_system \<Rightarrow> real \<Rightarrow> real \<Rightarrow> network_monitor \<Rightarrow> unit result \<times> network_monitor" where
  "poll_iteration files now now' m =
     (if nm_simulated m \<or> \<not> list_ex (nic_raises files) (nm_nics m)
      then (case poll_step (counter_value files) now now' m of
              Inl e \<Rightarrow> (Inl e, m)
            | Inr m' \<Rightarrow> (Inr (), m'))
      else (case poll_nics (counter_value files) now (takeWhile (\<lambda>nic. \<not> nic_raises files nic) (nm_nics m))
                   (m\<lparr>nm_poll_count := nm_poll_count m + 1\<rparr>) of
              Inl e \<Rightarrow> (Inl e, m)
            | Inr (x, m') \<Rightarrow> (Inl OSError, m')))"

datatype poll_pc = Loop_Test | Polling | Sleeping | Returned | Raised py_error

fun is_alive :: "poll_pc \<Rightarrow> bool" where
  "is_alive Returned = False"
| "is_alive (Raised e) = False"
| "is_alive _ = True"

text \<open>
  The main thread is outside \<open>stop\<close>, between its two writes, or in the join. \<open>_thread\<close> is the last
  of the threads started.
\<close>

datatype main_pc = Outside | Opening | Joining

record monitor_system =
  ms_monitor :: network_monitor
  ms_threads :: "poll_pc list"
  ms_main :: main_pc

definition monitor_system_init :: "network_monitor \<Rightarrow> monitor_system" where
  "monitor_system_init m = \<lparr>ms_monitor = m, ms_threads = [], ms_main = Outside\<rparr>"

definition monitor_start :: "monitor_system \<Rightarrow> monitor_system" where
  "monitor_start s =
     (let running = (ms_threads s \<noteq> [] \<and> is_alive (last (ms_threads s))) in
      s\<lparr>ms_monitor := nm_start running (ms_monitor s),
        ms_threads := (if running then ms_threads s else ms_threads s @ [Loop_Test])\<rparr>)"

definition stop_request :: "monitor_system \<Rightarrow> monitor_system" where
  "stop_request s = s\<lparr>ms_monitor := (ms_monitor s)\<lparr>nm_stop_set := True\<rparr>, ms_main := Opening\<rparr>"

definition stop_open :: "monitor_system \<Rightarrow> monitor_system" where
  "stop_open s = s\<lparr>ms_monitor := (ms_monitor s)\<lparr>nm_io_allowed := True\<rparr>, ms_main := Joining\<rparr>"

definition stop_join :: "monitor_system \<Rightarrow> monitor_system" where
  "stop_join s = s\<lparr>ms_main := Outside\<rparr>"

lemma stop_is_nm_stop: "ms_monitor (stop_join (stop_open (stop_request s))) = nm_stop (ms_monitor s)"
  by (simp add: stop_join_def stop_open_def stop_request_def nm_stop_def)

text \<open>One step of a poll thread: the loop test, the locked part of an iteration, the sleep.\<close>

definition poll_tick ::
    "file_system \<Rightarrow> real \<Rightarrow> real \<Rightarrow> poll_pc \<times> network_monitor \<Rightarrow> poll_pc \<times> network_monitor" where
  "poll_tick files now now' = (\<lambda>(pc, m).
     case pc of
       Loop_Test \<Rightarrow> (if nm_stop_set m then Returned else Polling, m)
     | Polling \<Rightarrow>
         (case poll_iteration files now now' m of
            (Inl e, m') \<Rightarrow> (Raised e, m')
          | (Inr _, m') \<Rightarrow> (Sleeping, m'))
     | Sleeping \<Rightarrow> (Loop_Test, m)
     | _ \<Rightarrow> (pc, m))"

definition thread_tick ::
    "nat \<Rightarrow> file_system \<Rightarrow> real \<Rightarrow> real \<Rightarrow> monitor_system \<Rightarrow> monitor_system" where
  "thread_tick i files now now' s =
     (case poll_tick files now now' (ms_threads s ! i, ms_monitor s) of
        (pc, m) \<Rightarrow> s\<lparr>ms_threads := (ms_threads s)[i := pc], ms_monitor := m\<rparr>)"

text \<open>
  Every interleaving of the main thread, the poll threads and callers that inject a bandwidth. The
  join may end at any time: it has a timeout.
\<close>

inductive ms_reach :: "real \<Rightarrow> real \<Rightarrow> monitor_system \<Rightarrow> bool" for t0 :: real where
  init: "ms_reach t0 t0 (monitor_system_init (network_monitor_init th iv speed nics))"
| later: "ms_reach t0 t s \<Longrightarrow> t \<le> t' \<Longrightarrow> ms_reach t0 t' s"
| start: "ms_reach t0 t s \<Longrightarrow> ms_main s = Outside \<Longrightarrow> ms_reach t0 t (monitor_start s)"
| request: "ms_reach t0 t s \<Longrightarrow> ms_main s = Outside \<Longrightarrow> ms_reach t0 t (stop_request s)"
| opened: "ms_reach t0 t s \<Longrightarrow> ms_main s = Opening \<Longrightarrow> ms_reach t0 t (stop_open s)"
| join: "ms_reach t0 t s \<Longrightarrow> ms_main s = Joining \<Longrightarrow> ms_reach t0 t (stop_join s)"
| inject: "ms_reach t0 t s \<Longrightarrow> 0 \<le> bps \<Longrightarrow>
    ms_reach t0 t (s\<lparr>ms_monitor := set_simulated_bps t bps (ms_monitor s)\<rparr>)"
| tick: "ms_reach t0 t s \<Longrightarrow> i < length (ms_threads s) \<Longrightarrow>
    ms_reach t0 t (thread_tick i files now t s)"

section \<open>Lemmas on the counter files\<close>

lemma dropWhile_none: "\<forall>c \<in> set s. \<not> P c \<Longrightarrow> dropWhile P s = s"
  by (induction s) auto

lemma py_strip_none: "\<forall>c \<in> set s. \<not> py_space c \<Longrightarrow> py_strip s = s"
  by (simp add: py_strip_def dropWhile_none)

lemma py_strip_newline: "\<forall>c \<in> set s. \<not> py_space c \<Longrightarrow> py_strip (s @ [CHR 0x0A]) = s"
proof (cases s)
  case Nil
  then show ?thesis by (simp add: py_strip_def py_space_def)
next
  case (Cons c cs)
  assume "\<forall>c \<in> set s. \<not> py_space c"
  with Cons have "dropWhile py_space (s @ [CHR 0x0A]) = s @ [CHR 0x0A]"
    and "dropWhile py_space (rev s) = rev s" by (simp_all add: dropWhile_none)
  moreover have "py_space CHR 0x0A" by (simp add: py_space_def)
  ultimately show ?thesis by (simp add: py_strip_def)
qed

lemma digits_is_digit: "c \<in> set (digits n) \<Longrightarrow> is_digit c"
  using digits_chars [of n] unfolding is_digit_def by blast

lemma is_digit_not: "is_digit c \<Longrightarrow> \<not> py_space c \<and> c \<noteq> CHR ''_'' \<and> c \<noteq> CHR ''-'' \<and> c \<noteq> CHR ''+''"
  by (auto simp: is_digit_def py_space_def)

lemma int_of_digits:
  "py_split CHR ''_'' (digits n) = [digits n]" "hd (digits n) \<noteq> CHR ''-''" "hd (digits n) \<noteq> CHR ''+''"
proof -
  have *: "is_digit c" if "c \<in> set (digits n)" for c using that by (rule digits_is_digit)
  then show "py_split CHR ''_'' (digits n) = [digits n]"
    by (intro py_split_no_sep) (auto simp: is_digit_def)
  have "is_digit (hd (digits n))" by (intro *) simp
  then show "hd (digits n) \<noteq> CHR ''-''" "hd (digits n) \<noteq> CHR ''+''"
    using is_digit_not by blast+
qed

text \<open>A counter file holds a decimal integer and a newline: the reader returns that integer.\<close>

lemma sysfs_counter_roundtrip: "read_sysfs_counter (Contents (str_int i @ [CHR 0x0A])) = Inr (Some i)"
proof -
  have d: "list_all is_digit (digits n)" for n by (simp add: list_all_iff digits_is_digit)
  have ns: "\<forall>c \<in> set (str_int i). \<not> py_space c"
    using digits_is_digit is_digit_not by (auto simp: str_int_def py_space_def split: if_splits)
  have "int_of_text (str_int i) = Some i"
  proof (cases "i < 0")
    case True
    then show ?thesis
      using ns d by (simp add: int_of_text_def py_strip_none str_int_def int_of_digits Let_def)
  next
    case False
    obtain c cs where c: "digits (nat i) = c # cs" by (cases "digits (nat i)") auto
    then have "\<not> prefix ''-'' (digits (nat i))" "\<not> prefix ''+'' (digits (nat i))"
      using int_of_digits(2,3) [of "nat i"] by auto
    then show ?thesis
      using False ns d by (simp add: int_of_text_def py_strip_none str_int_def int_of_digits Let_def)
  qed
  then show ?thesis using ns by (simp add: py_strip_newline py_strip_none)
qed

section \<open>Lemmas on the poll thread\<close>

lemma poll_prefix_ok:
  assumes "nm_inv t0 t m"
  shows "\<exists>x tab. poll_nics sysfs now (takeWhile P (nm_nics m)) (m\<lparr>nm_poll_count := nm_poll_count m + 1\<rparr>)
      = Inr (x, m\<lparr>nm_poll_count := nm_poll_count m + 1, nm_nic_state := tab\<rparr>) \<and>
    table_ok (m\<lparr>nm_poll_count := nm_poll_count m + 1, nm_nic_state := tab\<rparr>)"
proof -
  let ?m = "m\<lparr>nm_poll_count := nm_poll_count m + 1\<rparr>"
  have "table_ok ?m" using assms by (simp add: nm_inv_def table_ok_def)
  moreover have "set (takeWhile P (nm_nics m)) \<subseteq> set (nm_nics ?m)"
    using set_takeWhileD by fastforce
  ultimately show ?thesis using poll_nics_ok [of ?m "takeWhile P (nm_nics m)" sysfs now] by fastforce
qed

lemma poll_step_stop:
  assumes "nm_inv t0 t m" and "poll_step sysfs now t m = Inr m'"
  shows "nm_stop_set m' = nm_stop_set m"
proof -
  have u: "nm_stop_set (update_congestion_state now bps n) = nm_stop_set n" for now bps n
    by (auto simp: update_congestion_state_def Let_def split: option.splits)
  have tw: "takeWhile (\<lambda>_. True) (nm_nics m) = nm_nics m" by (simp add: takeWhile_eq_all_conv)
  obtain x tab where "poll_nics sysfs now (nm_nics m) (m\<lparr>nm_poll_count := nm_poll_count m + 1\<rparr>)
      = Inr (x, m\<lparr>nm_poll_count := nm_poll_count m + 1, nm_nic_state := tab\<rparr>)"
    using poll_prefix_ok [OF assms(1), of sysfs now "\<lambda>_. True"] unfolding tw by blast
  with assms(2) show ?thesis by (auto simp: poll_step_def u Let_def split: if_splits)
qed

text \<open>
  An iteration counts one poll and keeps the invariant; it ends the thread exactly when a counter
  file fails in a way that is not caught, and then leaves the gate as it was.
\<close>

lemma poll_iteration_ok:
  assumes inv: "nm_inv t0 t m" and it: "poll_iteration files now t m = (r, m')"
  shows "nm_inv t0 t m' \<and> nm_poll_count m' = nm_poll_count m + 1 \<and> nm_stop_set m' = nm_stop_set m \<and>
    (if nm_simulated m \<or> \<not> list_ex (nic_raises files) (nm_nics m)
     then r = Inr () \<and> (is_congested m' \<longleftrightarrow> threshold_bps m' \<le> nm_total_bps_ema m')
     else r = Inl OSError \<and> nm_io_allowed m' = nm_io_allowed m)"
proof (cases "nm_simulated m \<or> \<not> list_ex (nic_raises files) (nm_nics m)")
  case True
  with it nm_inv_poll [OF inv, of "counter_value files" now] poll_step_stop [OF inv] show ?thesis
    by (auto simp: poll_iteration_def is_congested_def not_less)
next
  case False
  with it poll_prefix_ok [OF inv, of "counter_value files" now "\<lambda>nic. \<not> nic_raises files nic"] inv
  show ?thesis by (auto simp: poll_iteration_def nm_inv_def congestion_ok_def)
qed

text \<open>The monitor behind the threads keeps its invariant; at most the thread last started is alive.\<close>

definition one_thread :: "monitor_system \<Rightarrow> bool" where
  "one_thread s \<longleftrightarrow> (\<forall>pc \<in> set (butlast (ms_threads s)). \<not> is_alive pc)"

lemma poll_tick_ok:
  assumes inv: "nm_inv t0 t m" and tick: "poll_tick files now t (pc, m) = (pc', m')"
  shows "nm_inv t0 t m' \<and> nm_stop_set m' = nm_stop_set m \<and> (is_alive pc' \<longrightarrow> is_alive pc) \<and>
    nm_poll_count m' = nm_poll_count m + (if pc = Polling then 1 else 0) \<and> (pc \<noteq> Polling \<longrightarrow> m' = m)"
proof (cases pc)
  case Polling
  obtain r n where "poll_iteration files now t m = (r, n)" by fastforce
  with Polling poll_iteration_ok [OF inv this] tick show ?thesis
    by (auto simp: poll_tick_def split: sum.splits)
qed (use inv tick in \<open>auto simp: poll_tick_def split: if_splits\<close>)

lemma butlast_update_all:
  assumes "\<forall>x \<in> set (butlast xs). \<not> P x" and "P y \<longrightarrow> P (xs ! i)" and "i < length xs"
  shows "\<forall>x \<in> set (butlast (xs[i := y])). \<not> P x"
proof (cases "i < length (butlast xs)")
  case True
  then have "butlast xs ! i = xs ! i" by (rule nth_butlast)
  moreover from True have "butlast xs ! i \<in> set (butlast xs)" by (rule nth_mem)
  ultimately have "xs ! i \<in> set (butlast xs)" by simp
  with assms True set_update_subset_insert [of "butlast xs" i y] show ?thesis
    by (auto simp: butlast_list_update)
next
  case False
  with assms show ?thesis by (auto simp: butlast_list_update)
qed

lemma nm_inv_stop_flag [simp]: "nm_inv t0 t (m\<lparr>nm_stop_set := b\<rparr>) = nm_inv t0 t m"
  by (simp add: nm_inv_def table_ok_def congestion_ok_def)

lemma nm_inv_open: "nm_inv t0 t m \<Longrightarrow> nm_inv t0 t (m\<lparr>nm_io_allowed := True\<rparr>)"
  by (simp add: nm_inv_def table_ok_def congestion_ok_def)

lemma one_thread_start: "one_thread s \<Longrightarrow> one_thread (monitor_start s)"
  by (cases "ms_threads s" rule: rev_cases)
    (auto simp: monitor_start_def one_thread_def butlast_append Let_def)

lemma ms_reach_inv:
  "ms_reach t0 t s \<Longrightarrow> nm_inv t0 t (ms_monitor s) \<and> one_thread s \<and>
    (ms_main s \<noteq> Outside \<longrightarrow> nm_stop_set (ms_monitor s))"
proof (induction rule: ms_reach.induct)
  case (init th iv speed nics)
  show ?case by (simp add: monitor_system_init_def one_thread_def nm_inv_init)
next
  case (later t s t')
  then show ?case using nm_inv_later by blast
next
  case (start t s)
  then show ?case using one_thread_start [of s] by (simp add: monitor_start_def nm_start_def Let_def)
next
  case (inject t s bps)
  then show ?case using nm_inv_sim [of t0 t "ms_monitor s" bps]
    by (auto simp: one_thread_def set_simulated_bps_def update_congestion_state_def Let_def
        split: option.splits)
next
  case (tick t s i files now)
  obtain pc m where e: "poll_tick files now t (ms_threads s ! i, ms_monitor s) = (pc, m)" by fastforce
  from tick have inv: "nm_inv t0 t (ms_monitor s)" by simp
  note ok = poll_tick_ok [OF inv e]
  have "\<forall>pc \<in> set (butlast ((ms_threads s)[i := pc])). \<not> is_alive pc"
    using tick ok by (intro butlast_update_all) (simp_all add: one_thread_def)
  with tick.IH ok show ?case unfolding thread_tick_def e one_thread_def by simp
qed (simp_all add: stop_request_def stop_open_def stop_join_def one_thread_def nm_inv_open)

text \<open>The steps of the poll thread that still runs, one after another.\<close>

definition last_tick :: "file_system \<times> real \<times> real \<Rightarrow> monitor_system \<Rightarrow> monitor_system" where
  "last_tick e s = (case e of (files, now, t) \<Rightarrow> thread_tick (length (ms_threads s) - 1) files now t s)"

definition poll_ticks :: "(file_system \<times> real \<times> real) list \<Rightarrow> poll_pc \<times> network_monitor \<Rightarrow> poll_pc \<times> network_monitor"
  where "poll_ticks = fold (\<lambda>(files, now, t). poll_tick files now t)"

lemma last_ticks_eq:
  assumes "ms_threads s \<noteq> []"
  shows "fold last_tick es s =
    (case poll_ticks es (last (ms_threads s), ms_monitor s) of
       (pc, m) \<Rightarrow> s\<lparr>ms_threads := butlast (ms_threads s) @ [pc], ms_monitor := m\<rparr>)"
  using assms
proof (induction es arbitrary: s)
  case Nil
  then show ?case by (simp add: poll_ticks_def)
next
  case (Cons e es)
  obtain files now t where e: "e = (files, now, t)" by (cases e)
  obtain pc m where 1: "poll_tick files now t (last (ms_threads s), ms_monitor s) = (pc, m)" by fastforce
  then have "last_tick e s = s\<lparr>ms_threads := butlast (ms_threads s) @ [pc], ms_monitor := m\<rparr>"
    using Cons.prems by (cases "ms_threads s" rule: rev_cases)
      (simp_all add: last_tick_def e thread_tick_def)
  then show ?case by (simp add: Cons.IH poll_ticks_def e 1)
qed

lemma poll_ticks_dead: "\<not> is_alive pc \<Longrightarrow> poll_ticks es (pc, m) = (pc, m)"
  by (induction es) (cases pc; auto simp: poll_ticks_def poll_tick_def)+

lemma poll_ticks_Cons: "poll_ticks ((files, now, t) # es) x = poll_ticks es (poll_tick files now t x)"
  by (simp add: poll_ticks_def)

text \<open>With the stop flag set, the thread ends within three of its steps.\<close>

lemma poll_ticks_stop:
  assumes "nm_stop_set m" and "pc \<noteq> Polling" and "2 \<le> length es"
  shows "\<not> is_alive (fst (poll_ticks es (pc, m))) \<and> snd (poll_ticks es (pc, m)) = m"
proof -
  obtain e1 e2 rest where es: "es = e1 # e2 # rest" using assms(3)
    by (metis One_nat_def Suc_1 Suc_le_length_iff)
  then show ?thesis using assms(1,2)
    by (cases e1; cases e2; cases pc) (simp_all add: poll_ticks_Cons poll_tick_def poll_ticks_dead)
qed

text \<open>
  Nothing changes the monitor while no thread is alive, except an injected sample, a further
  \<open>stop\<close> or a \<open>start\<close>; in particular a gate that is closed then stays closed.
\<close>

lemma no_thread_frozen:
  assumes "\<forall>pc \<in> set (ms_threads s). \<not> is_alive pc" and "i < length (ms_threads s)"
  shows "thread_tick i files now t s = s"
proof -
  have "\<not> is_alive (ms_threads s ! i)" using assms by simp
  then have "poll_tick files now t (ms_threads s ! i, m) = (ms_threads s ! i, m)" for m
    by (cases "ms_threads s ! i") (simp_all add: poll_tick_def)
  then show ?thesis by (simp add: thread_tick_def)
qed

text \<open>A start after the thread has ended runs a new thread; before that, it does nothing, and the stop stays requested.\<close>

lemma restart_effect:
  "(ms_threads s = [] \<or> \<not> is_alive (last (ms_threads s)) \<longrightarrow>
      last (ms_threads (monitor_start s)) = Loop_Test \<and> \<not> nm_stop_set (ms_monitor (monitor_start s))) \<and>
   (ms_threads s \<noteq> [] \<and> is_alive (last (ms_threads s)) \<longrightarrow> monitor_start s = s)"
  by (simp add: monitor_start_def nm_start_def Let_def)

text \<open>
  \<open>stop_run\<close>: \<open>stop\<close> opens the gate to release the waiters, but an iteration that has begun may close it after
  that, and then nobody opens it.
\<close>

definition stop_state :: "monitor_system" where
  "stop_state =
     (let s1 = monitor_start (monitor_system_init (network_monitor_init 1 1 80 []));
          s2 = s1\<lparr>ms_monitor := set_simulated_bps 1 50 (ms_monitor s1)\<rparr>;
          s3 = thread_tick 0 (\<lambda>_. File_Not_Found) 1 1 s2
      in stop_open (stop_request s3))"

definition stop_run :: "monitor_system" where
  "stop_run = fold last_tick (replicate 3 (\<lambda>_. File_Not_Found, 1, 1)) stop_state"

lemma stop_state_reach: "ms_reach 1 1 stop_state"
  unfolding stop_state_def Let_def
  by (intro ms_reach.opened ms_reach.request ms_reach.tick ms_reach.inject ms_reach.start ms_reach.init)
    (simp_all add: monitor_start_def monitor_system_init_def thread_tick_def stop_request_def poll_tick_def
      split: prod.split)

lemmas stop_state_simps = stop_state_def Let_def monitor_start_def monitor_system_init_def thread_tick_def
  stop_request_def stop_open_def poll_tick_def nm_start_def network_monitor_init_def set_simulated_bps_def
  update_congestion_state_def

lemma stop_state_eq:
  "ms_threads stop_state = [Polling]" "ms_main stop_state = Joining" "nm_stop_set (ms_monitor stop_state)"
  "nm_io_allowed (ms_monitor stop_state)" "nm_simulated (ms_monitor stop_state)"
  by (simp_all add: stop_state_simps)

lemma stop_leaves_gate_closed:
  "\<not> is_congested (ms_monitor stop_state) \<and> is_congested (ms_monitor stop_run) \<and> ms_threads stop_run = [Returned]"
  by (simp add: stop_state_simps stop_run_def is_congested_def last_tick_def numeral_3_eq_3
      poll_iteration_def poll_step_def nm_ema_update_def EMA_ALPHA_def)

section \<open>The poll threads of the hardware counters\<close>

text \<open>
  What the loader finds at a candidate path: no file, a library that does not load or lacks one of
  the functions (\<open>OSError\<close>, \<open>AttributeError\<close>), or a library.
\<close>

datatype 'lib load_outcome = Absent | Load_Fails py_error | Loads 'lib

fun load_first :: "'lib load_outcome list \<Rightarrow> 'lib option result" where
  "load_first [] = Inr None"
| "load_first (Absent # rest) = load_first rest"
| "load_first (Load_Fails e # rest) =
     (if e = OSError \<or> e = AttributeError then load_first rest else Inl e)"
| "load_first (Loads lib # rest) = Inr (Some lib)"

definition load_cassini_c_lib :: "string \<Rightarrow> string \<Rightarrow> (string \<Rightarrow> 'lib load_outcome) \<Rightarrow> 'lib option result" where
  "load_cassini_c_lib repo package outcome =
     load_first (map outcome [repo @ ''/src/c_api/libcassini_ctr.so'', package @ ''/libcassini_ctr.so''])"

text \<open>
  \<open>_read_cassini_counter\<close> with the errors of its files: the C library never raises; the fallback
  reads the roots in order and stops at the first value or the first error that is not caught.
\<close>

fun first_value :: "int option result list \<Rightarrow> int option result" where
  "first_value [] = Inr None"
| "first_value (Inl e # rest) = Inl e"
| "first_value (Inr (Some v) # rest) = Inr (Some v)"
| "first_value (Inr None # rest) = first_value rest"

type_synonym c_reader = "nat \<Rightarrow> string \<Rightarrow> int"

definition read_counter :: "c_reader option \<Rightarrow> file_system \<Rightarrow> nat \<Rightarrow> cassini_counter \<Rightarrow> int option result" where
  "read_counter c_lib files i name =
     (case c_lib of
        Some read \<Rightarrow> (let val = read i (counter_subpath name) in Inr (if 0 \<le> val then Some val else None))
      | None \<Rightarrow>
          first_value (map (\<lambda>root. read_sysfs_counter (files (root @ ''/'' @ counter_subpath name)))
            (cxi_roots (digits i))))"

definition hw_raises :: "c_reader option \<Rightarrow> file_system \<Rightarrow> nat \<Rightarrow> bool" where
  "hw_raises c_lib files i \<longleftrightarrow>
     list_ex (\<lambda>name. case read_counter c_lib files i name of Inl _ \<Rightarrow> True | Inr _ \<Rightarrow> False) CASSINI_COUNTERS"

definition hw_value :: "c_reader option \<Rightarrow> file_system \<Rightarrow> counter_read" where
  "hw_value c_lib files i name = (case read_counter c_lib files i name of Inl _ \<Rightarrow> None | Inr v \<Rightarrow> v)"

lemma hw_value_read:
  assumes "\<not> hw_raises c_lib files i"
  shows "hw_value c_lib files i name
    = read_cassini_counter c_lib (counter_value files) i (counter_subpath name)"
proof -
  have mem: "name \<in> set CASSINI_COUNTERS" by (cases name) (simp_all add: CASSINI_COUNTERS_def)
  have first: "first_value rs = Inr v \<Longrightarrow>
      first_some (map (\<lambda>r. case r of Inl _ \<Rightarrow> None | Inr v \<Rightarrow> v) rs) = v" for rs v
    by (induction rs rule: first_value.induct) auto
  show ?thesis
  proof (cases c_lib)
    case None
    obtain v where v: "read_counter c_lib files i name = Inr v"
      using assms mem by (cases "read_counter c_lib files i name") (auto simp: hw_raises_def list_ex_iff)
    then show ?thesis using first [of "map (\<lambda>root. read_sysfs_counter
        (files (root @ ''/'' @ counter_subpath name))) (cxi_roots (digits i))" v] None
      by (simp add: hw_value_def read_counter_def read_cassini_counter_def counter_value_def comp_def)
  qed (simp add: hw_value_def read_counter_def read_cassini_counter_def Let_def)
qed

text \<open>
  \<open>Starting i\<close>: the first values of the NICs below \<open>i\<close> have been read, without the lock. The
  iterations hold the lock.
\<close>

datatype hw_pc = Starting nat | Hw_Test | Hw_Sleeping | Hw_Polling | Hw_Returned | Hw_Raised py_error

fun hw_alive :: "hw_pc \<Rightarrow> bool" where
  "hw_alive Hw_Returned = False"
| "hw_alive (Hw_Raised e) = False"
| "hw_alive _ = True"

datatype lib_call = Open_Nic nat "string list" | Close_All

record cassini_system =
  cs_hw :: cassini_hw
  cs_stop :: bool
  cs_threads :: "hw_pc list"
  cs_lib_calls :: "lib_call list"

definition cassini_system_init :: "cassini_hw \<Rightarrow> cassini_system" where
  "cassini_system_init h = \<lparr>cs_hw = h, cs_stop = False, cs_threads = [], cs_lib_calls = []\<rparr>"

definition cassini_start :: "c_reader option \<Rightarrow> cassini_system \<Rightarrow> cassini_system" where
  "cassini_start c_lib s =
     (if \<not> hw_available (cs_hw s) then s
      else s\<lparr>cs_lib_calls := cs_lib_calls s @
               (if c_lib \<noteq> None
                then map (\<lambda>i. Open_Nic i (map counter_subpath CASSINI_COUNTERS)) [0..<hw_n_nics (cs_hw s)]
                else []),
             cs_stop := False, cs_threads := cs_threads s @ [Starting 0]\<rparr>)"

text \<open>\<open>stop\<close>: the flag; then, after the join of the last thread or two seconds, the library is closed.\<close>

definition cassini_stop_request :: "cassini_system \<Rightarrow> cassini_system" where
  "cassini_stop_request s = s\<lparr>cs_stop := True\<rparr>"

definition cassini_stop_close :: "c_reader option \<Rightarrow> cassini_system \<Rightarrow> cassini_system" where
  "cassini_stop_close c_lib s =
     (if c_lib \<noteq> None then s\<lparr>cs_lib_calls := cs_lib_calls s @ [Close_All]\<rparr> else s)"

definition cassini_iteration ::
    "c_reader option \<Rightarrow> file_system \<Rightarrow> cassini_hw \<Rightarrow> unit result \<times> cassini_hw" where
  "cassini_iteration c_lib files h =
     (if list_ex (hw_raises c_lib files) [0..<hw_n_nics h]
      then (Inl OSError, snd (fold (poll_cassini_nic (hw_value c_lib files))
              (takeWhile (\<lambda>i. \<not> hw_raises c_lib files i) [0..<hw_n_nics h]) (0, h)))
      else (Inr (), cassini_poll_step (hw_value c_lib files) h))"

definition hw_tick :: "c_reader option \<Rightarrow> file_system \<Rightarrow> bool \<Rightarrow> hw_pc \<times> cassini_hw \<Rightarrow> hw_pc \<times> cassini_hw" where
  "hw_tick c_lib files stop = (\<lambda>(pc, h).
     case pc of
       Starting i \<Rightarrow>
         (if hw_n_nics h \<le> i then (Hw_Test, h)
          else if hw_raises c_lib files i then (Hw_Raised OSError, h)
          else (Starting (Suc i),
                h\<lparr>hw_prev := (hw_prev h)[i := read_nic_counters (hw_value c_lib files) i h]\<rparr>))
     | Hw_Test \<Rightarrow> (if stop then Hw_Returned else Hw_Sleeping, h)
     | Hw_Sleeping \<Rightarrow> (Hw_Polling, h)
     | Hw_Polling \<Rightarrow>
         (case cassini_iteration c_lib files h of
            (Inl e, h') \<Rightarrow> (Hw_Raised e, h')
          | (Inr _, h') \<Rightarrow> (Hw_Test, h'))
     | _ \<Rightarrow> (pc, h))"

definition cassini_tick :: "c_reader option \<Rightarrow> nat \<Rightarrow> file_system \<Rightarrow> cassini_system \<Rightarrow> cassini_system" where
  "cassini_tick c_lib i files s =
     (case hw_tick c_lib files (cs_stop s) (cs_threads s ! i, cs_hw s) of
        (pc, h) \<Rightarrow> s\<lparr>cs_threads := (cs_threads s)[i := pc], cs_hw := h\<rparr>)"

inductive cs_reach :: "c_reader option \<Rightarrow> cassini_system \<Rightarrow> cassini_system \<Rightarrow> bool" for c_lib s0 where
  init: "cs_reach c_lib s0 s0"
| start: "cs_reach c_lib s0 s \<Longrightarrow> cs_reach c_lib s0 (cassini_start c_lib s)"
| request: "cs_reach c_lib s0 s \<Longrightarrow> cs_reach c_lib s0 (cassini_stop_request s)"
| close: "cs_reach c_lib s0 s \<Longrightarrow> cs_reach c_lib s0 (cassini_stop_close c_lib s)"
| tick: "cs_reach c_lib s0 s \<Longrightarrow> i < length (cs_threads s) \<Longrightarrow>
    cs_reach c_lib s0 (cassini_tick c_lib i files s)"

text \<open>The start and stop of the topology router are those of its counters, if it has any.\<close>

definition router_start :: "c_reader option \<Rightarrow> cassini_system option \<Rightarrow> cassini_system option" where
  "router_start c_lib hw = map_option (cassini_start c_lib) hw"

definition router_stop_request :: "cassini_system option \<Rightarrow> cassini_system option" where
  "router_stop_request hw = map_option cassini_stop_request hw"

definition router_stop_close :: "c_reader option \<Rightarrow> cassini_system option \<Rightarrow> cassini_system option" where
  "router_stop_close c_lib hw = map_option (cassini_stop_close c_lib) hw"

text \<open>
  With files that read, the first steps of a thread are the initialisation of
  \<open>Network_Monitor\<close>; an iteration that raises leaves the congestion flag as it was.
\<close>

lemma starting_ticks:
  assumes "\<forall>i < hw_n_nics h. \<not> hw_raises c_lib files i"
  shows "(hw_tick c_lib files stop ^^ Suc (hw_n_nics h)) (Starting 0, h)
    = (Hw_Test, cassini_loop_start (hw_value c_lib files) h)"
proof -
  let ?step = "\<lambda>i h. h\<lparr>hw_prev := (hw_prev h)[i := read_nic_counters (hw_value c_lib files) i h]\<rparr>"
  have n: "hw_n_nics (fold ?step is h) = hw_n_nics h" for "is"
    by (induction "is" arbitrary: h) simp_all
  have "k \<le> hw_n_nics h \<Longrightarrow> (hw_tick c_lib files stop ^^ k) (Starting 0, h) = (Starting k, fold ?step [0..<k] h)" for k
    by (induction k) (use assms n in \<open>auto simp: hw_tick_def\<close>)
  from this [OF order_refl] show ?thesis by (simp add: hw_tick_def n cassini_loop_start_def)
qed

lemma cassini_iteration_raises:
  assumes "cassini_iteration c_lib files h = (Inl e, h')"
  shows "hw_congested h' = hw_congested h \<and> hw_total_congestion_events h' = hw_total_congestion_events h"
proof -
  obtain tot h1 where f: "fold (poll_cassini_nic (hw_value c_lib files))
      (takeWhile (\<lambda>i. \<not> hw_raises c_lib files i) [0..<hw_n_nics h]) (0, h) = (tot, h1)" by fastforce
  with assms have "h' = h1" by (auto simp: cassini_iteration_def split: if_splits)
  with poll_cassini_frame [OF f] show ?thesis by simp
qed

text \<open>
  Counters that were never started stay as they were constructed: no congestion is ever seen.
\<close>

lemma unstarted_never_congested:
  assumes "cs_reach c_lib (cassini_system_init (cassini_init devices n iv th)) s" and "cs_threads s = []"
  shows "\<not> is_fabric_congested (cs_hw s)"
proof -
  have "cs_threads s = [] \<longrightarrow> \<not> is_fabric_congested (cs_hw s)" using assms(1)
    by (induction rule: cs_reach.induct)
      (auto simp: cassini_system_init_def cassini_init_def is_fabric_congested_def cassini_start_def
        cassini_stop_request_def cassini_stop_close_def cassini_tick_def Let_def split: prod.splits)
  with assms(2) show ?thesis by simp
qed

text \<open>Unlike the NIC monitor, a second start runs a second thread over the same counters.\<close>

lemma second_start_runs_twice:
  assumes "hw_available (cs_hw s)"
  shows "cs_threads (cassini_start c_lib (cassini_start c_lib s)) = cs_threads s @ [Starting 0, Starting 0]"
  using assms by (simp add: cassini_start_def)

text \<open>The steps a thread has left once the stop flag is set; a thread that sleeps still polls once.\<close>

fun hw_left :: "nat \<Rightarrow> hw_pc \<Rightarrow> nat" where
  "hw_left n (Starting i) = 2 + (n - i)"
| "hw_left n Hw_Test = 1"
| "hw_left n Hw_Polling = 2"
| "hw_left n Hw_Sleeping = 3"
| "hw_left n _ = 0"

lemma cassini_iteration_n: "hw_n_nics (snd (cassini_iteration c_lib files h)) = hw_n_nics h"
proof -
  have "hw_n_nics (snd (fold (poll_cassini_nic read) is (tot, h))) = hw_n_nics h" for read "is" tot
    using poll_cassini_frame [of read "is" tot h] by (metis prod.collapse)
  then show ?thesis
    by (auto simp: cassini_iteration_def cassini_poll_step_def Let_def split: prod.split)
      (metis snd_conv)+
qed

lemma hw_left_tick:
  assumes "hw_tick c_lib files True (pc, h) = (pc', h')"
  shows "hw_n_nics h' = hw_n_nics h \<and> hw_left (hw_n_nics h) pc' \<le> hw_left (hw_n_nics h) pc - 1"
proof (cases pc)
  case Hw_Polling
  obtain r n where "cassini_iteration c_lib files h = (r, n)" by fastforce
  with Hw_Polling assms cassini_iteration_n [of c_lib files h] show ?thesis
    by (auto simp: hw_tick_def split: sum.splits)
qed (use assms in \<open>auto simp: hw_tick_def split: if_splits\<close>)

lemma hw_ticks_end:
  assumes "hw_left (hw_n_nics h) pc \<le> length fss"
  shows "\<not> hw_alive (fst (fold (\<lambda>(c_lib, files). hw_tick c_lib files True) fss (pc, h)))"
  using assms
proof (induction fss arbitrary: pc h)
  case Nil
  then show ?case by (cases pc) simp_all
next
  case (Cons f fss)
  obtain c_lib files where f: "f = (c_lib, files)" by (cases f)
  obtain pc' h' where 1: "hw_tick c_lib files True (pc, h) = (pc', h')" by fastforce
  note left = hw_left_tick [OF 1]
  then have "hw_left (hw_n_nics h') pc' \<le> hw_left (hw_n_nics h) pc - 1" by simp
  with Cons.prems have "hw_left (hw_n_nics h') pc' \<le> length fss" by simp
  with Cons.IH f 1 show ?case by simp
qed

section \<open>Properties\<close>

text \<open>
  C9: Stopping the NIC monitor, for every interleaving of starts, stops, injected samples and
  polls that led to the join: at most one poll thread is alive; it ends within three of its own
  steps, whatever the counter files hold and however they fail, after at most one more poll; if it
  was not polling when the flag and the gate were set, nothing changes any more; and if it was, that
  last poll decides the gate again, by the threshold, or leaves it open when it is killed by a file
  that cannot be read.
\<close>

theorem monitor_stop_ends:
  assumes reach: "ms_reach t0 t s" and "ms_main s = Joining" and ne: "ms_threads s \<noteq> []"
    and es: "es = (files, now, t) # es'" and len: "2 \<le> length es'"
  shows "(\<forall>pc \<in> set (ms_threads (fold last_tick es s)). \<not> is_alive pc) \<and>
    length (filter is_alive (ms_threads s)) \<le> 1 \<and>
    nm_poll_count (ms_monitor (fold last_tick es s))
      = nm_poll_count (ms_monitor s) + (if last (ms_threads s) = Polling then 1 else 0) \<and>
    (last (ms_threads s) \<noteq> Polling \<longrightarrow> ms_monitor (fold last_tick es s) = ms_monitor s) \<and>
    (last (ms_threads s) = Polling \<longrightarrow>
      (if nm_simulated (ms_monitor s) \<or> \<not> list_ex (nic_raises files) (nm_nics (ms_monitor s))
       then is_congested (ms_monitor (fold last_tick es s))
         \<longleftrightarrow> threshold_bps (ms_monitor (fold last_tick es s))
           \<le> nm_total_bps_ema (ms_monitor (fold last_tick es s))
       else is_congested (ms_monitor (fold last_tick es s)) = is_congested (ms_monitor s) \<and>
         last (ms_threads (fold last_tick es s)) = Raised OSError))"
proof -
  let ?m = "ms_monitor s" and ?pc = "last (ms_threads s)"
  have inv: "nm_inv t0 t ?m" and one: "one_thread s" and stop: "nm_stop_set ?m"
    using ms_reach_inv [OF reach] assms(2) by simp_all
  obtain pc1 m1 where 1: "poll_tick files now t (?pc, ?m) = (pc1, m1)" by fastforce
  note ok = poll_tick_ok [OF inv 1]
  have pc1: "pc1 \<noteq> Polling"
    using 1 stop by (cases ?pc) (auto simp: poll_tick_def split: prod.splits sum.splits)
  have rest: "\<not> is_alive (fst (poll_ticks es' (pc1, m1))) \<and> snd (poll_ticks es' (pc1, m1)) = m1"
    using poll_ticks_stop [OF _ pc1 len] ok stop by simp
  have run: "fold last_tick es s
      = s\<lparr>ms_threads := butlast (ms_threads s) @ [fst (poll_ticks es' (pc1, m1))], ms_monitor := m1\<rparr>"
    using rest unfolding last_ticks_eq [OF ne] es poll_ticks_Cons 1
    by (cases "poll_ticks es' (pc1, m1)") simp
  have "length (filter is_alive (ms_threads s)) \<le> 1"
    using one ne by (cases "ms_threads s" rule: rev_cases) (auto simp: one_thread_def filter_empty_conv)
  moreover have "?pc = Polling \<longrightarrow> (if nm_simulated ?m \<or> \<not> list_ex (nic_raises files) (nm_nics ?m)
       then is_congested m1 \<longleftrightarrow> threshold_bps m1 \<le> nm_total_bps_ema m1
       else is_congested m1 = is_congested ?m \<and> fst (poll_ticks es' (pc1, m1)) = Raised OSError)"
  proof
    assume "?pc = Polling"
    obtain r m' where it: "poll_iteration files now t ?m = (r, m')" by fastforce
    with 1 \<open>?pc = Polling\<close> have m1: "m1 = m'" "r = Inl OSError \<longrightarrow> pc1 = Raised OSError"
      by (auto simp: poll_tick_def split: sum.splits)
    with poll_iteration_ok [OF inv it] show "if nm_simulated ?m \<or> \<not> list_ex (nic_raises files) (nm_nics ?m)
       then is_congested m1 \<longleftrightarrow> threshold_bps m1 \<le> nm_total_bps_ema m1
       else is_congested m1 = is_congested ?m \<and> fst (poll_ticks es' (pc1, m1)) = Raised OSError"
      by (auto simp: poll_ticks_dead is_congested_def split: if_splits)
  qed
  ultimately show ?thesis using ok rest one unfolding run one_thread_def by auto
qed

theorem monitor_stop_ends_witness:
  "ms_reach 1 1 stop_state \<and> ms_main stop_state = Joining \<and>
   list_all (\<lambda>pc. \<not> is_alive pc) (ms_threads stop_run) \<and>
   nm_poll_count (ms_monitor stop_run) = nm_poll_count (ms_monitor stop_state) + 1"
  using monitor_stop_ends [OF stop_state_reach, of "replicate 3 (\<lambda>_. File_Not_Found, 1, 1)"
      "\<lambda>_. File_Not_Found" 1 "replicate 2 (\<lambda>_. File_Not_Found, 1, 1)"] stop_state_reach
  by (simp add: list_all_iff stop_state_eq stop_run_def numeral_3_eq_3 numeral_2_eq_2)

end
