(* ===== verification/Nano_Cuda.thy ===== *)
theory Nano_Cuda
  imports Nano_Overlap
begin

text \<open>
  The end of a step of \<^verbatim>\<open>tempo/nano_overlap.py\<close> on a GPU: the wait of the compute
  stream for the transfers of the step (\<open>_sync_cuda_io\<close>), and the metrics, which are computed at once
  because that wait does not block the host.
\<close>

section \<open>The wait of the compute stream\<close>

text \<open>The layer whose event the compute stream waits for: the largest with an event.\<close>

definition sync_cuda_io :: "bool \<Rightarrow> nano \<Rightarrow> nat option" where
  "sync_cuda_io has_compute_stream s =
     (if no_io_events s = [] then None
      else let last_layer = Max (set (no_io_events s))
           in if has_compute_stream then Some last_layer else None)"

text \<open>
  The I/O stream is a queue: an event is done when every transfer submitted before it is. \<open>subs\<close> are
  the layers in the order of their transfers; the event of a layer is that of its last one. What is
  complete once the wait for the largest layer is over:
\<close>

definition waited_for :: "nat list \<Rightarrow> nat list" where
  "waited_for subs = rev (dropWhile (\<lambda>l. l \<noteq> Max (set subs)) (rev subs))"

lemma waited_for_prefix: "\<exists>rest. subs = waited_for subs @ rest \<and> (subs \<noteq> [] \<longrightarrow> Max (set subs) \<notin> set rest)"
proof -
  let ?P = "\<lambda>l. l \<noteq> Max (set subs)"
  have "rev subs = takeWhile ?P (rev subs) @ dropWhile ?P (rev subs)" by simp
  then have "subs = rev (dropWhile ?P (rev subs)) @ rev (takeWhile ?P (rev subs))"
    by (metis rev_append rev_rev_ident)
  then show ?thesis unfolding waited_for_def
    by (intro exI [of _ "rev (takeWhile ?P (rev subs))"]) (auto dest: set_takeWhileD)
qed

text \<open>Everything is waited for exactly when the largest layer was submitted last.\<close>

lemma waited_for_all: "subs \<noteq> [] \<Longrightarrow> waited_for subs = subs \<longleftrightarrow> last subs = Max (set subs)"
proof (cases subs rule: rev_cases)
  case (snoc ys y)
  show ?thesis
  proof (cases "y = Max (set subs)")
    case True
    then show ?thesis using snoc by (simp add: waited_for_def)
  next
    case False
    then have "length (waited_for subs) \<le> length ys"
      using snoc length_dropWhile_le [of "\<lambda>l. l \<noteq> Max (set subs)" "rev ys"] by (simp add: waited_for_def)
    then have "waited_for subs \<noteq> subs" using snoc by auto
    then show ?thesis using False snoc by simp
  qed
qed simp

lemma waited_for_forward: "sorted subs \<Longrightarrow> waited_for subs = subs"
proof (cases "subs = []")
  case False
  assume s: "sorted subs"
  have "last subs = Max (set subs)"
  proof (rule Max_eqI [symmetric])
    fix y assume "y \<in> set subs"
    then obtain i where "i < length subs" "subs ! i = y" by (auto simp: in_set_conv_nth)
    then show "y \<le> last subs" using s False by (auto simp: last_conv_nth intro!: sorted_nth_mono)
  qed (use False in simp_all)
  then show ?thesis using waited_for_all [OF False] by simp
qed (simp add: waited_for_def)

text \<open>In a backward pass, whose layers come in descending order, only the first transfer is waited for.\<close>

lemma waited_for_backward: "sorted_wrt (>) (l # subs) \<Longrightarrow> waited_for (l # subs) = [l]"
proof -
  assume s: "sorted_wrt (>) (l # subs)"
  then have m: "Max (set (l # subs)) = l" by (intro Max_eqI) (auto intro: less_imp_le)
  have "l \<notin> set subs" using s by auto
  then have "dropWhile (\<lambda>x. x \<noteq> l) (rev subs @ [l]) = [l]"
    by (simp add: dropWhile_append)
  then show ?thesis unfolding waited_for_def m by simp
qed

section \<open>The metrics of a step\<close>

text \<open>The calls of the model code between the begin and the end of a step.\<close>

datatype layer_call = Layer_Start int real | Layer_End int "kv_tensor option" "bytes option" real real

fun run_layers :: "layer_call list \<Rightarrow> nano \<Rightarrow> nano result" where
  "run_layers [] s = Inr s"
| "run_layers (Layer_Start l now # calls) s =
     (case nano_compute_start l now s of Inl e \<Rightarrow> Inl e | Inr s' \<Rightarrow> run_layers calls s')"
| "run_layers (Layer_End l kv d t_end t_io # calls) s =
     (case nano_compute_end l kv d t_end t_io s of Inl e \<Rightarrow> Inl e | Inr s' \<Rightarrow> run_layers calls s')"

text \<open>No transfer of the step has been recorded.\<close>

definition unrecorded :: "layer_timing \<Rightarrow> bool" where
  "unrecorded lt \<longleftrightarrow> lt_io_end lt = 0 \<and> lt_bubble_ms lt = 0 \<and> lt_overlap_ms lt = 0"

lemma unrecorded_update:
  "\<forall>lt \<in> set lts. unrecorded lt \<Longrightarrow> i < length lts \<longrightarrow> unrecorded x \<Longrightarrow> \<forall>lt \<in> set (lts[i := x]). unrecorded lt"
  using set_update_subset_insert [of lts i x] by (cases "i < length lts") (auto simp: not_less list_update_beyond)

text \<open>A call changes the timing of one layer only, and there no field that a transfer records.\<close>

lemma nano_compute_end_timing:
  assumes "nano_compute_end l kv d t_end t_io s = Inr s'"
  shows "no_layer_timings s' = no_layer_timings s \<or>
    (\<exists>lt. no_layer_timings s' = (no_layer_timings s)[nat l := lt] \<and> nat l < length (no_layer_timings s) \<and>
       (unrecorded (no_layer_timings s ! nat l) \<longrightarrow> unrecorded lt))"
  using assms
  by (auto simp: nano_compute_end_def Let_def enqueue_cuda_io_def unrecorded_def
      split: if_splits option.splits list.splits bool.splits kv_tensor.splits)

lemma nano_compute_start_timing:
  assumes "nano_compute_start l now s = Inr s'"
  shows "no_layer_timings s' = no_layer_timings s \<or>
    (\<exists>lt. no_layer_timings s' = (no_layer_timings s)[nat l := lt] \<and> nat l < length (no_layer_timings s) \<and>
       (unrecorded (no_layer_timings s ! nat l) \<longrightarrow> unrecorded lt))"
  using assms by (auto simp: nano_compute_start_def unrecorded_def split: if_splits)

lemma timing_change_unrecorded:
  assumes "lts' = lts \<or> (\<exists>lt. lts' = lts[i := lt] \<and> i < length lts \<and> (unrecorded (lts ! i) \<longrightarrow> unrecorded lt))"
    and "\<forall>lt \<in> set lts. unrecorded lt"
  shows "\<forall>lt \<in> set lts'. unrecorded lt"
  using assms(1)
proof
  assume "\<exists>lt. lts' = lts[i := lt] \<and> i < length lts \<and> (unrecorded (lts ! i) \<longrightarrow> unrecorded lt)"
  then obtain lt where lt: "lts' = lts[i := lt]" "i < length lts" "unrecorded (lts ! i) \<longrightarrow> unrecorded lt"
    by blast
  then have "unrecorded lt" using assms(2) by simp
  then show ?thesis unfolding lt(1) by (intro unrecorded_update assms(2) impI)
qed (use assms(2) in simp)

lemma run_layers_unrecorded:
  "run_layers calls s = Inr s' \<Longrightarrow> \<forall>lt \<in> set (no_layer_timings s). unrecorded lt \<Longrightarrow>
     \<forall>lt \<in> set (no_layer_timings s'). unrecorded lt"
proof (induction calls arbitrary: s)
  case Nil
  then show ?case by simp
next
  case (Cons call calls)
  show ?case
  proof (cases call)
    case (Layer_Start l now)
    with Cons.prems obtain s1 where 1: "nano_compute_start l now s = Inr s1" "run_layers calls s1 = Inr s'"
      by (auto split: sum.splits)
    from timing_change_unrecorded [OF nano_compute_start_timing [OF 1(1)] Cons.prems(2)] show ?thesis
      by (rule Cons.IH [OF 1(2)])
  next
    case (Layer_End l kv d t_end t_io)
    with Cons.prems obtain s1 where 1: "nano_compute_end l kv d t_end t_io s = Inr s1" "run_layers calls s1 = Inr s'"
      by (auto split: sum.splits)
    from timing_change_unrecorded [OF nano_compute_end_timing [OF 1(1)] Cons.prems(2)] show ?thesis
      by (rule Cons.IH [OF 1(2)])
  qed
qed

lemma begin_unrecorded: "\<forall>lt \<in> set (no_layer_timings (nano_begin_step k s)). unrecorded lt"
  by (auto simp: nano_begin_step_def new_timing_def unrecorded_def)

lemma sum_list_zero: "\<forall>x \<in> set xs. f x = (0 :: real) \<Longrightarrow> sum_list (map f xs) = 0"
  by (induction xs) auto

lemma unrecorded_metrics:
  assumes "\<forall>lt \<in> set (no_layer_timings s). unrecorded lt"
    and m_def: "m = compute_step_metrics s"
  shows "sm_pipeline_eff m = 0 \<and> sm_total_bubble_ms m = 0 \<and> sm_total_overlap_ms m = 0 \<and> sm_total_io_ms m = 0 \<and>
    sm_io_throughput_gbs m = of_int (sm_io_bytes_total m) * 10 ^ 9 / 1024 ^ 3"
proof -
  let ?lts = "filter (\<lambda>lt. 0 < lt_compute_end lt) (no_layer_timings s)"
  have lts: "\<forall>lt \<in> set ?lts. unrecorded lt" using assms(1) by simp
  then have fin: "filter (\<lambda>lt. 0 < lt_io_end lt) ?lts = []" by (auto simp: unrecorded_def filter_empty_conv)
  have z: "sum_list (map lt_bubble_ms ?lts) = 0" "sum_list (map lt_overlap_ms ?lts) = 0"
    using lts by (auto intro!: sum_list_zero simp: unrecorded_def simp del: filter_filter)
  show ?thesis
  proof (cases "?lts = []")
    case True
    then show ?thesis by (simp add: m_def compute_step_metrics_def)
  next
    case False
    then have "m = compute_step_metrics s" and "?lts \<noteq> []" by (simp_all add: m_def)
    then show ?thesis
      unfolding m_def compute_step_metrics_def Let_def if_not_P [OF False] fin z by simp
  qed
qed

section \<open>The transfers of a step\<close>

fun submits :: "nat \<Rightarrow> layer_call \<Rightarrow> nat list" where
  "submits n (Layer_End l (Some (Gpu_Tensor numel element_size)) d t_end t_io) =
     (if 0 \<le> l \<and> l < int n then [nat l] else [])"
| "submits n call = []"

definition submitted :: "nat \<Rightarrow> layer_call list \<Rightarrow> nat list" where
  "submitted n calls = concat (map (submits n) calls)"

lemma compute_start_events:
  "nano_compute_start l now s = Inr s' \<Longrightarrow> no_io_events s' = no_io_events s \<and>
     no_n_layers s' = no_n_layers s \<and> no_use_cuda s' = no_use_cuda s"
  by (auto simp: nano_compute_start_def split: if_splits)

lemma compute_end_events:
  "nano_compute_end l kv d t_end t_io s = Inr s' \<Longrightarrow> no_use_cuda s \<Longrightarrow>
     set (no_io_events s') = set (submits (no_n_layers s) (Layer_End l kv d t_end t_io)) \<union> set (no_io_events s) \<and>
     no_n_layers s' = no_n_layers s \<and> no_use_cuda s' = no_use_cuda s"
  by (cases "(no_n_layers s, Layer_End l kv d t_end t_io)" rule: submits.cases)
    (auto simp: nano_compute_end_def Let_def enqueue_cuda_io_def
      split: if_splits option.splits list.splits kv_tensor.splits)

lemma run_layers_events:
  "run_layers calls s = Inr s' \<Longrightarrow> no_use_cuda s \<Longrightarrow>
     set (no_io_events s') = set (submitted (no_n_layers s) calls) \<union> set (no_io_events s) \<and> no_use_cuda s'"
proof (induction calls arbitrary: s)
  case Nil
  then show ?case by (simp add: submitted_def)
next
  case (Cons call calls)
  show ?case
  proof (cases call)
    case (Layer_Start l now)
    with Cons.prems obtain s1 where 1: "nano_compute_start l now s = Inr s1" "run_layers calls s1 = Inr s'"
      by (auto split: sum.splits)
    with Cons.IH [OF 1(2)] Cons.prems(2) compute_start_events [OF 1(1)] Layer_Start show ?thesis
      by (simp add: submitted_def)
  next
    case (Layer_End l kv d t_end t_io)
    with Cons.prems obtain s1 where 1: "nano_compute_end l kv d t_end t_io s = Inr s1" "run_layers calls s1 = Inr s'"
      by (auto split: sum.splits)
    note e = compute_end_events [OF 1(1) Cons.prems(2)]
    with Cons.IH [OF 1(2)] Cons.prems(2) Layer_End show ?thesis
      by (auto simp: submitted_def)
  qed
qed

section \<open>Properties\<close>

text \<open>
  C31: A step on a GPU, up to the first transfer that the host sees complete: \<open>end_step\<close> returns at
  once, and whatever the layers computed and submitted, it reports an efficiency of zero, no
  bubble and no transfer time, and a throughput of the submitted bytes divided by a nanosecond.
  The compute stream waits for the event of the largest layer: that covers every transfer of the
  step exactly if this layer was submitted last, so all of a forward pass, but only the first of a
  backward one.
\<close>

theorem cuda_metrics_before_transfer:
  assumes "run_layers calls (nano_begin_step k s0) = Inr s" and "no_use_cuda s0"
    and m_def: "m = fst (nano_end_step s)" and subs_def: "subs = submitted (no_n_layers s0) calls"
  shows "end_step_returns False s \<and>
    sm_pipeline_eff m = 0 \<and> sm_total_bubble_ms m = 0 \<and> sm_total_io_ms m = 0 \<and>
    sm_io_throughput_gbs m = of_int (sm_io_bytes_total m) * 10 ^ 9 / 1024 ^ 3 \<and>
    sync_cuda_io True s = (if subs = [] then None else Some (Max (set subs))) \<and>
    (subs \<noteq> [] \<longrightarrow> (waited_for subs = subs \<longleftrightarrow> last subs = Max (set subs))) \<and>
    (sorted subs \<longrightarrow> waited_for subs = subs) \<and>
    (subs \<noteq> [] \<longrightarrow> sorted_wrt (>) subs \<longrightarrow> waited_for subs = [hd subs])"
proof -
  have "\<forall>lt \<in> set (no_layer_timings s). unrecorded lt"
    by (rule run_layers_unrecorded [OF assms(1) begin_unrecorded])
  note metrics = unrecorded_metrics [OF this refl]
  have fresh: "no_io_events (nano_begin_step k s0) = []" "no_n_layers (nano_begin_step k s0) = no_n_layers s0"
    "no_use_cuda (nano_begin_step k s0)"
    using assms(2) by (simp_all add: nano_begin_step_def)
  then have ev: "set (no_io_events s) = set subs" and cuda: "no_use_cuda s"
    using run_layers_events [OF assms(1) fresh(3)] by (simp_all add: subs_def)
  have "sync_cuda_io True s = (if subs = [] then None else Some (Max (set subs)))"
    using ev by (auto simp: sync_cuda_io_def Let_def)
  moreover have "waited_for subs = [hd subs]" if "subs \<noteq> []" "sorted_wrt (>) subs"
    using waited_for_backward [of "hd subs" "tl subs"] that by simp
  moreover have "subs \<noteq> [] \<longrightarrow> (waited_for subs = subs \<longleftrightarrow> last subs = Max (set subs))"
    using waited_for_all by blast
  ultimately show ?thesis
    using metrics cuda waited_for_forward [of subs]
    by (simp add: m_def nano_end_step_def end_step_returns_def Let_def)
qed

definition sample_backward :: "layer_call list" where
  "sample_backward =
     [Layer_Start 1 1, Layer_End 1 (Some (Gpu_Tensor 10 2)) None 2 2,
      Layer_Start 0 3, Layer_End 0 (Some (Gpu_Tensor 10 2)) None 4 4]"

theorem cuda_metrics_before_transfer_witness:
  "\<exists>s. run_layers sample_backward (nano_begin_step 0 (nano_init 2 64 True False False False)) = Inr s \<and>
     sync_cuda_io True s = Some 1 \<and> sm_pipeline_eff (fst (nano_end_step s)) = 0 \<and> waited_for [1, 0] = [1]"
proof -
  let ?s0 = "nano_init 2 64 True False False False"
  have u: "[0..<2] = [0, 1 :: nat]" by (simp add: upt_rec)
  obtain s where s: "run_layers sample_backward (nano_begin_step 0 ?s0) = Inr s"
    by (simp add: sample_backward_def nano_compute_start_def nano_compute_end_def enqueue_cuda_io_def
        nano_begin_step_def nano_init_def Let_def u)
  have subs: "submitted (no_n_layers ?s0) sample_backward = [1, 0]"
    by (simp add: submitted_def sample_backward_def nano_init_def)
  have "no_use_cuda ?s0" by (simp add: nano_init_def)
  from cuda_metrics_before_transfer [OF s this refl refl] s show ?thesis unfolding subs by (intro exI [of _ s]) simp
qed

end
