(* ===== verification/Scheduler_Report.thy ===== *)
theory Scheduler_Report
  imports Scheduler_V4
begin

text \<open>
  The \<open>print_stats\<close> methods of \<^verbatim>\<open>tempo/scheduler.py\<close>, versions 1 to 6, and of the NVLink router:
  what each call of \<open>print\<close> gets, in order, and the exception that ends the report, if one does.
  Every version first calls that of its parent class. \<open>Scheduler_V4\<close> uses only the outcome
  (\<open>print_stats_v4\<close>); here is the text, in UTF-8.
\<close>

section \<open>Fixed-point figures\<close>

text \<open>\<open>f"{x:.nf}"\<close>: the nearest decimal with \<open>n\<close> places, ties to even, and the sign of \<open>x\<close>.\<close>

definition decimal :: "nat \<Rightarrow> nat \<Rightarrow> string" where
  "decimal n k = digits (k div 10 ^ n) @ (if n = 0 then [] else ''.'' @ pad_zero n (digits (k mod 10 ^ n)))"

definition format_f :: "nat \<Rightarrow> real \<Rightarrow> string" where
  "format_f n x = (if x < 0 then ''-'' else []) @ decimal n (nat \<bar>half_even (x * 10 ^ n)\<bar>)"

text \<open>The number such a text stands for.\<close>

definition unsigned :: "string \<Rightarrow> real" where
  "unsigned s =
     (let whole = takeWhile (\<lambda>c. c \<noteq> CHR ''.'') s; places = drop (Suc (length whole)) s
      in of_nat (undigits whole) + of_nat (undigits places) / 10 ^ length places)"

definition figure :: "string \<Rightarrow> real" where
  "figure s = (if startswith s ''-'' then - unsigned (tl s) else unsigned s)"

lemma digits_not_empty [simp]: "digits n \<noteq> []"
  by (subst digits.simps) simp

lemma digits_length: "m < 10 ^ n \<Longrightarrow> 0 < n \<Longrightarrow> length (digits m) \<le> n"
proof (induction m arbitrary: n rule: digits.induct)
  case (1 m)
  show ?case
  proof (cases "m < 10")
    case True
    with "1.prems" show ?thesis by (subst digits.simps) simp
  next
    case False
    obtain k where n: "n = Suc k" using "1.prems" by (cases n) simp_all
    then have "m div 10 < 10 ^ k" using "1.prems" by (simp add: less_mult_imp_div_less mult.commute)
    moreover from this False have "0 < k" by (cases k) simp_all
    ultimately have "length (digits (m div 10)) \<le> k" using "1.IH" [OF False] by simp
    with False n show ?thesis by (subst digits.simps) simp
  qed
qed

lemma pad_zero_length: "length s \<le> w \<Longrightarrow> length (pad_zero w s) = w"
  by (simp add: pad_zero_def)

lemma digits_plain: "c \<in> set (digits n) \<Longrightarrow> c \<noteq> CHR ''.'' \<and> c \<noteq> CHR ''-''"
  using digits_chars [of n] by auto

lemma takeWhile_plain:
  "takeWhile (\<lambda>c. c \<noteq> CHR ''.'') (digits n) = digits n"
  "takeWhile (\<lambda>c. c \<noteq> CHR ''.'') (digits n @ CHR ''.'' # s) = digits n"
  using digits_plain by (auto simp: takeWhile_eq_all_conv takeWhile_append)

lemma undigits_Nil: "undigits [] = 0"
  by (simp add: undigits_def)

lemma half_even_sign: "(x < 0 \<longrightarrow> half_even x \<le> 0) \<and> (0 \<le> x \<longrightarrow> 0 \<le> half_even x)"
proof -
  have "x < 0 \<longrightarrow> \<lfloor>x\<rfloor> + 1 \<le> 0" and "0 \<le> x \<longrightarrow> 0 \<le> \<lfloor>x\<rfloor>" by linarith+
  then show ?thesis by (auto simp: half_even_def)
qed

lemma unsigned_decimal: "unsigned (decimal n k) = of_nat k / 10 ^ n"
proof (cases "n = 0")
  case True
  then show ?thesis by (simp add: unsigned_def decimal_def takeWhile_plain undigits_Nil)
next
  case False
  have len: "length (pad_zero n (digits (k mod 10 ^ n))) = n"
    using False by (intro pad_zero_length digits_length) simp_all
  have "unsigned (decimal n k) = of_nat (k div 10 ^ n) + of_nat (k mod 10 ^ n) / 10 ^ n"
    unfolding unsigned_def decimal_def using False by (simp add: takeWhile_plain len)
  also have "\<dots> = of_nat (k div 10 ^ n * 10 ^ n + k mod 10 ^ n) / (10 ^ n :: real)"
    unfolding of_nat_add of_nat_mult of_nat_power add_divide_distrib by simp
  finally show ?thesis unfolding div_mult_mod_eq .
qed

lemma decimal_unsigned: "\<not> startswith (decimal n k) ''-''"
  using digits_plain [of "hd (digits (k div 10 ^ n))" "k div 10 ^ n"]
  by (cases "digits (k div 10 ^ n)") (auto simp: decimal_def)

text \<open>A printed figure reads back as Python's \<open>round\<close> to the printed places.\<close>

lemma figure_format: "figure (format_f n x) = py_round n x"
proof -
  have s: "x * 10 ^ n < 0 \<longleftrightarrow> x < 0" by (simp add: mult_less_0_iff)
  show ?thesis
  proof (cases "x < 0")
    case True
    then have "half_even (x * 10 ^ n) \<le> 0" using half_even_sign [of "x * 10 ^ n"] s by simp
    with True show ?thesis by (simp add: figure_def format_f_def unsigned_decimal py_round_def)
  next
    case False
    then have "0 \<le> half_even (x * 10 ^ n)" using half_even_sign [of "x * 10 ^ n"] s by (simp add: not_less)
    with False show ?thesis by (simp add: figure_def format_f_def unsigned_decimal py_round_def decimal_unsigned)
  qed
qed

section \<open>The reports\<close>

text \<open>The texts printed, in order, and the exception that ended it. \<open>then_report\<close> goes on if none did.\<close>

type_synonym report = "string list \<times> py_error option"

definition then_report :: "report \<Rightarrow> report \<Rightarrow> report" where
  "then_report r r' = (case r of (ls, None) \<Rightarrow> (ls @ fst r', snd r') | (ls, Some e) \<Rightarrow> (ls, Some e))"

definition ruler :: string where "ruler = replicate 60 CHR ''=''"
definition newline :: string where "newline = [CHR 0x0A]"

definition GB :: real where "GB = 1024 ^ 3"

definition report_v1 :: "('b, 'm) tempo_scheme \<Rightarrow> report" where
  "report_v1 s =
     (if te_rank s \<noteq> 0 then ([], None)
      else let st = get_stats_v1 s in
        ([newline @ ruler, ''  TEMPO Statistics (mode='' @ ts_mode st @ '')'', ruler,
          ''  Avg step time      : '' @ format_f 2 (ts_avg_step_ms st) @ '' ms'',
          ''  NCCL total time    : '' @ format_f 2 (ps_nccl_total_s (ts_phase st)) @ '' s  ('' @
            format_f 1 (ps_nccl_fraction (ts_phase st) * 100) @ ''% of runtime)'',
          ''  Ckpt bytes (local) : '' @ format_f 2 (cs_bytes_local_GB (ts_checkpoint st)) @ '' GB'',
          ''  Ckpt bytes (Lustre): '' @ format_f 2 (cs_bytes_lustre_GB (ts_checkpoint st)) @ '' GB'',
          ''  Flush count        : '' @ str_int (cs_flush_count (ts_checkpoint st)),
          ''  Throttle waits     : '' @ str_int (cs_throttle_waits (ts_checkpoint st)),
          ruler @ newline], None))"

definition network_line :: "nm_stats \<Rightarrow> string" where
  "network_line n =
     ''  NIC utilisation    : '' @ format_f 1 (nst_util_pct n) @ ''%  (peak '' @
       format_f 1 (nst_peak_bps_gbps n) @ '' Gbps, '' @ str_int (nst_congestion_events n) @
       '' congestion events)''"

definition service_gain_line :: "sg_stats \<Rightarrow> string" where
  "service_gain_line sg =
     ''  ServiceGain        : '' @ str_int (ss_jobs_submitted sg) @ '' jobs, '' @
       str_int (ss_jobs_deferred sg) @ '' deferred, '' @ str_int (ss_recompute_recommended sg) @ '' recompute''"

definition interleaving_line :: "ie_stats \<Rightarrow> string" where
  "interleaving_line ie =
     ''  Interleaving       : '' @ str_int (is_io_windows_opened ie) @ '' windows, safe='' @
       format_f 1 (is_safe_window_ms_avg ie) @ '' ms avg, '' @ str_int (is_io_windows_cut_early ie) @
       '' early cuts''"

definition opt_line :: "('a \<Rightarrow> string) \<Rightarrow> 'a option \<Rightarrow> string list" where
  "opt_line f x = (case x of None \<Rightarrow> [] | Some y \<Rightarrow> [f y])"

text \<open>A block with a title is printed only if it has a component.\<close>

definition block :: "string \<Rightarrow> string list \<Rightarrow> report" where
  "block title ls = (if ls = [] then [] else title # ls @ [ruler @ newline], None)"

definition report_v2 :: "('b, 'm) tempo_v2_scheme \<Rightarrow> report" where
  "report_v2 s =
     then_report (report_v1 s)
       (if te_rank s \<noteq> 0 then ([], None)
        else let st = get_stats_v2 s in
          block ''  --- TEMPO v2 Components ---''
            (opt_line network_line (ts_network st) @ opt_line service_gain_line (ts_service_gain st) @
             opt_line interleaving_line (ts_interleaving st)))"

definition topology_line :: "router_stats \<Rightarrow> string" where
  "topology_line t =
     ''  TopologyRouter     : group='' @ str_int (rs_my_group t) @ ''  local_peers='' @
       digits (rs_local_peer_count t) @ ''  local='' @ format_f 0 (rs_local_pct t) @ ''%  deferred='' @
       format_f 0 (rs_deferred_pct t) @ ''%''"

fun join_strings :: "string \<Rightarrow> string list \<Rightarrow> string" where
  "join_strings sep [] = []"
| "join_strings sep [s] = s"
| "join_strings sep (s # t # ts) = s @ sep @ join_strings sep (t # ts)"

definition qos_line :: "qm_stats \<Rightarrow> string" where
  "qos_line q =
     ''  QoSMapper          : '' @
       join_strings ''  '' (map (\<lambda>(k, ops_pct, bytes_pct). k @ ''='' @ format_f 0 bytes_pct @ ''%'')
         (qs_tc_distribution q)) @
       ''  (applied '' @ str_int (qs_applied_marks q) @ '' marks)''"

definition report_v3 :: "('b, 'm) tempo_v3_scheme \<Rightarrow> report" where
  "report_v3 s =
     then_report (report_v2 s)
       (if te_rank s \<noteq> 0 then ([], None)
        else let st = get_stats_v3 s in
          block ''  --- TEMPO v3 Components ---''
            (opt_line topology_line (ts_topology st) @ opt_line qos_line (ts_qos st)))"

definition sparse_line :: "sparse_stats \<Rightarrow> string" where
  "sparse_line st =
     ''  SparseTransfer     : '' @ format_f 0 (sst_avg_hot_ratio_pct st) @ ''% tokens hot  ('' @
       format_f 1 (sst_estimated_bw_reduction_x st) @ [CHR 0xC3, CHR 0x97] @ '' BW reduction)  probe '' @
       format_f 1 (sst_avg_filter_ms st) @ '' ms avg''"

definition p2p_line :: "p2p_stats \<Rightarrow> string" where
  "p2p_line p =
     ''  P2PCache           : hit='' @ format_f 0 (ppst_hit_rate p * 100) @ ''%  DRAM='' @
       format_f 1 (of_int (tst_dram_bytes (ppst_local_store p)) / GB) @ '' GB  evictions='' @
       str_int (tst_evictions (ppst_local_store p))"

text \<open>The averages of the pipeline are missing before its first finished step: \<open>KeyError\<close>.\<close>

definition nano_report :: "nano_stats \<Rightarrow> report" where
  "nano_report n =
     (case nos_averages n of
        None \<Rightarrow> ([], Some KeyError)
      | Some (eff, bubble, compute, io, zero_bubble) \<Rightarrow>
          ([''  NanoOverlap        : eff='' @ format_f 0 (eff * 100) @ ''%  bubble='' @ format_f 2 bubble @
              '' ms avg  zero-bubble='' @ digits zero_bubble @ ''/'' @ str_int (nos_steps_done n)], None))"

definition report_v4 :: "('b, 'm) tempo_v4_scheme \<Rightarrow> report" where
  "report_v4 s =
     then_report (report_v3 s)
       (if te_rank s \<noteq> 0 then ([], None)
        else let st = get_stats_v4 s in
          if ts_sparse st = None \<and> ts_p2p_cache st = None \<and> ts_nano_overlap st = None then ([], None)
          else
            then_report
              (''  --- TEMPO v4 Components ---'' #
                 opt_line sparse_line (ts_sparse st) @ opt_line p2p_line (ts_p2p_cache st), None)
              (then_report
                 (case ts_nano_overlap st of None \<Rightarrow> ([], None) | Some n \<Rightarrow> nano_report n)
                 ([ruler @ newline], None)))"

text \<open>Version 5 does not test the rank. The coordinator's own \<open>print_stats\<close> is a log line.\<close>

definition report_v5 :: "('b, 'm) tempo_v5_scheme \<Rightarrow> report" where
  "report_v5 s =
     then_report (report_v4 s)
       (case ts_nexus (get_stats_v5 s) of
          None \<Rightarrow> ([], None)
        | Some n \<Rightarrow>
            ([''  --- TEMPO v5 Nexus (DSCP) ---'',
              ''  Window EMA         : '' @ format_f 1 (ns_window_ms_ema n) @ '' ms'',
              ''  Checkpoints        : '' @ digits (ns_n_checkpoints n)] @
             (case (ns_flush_ms_mean n, ns_flush_ms_max n) of
                (Some mean, Some mx) \<Rightarrow>
                  [''  Flush time (mean)  : '' @ format_f 1 mean @ '' ms'',
                   ''  Flush time (max)   : '' @ format_f 1 mx @ '' ms'']
              | _ \<Rightarrow> []) @ [ruler @ newline], None))"

definition doorbell_pct :: "(string \<times> endpoint_stats) list \<Rightarrow> real" where
  "doorbell_pct g =
     (let total_trig = (\<Sum>(nic, ep) \<leftarrow> g. gc_doorbell_triggers (es_counters ep) + gc_cpu_fallback_sends (es_counters ep));
          db_trig = (\<Sum>(nic, ep) \<leftarrow> g. gc_doorbell_triggers (es_counters ep))
      in 100 * of_int db_trig / of_int (max 1 total_trig))"

definition doorbell_line :: "(string \<times> endpoint_stats) list \<Rightarrow> string" where
  "doorbell_line g =
     (let total_trig = (\<Sum>(nic, ep) \<leftarrow> g. gc_doorbell_triggers (es_counters ep) + gc_cpu_fallback_sends (es_counters ep));
          db_trig = (\<Sum>(nic, ep) \<leftarrow> g. gc_doorbell_triggers (es_counters ep))
      in ''  GPU Doorbell (P1)  : '' @ str_int db_trig @ ''/'' @ str_int total_trig @ '' triggers  ('' @
           format_f 0 (doorbell_pct g) @ ''% GPU-driven)'')"

definition nvlink_line :: "nvlink_stats \<Rightarrow> string" where
  "nvlink_line n =
     ''  NVLink Router (P2) : '' @ str_int (nvs_relays_done n) @ '' relays  '' @
       format_f 2 (of_int (nvs_bytes_relayed n) / GB) @ '' GB via NVLink  '' @
       str_int (nvs_reroutes n) @ '' reroutes''"

definition fabric_line :: "fq_stats \<Rightarrow> string" where
  "fabric_line q =
     ''  CXI TC Control (P3): '' @ str_int (\<Sum>(i, ep) \<leftarrow> fqs_endpoints q. cqs_set_count ep) @
       '' fi_setopt calls  ['' @ (if fqs_libfabric_available q then ''ACTIVE'' else ''fallback(IP_TOS)'') @ '']''"

definition report_v6 :: "v6_env \<Rightarrow> ('b, 'm) tempo_v6_scheme \<Rightarrow> report" where
  "report_v6 env s =
     then_report (report_v5 s)
       (if te_rank s \<noteq> 0 then ([], None)
        else let st = get_stats_v6 env s in
          block ''  --- TEMPO v6 Hardware Co-Design ---''
            (opt_line doorbell_line (ts_gpu_driven st) @ opt_line nvlink_line (ts_nvlink_router st) @
             opt_line fabric_line (ts_fabric_qos st)))"

text \<open>The NVLink router's own report: a bar of at most twenty blocks for each NIC, then padding.\<close>

definition full_block :: string where "full_block = [CHR 0xE2, CHR 0x96, CHR 0x88]"

definition util_bar :: "real \<Rightarrow> string" where
  "util_bar util_pct =
     (let k = nat (py_int (util_pct / 5))
      in concat (replicate k full_block) @ replicate (20 - k) (CHR '' ''))"

definition nic_line :: "string \<times> nic_util_stats \<Rightarrow> string" where
  "nic_line = (\<lambda>(nic, u).
     ''  '' @ nic @ '' (GPU'' @ str_int (nu_gpu_idx u) @ '')  '' @ format_f 1 (nu_ema_tx_gbps u) @
       '' GB/s  ['' @ util_bar (nu_util_pct u) @ ''] '' @ format_f 0 (nu_util_pct u) @ ''%'')"

definition nvlink_report :: "nvlink_router \<Rightarrow> string list" where
  "nvlink_report r =
     (let s = nvlink_get_stats r in
      [newline @ ruler, ''  NVLinkRouter Statistics'',
       ''  Relays done     : '' @ str_int (nvs_relays_done s),
       ''  Bytes relayed   : '' @ format_f 2 (of_int (nvs_bytes_relayed s) / GB) @ '' GB'',
       ''  Reroutes        : '' @ str_int (nvs_reroutes s),
       ''  Saturated NICs  : '' @ str_int (nvs_saturated_nics s) @ '' / '' @ str_int (nv_n_gpus r)] @
      map nic_line (nvs_nic_utils s) @ [ruler @ newline])"

section \<open>What the reports do\<close>

lemma then_report_snd: "snd (then_report r r') = (case snd r of None \<Rightarrow> snd r' | Some e \<Rightarrow> Some e)"
  by (cases r) (auto simp: then_report_def split: option.splits)

lemma then_report_fst: "fst (then_report r r') = fst r @ (if snd r = None then fst r' else [])"
  by (cases r) (auto simp: then_report_def split: option.splits)

lemmas then_report_simps = then_report_snd then_report_fst block_def

lemma report_v3_ends: "snd (report_v3 s) = None"
  by (simp add: report_v3_def report_v2_def report_v1_def then_report_simps Let_def)

text \<open>
  The report of versions 4 to 6 ends as \<open>print_stats_v4\<close> says, which is what \<open>shutdown\<close> uses.
\<close>

lemma report_v4_outcome: "snd (report_v4 s) = (case print_stats_v4 s of Inl e \<Rightarrow> Some e | Inr u \<Rightarrow> None)"
  by (auto simp: report_v4_def print_stats_v4_def then_report_simps report_v3_ends nano_report_def Let_def
      split: option.splits)

lemma report_v6_outcome:
  "snd (report_v5 s5) = snd (report_v4 s5)" "snd (report_v6 env s) = snd (report_v4 s)"
  by (simp_all add: report_v6_def report_v5_def then_report_simps Let_def split: option.split)

text \<open>A report that raises has printed nothing after the cache's line, on rank 0 only.\<close>

lemma report_cut_short:
  assumes "snd (report_v6 env s) = Some e"
  shows "e = KeyError \<and> te_rank s = 0 \<and>
    fst (report_v6 env s) = fst (report_v3 s) @ ''  --- TEMPO v4 Components ---'' #
      opt_line sparse_line (ts_sparse (get_stats_v4 s)) @ opt_line p2p_line (ts_p2p_cache (get_stats_v4 s))"
proof -
  from assms have v4: "snd (report_v4 s) = Some e" by (simp add: report_v6_outcome)
  then have e: "print_stats_v4 s = Inl e" by (auto simp: report_v4_outcome split: sum.splits)
  then obtain n where n: "te_rank s = 0" "ts_nano_overlap (get_stats_v4 s) = Some n" "nos_averages n = None"
      "e = KeyError"
    by (auto simp: print_stats_v4_def split: if_splits option.splits)
  have "fst (report_v6 env s) = fst (report_v4 s)"
    using v4 by (simp add: report_v6_def report_v5_def then_report_simps)
  with n show ?thesis
    by (simp add: report_v4_def then_report_simps report_v3_ends nano_report_def Let_def)
qed

text \<open>On the other ranks only the coordinator's block of version 5 is printed.\<close>

lemma report_other_ranks:
  assumes "te_rank s \<noteq> 0"
  shows "fst (report_v4 s) = []" "snd (report_v4 s) = None"
  using assms by (simp_all add: report_v4_def report_v3_def report_v2_def report_v1_def then_report_simps)

lemma nexus_block_all_ranks:
  assumes "te_nexus s = Some n" and "te_rank s \<noteq> 0"
  shows "hd (fst (report_v6 env s)) = ''  --- TEMPO v5 Nexus (DSCP) ---'' \<and>
    4 \<le> length (fst (report_v6 env s))"
  using assms report_other_ranks [of s]
  by (simp add: report_v6_def report_v5_def then_report_simps get_stats_v5_def tempo_v4_stats.defs)

lemma doorbell_pct_range:
  assumes "\<forall>(nic, ep) \<in> set g. 0 \<le> gc_doorbell_triggers (es_counters ep) \<and>
      0 \<le> gc_cpu_fallback_sends (es_counters ep)"
  shows "0 \<le> doorbell_pct g \<and> doorbell_pct g \<le> 100"
proof -
  let ?d = "\<Sum>(nic, ep) \<leftarrow> g. gc_doorbell_triggers (es_counters ep)"
  let ?t = "\<Sum>(nic, ep) \<leftarrow> g. gc_doorbell_triggers (es_counters ep) + gc_cpu_fallback_sends (es_counters ep)"
  have "0 \<le> ?d" and "?d \<le> ?t"
    using assms by (induction g) auto
  then show ?thesis by (auto simp: doorbell_pct_def Let_def divide_le_eq)
qed

text \<open>The bytes of a bar: three for each block, one for each blank up to twenty cells.\<close>

lemma util_bar_width:
  "length (util_bar u) = 3 * nat (py_int (u / 5)) + (20 - nat (py_int (u / 5)))"
  by (simp add: util_bar_def Let_def length_concat sum_list_replicate full_block_def)

end
